(* ===== verification/Prelude.thy ===== *)
theory Prelude
  imports Main "HOL-Library.Word" "HOL-Library.AList"
begin

text \<open>
  Shared vocabulary of the development.

  Rust integers are fixed-width words, lengths and indices are naturals, a
  reading of \<^verbatim>\<open>Result\<close> is the sum type with the error on the left, and a
  panic is an error value of its own, so that "this code cannot panic" is a
  statement about the model.  A \<^verbatim>\<open>String\<close> is a HOL string whose characters are its
  bytes; \<^verbatim>\<open>String::from_utf8\<close> is the executable check of well-formed UTF-8.  A
  \<^verbatim>\<open>HashMap\<close> is an association list with distinct keys, whose order stands for
  the unspecified iteration order: theorems that hold for every list hold for
  every iteration order.  Instants and durations are naturals (nanoseconds).
\<close>

named_theorems codec_simps \<open>readers applied to what the writers produced\<close>
named_theorems hmap_simps \<open>lookup in an updated hash map\<close>
named_theorems hmap_intros \<open>operations that keep the keys of a hash map distinct\<close>

section \<open>Types\<close>

type_synonym byte = "8 word"
type_synonym u8 = "8 word"
type_synonym u16 = "16 word"
type_synonym u32 = "32 word"
type_synonym u64 = "64 word"
type_synonym instant = nat
type_synonym duration = nat
type_synonym ('k, 'v) hmap = "('k \<times> 'v) list"

datatype 'e failure = Err 'e | Panic

type_synonym ('e, 'a) result = "'e failure + 'a"

section \<open>Results and readers\<close>

definition rbind :: "'e + 'a \<Rightarrow> ('a \<Rightarrow> 'e + 'b) \<Rightarrow> 'e + 'b" where
  "rbind m f = (case m of Inl e \<Rightarrow> Inl e | Inr a \<Rightarrow> f a)"

text \<open>A slice of the next \<open>n\<close> bytes: out of range it panics, as \<^verbatim>\<open>bytes[pos..pos + n]\<close> does.\<close>

definition slice :: "nat \<Rightarrow> byte list \<Rightarrow> ('e, byte list \<times> byte list) result" where
  "slice n bs = (if length bs < n then Inl Panic else Inr (take n bs, drop n bs))"

text \<open>The explicit length check that the decoders put in front of a slice.\<close>

definition ensure :: "bool \<Rightarrow> 'e \<Rightarrow> ('e, unit) result" where
  "ensure b e = (if b then Inr () else Inl (Err e))"

section \<open>Byte encodings of integers\<close>

primrec le_bytes :: "nat \<Rightarrow> nat \<Rightarrow> byte list" where
  "le_bytes 0 x = []"
| "le_bytes (Suc n) x = word_of_nat (x mod 256) # le_bytes n (x div 256)"

primrec le_val :: "byte list \<Rightarrow> nat" where
  "le_val [] = 0"
| "le_val (b # bs) = unat b + 256 * le_val bs"

definition be_bytes :: "nat \<Rightarrow> nat \<Rightarrow> byte list" where
  "be_bytes n x = rev (le_bytes n x)"

definition be_val :: "byte list \<Rightarrow> nat" where
  "be_val bs = le_val (rev bs)"

section \<open>Strings and UTF-8\<close>

definition byte_of_char :: "char \<Rightarrow> byte" where
  "byte_of_char c = word_of_nat (of_char c)"

definition char_of_byte :: "byte \<Rightarrow> char" where
  "char_of_byte b = char_of (unat b)"

definition as_bytes :: "string \<Rightarrow> byte list" where
  "as_bytes s = map byte_of_char s"

definition of_bytes :: "byte list \<Rightarrow> string" where
  "of_bytes bs = map char_of_byte bs"

definition utf8_cont :: "byte \<Rightarrow> bool" where
  "utf8_cont b \<longleftrightarrow> 0x80 \<le> b \<and> b \<le> 0xBF"

text \<open>
  Well-formed UTF-8 byte sequences (the table that \<^verbatim>\<open>core::str\<close> validates):
  no overlong forms, no surrogates, nothing above U+10FFFF.
\<close>

fun utf8_valid :: "byte list \<Rightarrow> bool" where
  "utf8_valid [] \<longleftrightarrow> True"
| "utf8_valid (b # bs) \<longleftrightarrow>
     (if b < 0x80 then utf8_valid bs
      else if 0xC2 \<le> b \<and> b \<le> 0xDF then
        (case bs of c1 # r \<Rightarrow> utf8_cont c1 \<and> utf8_valid r | _ \<Rightarrow> False)
      else if 0xE0 \<le> b \<and> b \<le> 0xEF then
        (case bs of c1 # c2 # r \<Rightarrow>
           utf8_cont c1 \<and> utf8_cont c2 \<and> (b = 0xE0 \<longrightarrow> 0xA0 \<le> c1)
           \<and> (b = 0xED \<longrightarrow> c1 \<le> 0x9F) \<and> utf8_valid r | _ \<Rightarrow> False)
      else if 0xF0 \<le> b \<and> b \<le> 0xF4 then
        (case bs of c1 # c2 # c3 # r \<Rightarrow>
           utf8_cont c1 \<and> utf8_cont c2 \<and> utf8_cont c3 \<and> (b = 0xF0 \<longrightarrow> 0x90 \<le> c1)
           \<and> (b = 0xF4 \<longrightarrow> c1 \<le> 0x8F) \<and> utf8_valid r | _ \<Rightarrow> False)
      else False)"

definition valid_string :: "string \<Rightarrow> bool" where
  "valid_string s \<longleftrightarrow> utf8_valid (as_bytes s)"

definition from_utf8 :: "'e \<Rightarrow> byte list \<Rightarrow> ('e, string) result" where
  "from_utf8 e bs = (if utf8_valid bs then Inr (of_bytes bs) else Inl (Err e))"

text \<open>
  The shapes the decoders repeat: an integer after a length check, a string
  of \<open>n\<close> bytes after a length check, and a counted sequence of items.
\<close>

definition read_be :: "'e \<Rightarrow> nat \<Rightarrow> byte list \<Rightarrow> ('e, nat \<times> byte list) result" where
  "read_be e n bs =
     rbind (ensure (n \<le> length bs) e) (\<lambda>_.
     rbind (slice n bs) (\<lambda>(a, r). Inr (be_val a, r)))"

definition read_byte :: "'e \<Rightarrow> byte list \<Rightarrow> ('e, byte \<times> byte list) result" where
  "read_byte e bs =
     rbind (ensure (1 \<le> length bs) e) (\<lambda>_.
     rbind (slice 1 bs) (\<lambda>(a, r). Inr (hd a, r)))"

definition read_str :: "'e \<Rightarrow> 'e \<Rightarrow> nat \<Rightarrow> byte list \<Rightarrow> ('e, string \<times> byte list) result" where
  "read_str short bad n bs =
     rbind (ensure (n \<le> length bs) short) (\<lambda>_.
     rbind (slice n bs) (\<lambda>(a, r).
     rbind (from_utf8 bad a) (\<lambda>s. Inr (s, r))))"

primrec read_many :: "('s \<Rightarrow> 'e + 'a \<times> 's) \<Rightarrow> nat \<Rightarrow> 's \<Rightarrow> 'e + 'a list \<times> 's" where
  "read_many rd 0 s = Inr ([], s)"
| "read_many rd (Suc n) s =
     rbind (rd s) (\<lambda>(x, s').
     rbind (read_many rd n s') (\<lambda>(xs, s''). Inr (x # xs, s'')))"

section \<open>The machine\<close>

text \<open>
  What a decoder needs of the machine: the width of \<^verbatim>\<open>usize\<close>, which requests for memory the
  allocator serves, and the sizes of the two structs that are reserved by a count from the
  wire.  Reserving panics when the bytes exceed \<^verbatim>\<open>isize::MAX\<close>; a request the allocator
  refuses aborts the process, which is the value \<open>Panic\<close> as well.  Requests no larger
  than the input at hand (a copy of a slice) are taken to succeed.
\<close>

record platform =
  usize_bits :: nat
  alloc_ok :: "nat \<Rightarrow> bool"
  tombstone_size :: nat
  entry_size :: nat

definition isize_max :: "platform \<Rightarrow> nat" where
  "isize_max pf = 2 ^ (usize_bits pf - 1) - 1"

definition usize_add :: "platform \<Rightarrow> nat \<Rightarrow> nat \<Rightarrow> nat" where
  "usize_add pf a b = (a + b) mod 2 ^ usize_bits pf"

definition capacity_ok :: "platform \<Rightarrow> nat \<Rightarrow> nat \<Rightarrow> bool" where
  "capacity_ok pf sz n \<longleftrightarrow> n * sz = 0 \<or> n * sz \<le> isize_max pf \<and> alloc_ok pf (n * sz)"

definition reserve :: "platform \<Rightarrow> nat \<Rightarrow> nat \<Rightarrow> ('e, unit) result" where
  "reserve pf sz n = (if capacity_ok pf sz n then Inr () else Inl Panic)"

text \<open>The bytes from \<open>pos\<close> to \<open>pos + n\<close>, with the sum computed as \<^verbatim>\<open>usize\<close> and checked against the length.\<close>

definition checked_slice :: "platform \<Rightarrow> 'e \<Rightarrow> nat \<Rightarrow> nat \<Rightarrow> nat \<Rightarrow> byte list \<Rightarrow> ('e, byte list \<times> byte list) result" where
  "checked_slice pf e len pos n rest =
     (let upto = usize_add pf pos n
      in rbind (ensure (upto \<le> len) e) (\<lambda>_. if upto < pos then Inl Panic else slice (upto - pos) rest))"

section \<open>Hash maps\<close>

definition hm_wf :: "('k, 'v) hmap \<Rightarrow> bool" where
  "hm_wf m \<longleftrightarrow> distinct (map fst m)"

abbreviation hm_get :: "('k, 'v) hmap \<Rightarrow> 'k \<Rightarrow> 'v option" where
  "hm_get m k \<equiv> map_of m k"

abbreviation hm_insert :: "'k \<Rightarrow> 'v \<Rightarrow> ('k, 'v) hmap \<Rightarrow> ('k, 'v) hmap" where
  "hm_insert k v m \<equiv> AList.update k v m"

abbreviation hm_remove :: "'k \<Rightarrow> ('k, 'v) hmap \<Rightarrow> ('k, 'v) hmap" where
  "hm_remove k m \<equiv> AList.delete k m"

definition hm_contains :: "('k, 'v) hmap \<Rightarrow> 'k \<Rightarrow> bool" where
  "hm_contains m k \<longleftrightarrow> hm_get m k \<noteq> None"

definition hm_retain :: "('k \<Rightarrow> 'v \<Rightarrow> bool) \<Rightarrow> ('k, 'v) hmap \<Rightarrow> ('k, 'v) hmap" where
  "hm_retain P m = filter (\<lambda>(k, v). P k v) m"

text \<open>\<^verbatim>\<open>Iterator::min_by_key\<close>: the first of the elements with the least key.\<close>

fun min_by_key :: "('a \<Rightarrow> 'k::linorder) \<Rightarrow> 'a list \<Rightarrow> 'a option" where
  "min_by_key f [] = None"
| "min_by_key f (x # xs) =
     (case min_by_key f xs of
        None \<Rightarrow> Some x
      | Some y \<Rightarrow> if f x \<le> f y then Some x else Some y)"

definition hm_get_or :: "'v \<Rightarrow> ('k, 'v) hmap \<Rightarrow> 'k \<Rightarrow> 'v" where
  "hm_get_or d m k = (case hm_get m k of Some v \<Rightarrow> v | None \<Rightarrow> d)"

section \<open>Lemmas on results and readers\<close>

lemma rbind_Inr [simp, codec_simps]: "rbind (Inr a) f = f a"
  by (simp add: rbind_def)

lemma rbind_Inl [simp, codec_simps]: "rbind (Inl e) f = Inl e"
  by (simp add: rbind_def)

lemma rbind_eq_Inr: "rbind m f = Inr b \<longleftrightarrow> (\<exists>a. m = Inr a \<and> f a = Inr b)"
  by (cases m) auto

lemma rbind_eq_Inl: "rbind m f = Inl e \<longleftrightarrow> m = Inl e \<or> (\<exists>a. m = Inr a \<and> f a = Inl e)"
  by (cases m) auto

lemma slice_append [simp, codec_simps]: "length xs = n \<Longrightarrow> slice n (xs @ ys) = Inr (xs, ys)"
  by (auto simp: slice_def)

lemma slice_Cons [simp, codec_simps]: "slice (Suc 0) (b # r) = Inr ([b], r)"
  by (simp add: slice_def)

lemma slice_eq_Inr:
  "slice n bs = Inr (a, r) \<longleftrightarrow> length a = n \<and> bs = a @ r"
  by (auto simp: slice_def min_def)

lemma slice_eq_Inl: "slice n bs = Inl e \<longleftrightarrow> length bs < n \<and> e = Panic"
  by (auto simp: slice_def)

lemma ensure_eq_Inr: "ensure b e = Inr u \<longleftrightarrow> b"
  by (simp add: ensure_def)

lemma ensure_eq_Inl: "ensure b e = Inl x \<longleftrightarrow> \<not> b \<and> x = Err e"
  by (auto simp: ensure_def)

lemma ensure_True [simp, codec_simps]: "b \<Longrightarrow> ensure b e = Inr ()"
  by (simp add: ensure_def)

lemma from_utf8_eq_Inr: "from_utf8 e bs = Inr s \<longleftrightarrow> utf8_valid bs \<and> s = of_bytes bs"
  by (auto simp: from_utf8_def)

lemma from_utf8_eq_Inl: "from_utf8 e bs = Inl x \<longleftrightarrow> \<not> utf8_valid bs \<and> x = Err e"
  by (auto simp: from_utf8_def)

lemmas reader_eqs = rbind_eq_Inr rbind_eq_Inl slice_eq_Inr slice_eq_Inl
  ensure_eq_Inr ensure_eq_Inl from_utf8_eq_Inr from_utf8_eq_Inl

section \<open>Lemmas on byte encodings\<close>

lemma unat_less_pow: "unat (w :: 'a::len word) < 2 ^ LENGTH('a)"
  by (rule unsigned_less)

lemma length_le_bytes [simp]: "length (le_bytes n x) = n"
  by (induction n arbitrary: x) auto

lemma length_be_bytes [simp]: "length (be_bytes n x) = n"
  by (simp add: be_bytes_def)

lemma unat_byte_mod [simp]: "unat (word_of_nat (x mod 256) :: byte) = x mod 256"
  by (simp add: unat_of_nat)

lemma le_val_le_bytes: "le_val (le_bytes n x) = x mod 256 ^ n"
proof (induction n arbitrary: x)
  case (Suc n)
  have "x mod (256 * 256 ^ n) = 256 * (x div 256 mod 256 ^ n) + x mod 256"
    by (rule mod_mult2_eq)
  then show ?case
    using Suc by simp
qed simp

lemma le_bytes_le_val: "le_bytes (length bs) (le_val bs) = bs"
proof (induction bs)
  case (Cons b bs)
  have b: "unat b < 256"
    using unat_less_pow [of b] by simp
  then have "(unat b + 256 * le_val bs) mod 256 = unat b"
    by (simp add: mod_mult_self2)
  moreover have "(unat b + 256 * le_val bs) div 256 = le_val bs"
    using b by simp
  ultimately show ?case
    using Cons by simp
qed simp

lemma le_val_bound: "le_val bs < 256 ^ length bs"
proof (induction bs)
  case (Cons b bs)
  have "unat b < 256"
    using unat_less_pow [of b] by simp
  with Cons show ?case
    by simp
qed simp

lemma be_val_be_bytes: "be_val (be_bytes n x) = x mod 256 ^ n"
  by (simp add: be_val_def be_bytes_def le_val_le_bytes)

lemma be_bytes_be_val [simp]: "length bs = n \<Longrightarrow> be_bytes n (be_val bs) = bs"
  unfolding be_val_def be_bytes_def
  by (metis le_bytes_le_val length_rev rev_rev_ident)

lemma be_val_bound: "be_val bs < 256 ^ length bs"
  unfolding be_val_def using le_val_bound [of "rev bs"] by simp

lemma be_val_bounds [simp]:
  "length bs = 2 \<Longrightarrow> be_val bs < 65536"
  "length bs = 4 \<Longrightarrow> be_val bs < 4294967296"
  "length bs = 8 \<Longrightarrow> be_val bs < 18446744073709551616"
  using be_val_bound [of bs] by simp_all

lemma le_val_bounds [simp]:
  "length bs = 4 \<Longrightarrow> le_val bs < 4294967296"
  "length bs = 8 \<Longrightarrow> le_val bs < 18446744073709551616"
  using le_val_bound [of bs] by simp_all

lemma le_bytes_le_val_n [simp]: "length bs = n \<Longrightarrow> le_bytes n (le_val bs) = bs"
  using le_bytes_le_val by blast

lemma be_val_small [simp, codec_simps]: "x < 256 ^ n \<Longrightarrow> be_val (be_bytes n x) = x"
  by (simp add: be_val_be_bytes)

lemma le_val_small [simp, codec_simps]: "x < 256 ^ n \<Longrightarrow> le_val (le_bytes n x) = x"
  by (simp add: le_val_le_bytes)

lemma unat_u16_bound [simp]: "unat (w :: u16) < 65536"
  using unat_less_pow [of w] by simp

lemma unat_u32_bound [simp]: "unat (w :: u32) < 4294967296"
  using unat_less_pow [of w] by simp

lemma unat_u64_bound [simp]: "unat (w :: u64) < 18446744073709551616"
  using unat_less_pow [of w] by simp

lemma unat_u8_bound [simp]: "unat (w :: u8) < 256"
  using unat_less_pow [of w] by simp

lemma unat_word16 [simp]: "x < 65536 \<Longrightarrow> unat (word_of_nat x :: u16) = x"
  by (simp add: unat_of_nat)

lemma unat_word32 [simp]: "x < 4294967296 \<Longrightarrow> unat (word_of_nat x :: u32) = x"
  by (simp add: unat_of_nat)

lemma unat_sum_list: "sum_list (map unat ws) < 2 ^ 64 \<Longrightarrow> unat (sum_list ws :: u64) = sum_list (map unat ws)"
proof (induction ws)
  case (Cons w ws)
  then have "unat (sum_list ws) = sum_list (map unat ws)"
    by simp
  then show ?case
    using Cons.prems by (simp add: unat_word_ariths)
qed simp

lemma unat_word64 [simp]: "x < 18446744073709551616 \<Longrightarrow> unat (word_of_nat x :: u64) = x"
  by (simp add: unat_of_nat)

section \<open>Lemmas on strings\<close>

lemma of_char_256 [simp]: "(of_char c :: nat) < 256"
  using nat_of_char_less_256 .

lemma char_byte_char [simp]: "char_of_byte (byte_of_char c) = c"
  by (simp add: char_of_byte_def byte_of_char_def unat_of_nat)

lemma byte_char_byte [simp]: "byte_of_char (char_of_byte b) = b"
proof -
  have "unat b mod 256 = unat b"
    by simp
  then show ?thesis
    by (simp add: char_of_byte_def byte_of_char_def)
qed

lemma of_bytes_as_bytes [simp, codec_simps]: "of_bytes (as_bytes s) = s"
  by (simp add: of_bytes_def as_bytes_def comp_def)

lemma as_bytes_of_bytes [simp, codec_simps]: "as_bytes (of_bytes bs) = bs"
  by (simp add: of_bytes_def as_bytes_def comp_def)

lemma length_as_bytes [simp]: "length (as_bytes s) = length s"
  by (simp add: as_bytes_def)

lemma length_of_bytes [simp]: "length (of_bytes bs) = length bs"
  by (simp add: of_bytes_def)

lemma as_bytes_append [simp]: "as_bytes (s @ t) = as_bytes s @ as_bytes t"
  by (simp add: as_bytes_def)

lemma as_bytes_inj [simp]: "as_bytes s = as_bytes t \<longleftrightarrow> s = t"
  by (metis of_bytes_as_bytes)

lemma as_bytes_Nil [simp]: "as_bytes [] = []" "as_bytes s = [] \<longleftrightarrow> s = []"
  by (simp_all add: as_bytes_def)

lemma valid_string_Nil [simp]: "valid_string []"
  by (simp add: valid_string_def)

lemma from_utf8_as_bytes [simp, codec_simps]:
  "valid_string s \<Longrightarrow> from_utf8 e (as_bytes s) = Inr s"
  by (simp add: from_utf8_def valid_string_def)

lemma valid_string_of_bytes [simp]: "valid_string (of_bytes bs) \<longleftrightarrow> utf8_valid bs"
  by (simp add: valid_string_def)

lemmas string_eval = valid_string_def as_bytes_def byte_of_char_def

section \<open>Lemmas on the readers of integers and strings\<close>

lemma read_be_append [simp, codec_simps]:
  "x < 256 ^ n \<Longrightarrow> read_be e n (be_bytes n x @ r) = Inr (x, r)"
  by (simp add: read_be_def)

lemma read_be_eq_Inr:
  "read_be e n bs = Inr (x, r) \<longleftrightarrow> x < 256 ^ n \<and> bs = be_bytes n x @ r"
  by (auto simp: read_be_def reader_eqs be_val_bound be_bytes_be_val split: prod.splits)

lemma read_be_eq_Inl: "read_be e n bs = Inl x \<longleftrightarrow> length bs < n \<and> x = Err e"
  by (auto simp: read_be_def reader_eqs split: prod.splits)

lemma read_byte_Cons [simp, codec_simps]: "read_byte e (b # r) = Inr (b, r)"
  by (simp add: read_byte_def slice_def)

lemma read_byte_eq_Inr: "read_byte e bs = Inr (b, r) \<longleftrightarrow> bs = b # r"
  by (cases bs) (auto simp: read_byte_def slice_def ensure_def)

lemma read_byte_eq_Inl: "read_byte e bs = Inl x \<longleftrightarrow> bs = [] \<and> x = Err e"
  by (cases bs) (auto simp: read_byte_def slice_def ensure_def)

lemma read_str_append [simp, codec_simps]:
  "valid_string s \<Longrightarrow> n = length s \<Longrightarrow> read_str e e' n (as_bytes s @ r) = Inr (s, r)"
  by (simp add: read_str_def)

lemma read_str_eq_Inr:
  "read_str e e' n bs = Inr (s, r) \<longleftrightarrow> length s = n \<and> valid_string s \<and> bs = as_bytes s @ r"
  by (auto simp: read_str_def reader_eqs valid_string_def split: prod.splits)

lemma read_str_eq_Inl:
  "read_str e e' n bs = Inl x \<longleftrightarrow>
     (length bs < n \<and> x = Err e) \<or> (n \<le> length bs \<and> \<not> utf8_valid (take n bs) \<and> x = Err e')"
  by (auto simp: read_str_def reader_eqs slice_def split: prod.splits if_splits)

lemmas read_eqs = read_byte_eq_Inr read_byte_eq_Inl read_be_eq_Inr read_be_eq_Inl read_str_eq_Inr read_str_eq_Inl

text \<open>A machine of a configured width that serves every request of up to \<open>N\<close> bytes.\<close>

definition platform_serves :: "platform \<Rightarrow> nat \<Rightarrow> bool" where
  "platform_serves pf N \<longleftrightarrow> usize_bits pf \<in> {32, 64} \<and> N \<le> isize_max pf \<and> (\<forall>k \<le> N. alloc_ok pf k)"

text \<open>A 64-bit machine that serves every request of up to a gibibyte.\<close>

definition sample_platform :: platform where
  "sample_platform = \<lparr>usize_bits = 64, alloc_ok = (\<lambda>k. k \<le> 2 ^ 30), tombstone_size = 128, entry_size = 56\<rparr>"

lemma sample_platform_serves: "platform_serves sample_platform (2 ^ 30)"
  by (simp add: sample_platform_def platform_serves_def isize_max_def)

lemma capacity_served: "platform_serves pf N \<Longrightarrow> n * sz \<le> N \<Longrightarrow> capacity_ok pf sz n"
  by (auto simp: platform_serves_def capacity_ok_def)

lemma reserve_served [simp]: "capacity_ok pf sz n \<Longrightarrow> reserve pf sz n = Inr ()"
  by (simp add: reserve_def)

lemma reserve_eqs: "reserve pf sz n = Inr u \<longleftrightarrow> capacity_ok pf sz n"
  "reserve pf sz n = Inl x \<longleftrightarrow> \<not> capacity_ok pf sz n \<and> x = Panic"
  by (auto simp: reserve_def)

lemma isize_max_less: "usize_bits pf \<in> {32, 64} \<Longrightarrow> isize_max pf < 2 ^ usize_bits pf"
  by (auto simp: isize_max_def)

text \<open>Where the sum does not wrap, the checked slice is the check and the slice.\<close>

lemma checked_slice_nowrap:
  "pos + n < 2 ^ usize_bits pf \<Longrightarrow>
   checked_slice pf e len pos n rest = rbind (ensure (pos + n \<le> len) e) (\<lambda>_. slice n rest)"
  by (simp add: checked_slice_def usize_add_def Let_def)

text \<open>On 64 bits a 32-bit length never wraps; on 32 bits a sum that wraps passes the check and panics.\<close>

lemma checked_slice_64:
  assumes "usize_bits pf = 64" "len \<le> isize_max pf" "pos \<le> len" "n < 2 ^ 32"
  shows "checked_slice pf e len pos n rest = rbind (ensure (pos + n \<le> len) e) (\<lambda>_. slice n rest)"
  using assms by (intro checked_slice_nowrap) (simp add: isize_max_def)

lemma checked_slice_wraps:
  assumes "usize_bits pf = 32" "len \<le> isize_max pf" "pos \<le> len" "n < 2 ^ 32" "2 ^ 32 \<le> pos + n"
  shows "checked_slice pf e len pos n rest = Inl Panic"
proof -
  have "(pos + n) mod 2 ^ 32 = pos + n - 2 ^ 32" "pos + n - 2 ^ 32 < pos" "pos + n - 2 ^ 32 \<le> len"
    using assms by (simp_all add: isize_max_def mod_if)
  then show ?thesis
    using assms(1) by (simp add: checked_slice_def usize_add_def Let_def)
qed

text \<open>What is left of an input of \<open>len\<close> bytes, which is a Rust slice and thus at most \<^verbatim>\<open>isize::MAX\<close> bytes long.\<close>

definition in_buffer :: "platform \<Rightarrow> nat \<Rightarrow> byte list \<Rightarrow> bool" where
  "in_buffer pf len rest \<longleftrightarrow> usize_bits pf \<in> {32, 64} \<and> len \<le> isize_max pf \<and> length rest \<le> len"

lemma checked_slice_eq_Inr:
  assumes "usize_bits pf \<in> {32, 64}" "len \<le> isize_max pf" "len = pos + length rest" "n < 2 ^ 32"
  shows "checked_slice pf e len pos n rest = Inr (a, r) \<longleftrightarrow> length a = n \<and> rest = a @ r"
proof (cases "pos + n < 2 ^ usize_bits pf")
  case True
  then show ?thesis
    using assms(3) by (auto simp: checked_slice_nowrap reader_eqs)
next
  case False
  then have "usize_bits pf = 32"
    using assms by (auto simp: isize_max_def)
  then have "checked_slice pf e len pos n rest = Inl Panic" "\<not> n \<le> length rest"
    using False assms checked_slice_wraps [of pf len pos n e rest] by (auto simp: isize_max_def)
  then show ?thesis
    by auto
qed

lemma read_many_not_panic:
  assumes "\<And>s. rd s \<noteq> Inl Panic"
  shows "read_many rd n s \<noteq> Inl Panic"
  using assms by (induction n arbitrary: s) (auto simp: rbind_eq_Inl split: prod.splits)

lemma read_many_not_panic_inv:
  assumes "\<And>s. I s \<Longrightarrow> rd s \<noteq> Inl Panic" "\<And>s a s'. I s \<Longrightarrow> rd s = Inr (a, s') \<Longrightarrow> I s'"
  shows "I s \<Longrightarrow> read_many rd n s \<noteq> Inl Panic"
  using assms by (induction n arbitrary: s) (auto simp: rbind_eq_Inl split: prod.splits)

lemma read_many_length:
  "read_many rd n s = Inr (xs, s') \<Longrightarrow> length xs = n"
  by (induction n arbitrary: s xs) (auto simp: rbind_eq_Inr split: prod.splits)

section \<open>Lemmas on hash maps\<close>

lemma hm_get_insert [simp, hmap_simps]:
  "hm_get (hm_insert k v m) k' = (if k' = k then Some v else hm_get m k')"
  by (simp add: update_conv')

lemma hm_get_remove [simp, hmap_simps]:
  "hm_get (hm_remove k m) k' = (if k' = k then None else hm_get m k')"
  by (simp add: delete_conv')

lemma hm_wf_Nil [simp, hmap_intros]: "hm_wf []"
  by (simp add: hm_wf_def)

lemma hm_wf_insert [simp, hmap_intros]: "hm_wf m \<Longrightarrow> hm_wf (hm_insert k v m)"
  by (simp add: hm_wf_def distinct_update)

lemma hm_wf_remove [simp, hmap_intros]: "hm_wf m \<Longrightarrow> hm_wf (hm_remove k m)"
  by (simp add: hm_wf_def distinct_delete)

lemma hm_wf_retain [simp, hmap_intros]: "hm_wf m \<Longrightarrow> hm_wf (hm_retain P m)"
  by (simp add: hm_wf_def hm_retain_def distinct_map_filter)

lemma hm_get_retain [hmap_simps]:
  "hm_wf m \<Longrightarrow> hm_get (hm_retain P m) k
     = (case hm_get m k of Some v \<Rightarrow> if P k v then Some v else None | None \<Rightarrow> None)"
proof (induction m)
  case (Cons kv m)
  obtain k1 v1 where kv: "kv = (k1, v1)" by (cases kv)
  have "k1 = k \<Longrightarrow> hm_get m k = None"
    using Cons.prems kv by (auto simp: hm_wf_def map_of_eq_None_iff)
  moreover have "hm_wf m"
    using Cons.prems by (simp add: hm_wf_def)
  ultimately show ?case
    using Cons.IH kv by (auto simp: hm_retain_def)
qed (simp add: hm_retain_def)

lemma hm_get_in_set: "hm_wf m \<Longrightarrow> hm_get m k = Some v \<longleftrightarrow> (k, v) \<in> set m"
  by (simp add: hm_wf_def)

lemma min_by_key_None [simp]: "min_by_key f xs = None \<longleftrightarrow> xs = []"
  by (cases xs) (auto split: option.splits)

lemma min_by_key_Some:
  "min_by_key f xs = Some x \<Longrightarrow> x \<in> set xs \<and> (\<forall>y \<in> set xs. f x \<le> f y)"
proof (induction xs arbitrary: x)
  case (Cons a xs)
  then show ?case
  proof (cases "min_by_key f xs")
    case (Some y)
    with Cons.IH [OF Some] Cons.prems show ?thesis
      by (auto split: if_splits intro: order_trans)
  qed (use Cons.prems in auto)
qed simp

lemma length_hm_insert:
  "length (hm_insert k v m) = (if hm_contains m k then length m else Suc (length m))"
  by (induction m) (auto simp: hm_contains_def)

lemma length_filter_hm_insert: "length (filter P (hm_insert k v m)) \<le> Suc (length (filter P m))"
  by (induction m) auto

lemma length_filter_hm_remove: "length (filter P (hm_remove k m)) \<le> length (filter P m)"
  by (induction m) (auto simp: AList.delete_eq)

lemma length_filter_hm_retain: "length (filter P (hm_retain Q m)) \<le> length (filter P m)"
  by (induction m) (auto simp: hm_retain_def)

lemma length_hm_remove_less:
  "hm_contains m k \<Longrightarrow> length (hm_remove k m) < length m"
proof -
  assume "hm_contains m k"
  then obtain v where v: "(k, v) \<in> set m"
    by (auto simp: hm_contains_def dest: map_of_SomeD)
  have "length (filter (\<lambda>(k', _). k \<noteq> k') m) < length m"
    by (rule length_filter_less [OF v]) simp
  then show ?thesis
    by (simp add: AList.delete_eq)
qed

lemma length_hm_remove_wf:
  "hm_wf m \<Longrightarrow> hm_get m k = Some v \<Longrightarrow> length m = Suc (length (hm_remove k m))"
proof (induction m)
  case (Cons a m)
  then show ?case
    by (cases a) (auto simp: hm_wf_def AList.delete_idem)
qed simp

lemma set_hm_insert: "set (hm_insert k v m) \<subseteq> insert (k, v) (set m)"
  by (induction m) auto

lemma length_hm_remove_le: "length (hm_remove k m) \<le> length m"
  by (rule length_delete_le)

lemma length_hm_retain_le [simp]: "length (hm_retain P m) \<le> length m"
  by (simp add: hm_retain_def)

section \<open>The interface of a self-delimiting codec\<close>

text \<open>
  A writer and a reader that agree: reading back what was written gives the
  value, up to the normalisation the wire format imposes, and leaves the bytes
  that follow.  The client is a counted sequence of items.
\<close>

locale bounded_codec =
  fixes ok :: "'a \<Rightarrow> bool"
    and enc :: "'a \<Rightarrow> byte list"
    and norm :: "'a \<Rightarrow> 'a"
    and rd :: "byte list \<Rightarrow> ('e, 'a \<times> byte list) result"
    and room :: "byte list \<Rightarrow> bool"
  assumes rd_enc_room: "ok x \<Longrightarrow> room (enc x @ r) \<Longrightarrow> rd (enc x @ r) = Inr (norm x, r)"
    and room_rest: "room (s @ r) \<Longrightarrow> room r"
begin

lemma read_many_enc_room:
  "list_all ok xs \<Longrightarrow> room (concat (map enc xs) @ r) \<Longrightarrow>
     read_many rd (length xs) (concat (map enc xs) @ r) = Inr (map norm xs, r)"
  by (induction xs) (auto simp: rd_enc_room dest: room_rest)

end

text \<open>The formats whose reader accepts inputs of every length.\<close>

locale wire_codec =
  fixes ok :: "'a \<Rightarrow> bool"
    and enc :: "'a \<Rightarrow> byte list"
    and norm :: "'a \<Rightarrow> 'a"
    and rd :: "byte list \<Rightarrow> ('e, 'a \<times> byte list) result"
  assumes rd_enc: "ok x \<Longrightarrow> rd (enc x @ r) = Inr (norm x, r)"
begin

lemma is_bounded_codec: "bounded_codec ok enc norm rd (\<lambda>_. True)"
  by unfold_locales (simp_all add: rd_enc)

end

sublocale wire_codec \<subseteq> everywhere: bounded_codec ok enc norm rd "\<lambda>_. True"
  by (rule is_bounded_codec)

context wire_codec
begin

lemma read_many_enc:
  "list_all ok xs \<Longrightarrow>
     read_many rd (length xs) (concat (map enc xs) @ r) = Inr (map norm xs, r)"
  by (rule everywhere.read_many_enc_room) simp_all

end

text \<open>The formats in which an accepted input is the encoding of what was read.\<close>

locale canonical_codec = wire_codec +
  assumes rd_canonical: "rd bs = Inr (x, r) \<Longrightarrow> ok x \<and> norm x = x \<and> bs = enc x @ r"

locale bounded_canonical = bounded_codec +
  assumes rd_canonical_room: "room bs \<Longrightarrow> rd bs = Inr (x, r) \<Longrightarrow> ok x \<and> norm x = x \<and> bs = enc x @ r"
begin

lemma read_many_canonical:
  "room bs \<Longrightarrow> read_many rd n bs = Inr (xs, r) \<Longrightarrow>
     list_all ok xs \<and> map norm xs = xs \<and> length xs = n \<and> bs = concat (map enc xs) @ r"
proof (induction n arbitrary: bs xs)
  case (Suc n)
  then obtain x ys s where "rd bs = Inr (x, s)" "read_many rd n s = Inr (ys, r)" "xs = x # ys"
    by (auto simp: rbind_eq_Inr split: prod.splits)
  moreover from this(1) have "ok x \<and> norm x = x \<and> bs = enc x @ s"
    using Suc.prems(1) by (intro rd_canonical_room)
  ultimately show ?case
    using Suc.IH [of s ys] Suc.prems(1) room_rest by auto
qed simp

end

end
