(* ===== verification/Tombstone_Wire.thy ===== *)
theory Tombstone_Wire
  imports Prelude
begin

text \<open>
  The tombstone wire protocol of \<^verbatim>\<open>src/qos/deletion.rs\<close>: the propagation
  direction, the tombstone record, the message codec and the batch codec.
  A \<^verbatim>\<open>SystemTime\<close> is an integer: nanoseconds relative to the Unix epoch.  The
  decoders keep the unread rest of the input where the source keeps a
  position; every check and every slice is one of the source, in its order.
\<close>

section \<open>Data\<close>

datatype PropagationDirection = Bidirectional | UpOnly | DownOnly | SystemWide

record Tombstone =
  document_id :: string
  collection :: string
  deleted_at :: int
  deleted_by :: string
  lamport :: u64
  reason :: "string option"

record TombstoneSyncMessage =
  tombstone :: Tombstone
  direction :: PropagationDirection

datatype TombstoneDecodeError = TooShort | InvalidUtf8 | InvalidDirection

record TombstoneBatch =
  tombstones :: "TombstoneSyncMessage list"

section \<open>Propagation direction\<close>

definition direction_default_for_collection :: "string \<Rightarrow> PropagationDirection" where
  "direction_default_for_collection c =
     (if c = ''cells'' \<or> c = ''contact_reports'' then UpOnly
      else if c = ''commands'' then DownOnly
      else Bidirectional)"

definition allows_up :: "PropagationDirection \<Rightarrow> bool" where
  "allows_up d \<longleftrightarrow> d = Bidirectional \<or> d = UpOnly \<or> d = SystemWide"

definition allows_down :: "PropagationDirection \<Rightarrow> bool" where
  "allows_down d \<longleftrightarrow> d = Bidirectional \<or> d = DownOnly \<or> d = SystemWide"

definition is_system_wide :: "PropagationDirection \<Rightarrow> bool" where
  "is_system_wide d \<longleftrightarrow> d = SystemWide"

section \<open>Tombstones\<close>

text \<open>\<open>now\<close> is the reading of \<^verbatim>\<open>SystemTime::now()\<close> that the function takes.\<close>

definition tombstone_new :: "int \<Rightarrow> string \<Rightarrow> string \<Rightarrow> string \<Rightarrow> u64 \<Rightarrow> Tombstone" where
  "tombstone_new now doc coll by_node lam =
     \<lparr>document_id = doc, collection = coll, deleted_at = now, deleted_by = by_node,
      lamport = lam, reason = None\<rparr>"

definition tombstone_with_reason ::
  "int \<Rightarrow> string \<Rightarrow> string \<Rightarrow> string \<Rightarrow> u64 \<Rightarrow> string \<Rightarrow> Tombstone" where
  "tombstone_with_reason now doc coll by_node lam why =
     \<lparr>document_id = doc, collection = coll, deleted_at = now, deleted_by = by_node,
      lamport = lam, reason = Some why\<rparr>"

text \<open>\<^verbatim>\<open>SystemTime::duration_since\<close>: an error when the argument is later.\<close>

definition duration_since :: "int \<Rightarrow> int \<Rightarrow> duration option" where
  "duration_since now t = (if t \<le> now then Some (nat (now - t)) else None)"

definition is_expired :: "int \<Rightarrow> Tombstone \<Rightarrow> duration \<Rightarrow> bool" where
  "is_expired now t ttl =
     (case duration_since now (deleted_at t) of Some age \<Rightarrow> ttl \<le> age | None \<Rightarrow> False)"

definition tombstone_age :: "int \<Rightarrow> Tombstone \<Rightarrow> duration option" where
  "tombstone_age now t = duration_since now (deleted_at t)"

definition tombstone_key :: "Tombstone \<Rightarrow> string" where
  "tombstone_key t = collection t @ '':'' @ document_id t"

section \<open>Messages\<close>

definition message_new :: "Tombstone \<Rightarrow> PropagationDirection \<Rightarrow> TombstoneSyncMessage" where
  "message_new t d = \<lparr>tombstone = t, direction = d\<rparr>"

definition from_tombstone :: "Tombstone \<Rightarrow> TombstoneSyncMessage" where
  "from_tombstone t =
     \<lparr>tombstone = t, direction = direction_default_for_collection (collection t)\<rparr>"

fun direction_byte :: "PropagationDirection \<Rightarrow> byte" where
  "direction_byte Bidirectional = 0x00"
| "direction_byte UpOnly = 0x01"
| "direction_byte DownOnly = 0x02"
| "direction_byte SystemWide = 0x03"

definition direction_of_byte :: "byte \<Rightarrow> (TombstoneDecodeError, PropagationDirection) result" where
  "direction_of_byte b =
     (if b = 0x00 then Inr Bidirectional
      else if b = 0x01 then Inr UpOnly
      else if b = 0x02 then Inr DownOnly
      else if b = 0x03 then Inr SystemWide
      else Inl (Err InvalidDirection))"

text \<open>
  \<^verbatim>\<open>duration_since(UNIX_EPOCH).unwrap_or_default().as_millis() as u64\<close>: zero before
  the epoch, and the cast keeps the low 64 bits.
\<close>

definition epoch_millis :: "int \<Rightarrow> u64" where
  "epoch_millis t =
     (case duration_since t 0 of Some d \<Rightarrow> word_of_nat (d div 1000000) | None \<Rightarrow> 0)"

text \<open>A length as \<^verbatim>\<open>u16\<close> (the cast keeps the low 16 bits), then the bytes.\<close>

definition write_str16 :: "string \<Rightarrow> byte list" where
  "write_str16 s = be_bytes 2 (unat (word_of_nat (length (as_bytes s)) :: u16)) @ as_bytes s"

fun write_reason :: "string option \<Rightarrow> byte list" where
  "write_reason (Some why) = write_str16 why"
| "write_reason None = be_bytes 2 0"

definition message_encode :: "TombstoneSyncMessage \<Rightarrow> byte list" where
  "message_encode m =
     (let t = tombstone m in
        write_str16 (collection t)
      @ write_str16 (document_id t)
      @ be_bytes 8 (unat (epoch_millis (deleted_at t)))
      @ be_bytes 8 (unat (lamport t))
      @ write_str16 (deleted_by t)
      @ write_reason (reason t)
      @ [direction_byte (direction m)])"

definition read_str16 :: "byte list \<Rightarrow> (TombstoneDecodeError, string \<times> byte list) result" where
  "read_str16 bs =
     rbind (read_be TooShort 2 bs) (\<lambda>(n, r). read_str TooShort InvalidUtf8 n r)"

definition read_reason :: "byte list \<Rightarrow> (TombstoneDecodeError, string option \<times> byte list) result" where
  "read_reason bs =
     rbind (read_be TooShort 2 bs) (\<lambda>(n, r).
     if 0 < n
     then rbind (read_str TooShort InvalidUtf8 n r) (\<lambda>(why, r'). Inr (Some why, r'))
     else Inr (None, r))"

text \<open>The decoder, with the unread rest of the input beside the message.\<close>

definition message_read ::
  "byte list \<Rightarrow> (TombstoneDecodeError, TombstoneSyncMessage \<times> byte list) result" where
  "message_read bs =
     rbind (read_str16 bs) (\<lambda>(coll, r1).
     rbind (read_str16 r1) (\<lambda>(doc, r2).
     rbind (read_be TooShort 8 r2) (\<lambda>(millis, r3).
     rbind (read_be TooShort 8 r3) (\<lambda>(lam, r4).
     rbind (read_str16 r4) (\<lambda>(by_node, r5).
     rbind (read_reason r5) (\<lambda>(why, r6).
     rbind (read_byte TooShort r6) (\<lambda>(b, r7).
     rbind (direction_of_byte b) (\<lambda>d.
     Inr (\<lparr>tombstone = \<lparr>document_id = doc, collection = coll,
                        deleted_at = int millis * 1000000, deleted_by = by_node,
                        lamport = word_of_nat lam, reason = why\<rparr>,
           direction = d\<rparr>, r7)))))))))"

definition message_decode :: "byte list \<Rightarrow> (TombstoneDecodeError, TombstoneSyncMessage) result" where
  "message_decode bs = rbind (message_read bs) (\<lambda>(m, r). Inr m)"

section \<open>Batches\<close>

definition batch_new :: "TombstoneBatch" where
  "batch_new = \<lparr>tombstones = []\<rparr>"

definition batch_from_tombstones :: "Tombstone list \<Rightarrow> TombstoneBatch" where
  "batch_from_tombstones ts = \<lparr>tombstones = map from_tombstone ts\<rparr>"

definition batch_with_messages :: "TombstoneSyncMessage list \<Rightarrow> TombstoneBatch" where
  "batch_with_messages ms = \<lparr>tombstones = ms\<rparr>"

definition batch_push :: "TombstoneSyncMessage \<Rightarrow> TombstoneBatch \<Rightarrow> TombstoneBatch" where
  "batch_push m b = b\<lparr>tombstones := tombstones b @ [m]\<rparr>"

definition write_frame :: "TombstoneSyncMessage \<Rightarrow> byte list" where
  "write_frame m =
     (let e = message_encode m in be_bytes 4 (unat (word_of_nat (length e) :: u32)) @ e)"

definition batch_encode :: "TombstoneBatch \<Rightarrow> byte list" where
  "batch_encode b =
     be_bytes 4 (unat (word_of_nat (length (tombstones b)) :: u32))
     @ concat (map write_frame (tombstones b))"

text \<open>
  One turn of the decoding loop over an input of \<open>len\<close> bytes: the position is \<open>len\<close>
  minus the bytes that are left.  The list is reserved for as many messages as the
  input announces before the first of them is read.
\<close>

definition read_frame ::
  "platform \<Rightarrow> nat \<Rightarrow> byte list \<Rightarrow> (TombstoneDecodeError, TombstoneSyncMessage \<times> byte list) result" where
  "read_frame pf len bs =
     rbind (read_be TooShort 4 bs) (\<lambda>(n, r).
     rbind (checked_slice pf TooShort len (len - length r) n r) (\<lambda>(frame, r').
     rbind (message_decode frame) (\<lambda>m. Inr (m, r'))))"

definition batch_decode :: "platform \<Rightarrow> byte list \<Rightarrow> (TombstoneDecodeError, TombstoneBatch) result" where
  "batch_decode pf bs =
     rbind (read_be TooShort 4 bs) (\<lambda>(count, r).
     rbind (reserve pf (tombstone_size pf) count) (\<lambda>_.
     rbind (read_many (read_frame pf (length bs)) count r) (\<lambda>(ms, r'). Inr \<lparr>tombstones = ms\<rparr>)))"

section \<open>What the format can carry\<close>

text \<open>
  A message fits the format when its strings are Rust strings shorter than
  \<open>2 ^ 16\<close> bytes.  The wire keeps the time in whole milliseconds, as 64 bits
  and not before the epoch, and it does not tell an empty reason from none.
\<close>

definition str16_ok :: "string \<Rightarrow> bool" where
  "str16_ok s \<longleftrightarrow> valid_string s \<and> length s < 65536"

definition message_ok :: "TombstoneSyncMessage \<Rightarrow> bool" where
  "message_ok m \<longleftrightarrow>
     (let t = tombstone m in
      str16_ok (collection t) \<and> str16_ok (document_id t) \<and> str16_ok (deleted_by t)
      \<and> pred_option str16_ok (reason t))"

definition wire_time :: "int \<Rightarrow> int" where
  "wire_time t = (if t < 0 then 0 else (t div 1000000) mod 2 ^ 64 * 1000000)"

definition wire_reason :: "string option \<Rightarrow> string option" where
  "wire_reason why = (if why = Some '''' then None else why)"

definition message_norm :: "TombstoneSyncMessage \<Rightarrow> TombstoneSyncMessage" where
  "message_norm m =
     m\<lparr>tombstone := (tombstone m)
        \<lparr>deleted_at := wire_time (deleted_at (tombstone m)),
         reason := wire_reason (reason (tombstone m))\<rparr>\<rparr>"

section \<open>Round trips\<close>

lemma direction_of_direction_byte [simp, codec_simps]:
  "direction_of_byte (direction_byte d) = Inr d"
  by (cases d) (simp_all add: direction_of_byte_def)

lemma direction_of_byte_eq_Inr: "direction_of_byte b = Inr d \<longleftrightarrow> b = direction_byte d"
  by (cases d) (auto simp: direction_of_byte_def split: if_splits)

lemma direction_of_byte_eq_Inl:
  "direction_of_byte b = Inl e \<longleftrightarrow> b \<notin> range direction_byte \<and> e = Err InvalidDirection"
proof (cases "direction_of_byte b")
  case (Inl x)
  then have "x = Err InvalidDirection"
    by (auto simp: direction_of_byte_def split: if_splits)
  moreover have "b \<notin> range direction_byte"
    using Inl by auto
  ultimately show ?thesis
    using Inl by auto
next
  case (Inr d)
  then show ?thesis
    by (auto simp: direction_of_byte_eq_Inr)
qed

lemma epoch_millis_wire: "uint (epoch_millis t) * 1000000 = wire_time t"
proof (cases "t < 0")
  case False
  then have "int (nat t div 1000000) = t div 1000000"
    by (simp add: zdiv_int)
  with False show ?thesis
    by (simp add: epoch_millis_def wire_time_def duration_since_def unsigned_of_nat
        take_bit_eq_mod zmod_int)
qed (simp add: epoch_millis_def wire_time_def duration_since_def)

lemma epoch_millis_millis:
  "n < 2 ^ 64 \<Longrightarrow> epoch_millis (int n * 1000000) = word_of_nat n"
  by (simp add: epoch_millis_def duration_since_def nat_mult_distrib)

lemma wire_time_millis: "n < 2 ^ 64 \<Longrightarrow> wire_time (int n * 1000000) = int n * 1000000"
  by (simp add: wire_time_def)

lemma read_write_str16 [simp, codec_simps]:
  "str16_ok s \<Longrightarrow> read_str16 (write_str16 s @ r) = Inr (s, r)"
  by (simp add: read_str16_def write_str16_def str16_ok_def)

lemma read_str16_eq_Inr:
  "read_str16 bs = Inr (s, r) \<longleftrightarrow> str16_ok s \<and> bs = write_str16 s @ r"
  by (auto simp: read_str16_def write_str16_def str16_ok_def reader_eqs read_eqs split: prod.splits)

lemma read_str16_not_panic [simp]: "read_str16 bs \<noteq> Inl Panic"
  by (auto simp: read_str16_def reader_eqs read_eqs split: prod.splits)

lemma read_write_reason [simp, codec_simps]:
  "pred_option str16_ok why \<Longrightarrow> read_reason (write_reason why @ r) = Inr (wire_reason why, r)"
  by (cases why) (auto simp: read_reason_def write_str16_def str16_ok_def wire_reason_def)

lemma read_reason_eq_Inr:
  "read_reason bs = Inr (why, r) \<longleftrightarrow>
     pred_option str16_ok why \<and> wire_reason why = why \<and> bs = write_reason why @ r"
  by (cases why)
    (auto simp: read_reason_def write_str16_def str16_ok_def wire_reason_def reader_eqs read_eqs
      split: prod.splits if_splits)

lemma read_reason_not_panic [simp]: "read_reason bs \<noteq> Inl Panic"
  by (auto simp: read_reason_def reader_eqs read_eqs split: prod.splits if_splits)

lemma message_read_encode:
  "message_ok m \<Longrightarrow> message_read (message_encode m @ r) = Inr (message_norm m, r)"
  by (cases m; cases "tombstone m")
    (simp add: message_read_def message_encode_def message_ok_def message_norm_def epoch_millis_wire)

lemma message_read_canonical:
  "message_read bs = Inr (m, r) \<Longrightarrow>
     message_ok m \<and> message_norm m = m \<and> bs = message_encode m @ r"
  by (auto simp: message_read_def message_encode_def message_ok_def message_norm_def
      reader_eqs read_eqs read_str16_eq_Inr read_reason_eq_Inr direction_of_byte_eq_Inr
      epoch_millis_millis wire_time_millis split: prod.splits)

interpretation msg_codec: canonical_codec message_ok message_encode message_norm message_read
  by unfold_locales (auto dest: message_read_canonical simp: message_read_encode)

lemma message_read_not_panic [simp]: "message_read bs \<noteq> Inl Panic"
  by (auto simp: message_read_def reader_eqs read_eqs direction_of_byte_eq_Inl split: prod.splits)

lemma message_decode_encode_aux:
  "message_ok m \<Longrightarrow> message_decode (message_encode m @ r) = Inr (message_norm m)"
  by (simp add: message_decode_def message_read_encode)

lemma length_write_str16 [simp]: "length (write_str16 s) = 2 + length s"
  by (simp add: write_str16_def)

lemma length_write_reason: "pred_option str16_ok why \<Longrightarrow> length (write_reason why) < 2 + 65536"
  by (cases why) (auto simp: str16_ok_def)

lemma length_message_encode:
  assumes "message_ok m"
  shows "length (message_encode m) < 262171"
  using assms length_write_reason [of "reason (tombstone m)"]
  by (auto simp: message_encode_def message_ok_def str16_ok_def Let_def)

lemma read_frame_write_frame:
  assumes "message_ok m" "in_buffer pf len (write_frame m @ r)"
  shows "read_frame pf len (write_frame m @ r) = Inr (message_norm m, r)"
proof -
  let ?e = "message_encode m"
  have "checked_slice pf TooShort len (len - length (?e @ r)) (length ?e) (?e @ r) = Inr (?e, r)"
    using assms length_message_encode [of m]
    by (subst checked_slice_eq_Inr) (auto simp: in_buffer_def write_frame_def Let_def)
  then show ?thesis
    using assms(1) length_message_encode [of m] message_decode_encode_aux [of m "[]"]
    by (simp add: read_frame_def write_frame_def Let_def)
qed

interpretation frame_codec: bounded_codec message_ok write_frame message_norm "read_frame pf len" "in_buffer pf len"
  for pf len
  by unfold_locales (auto simp: read_frame_write_frame in_buffer_def)

lemma message_decode_not_panic_aux: "message_decode bs \<noteq> Inl Panic"
  by (auto simp: message_decode_def reader_eqs split: prod.splits)

lemma read_frame_64:
  assumes "usize_bits pf = 64" "in_buffer pf len bs"
  shows "read_frame pf len bs \<noteq> Inl Panic"
    and "read_frame pf len bs = Inr (m, r) \<Longrightarrow> in_buffer pf len r"
  using assms message_decode_not_panic_aux
  by (auto simp: read_frame_def reader_eqs read_eqs checked_slice_64 in_buffer_def split: prod.splits)

lemmas message_eval = message_ok_def message_norm_def tombstone_with_reason_def tombstone_new_def
  from_tombstone_def direction_default_for_collection_def str16_ok_def string_eval
  wire_time_def wire_reason_def

lemma batch_decode_panic_aux:
  assumes "usize_bits pf = 64" "length bs \<le> isize_max pf"
  shows "batch_decode pf bs = Inl Panic \<longleftrightarrow>
     4 \<le> length bs \<and> \<not> capacity_ok pf (tombstone_size pf) (be_val (take 4 bs))"
proof (cases "4 \<le> length bs")
  case True
  have "read_many (read_frame pf (length bs)) (be_val (take 4 bs)) (drop 4 bs) \<noteq> Inl Panic"
    by (rule read_many_not_panic_inv [of "in_buffer pf (length bs)"])
      (simp add: read_frame_64(1) assms, rule read_frame_64(2), use assms in \<open>simp_all add: in_buffer_def\<close>)
  with True show ?thesis
    by (auto simp: batch_decode_def read_be_def slice_def reserve_eqs rbind_eq_Inl split: prod.splits)
qed (auto simp: batch_decode_def reader_eqs read_eqs)

lemma batch_decode_encode_aux:
  assumes "list_all message_ok (tombstones b)" and "length (tombstones b) < 2 ^ 32"
    and "platform_serves pf N" "length (batch_encode b) \<le> N"
      "length (tombstones b) * tombstone_size pf \<le> N"
  shows "batch_decode pf (batch_encode b) = Inr \<lparr>tombstones = map message_norm (tombstones b)\<rparr>"
proof -
  let ?fs = "concat (map write_frame (tombstones b))"
  have bs: "batch_encode b = be_bytes 4 (length (tombstones b)) @ ?fs"
    using assms(2) by (simp add: batch_encode_def)
  have "in_buffer pf (length (batch_encode b)) (?fs @ [])"
    using assms(3,4) by (auto simp: in_buffer_def platform_serves_def bs)
  then have "read_many (read_frame pf (length (batch_encode b))) (length (tombstones b)) ?fs
      = Inr (map message_norm (tombstones b), [])"
    using frame_codec.read_many_enc_room [OF assms(1)] by fastforce
  then show ?thesis
    using assms(2) capacity_served [OF assms(3,5)] unfolding bs by (simp add: batch_decode_def)
qed

section \<open>Properties\<close>

lemma message_decode_canonical_aux:
  assumes "message_decode bs = Inr m"
  shows "message_ok m \<and> message_norm m = m \<and> (\<exists>rest. bs = message_encode m @ rest)"
proof -
  obtain r where "message_read bs = Inr (m, r)"
    using assms by (auto simp: message_decode_def rbind_eq_Inr split: prod.splits)
  then show ?thesis
    using msg_codec.rd_canonical by blast
qed

text \<open>
  Four bytes from a peer are enough to stop a node whose allocator refuses the
  number of messages they announce.  On a 32-bit machine so is one length: the sum
  with the position wraps, passes the check, and the slice panics.
\<close>

lemma batch_count_refused:
  assumes "n < 2 ^ 32" "\<not> capacity_ok pf (tombstone_size pf) n"
  shows "batch_decode pf (be_bytes 4 n @ rest) = Inl Panic"
  using assms by (simp add: batch_decode_def reserve_def)

lemma batch_frame_wraps_32:
  assumes "usize_bits pf = 32" "capacity_ok pf (tombstone_size pf) 1"
  shows "batch_decode pf (be_bytes 4 1 @ be_bytes 4 (2 ^ 32 - 1)) = Inl Panic"
proof -
  have "checked_slice pf TooShort 8 8 (2 ^ 32 - 1) [] = Inl Panic"
    by (rule checked_slice_wraps) (use assms in \<open>simp_all add: isize_max_def\<close>)
  moreover have "read_be TooShort 4 (be_bytes 4 (2 ^ 32 - 1)) = Inr (2 ^ 32 - 1, [])"
    using read_be_append [of "2 ^ 32 - 1" 4 TooShort "[]"] by simp
  ultimately have "read_frame pf 8 (be_bytes 4 (2 ^ 32 - 1)) = Inl Panic"
    by (simp add: read_frame_def)
  then show ?thesis
    using assms(2) by (simp add: batch_decode_def)
qed

text \<open>
  C18.  Every tombstone message whose strings are Rust strings below the 16-bit
  length limit is decoded from its own encoding, whatever follows, as it was
  except that the time is cut to whole milliseconds and an empty reason reads as
  no reason.  The decoder accepts nothing but encodings: an input it accepts
  starts with the encoding of the message it returns, and that message is one
  the round trip keeps as it is; and it panics on no input.  A batch of such
  messages is decoded from its own encoding, message by message and in order, on a
  32-bit or 64-bit machine that serves requests of the size of the encoding and of
  the decoded list.  On 64 bits the batch decoder panics exactly when the input
  announces a number of messages for which the machine refuses the memory.
\<close>

theorem message_codec:
  "(message_ok m \<longrightarrow> message_decode (message_encode m @ rest) = Inr (message_norm m)) \<and>
   (message_decode bs = Inr d \<longrightarrow> message_ok d \<and> message_norm d = d \<and> (\<exists>s. bs = message_encode d @ s)) \<and>
   message_decode bs \<noteq> Inl Panic \<and>
   (list_all message_ok (tombstones b) \<and> length (tombstones b) < 2 ^ 32 \<and> platform_serves pf N
      \<and> length (batch_encode b) \<le> N \<and> length (tombstones b) * tombstone_size pf \<le> N \<longrightarrow>
      batch_decode pf (batch_encode b) = Inr \<lparr>tombstones = map message_norm (tombstones b)\<rparr>) \<and>
   (usize_bits pf = 64 \<and> length bs \<le> isize_max pf \<longrightarrow>
      (batch_decode pf bs = Inl Panic \<longleftrightarrow>
         4 \<le> length bs \<and> \<not> capacity_ok pf (tombstone_size pf) (be_val (take 4 bs))))"
  using message_decode_encode_aux message_decode_canonical_aux message_decode_not_panic_aux
    batch_decode_encode_aux batch_decode_panic_aux by blast

theorem message_codec_witness:
  "let m = \<lparr>tombstone = tombstone_with_reason 1700000000123456789 ''doc-7'' ''nodes'' ''alpha'' 42 ''lost'',
            direction = SystemWide\<rparr>;
       m' = \<lparr>tombstone = tombstone_with_reason 1700000000123000000 ''doc-7'' ''nodes'' ''alpha'' 42 ''lost'',
             direction = SystemWide\<rparr>
   in message_decode (message_encode m @ [9]) = Inr m'
      \<and> message_ok m' \<and> message_norm m' = m'
      \<and> batch_decode sample_platform (batch_encode \<lparr>tombstones = [m]\<rparr>) = Inr \<lparr>tombstones = [m']\<rparr>
      \<and> batch_decode sample_platform [255, 255, 255, 255] = Inl Panic"
proof -
  let ?m = "\<lparr>tombstone = tombstone_with_reason 1700000000123456789 ''doc-7'' ''nodes'' ''alpha'' 42 ''lost'',
      direction = SystemWide\<rparr>"
  let ?m' = "\<lparr>tombstone = tombstone_with_reason 1700000000123000000 ''doc-7'' ''nodes'' ''alpha'' 42 ''lost'',
       direction = SystemWide\<rparr>"
  let ?b = "\<lparr>tombstones = [?m]\<rparr>"
  have m: "message_ok ?m" "message_norm ?m = ?m'"
    by (simp_all add: message_eval)
  have b: "list_all message_ok (tombstones ?b) \<and> length (tombstones ?b) < 2 ^ 32
      \<and> platform_serves sample_platform (2 ^ 30) \<and> length (batch_encode ?b) \<le> 2 ^ 30
      \<and> length (tombstones ?b) * tombstone_size sample_platform \<le> 2 ^ 30"
    using m(1) length_message_encode [OF m(1)] sample_platform_serves
    by (simp add: batch_encode_def write_frame_def Let_def sample_platform_def)
  have "message_decode (message_encode ?m @ [9]) = Inr ?m'"
    using message_codec [where m = ?m and rest = "[9]"] m by simp
  moreover from this have "message_ok ?m' \<and> message_norm ?m' = ?m'"
    using message_codec [where bs = "message_encode ?m @ [9]" and d = ?m'] by blast
  moreover have "batch_decode sample_platform (batch_encode ?b) = Inr \<lparr>tombstones = [?m']\<rparr>"
    using message_codec [where b = ?b and pf = sample_platform and N = "2 ^ 30"] b m(2) by fastforce
  moreover have "batch_decode sample_platform [255, 255, 255, 255] = Inl Panic"
    using message_codec [where bs = "[255, 255, 255, 255]" and pf = sample_platform]
    by (simp add: sample_platform_def isize_max_def capacity_ok_def be_val_def)
  ultimately show ?thesis
    by (simp add: Let_def)
qed

end
