(* ===== verification/Routing.thy ===== *)
theory Routing
  imports Prelude
begin

text \<open>
  Packets and routing: \<^verbatim>\<open>src/routing/packet.rs\<close>, \<^verbatim>\<open>router.rs\<close>, \<^verbatim>\<open>mesh_router.rs\<close> and
  \<^verbatim>\<open>aggregator.rs\<close>, over the topology state of \<^verbatim>\<open>src/topology/builder.rs\<close>.
  Identifiers that the code draws (\<^verbatim>\<open>Uuid::new_v4\<close>) and clock readings
  (\<^verbatim>\<open>Instant::now\<close>) are arguments.  A trait object \<^verbatim>\<open>Aggregator\<close> is a function
  argument; the beacon of the selected peer is a type parameter, since the
  router never reads it.
\<close>

section \<open>Packets\<close>

datatype DataDirection = Upward | Downward | Lateral

datatype DataType =
  Telemetry | Status | Command | Configuration | Coordination | AggregatedTelemetry

fun typical_direction :: "DataType \<Rightarrow> DataDirection" where
  "typical_direction Telemetry = Upward"
| "typical_direction Status = Upward"
| "typical_direction Command = Downward"
| "typical_direction Configuration = Downward"
| "typical_direction Coordination = Lateral"
| "typical_direction AggregatedTelemetry = Upward"

definition requires_aggregation :: "DataType \<Rightarrow> bool" where
  "requires_aggregation t \<longleftrightarrow> t = Telemetry \<or> t = Status"

record DataPacket =
  packet_id :: string
  source_node_id :: string
  destination_node_id :: "string option"
  data_type :: DataType
  pkt_direction :: DataDirection
  hop_count :: u16
  max_hops :: u16
  payload :: "byte list"

definition packet_telemetry :: "string \<Rightarrow> string \<Rightarrow> byte list \<Rightarrow> DataPacket" where
  "packet_telemetry uuid src bytes =
     \<lparr>packet_id = uuid, source_node_id = src, destination_node_id = None, data_type = Telemetry,
      pkt_direction = Upward, hop_count = 0, max_hops = 10, payload = bytes\<rparr>"

definition packet_command :: "string \<Rightarrow> string \<Rightarrow> string \<Rightarrow> byte list \<Rightarrow> DataPacket" where
  "packet_command uuid src dst bytes =
     \<lparr>packet_id = uuid, source_node_id = src, destination_node_id = Some dst, data_type = Command,
      pkt_direction = Downward, hop_count = 0, max_hops = 10, payload = bytes\<rparr>"

definition packet_status :: "string \<Rightarrow> string \<Rightarrow> byte list \<Rightarrow> DataPacket" where
  "packet_status uuid src bytes =
     \<lparr>packet_id = uuid, source_node_id = src, destination_node_id = None, data_type = Status,
      pkt_direction = Upward, hop_count = 0, max_hops = 10, payload = bytes\<rparr>"

definition packet_coordination :: "string \<Rightarrow> string \<Rightarrow> string \<Rightarrow> byte list \<Rightarrow> DataPacket" where
  "packet_coordination uuid src dst bytes =
     \<lparr>packet_id = uuid, source_node_id = src, destination_node_id = Some dst,
      data_type = Coordination, pkt_direction = Lateral, hop_count = 0, max_hops = 3,
      payload = bytes\<rparr>"

definition packet_aggregated_telemetry :: "string \<Rightarrow> string \<Rightarrow> byte list \<Rightarrow> DataPacket" where
  "packet_aggregated_telemetry uuid src bytes =
     \<lparr>packet_id = uuid, source_node_id = src, destination_node_id = None,
      data_type = AggregatedTelemetry, pkt_direction = Upward, hop_count = 0, max_hops = 10,
      payload = bytes\<rparr>"

definition increment_hop :: "DataPacket \<Rightarrow> bool \<times> DataPacket" where
  "increment_hop p =
     (let p' = p\<lparr>hop_count := hop_count p + 1\<rparr> in (hop_count p' < max_hops p', p'))"

definition at_max_hops :: "DataPacket \<Rightarrow> bool" where
  "at_max_hops p \<longleftrightarrow> max_hops p \<le> hop_count p"

section \<open>Topology state\<close>

datatype NodeRole = Leader | Member | Standalone

datatype HierarchyLevel = Platform | Squad | Platoon | Company

record 'b SelectedPeer =
  sp_node_id :: string
  sp_beacon :: 'b
  selected_at :: instant

record 'b TopologyState =
  selected_peer :: "'b SelectedPeer option"
  linked_peers :: "(string, instant) hmap"
  lateral_peers :: "(string, instant) hmap"
  role :: NodeRole
  hierarchy_level :: HierarchyLevel

definition topology_default :: "'b TopologyState" where
  "topology_default =
     \<lparr>selected_peer = None, linked_peers = [], lateral_peers = [], role = Standalone,
      hierarchy_level = Squad\<rparr>"

section \<open>The selective router\<close>

datatype RoutingDecision =
  Consume
| Forward string
| ConsumeAndForward string
| ForwardMulticast "string list"
| ConsumeAndForwardMulticast "string list"
| Drop

record DeduplicationConfig =
  enabled :: bool
  ttl :: duration
  max_entries :: nat

definition dedup_default :: DeduplicationConfig where
  "dedup_default = \<lparr>enabled = True, ttl = 300 * 10 ^ 9, max_entries = 10000\<rparr>"

record DeduplicationEntry =
  first_seen :: instant

record SelectiveRouter =
  sr_verbose :: bool
  dedup_config :: DeduplicationConfig
  seen_packets :: "(string, DeduplicationEntry) hmap"

definition router_new :: SelectiveRouter where
  "router_new =
     \<lparr>sr_verbose = False, dedup_config = dedup_default\<lparr>enabled := False\<rparr>, seen_packets = []\<rparr>"

definition router_new_verbose :: SelectiveRouter where
  "router_new_verbose =
     \<lparr>sr_verbose = True, dedup_config = dedup_default\<lparr>enabled := False\<rparr>, seen_packets = []\<rparr>"

definition router_new_with_deduplication :: "DeduplicationConfig \<Rightarrow> SelectiveRouter" where
  "router_new_with_deduplication cfg =
     \<lparr>sr_verbose = False, dedup_config = cfg, seen_packets = []\<rparr>"

definition fresh_at :: "DeduplicationConfig \<Rightarrow> instant \<Rightarrow> DeduplicationEntry \<Rightarrow> bool" where
  "fresh_at cfg now e \<longleftrightarrow> now - first_seen e < ttl cfg"

definition evict_expired ::
  "SelectiveRouter \<Rightarrow> (string, DeduplicationEntry) hmap \<Rightarrow> instant
     \<Rightarrow> (string, DeduplicationEntry) hmap" where
  "evict_expired r cache now = hm_retain (\<lambda>_ e. fresh_at (dedup_config r) now e) cache"

definition remove_oldest ::
  "(string, DeduplicationEntry) hmap \<Rightarrow> (string, DeduplicationEntry) hmap" where
  "remove_oldest cache =
     (case min_by_key (\<lambda>(_, e). first_seen e) cache of
        Some (oldest, _) \<Rightarrow> hm_remove oldest cache
      | None \<Rightarrow> cache)"

definition make_room ::
  "SelectiveRouter \<Rightarrow> (string, DeduplicationEntry) hmap \<Rightarrow> instant
     \<Rightarrow> (string, DeduplicationEntry) hmap" where
  "make_room r cache now =
     (if max_entries (dedup_config r) \<le> length cache
      then let cache' = evict_expired r cache now in
           if max_entries (dedup_config r) \<le> length cache' then remove_oldest cache' else cache'
      else cache)"

definition is_duplicate :: "instant \<Rightarrow> SelectiveRouter \<Rightarrow> string \<Rightarrow> bool \<times> SelectiveRouter" where
  "is_duplicate now r pid =
     (if \<not> enabled (dedup_config r) then (False, r)
      else let cache = seen_packets r in
           if (case hm_get cache pid of
                 Some e \<Rightarrow> fresh_at (dedup_config r) now e | None \<Rightarrow> False)
           then (True, r)
           else (False, r\<lparr>seen_packets :=
                           hm_insert pid \<lparr>first_seen = now\<rparr> (make_room r cache now)\<rparr>))"

definition dedup_cache_size :: "SelectiveRouter \<Rightarrow> nat" where
  "dedup_cache_size r = length (seen_packets r)"

definition clear_dedup_cache :: "SelectiveRouter \<Rightarrow> SelectiveRouter" where
  "clear_dedup_cache r = r\<lparr>seen_packets := []\<rparr>"

definition should_consume :: "DataPacket \<Rightarrow> 'b TopologyState \<Rightarrow> string \<Rightarrow> bool" where
  "should_consume p st this_node \<longleftrightarrow>
     (case pkt_direction p of
        Upward \<Rightarrow> True
      | Downward \<Rightarrow> destination_node_id p = Some this_node \<or> role st = Leader
      | Lateral \<Rightarrow> (case destination_node_id p of
                     Some dest \<Rightarrow> dest = this_node
                   | None \<Rightarrow> role st = Leader))"

definition should_forward :: "DataPacket \<Rightarrow> 'b TopologyState \<Rightarrow> bool" where
  "should_forward p st \<longleftrightarrow>
     (case pkt_direction p of
        Upward \<Rightarrow> selected_peer st \<noteq> None
      | Downward \<Rightarrow> linked_peers st \<noteq> []
      | Lateral \<Rightarrow> (case destination_node_id p of
                     Some dest \<Rightarrow> hm_contains (lateral_peers st) dest
                   | None \<Rightarrow> role st = Leader \<and> lateral_peers st \<noteq> []))"

text \<open>The keys of a peer map, or the addressed peer alone when it is one of them.\<close>

definition hops_of :: "DataPacket \<Rightarrow> (string, instant) hmap \<Rightarrow> string list" where
  "hops_of p peers =
     (case destination_node_id p of
        Some dest \<Rightarrow> if hm_contains peers dest then [dest] else map fst peers
      | None \<Rightarrow> map fst peers)"

definition next_hop :: "DataPacket \<Rightarrow> 'b TopologyState \<Rightarrow> string option" where
  "next_hop p st =
     (case pkt_direction p of
        Upward \<Rightarrow> map_option sp_node_id (selected_peer st)
      | Downward \<Rightarrow> (case hops_of p (linked_peers st) of [] \<Rightarrow> None | h # _ \<Rightarrow> Some h)
      | Lateral \<Rightarrow> (case hops_of p (lateral_peers st) of [] \<Rightarrow> None | h # _ \<Rightarrow> Some h))"

definition next_hops :: "DataPacket \<Rightarrow> 'b TopologyState \<Rightarrow> string list" where
  "next_hops p st =
     (case pkt_direction p of
        Upward \<Rightarrow> (case selected_peer st of Some peer \<Rightarrow> [sp_node_id peer] | None \<Rightarrow> [])
      | Downward \<Rightarrow> hops_of p (linked_peers st)
      | Lateral \<Rightarrow> hops_of p (lateral_peers st))"

definition decide :: "DataPacket \<Rightarrow> 'b TopologyState \<Rightarrow> string \<Rightarrow> RoutingDecision" where
  "decide p st this_node =
     (let consume = should_consume p st this_node; forward = should_forward p st;
          hops = next_hops p st in
      if consume \<and> forward then
        (if hops = [] then Consume
         else if length hops = 1 then ConsumeAndForward (hops ! 0)
         else ConsumeAndForwardMulticast hops)
      else if consume then Consume
      else if forward then
        (if hops = [] then Drop
         else if length hops = 1 then Forward (hops ! 0)
         else ForwardMulticast hops)
      else Drop)"

definition route ::
  "instant \<Rightarrow> SelectiveRouter \<Rightarrow> DataPacket \<Rightarrow> 'b TopologyState \<Rightarrow> string
     \<Rightarrow> RoutingDecision \<times> SelectiveRouter" where
  "route now r p st this_node =
     (let (dup, r') = is_duplicate now r (packet_id p) in
      if dup then (Drop, r')
      else if at_max_hops p then (Drop, r')
      else if source_node_id p = this_node then (Drop, r')
      else (decide p st this_node, r'))"

definition is_hq_level :: "HierarchyLevel \<Rightarrow> bool" where
  "is_hq_level l \<longleftrightarrow> l = Company"

definition should_aggregate :: "DataPacket \<Rightarrow> RoutingDecision \<Rightarrow> 'b TopologyState \<Rightarrow> bool" where
  "should_aggregate p d st \<longleftrightarrow>
     (if \<not> (case d of ConsumeAndForward _ \<Rightarrow> True | _ \<Rightarrow> False) then False
      else if \<not> requires_aggregation (data_type p) then False
      else role st = Leader)"

section \<open>The mesh router\<close>

datatype 'j AggregationError =
  DeserializationError 'j
| AggregationFailed string
| InvalidPacketType string DataType
| EmptyInput

type_synonym 'j aggregator =
  "string \<Rightarrow> string \<Rightarrow> DataPacket list \<Rightarrow> 'j AggregationError + DataPacket"

definition no_op_aggregator :: "'j aggregator" where
  "no_op_aggregator group_id leader_id ps =
     Inl (AggregationFailed ''No aggregator configured'')"

definition extract_summary_bytes :: "DataPacket \<Rightarrow> 'j AggregationError + byte list" where
  "extract_summary_bytes p =
     (if data_type p \<noteq> AggregatedTelemetry
      then Inl (InvalidPacketType ''AggregatedTelemetry'' (data_type p))
      else Inr (payload p))"

record MeshRouterConfig =
  node_id :: string
  deduplication :: DeduplicationConfig
  auto_aggregate :: bool
  aggregation_threshold :: nat
  mr_verbose :: bool

record RouteResult =
  decision :: RoutingDecision
  rr_should_aggregate :: bool
  forward_to :: "string list"

record 'j MeshRouter =
  config :: MeshRouterConfig
  router :: SelectiveRouter
  mr_aggregator :: "'j aggregator"
  pending_aggregation :: "DataPacket list"

definition mesh_router_config_default :: MeshRouterConfig where
  "mesh_router_config_default =
     \<lparr>node_id = '''', deduplication = dedup_default, auto_aggregate = True,
      aggregation_threshold = 3, mr_verbose = False\<rparr>"

definition config_with_node_id :: "string \<Rightarrow> MeshRouterConfig" where
  "config_with_node_id nid = mesh_router_config_default\<lparr>node_id := nid\<rparr>"

definition with_aggregator :: "MeshRouterConfig \<Rightarrow> 'j aggregator \<Rightarrow> 'j MeshRouter" where
  "with_aggregator cfg agg =
     \<lparr>config = cfg,
      router = (if enabled (deduplication cfg)
                then router_new_with_deduplication (deduplication cfg) else router_new),
      mr_aggregator = agg, pending_aggregation = []\<rparr>"

definition mesh_router_new :: "MeshRouterConfig \<Rightarrow> 'j MeshRouter" where
  "mesh_router_new cfg = with_aggregator cfg no_op_aggregator"

fun targets_of :: "RoutingDecision \<Rightarrow> string list" where
  "targets_of (Forward h) = [h]"
| "targets_of (ConsumeAndForward h) = [h]"
| "targets_of (ForwardMulticast hs) = hs"
| "targets_of (ConsumeAndForwardMulticast hs) = hs"
| "targets_of Consume = []"
| "targets_of Drop = []"

definition mesh_route ::
  "instant \<Rightarrow> 'j MeshRouter \<Rightarrow> DataPacket \<Rightarrow> 'b TopologyState \<Rightarrow> RouteResult \<times> 'j MeshRouter" where
  "mesh_route now mr p st =
     (let (d, r') = route now (router mr) p st (node_id (config mr)) in
      (\<lparr>decision = d, rr_should_aggregate = should_aggregate p d st, forward_to = targets_of d\<rparr>,
       mr\<lparr>router := r'\<rparr>))"

definition add_for_aggregation ::
  "'j MeshRouter \<Rightarrow> DataPacket \<Rightarrow> string \<Rightarrow> DataPacket option \<times> 'j MeshRouter" where
  "add_for_aggregation mr p squad =
     (if \<not> auto_aggregate (config mr) then (None, mr)
      else let pending = pending_aggregation mr @ [p] in
           if aggregation_threshold (config mr) \<le> length pending
           then (case mr_aggregator mr squad (node_id (config mr)) pending of
                   Inr aggregated \<Rightarrow> (Some aggregated, mr\<lparr>pending_aggregation := []\<rparr>)
                 | Inl e \<Rightarrow> (None, mr\<lparr>pending_aggregation := []\<rparr>))
           else (None, mr\<lparr>pending_aggregation := pending\<rparr>))"

definition flush_aggregation :: "'j MeshRouter \<Rightarrow> string \<Rightarrow> DataPacket option \<times> 'j MeshRouter" where
  "flush_aggregation mr squad =
     (if pending_aggregation mr = [] then (None, mr)
      else (case mr_aggregator mr squad (node_id (config mr)) (pending_aggregation mr) of
              Inr aggregated \<Rightarrow> (Some aggregated, mr\<lparr>pending_aggregation := []\<rparr>)
            | Inl e \<Rightarrow> (None, mr\<lparr>pending_aggregation := []\<rparr>)))"

section \<open>The deduplication cache\<close>

definition dedup_inv :: "SelectiveRouter \<Rightarrow> bool" where
  "dedup_inv r \<longleftrightarrow>
     hm_wf (seen_packets r) \<and> length (seen_packets r) \<le> max 1 (max_entries (dedup_config r))"

text \<open>A sequence of routing calls: each at a time, for a packet, under a topology.\<close>

definition route_all ::
  "(instant \<times> DataPacket \<times> 'b TopologyState \<times> string) list \<Rightarrow> SelectiveRouter \<Rightarrow> SelectiveRouter" where
  "route_all evs r = fold (\<lambda>(now, p, st, n) r. snd (route now r p st n)) evs r"

text \<open>The entries other than \<open>x\<close> that are not older than \<open>t0\<close>.\<close>

definition younger :: "string \<Rightarrow> instant \<Rightarrow> (string, DeduplicationEntry) hmap \<Rightarrow> nat" where
  "younger x t0 cache = length (filter (\<lambda>(y, e). y \<noteq> x \<and> t0 \<le> first_seen e) cache)"

definition remembers :: "string \<Rightarrow> instant \<Rightarrow> nat \<Rightarrow> SelectiveRouter \<Rightarrow> bool" where
  "remembers x t0 k r \<longleftrightarrow>
     hm_wf (seen_packets r) \<and> hm_get (seen_packets r) x = Some \<lparr>first_seen = t0\<rparr>
     \<and> younger x t0 (seen_packets r) \<le> k"

lemma dedup_config_is_duplicate [simp]:
  "dedup_config (snd (is_duplicate now r pid)) = dedup_config r"
  by (simp add: is_duplicate_def Let_def)

lemma snd_route [simp]: "snd (route now r p st n) = snd (is_duplicate now r (packet_id p))"
  by (simp add: route_def split: prod.splits)

lemma route_duplicate: "is_duplicate now r (packet_id p) = (True, r') \<Longrightarrow> route now r p st n = (Drop, r')"
  by (simp add: route_def)

lemma hm_wf_make_room [simp]: "hm_wf cache \<Longrightarrow> hm_wf (make_room r cache now)"
  by (auto simp: make_room_def evict_expired_def remove_oldest_def Let_def split: option.splits)

lemma length_remove_oldest: "cache \<noteq> [] \<Longrightarrow> length (remove_oldest cache) < length cache"
  by (auto simp: remove_oldest_def hm_contains_def dest!: min_by_key_Some weak_map_of_SomeI
      intro!: length_hm_remove_less split: option.splits)

lemma length_make_room:
  assumes "length cache \<le> max 1 (max_entries (dedup_config r))"
  shows "length (make_room r cache now) < max 1 (max_entries (dedup_config r))"
proof -
  let ?c = "evict_expired r cache now"
  have "length ?c \<le> length cache"
    by (simp add: evict_expired_def)
  moreover have "?c \<noteq> [] \<Longrightarrow> length (remove_oldest ?c) < length ?c"
    by (rule length_remove_oldest)
  moreover have "?c = [] \<Longrightarrow> length (remove_oldest ?c) = 0"
    by (simp add: remove_oldest_def)
  ultimately show ?thesis
    using assms unfolding make_room_def Let_def by (cases "?c = []") auto
qed

lemma dedup_inv_is_duplicate:
  assumes "dedup_inv r"
  shows "dedup_inv (snd (is_duplicate now r pid))"
proof -
  let ?c = "make_room r (seen_packets r) now"
  have "length (hm_insert pid \<lparr>first_seen = now\<rparr> ?c) \<le> Suc (length ?c)"
    by (simp add: length_hm_insert)
  with assms length_make_room [of "seen_packets r" r now] show ?thesis
    by (auto simp: dedup_inv_def is_duplicate_def Let_def)
qed

lemma dedup_inv_route_all: "dedup_inv r \<Longrightarrow> dedup_inv (route_all evs r)"
  unfolding route_all_def
  by (induction evs arbitrary: r) (auto intro: dedup_inv_is_duplicate split: prod.splits)

lemma dedup_config_route_all: "dedup_config (route_all evs r) = dedup_config r"
  unfolding route_all_def by (induction evs arbitrary: r) (auto split: prod.splits)

lemma younger_retain: "younger x t0 (hm_retain P cache) \<le> younger x t0 cache"
  by (simp add: younger_def length_filter_hm_retain)

lemma younger_oldest:
  assumes wf: "hm_wf cache" and min: "min_by_key (\<lambda>(_, e). first_seen e) cache = Some (x, e)"
    and x: "hm_get cache x = Some \<lparr>first_seen = t0\<rparr>"
  shows "length cache = Suc (younger x t0 cache)"
proof -
  have "(x, e) \<in> set cache" and le: "\<forall>(y, e') \<in> set cache. first_seen e \<le> first_seen e'"
    using min_by_key_Some [OF min] by auto
  then have "hm_get cache x = Some e"
    by (simp add: hm_get_in_set [OF wf])
  with x have e: "first_seen e = t0"
    by auto
  have all: "filter (\<lambda>(y, e). y \<noteq> x \<and> t0 \<le> first_seen e) cache = filter (\<lambda>(y, _). x \<noteq> y) cache"
    using le e by (intro filter_cong) auto
  show ?thesis
    using length_hm_remove_wf [OF wf x] by (simp add: younger_def all AList.delete_eq)
qed

lemma remembers_make_room:
  assumes rem: "remembers x t0 k r" and room: "Suc k < max_entries (dedup_config r)"
    and fresh: "now - t0 < ttl (dedup_config r)"
  shows "hm_get (make_room r (seen_packets r) now) x = Some \<lparr>first_seen = t0\<rparr>"
    and "younger x t0 (make_room r (seen_packets r) now) \<le> k"
proof -
  let ?c = "evict_expired r (seen_packets r) now"
  have wf: "hm_wf ?c" and x: "hm_get ?c x = Some \<lparr>first_seen = t0\<rparr>"
    using rem fresh by (simp_all add: remembers_def evict_expired_def hm_get_retain fresh_at_def)
  have y: "younger x t0 ?c \<le> k"
    using rem order_trans [OF younger_retain] by (simp add: remembers_def evict_expired_def)
  have keep: "hm_get (remove_oldest ?c) x = Some \<lparr>first_seen = t0\<rparr>
      \<and> younger x t0 (remove_oldest ?c) \<le> k" if "max_entries (dedup_config r) \<le> length ?c"
  proof (cases "min_by_key (\<lambda>(_, e). first_seen e) ?c")
    case None
    with x show ?thesis by simp
  next
    case (Some oe)
    obtain z e where oe: "oe = (z, e)" by (cases oe)
    have "z \<noteq> x"
    proof
      assume "z = x"
      then have "length ?c = Suc (younger x t0 ?c)"
        using younger_oldest [OF wf _ x] Some oe by simp
      with y room that show False by simp
    qed
    moreover have "younger x t0 (hm_remove z ?c) \<le> younger x t0 ?c"
      by (simp add: younger_def length_filter_hm_remove)
    ultimately show ?thesis
      using Some oe x y by (simp add: remove_oldest_def)
  qed
  show "hm_get (make_room r (seen_packets r) now) x = Some \<lparr>first_seen = t0\<rparr>"
    using keep x rem by (simp add: make_room_def Let_def remembers_def)
  show "younger x t0 (make_room r (seen_packets r) now) \<le> k"
    using keep y rem by (simp add: make_room_def Let_def remembers_def)
qed

lemma remembers_duplicate:
  assumes "remembers x t0 k r" and "enabled (dedup_config r)"
    and "now - t0 < ttl (dedup_config r)"
  shows "is_duplicate now r x = (True, r)"
  using assms by (simp add: remembers_def is_duplicate_def fresh_at_def)

lemma remembers_step:
  assumes rem: "remembers x t0 k r" and en: "enabled (dedup_config r)"
    and room: "Suc k < max_entries (dedup_config r)" and fresh: "now - t0 < ttl (dedup_config r)"
  shows "remembers x t0 (Suc k) (snd (is_duplicate now r pid))"
proof (cases "fst (is_duplicate now r pid) \<or> pid = x")
  case True
  then have "snd (is_duplicate now r pid) = r"
    using remembers_duplicate [OF rem en fresh] by (auto simp: is_duplicate_def Let_def split: if_splits)
  with rem show ?thesis by (simp add: remembers_def)
next
  case False
  let ?c = "make_room r (seen_packets r) now"
  have "younger x t0 (hm_insert pid \<lparr>first_seen = now\<rparr> ?c) \<le> Suc (younger x t0 ?c)"
    by (simp add: younger_def length_filter_hm_insert)
  with False en rem remembers_make_room [OF rem room fresh] show ?thesis
    by (auto simp: remembers_def is_duplicate_def Let_def split: if_splits)
qed

lemma remembers_route_all:
  assumes "remembers x t0 k r" and "enabled (dedup_config r)"
    and "k + length evs < max_entries (dedup_config r)"
    and "\<forall>(now, e) \<in> set evs. now - t0 < ttl (dedup_config r)"
  shows "remembers x t0 (k + length evs) (route_all evs r)"
  using assms
proof (induction evs arbitrary: r k)
  case (Cons ev evs)
  obtain now p st n where ev: "ev = (now, p, st, n)" by (cases ev)
  have "remembers x t0 (Suc k) (snd (is_duplicate now r (packet_id p)))"
    using Cons.prems ev by (intro remembers_step) auto
  then show ?case
    using Cons.IH [of "Suc k" "snd (is_duplicate now r (packet_id p))"] Cons.prems ev
    by (simp add: route_all_def)
qed (simp add: route_all_def)

lemma remembers_first:
  assumes "dedup_inv r" and "enabled (dedup_config r)"
    and "\<forall>e \<in> snd ` set (seen_packets r). first_seen e < t0" and "\<not> fst (is_duplicate t0 r x)"
  shows "remembers x t0 0 (snd (is_duplicate t0 r x))"
proof -
  let ?c = "make_room r (seen_packets r) t0"
  have sub: "set ?c \<subseteq> set (seen_packets r)"
    by (auto simp: make_room_def evict_expired_def remove_oldest_def hm_retain_def AList.delete_eq Let_def
        split: option.splits if_splits)
  have "\<not> (y \<noteq> x \<and> t0 \<le> first_seen e)" if "(y, e) \<in> set (hm_insert x \<lparr>first_seen = t0\<rparr> ?c)" for y e
  proof -
    have "(y, e) = (x, \<lparr>first_seen = t0\<rparr>) \<or> (y, e) \<in> set (seen_packets r)"
      using set_hm_insert that sub by fast
    then show ?thesis
      using assms(3) by force
  qed
  then have "filter (\<lambda>(y, e). y \<noteq> x \<and> t0 \<le> first_seen e) (hm_insert x \<lparr>first_seen = t0\<rparr> ?c) = []"
    unfolding filter_empty_conv by blast
  then show ?thesis
    using assms by (auto simp: remembers_def younger_def dedup_inv_def is_duplicate_def Let_def split: if_splits)
qed

section \<open>Decisions\<close>

text \<open>Whether a decision has the packet processed on this node.\<close>

fun consumes :: "RoutingDecision \<Rightarrow> bool" where
  "consumes Consume = True"
| "consumes (ConsumeAndForward h) = True"
| "consumes (ConsumeAndForwardMulticast hs) = True"
| "consumes (Forward h) = False"
| "consumes (ForwardMulticast hs) = False"
| "consumes Drop = False"

text \<open>The peers that a packet of a direction may be handed to.\<close>

definition peers_for :: "DataDirection \<Rightarrow> 'b TopologyState \<Rightarrow> string set" where
  "peers_for dir st =
     (case dir of
        Upward \<Rightarrow> sp_node_id ` set_option (selected_peer st)
      | Downward \<Rightarrow> fst ` set (linked_peers st)
      | Lateral \<Rightarrow> fst ` set (lateral_peers st))"

text \<open>
  A journey: the packet is routed on each node in turn, every one of them
  forwards it, and its hop count is incremented on the way to the next.
\<close>

fun travels :: "(instant \<times> SelectiveRouter \<times> 'b TopologyState \<times> string) list \<Rightarrow> DataPacket \<Rightarrow> bool" where
  "travels [] p \<longleftrightarrow> True"
| "travels ((now, r, st, me) # nodes) p \<longleftrightarrow>
     targets_of (fst (route now r p st me)) \<noteq> [] \<and> travels nodes (snd (increment_hop p))"

lemma hm_contains_in_keys: "hm_contains m k \<longleftrightarrow> k \<in> fst ` set m"
  by (simp add: hm_contains_def map_of_eq_None_iff)

lemma next_hops_not_Nil: "should_forward p st \<Longrightarrow> next_hops p st \<noteq> []"
  by (cases "pkt_direction p"; cases "destination_node_id p")
    (auto simp: should_forward_def next_hops_def hops_of_def)

lemma set_next_hops: "set (next_hops p st) \<subseteq> peers_for (pkt_direction p) st"
  by (cases "pkt_direction p"; cases "destination_node_id p")
    (auto simp: next_hops_def hops_of_def peers_for_def hm_contains_in_keys split: option.splits)

lemma distinct_next_hops:
  "hm_wf (linked_peers st) \<Longrightarrow> hm_wf (lateral_peers st) \<Longrightarrow> distinct (next_hops p st)"
  by (cases "pkt_direction p"; cases "destination_node_id p")
    (auto simp: next_hops_def hops_of_def hm_wf_def split: option.splits)

lemma singleton_list: "length xs = 1 \<Longrightarrow> [xs ! 0] = xs"
  by (cases xs) auto

lemma decide_consumes: "consumes (decide p st me) \<longleftrightarrow> should_consume p st me"
  by (simp add: decide_def Let_def)

lemma decide_targets:
  "targets_of (decide p st me) = (if should_forward p st then next_hops p st else [])"
  using next_hops_not_Nil [of p st] singleton_list [of "next_hops p st"]
  by (simp add: decide_def Let_def)

lemma forwarded_below_max:
  "targets_of (fst (route now r p st me)) \<noteq> [] \<Longrightarrow> hop_count p < max_hops p"
  by (auto simp: route_def at_max_hops_def split: prod.splits if_splits)

lemma increment_hop_below_max:
  assumes "hop_count p < max_hops p"
  shows "unat (hop_count (snd (increment_hop p))) = Suc (unat (hop_count p))"
    and "max_hops (snd (increment_hop p)) = max_hops p"
proof -
  have "unat (hop_count p) < unat (max_hops p)"
    using assms by (simp add: word_less_nat_alt)
  then have "Suc (unat (hop_count p)) < 65536"
    using unat_u16_bound [of "max_hops p"] by linarith
  then show "unat (hop_count (snd (increment_hop p))) = Suc (unat (hop_count p))"
    by (simp add: increment_hop_def Let_def unat_word_ariths(1))
qed (simp add: increment_hop_def Let_def)

section \<open>Aggregation\<close>

fun add_all ::
  "string \<Rightarrow> DataPacket list \<Rightarrow> 'j MeshRouter \<Rightarrow> DataPacket option list \<times> 'j MeshRouter" where
  "add_all squad [] mr = ([], mr)"
| "add_all squad (p # ps) mr =
     (let (x, mr') = add_for_aggregation mr p squad; (xs, mr'') = add_all squad ps mr'
      in (x # xs, mr''))"

lemma add_all_append:
  "add_all squad (ps @ qs) mr =
     (let (xs, mr') = add_all squad ps mr; (ys, mr'') = add_all squad qs mr' in (xs @ ys, mr''))"
  by (induction ps arbitrary: mr) (simp_all add: Let_def case_prod_beta)

lemma add_for_aggregation_config [simp]:
  "config (snd (add_for_aggregation mr p squad)) = config mr"
  "mr_aggregator (snd (add_for_aggregation mr p squad)) = mr_aggregator mr"
  by (simp_all add: add_for_aggregation_def Let_def split: sum.splits)

lemma add_all_config [simp]:
  "config (snd (add_all squad ps mr)) = config mr"
  "mr_aggregator (snd (add_all squad ps mr)) = mr_aggregator mr"
  by (induction ps arbitrary: mr) (simp_all add: Let_def case_prod_beta)

lemma length_add_all [simp]: "length (fst (add_all squad ps mr)) = length ps"
  by (induction ps arbitrary: mr) (simp_all add: Let_def case_prod_beta)

definition aggregate_ok :: "'j MeshRouter \<Rightarrow> string \<Rightarrow> DataPacket list \<Rightarrow> DataPacket option" where
  "aggregate_ok mr squad ps =
     (case mr_aggregator mr squad (node_id (config mr)) ps of Inr a \<Rightarrow> Some a | Inl e \<Rightarrow> None)"

lemma add_for_aggregation_step:
  assumes "auto_aggregate (config mr)"
  shows "add_for_aggregation mr p squad =
     (let pending = pending_aggregation mr @ [p] in
      if aggregation_threshold (config mr) \<le> length pending
      then (aggregate_ok mr squad pending, mr\<lparr>pending_aggregation := []\<rparr>)
      else (None, mr\<lparr>pending_aggregation := pending\<rparr>))"
  using assms by (simp add: add_for_aggregation_def aggregate_ok_def Let_def split: sum.splits)

lemma add_all_pending:
  assumes "auto_aggregate (config mr)" and th: "aggregation_threshold (config mr) = Suc k"
    and "pending_aggregation mr = []"
  shows "pending_aggregation (snd (add_all squad ps mr)) = drop (length ps - length ps mod Suc k) ps"
proof (induction ps rule: rev_induct)
  case (snoc p ps)
  let ?n = "length ps" and ?mr = "snd (add_all squad ps mr)"
  have le: "?n mod Suc k \<le> k"
    using mod_less_divisor [of "Suc k" ?n] by linarith
  then have "Suc ?n mod Suc k = (if ?n mod Suc k = k then 0 else Suc (?n mod Suc k))"
    by (simp add: mod_Suc)
  moreover have "k \<le> ?n mod Suc k \<longleftrightarrow> ?n mod Suc k = k"
    using le by linarith
  ultimately show ?case
    using snoc assms
    by (auto simp: add_all_append Let_def case_prod_beta add_for_aggregation_step)
qed (simp add: assms)

section \<open>Properties\<close>

text \<open>
  The decision of the router, on every branch: a packet that is a
  duplicate, is at its hop limit or comes from this very node is dropped; any
  other packet is consumed exactly by the consumption rule and handed exactly
  to the next hops, when the forwarding rule holds.  In particular the code's
  "no next hop" branches are never taken.
\<close>

lemma route_spec:
  "let d = fst (route now r p st me) in
   if fst (is_duplicate now r (packet_id p)) \<or> max_hops p \<le> hop_count p \<or> source_node_id p = me
   then d = Drop
   else consumes d = should_consume p st me
        \<and> targets_of d = (if should_forward p st then next_hops p st else [])"
  by (simp add: route_def at_max_hops_def decide_consumes decide_targets Let_def case_prod_beta)

text \<open>
  A packet is only ever handed to peers of its direction: upward to the
  selected parent, downward to linked children, lateral to lateral peers, each
  at most once, and never when it is at its hop limit.
\<close>

lemma route_targets_known:
  assumes "hm_wf (linked_peers st)" and "hm_wf (lateral_peers st)"
  shows "let ts = targets_of (fst (route now r p st me)) in
     set ts \<subseteq> peers_for (pkt_direction p) st \<and> distinct ts \<and> (ts \<noteq> [] \<longrightarrow> hop_count p < max_hops p)"
  using set_next_hops [of p st] distinct_next_hops [OF assms, of p] forwarded_below_max [of now r p st me]
  by (auto simp: route_def decide_targets Let_def case_prod_beta)


text \<open>
  Forwarding ends: whatever the routers and topologies on the way, a
  packet is forwarded at most as often as its hop limit exceeds its hop count,
  so no routing loop carries it for ever.  The 16-bit counter never wraps on
  such a journey.
\<close>

lemma travels_bounded:
  assumes "travels nodes p"
  shows "length nodes \<le> unat (max_hops p) - unat (hop_count p)"
  using assms
proof (induction nodes p rule: travels.induct)
  case (2 now r st me nodes p)
  then have "hop_count p < max_hops p"
    using forwarded_below_max by auto
  with 2 show ?case
    using increment_hop_below_max [of p] by (auto simp: word_less_nat_alt)
qed simp


lemma dedup_cache_bounded_aux:
  "dedup_cache_size (route_all evs (router_new_with_deduplication cfg)) \<le> max 1 (max_entries cfg)
   \<and> hm_wf (seen_packets (route_all evs (router_new_with_deduplication cfg)))"
proof -
  have "dedup_inv (route_all evs (router_new_with_deduplication cfg))"
    by (rule dedup_inv_route_all) (simp add: dedup_inv_def router_new_with_deduplication_def)
  then show ?thesis
    by (simp add: dedup_inv_def dedup_cache_size_def dedup_config_route_all router_new_with_deduplication_def)
qed

text \<open>
  C37.  Deduplication: once a packet was accepted at time \<open>t0\<close>, later than every entry the
  cache then held, a packet with its
  identifier is dropped for the whole time to live, through any sequence of
  other routing calls that is shorter than the capacity of the cache.  The
  cache of a new router never holds more than its configured number of entries
  (one, if it is configured to hold none), and one entry per identifier, after
  any sequence of routing calls.
\<close>

theorem duplicate_dropped_within_ttl:
  assumes "dedup_inv r" and en: "enabled (dedup_config r)"
    and older: "\<forall>e \<in> snd ` set (seen_packets r). first_seen e < t0"
    and new: "\<not> fst (is_duplicate t0 r (packet_id p))"
    and short: "length evs < max_entries (dedup_config r)"
    and soon: "\<forall>(now, e) \<in> set evs. now - t0 < ttl (dedup_config r)" "t1 - t0 < ttl (dedup_config r)"
    and same: "packet_id q = packet_id p"
  shows "fst (route t1 (route_all evs (snd (route t0 r p st0 me))) q st1 me) = Drop \<and>
    dedup_cache_size (route_all evs' (router_new_with_deduplication cfg)) \<le> max 1 (max_entries cfg) \<and>
    hm_wf (seen_packets (route_all evs' (router_new_with_deduplication cfg)))"
proof -
  let ?r0 = "snd (is_duplicate t0 r (packet_id p))"
  have "remembers (packet_id p) t0 0 ?r0"
    using assms by (intro remembers_first) auto
  then have rem: "remembers (packet_id p) t0 (0 + length evs) (route_all evs ?r0)"
    using en short soon by (intro remembers_route_all) auto
  have "is_duplicate t1 (route_all evs ?r0) (packet_id p) = (True, route_all evs ?r0)"
    using en soon by (intro remembers_duplicate [OF rem]) (auto simp: dedup_config_route_all)
  then show ?thesis
    using dedup_cache_bounded_aux [of evs' cfg] by (simp add: route_duplicate same)
qed

theorem duplicate_dropped_within_ttl_witness:
  "let r = router_new_with_deduplication dedup_default;
       p = packet_telemetry ''id-1'' ''a'' []; q = packet_telemetry ''id-2'' ''a'' [];
       st = topology_default :: unit TopologyState
   in fst (route 7 (route_all [(6, q, st, ''me'')] (snd (route 5 r p st ''me''))) p st ''me'') = Drop"
proof -
  let ?r = "router_new_with_deduplication dedup_default"
  let ?p = "packet_telemetry ''id-1'' ''a'' []" and ?q = "packet_telemetry ''id-2'' ''a'' []"
  let ?st = "topology_default :: unit TopologyState"
  show ?thesis
    unfolding Let_def
    by (rule duplicate_dropped_within_ttl [of ?r 5 ?p "[(6, ?q, ?st, ''me'')]" 7 ?p, THEN conjunct1])
      (simp_all add: router_new_with_deduplication_def dedup_default_def dedup_inv_def is_duplicate_def)
qed

text \<open>
  The aggregation buffer: fed any packets from empty, it stays below the
  threshold, holds exactly the packets since the last full batch, and hands the
  aggregator each batch of threshold size once, in order.  A batch that the
  aggregator refuses yields nothing.
\<close>

lemma aggregation_batches:
  assumes "auto_aggregate (config mr)" and th: "aggregation_threshold (config mr) = Suc k"
    and "pending_aggregation mr = []"
  shows "let (outs, mr') = add_all squad ps mr in
     length (pending_aggregation mr') < Suc k
     \<and> pending_aggregation mr' = drop (length ps - length ps mod Suc k) ps
     \<and> length outs = length ps
     \<and> (\<forall>i < length ps. outs ! i =
          (if Suc i mod Suc k = 0
           then aggregate_ok mr squad (take (Suc k) (drop (i - k) ps)) else None))"
proof -
  have "fst (add_all squad ps mr) ! i =
          (if Suc i mod Suc k = 0
           then aggregate_ok mr squad (take (Suc k) (drop (i - k) ps)) else None)"
    if i: "i < length ps" for i
  proof -
    let ?qs = "take i ps" and ?mr = "snd (add_all squad (take i ps) mr)"
    have ps: "ps = ?qs @ ps ! i # drop (Suc i) ps"
      using i by (rule id_take_nth_drop)
    have nth: "fst (add_all squad ps mr) ! i = fst (add_for_aggregation ?mr (ps ! i) squad)"
      by (subst ps) (use i in \<open>simp add: add_all_append Let_def case_prod_beta nth_append\<close>)
    have pend: "pending_aggregation ?mr = drop (i - i mod Suc k) ?qs"
      using add_all_pending [OF assms, of squad ?qs] i by simp
    have le: "i mod Suc k \<le> k"
      using mod_less_divisor [of "Suc k" i] by linarith
    have "drop (i - k) (take (Suc i) ps) = take (Suc k) (drop (i - k) ps)" if "k \<le> i"
      using that by (simp add: drop_take Suc_diff_le)
    moreover have "take (Suc i) ps = ?qs @ [ps ! i]"
      using i by (rule take_Suc_conv_app_nth)
    moreover have "Suc i mod Suc k = 0 \<longleftrightarrow> i mod Suc k = k" "i mod Suc k = k \<Longrightarrow> k \<le> i"
      using le mod_less_eq_dividend [of i "Suc k"] by (auto simp: mod_Suc)
    ultimately show ?thesis
      using nth pend le i assms
      by (auto simp: add_for_aggregation_step Let_def aggregate_ok_def)
  qed
  then show ?thesis
    using add_all_pending [OF assms, of squad ps] mod_less_divisor [of "Suc k" "length ps"]
    by (auto simp: case_prod_beta)
qed


end
