(* ===== verification/Policies.thy ===== *)
theory Policies
  imports Prelude
begin

text \<open>
  Per-collection policies: the QoS classes of \<^verbatim>\<open>src/qos/mod.rs\<close>, the deletion
  policies and their registry of \<^verbatim>\<open>src/qos/deletion.rs\<close>, and the sync modes and
  their registry of \<^verbatim>\<open>src/qos/sync_mode.rs\<close>.  Durations are nanoseconds.  The
  two registries provide one interface, a table of overrides over a default,
  whose clients are proved once in its locale.
\<close>

section \<open>QoS classes\<close>

datatype QoSClass = Critical | High | Normal | Low | Bulk

fun as_u8 :: "QoSClass \<Rightarrow> u8" where
  "as_u8 Critical = 1"
| "as_u8 High = 2"
| "as_u8 Normal = 3"
| "as_u8 Low = 4"
| "as_u8 Bulk = 5"

definition can_preempt :: "QoSClass \<Rightarrow> QoSClass \<Rightarrow> bool" where
  "can_preempt c other \<longleftrightarrow> as_u8 c < as_u8 other"

definition is_critical :: "QoSClass \<Rightarrow> bool" where
  "is_critical c \<longleftrightarrow> c = Critical"

fun bandwidth_allocation_percent :: "QoSClass \<Rightarrow> u8" where
  "bandwidth_allocation_percent Critical = 40"
| "bandwidth_allocation_percent High = 30"
| "bandwidth_allocation_percent Normal = 20"
| "bandwidth_allocation_percent Low = 8"
| "bandwidth_allocation_percent Bulk = 2"

definition qos_for_collection :: "string \<Rightarrow> QoSClass" where
  "qos_for_collection c =
     (if c \<in> {''commands'', ''contact_reports'', ''alerts''} then Critical
      else if c \<in> {''cells'', ''nodes'', ''audit_logs''} then High
      else if c \<in> {''beacons'', ''platforms'', ''tracks''} then Normal
      else if c \<in> {''node_positions'', ''capabilities'', ''node_states''} then Low
      else Bulk)"

definition all_by_priority :: "QoSClass list" where
  "all_by_priority = [Critical, High, Normal, Low, Bulk]"

text \<open>The order of \<^verbatim>\<open>Ord for QoSClass\<close> is reversed: Critical is the greatest.\<close>

instantiation QoSClass :: linorder
begin

definition less_eq_QoSClass :: "QoSClass \<Rightarrow> QoSClass \<Rightarrow> bool" where
  "less_eq_QoSClass a b \<longleftrightarrow> as_u8 b \<le> as_u8 a"

definition less_QoSClass :: "QoSClass \<Rightarrow> QoSClass \<Rightarrow> bool" where
  "less_QoSClass a b \<longleftrightarrow> as_u8 b < as_u8 a"

instance
proof
  fix x y :: QoSClass
  show "x \<le> y \<Longrightarrow> y \<le> x \<Longrightarrow> x = y"
    by (cases x; cases y) (simp_all add: less_eq_QoSClass_def word_le_nat_alt)
qed (auto simp: less_eq_QoSClass_def less_QoSClass_def)

end

record QoSPolicy =
  base_class :: QoSClass
  max_latency_ms :: "u64 option"
  max_size_bytes :: "nat option"
  ttl_seconds :: "u64 option"
  retention_priority :: u8
  preemptable :: bool

definition qos_policy_default :: QoSPolicy where
  "qos_policy_default = \<lparr>base_class = Normal, max_latency_ms = Some 60000, max_size_bytes = None,
     ttl_seconds = None, retention_priority = 3, preemptable = True\<rparr>"

definition qos_policy_critical :: QoSPolicy where
  "qos_policy_critical = \<lparr>base_class = Critical, max_latency_ms = Some 500,
     max_size_bytes = Some (64 * 1024), ttl_seconds = None, retention_priority = 5,
     preemptable = False\<rparr>"

definition qos_policy_high :: QoSPolicy where
  "qos_policy_high = \<lparr>base_class = High, max_latency_ms = Some 5000,
     max_size_bytes = Some (10 * 1024 * 1024), ttl_seconds = Some 3600, retention_priority = 4,
     preemptable = True\<rparr>"

definition qos_policy_low :: QoSPolicy where
  "qos_policy_low = \<lparr>base_class = Low, max_latency_ms = Some 300000, max_size_bytes = None,
     ttl_seconds = Some 86400, retention_priority = 2, preemptable = True\<rparr>"

definition qos_policy_bulk :: QoSPolicy where
  "qos_policy_bulk = \<lparr>base_class = Bulk, max_latency_ms = None, max_size_bytes = None,
     ttl_seconds = Some 604800, retention_priority = 1, preemptable = True\<rparr>"

definition exceeds_latency :: "QoSPolicy \<Rightarrow> u64 \<Rightarrow> bool" where
  "exceeds_latency p latency = (case max_latency_ms p of Some m \<Rightarrow> m < latency | None \<Rightarrow> False)"

definition exceeds_size :: "QoSPolicy \<Rightarrow> nat \<Rightarrow> bool" where
  "exceeds_size p size_bytes = (case max_size_bytes p of Some m \<Rightarrow> m < size_bytes | None \<Rightarrow> False)"

section \<open>Deletion policies\<close>

datatype DeletionPolicy =
  ImplicitTTL duration "string option"
| TombstonePolicy duration bool
| SoftDelete bool
| Immutable

definition from_secs :: "nat \<Rightarrow> duration" where
  "from_secs s = s * 10 ^ 9"

definition is_implicit_ttl :: "DeletionPolicy \<Rightarrow> bool" where
  "is_implicit_ttl p = (case p of ImplicitTTL _ _ \<Rightarrow> True | _ \<Rightarrow> False)"

definition is_tombstone :: "DeletionPolicy \<Rightarrow> bool" where
  "is_tombstone p = (case p of TombstonePolicy _ _ \<Rightarrow> True | _ \<Rightarrow> False)"

definition is_soft_delete :: "DeletionPolicy \<Rightarrow> bool" where
  "is_soft_delete p = (case p of SoftDelete _ \<Rightarrow> True | _ \<Rightarrow> False)"

definition is_immutable :: "DeletionPolicy \<Rightarrow> bool" where
  "is_immutable p = (case p of Immutable \<Rightarrow> True | _ \<Rightarrow> False)"

definition implicit_ttl :: "DeletionPolicy \<Rightarrow> duration option" where
  "implicit_ttl p = (case p of ImplicitTTL t _ \<Rightarrow> Some t | _ \<Rightarrow> None)"

definition tombstone_ttl :: "DeletionPolicy \<Rightarrow> duration option" where
  "tombstone_ttl p = (case p of TombstonePolicy t _ \<Rightarrow> Some t | _ \<Rightarrow> None)"

definition delete_wins :: "DeletionPolicy \<Rightarrow> bool option" where
  "delete_wins p = (case p of TombstonePolicy _ w \<Rightarrow> Some w | _ \<Rightarrow> None)"

definition deletion_default_for_collection :: "string \<Rightarrow> DeletionPolicy" where
  "deletion_default_for_collection c =
     (if c \<in> {''beacons'', ''platforms''} then ImplicitTTL (from_secs 3600) (Some ''node_id'')
      else if c = ''tracks'' then TombstonePolicy (from_secs 3600) True
      else if c \<in> {''nodes'', ''cells''} then TombstonePolicy (from_secs 86400) True
      else if c = ''alerts'' then TombstonePolicy (from_secs 14400) False
      else if c \<in> {''contact_reports'', ''commands'', ''audit_logs''} then SoftDelete False
      else SoftDelete False)"

definition deletion_policy_default :: DeletionPolicy where
  "deletion_policy_default = SoftDelete False"

record DeleteResult =
  deleted :: bool
  tombstone_id :: "string option"
  expires_at :: "int option"
  dr_policy :: DeletionPolicy

definition result_tombstoned :: "string \<Rightarrow> int \<Rightarrow> DeletionPolicy \<Rightarrow> DeleteResult" where
  "result_tombstoned tid e p =
     \<lparr>deleted = True, tombstone_id = Some tid, expires_at = Some e, dr_policy = p\<rparr>"

definition result_soft_deleted :: "DeletionPolicy \<Rightarrow> DeleteResult" where
  "result_soft_deleted p = \<lparr>deleted = True, tombstone_id = None, expires_at = None, dr_policy = p\<rparr>"

definition result_immutable :: DeleteResult where
  "result_immutable =
     \<lparr>deleted = False, tombstone_id = None, expires_at = None, dr_policy = Immutable\<rparr>"

definition result_not_found :: "DeletionPolicy \<Rightarrow> DeleteResult" where
  "result_not_found p = \<lparr>deleted = False, tombstone_id = None, expires_at = None, dr_policy = p\<rparr>"

record DeletionPolicyRegistry =
  dpr_overrides :: "(string, DeletionPolicy) hmap"

definition deletion_registry_new :: DeletionPolicyRegistry where
  "deletion_registry_new = \<lparr>dpr_overrides = []\<rparr>"

definition deletion_defaults :: "(string \<times> DeletionPolicy) list" where
  "deletion_defaults =
     [(''beacons'', ImplicitTTL (from_secs 3600) (Some ''node_id'')),
      (''platforms'', ImplicitTTL (from_secs 3600) (Some ''node_id'')),
      (''tracks'', TombstonePolicy (from_secs 3600) True),
      (''nodes'', TombstonePolicy (from_secs 86400) True),
      (''cells'', TombstonePolicy (from_secs 86400) True),
      (''alerts'', TombstonePolicy (from_secs 14400) False),
      (''contact_reports'', SoftDelete False),
      (''commands'', SoftDelete False),
      (''audit_logs'', SoftDelete False)]"

definition deletion_registry_with_defaults :: DeletionPolicyRegistry where
  "deletion_registry_with_defaults =
     deletion_registry_new\<lparr>dpr_overrides :=
       fold (\<lambda>(c, p) m. hm_insert c p m) deletion_defaults (dpr_overrides deletion_registry_new)\<rparr>"

definition deletion_registry_get :: "DeletionPolicyRegistry \<Rightarrow> string \<Rightarrow> DeletionPolicy" where
  "deletion_registry_get r c =
     (case hm_get (dpr_overrides r) c of
        Some p \<Rightarrow> p | None \<Rightarrow> deletion_default_for_collection c)"

definition deletion_registry_set ::
  "DeletionPolicyRegistry \<Rightarrow> string \<Rightarrow> DeletionPolicy \<Rightarrow> DeletionPolicyRegistry" where
  "deletion_registry_set r c p = r\<lparr>dpr_overrides := hm_insert c p (dpr_overrides r)\<rparr>"

definition deletion_registry_remove ::
  "DeletionPolicyRegistry \<Rightarrow> string \<Rightarrow> DeletionPolicy option \<times> DeletionPolicyRegistry" where
  "deletion_registry_remove r c =
     (hm_get (dpr_overrides r) c, r\<lparr>dpr_overrides := hm_remove c (dpr_overrides r)\<rparr>)"

definition allows_delete :: "DeletionPolicyRegistry \<Rightarrow> string \<Rightarrow> bool" where
  "allows_delete r c \<longleftrightarrow> \<not> is_immutable (deletion_registry_get r c)"

definition uses_tombstones :: "DeletionPolicyRegistry \<Rightarrow> string \<Rightarrow> bool" where
  "uses_tombstones r c = is_tombstone (deletion_registry_get r c)"

definition uses_soft_delete :: "DeletionPolicyRegistry \<Rightarrow> string \<Rightarrow> bool" where
  "uses_soft_delete r c = is_soft_delete (deletion_registry_get r c)"

section \<open>Sync modes\<close>

datatype SyncMode = FullHistory | LatestOnly | WindowedHistory u64

definition mode_is_full_history :: "SyncMode \<Rightarrow> bool" where
  "mode_is_full_history m = (case m of FullHistory \<Rightarrow> True | _ \<Rightarrow> False)"

definition mode_is_latest_only :: "SyncMode \<Rightarrow> bool" where
  "mode_is_latest_only m = (case m of LatestOnly \<Rightarrow> True | _ \<Rightarrow> False)"

definition is_windowed :: "SyncMode \<Rightarrow> bool" where
  "is_windowed m = (case m of WindowedHistory _ \<Rightarrow> True | _ \<Rightarrow> False)"

definition window_seconds :: "SyncMode \<Rightarrow> u64 option" where
  "window_seconds m = (case m of WindowedHistory w \<Rightarrow> Some w | _ \<Rightarrow> None)"

definition sync_default_for_collection :: "string \<Rightarrow> SyncMode" where
  "sync_default_for_collection c =
     (if c \<in> {''beacons'', ''platforms'', ''tracks'', ''nodes'', ''cells''} then LatestOnly
      else if c \<in> {''node_states'', ''squad_summaries'', ''platoon_summaries'', ''company_summaries''}
      then LatestOnly
      else if c \<in> {''contact_reports'', ''commands'', ''audit_logs'', ''alerts''} then FullHistory
      else if c \<in> {''track_history'', ''capability_history''} then WindowedHistory 300
      else FullHistory)"

record SyncModeRegistry =
  smr_overrides :: "(string, SyncMode) hmap"

definition sync_registry_new :: SyncModeRegistry where
  "sync_registry_new = \<lparr>smr_overrides = []\<rparr>"

definition sync_defaults :: "(string \<times> SyncMode) list" where
  "sync_defaults =
     [(''beacons'', LatestOnly), (''platforms'', LatestOnly), (''tracks'', LatestOnly),
      (''nodes'', LatestOnly), (''cells'', LatestOnly), (''node_states'', LatestOnly),
      (''squad_summaries'', LatestOnly), (''platoon_summaries'', LatestOnly),
      (''company_summaries'', LatestOnly), (''contact_reports'', FullHistory),
      (''commands'', FullHistory), (''audit_logs'', FullHistory), (''alerts'', FullHistory),
      (''track_history'', WindowedHistory 300), (''capability_history'', WindowedHistory 300)]"

definition sync_registry_with_defaults :: SyncModeRegistry where
  "sync_registry_with_defaults =
     sync_registry_new\<lparr>smr_overrides :=
       fold (\<lambda>(c, m) t. hm_insert c m t) sync_defaults (smr_overrides sync_registry_new)\<rparr>"

definition sync_registry_get :: "SyncModeRegistry \<Rightarrow> string \<Rightarrow> SyncMode" where
  "sync_registry_get r c =
     (case hm_get (smr_overrides r) c of Some m \<Rightarrow> m | None \<Rightarrow> sync_default_for_collection c)"

definition sync_registry_set :: "SyncModeRegistry \<Rightarrow> string \<Rightarrow> SyncMode \<Rightarrow> SyncModeRegistry" where
  "sync_registry_set r c m = r\<lparr>smr_overrides := hm_insert c m (smr_overrides r)\<rparr>"

definition sync_registry_remove ::
  "SyncModeRegistry \<Rightarrow> string \<Rightarrow> SyncMode option \<times> SyncModeRegistry" where
  "sync_registry_remove r c =
     (hm_get (smr_overrides r) c, r\<lparr>smr_overrides := hm_remove c (smr_overrides r)\<rparr>)"

definition all_overrides :: "SyncModeRegistry \<Rightarrow> (string, SyncMode) hmap" where
  "all_overrides r = smr_overrides r"

definition registry_is_latest_only :: "SyncModeRegistry \<Rightarrow> string \<Rightarrow> bool" where
  "registry_is_latest_only r c = mode_is_latest_only (sync_registry_get r c)"

definition registry_is_full_history :: "SyncModeRegistry \<Rightarrow> string \<Rightarrow> bool" where
  "registry_is_full_history r c = mode_is_full_history (sync_registry_get r c)"

section \<open>The registry interface\<close>

datatype 'p reg_op = RegSet string 'p | RegRemove string

text \<open>What a sequence of calls should leave for collection \<open>c\<close>: the last write, or the default.\<close>

fun reg_effect :: "(string \<Rightarrow> 'p) \<Rightarrow> string \<Rightarrow> 'p reg_op list \<Rightarrow> 'p \<Rightarrow> 'p" where
  "reg_effect dflt c [] cur = cur"
| "reg_effect dflt c (RegSet c' p # ops) cur = reg_effect dflt c ops (if c' = c then p else cur)"
| "reg_effect dflt c (RegRemove c' # ops) cur = reg_effect dflt c ops (if c' = c then dflt c else cur)"

fun run_reg_ops ::
  "('r \<Rightarrow> string \<Rightarrow> 'p \<Rightarrow> 'r) \<Rightarrow> ('r \<Rightarrow> string \<Rightarrow> 'p option \<times> 'r) \<Rightarrow> 'p reg_op list \<Rightarrow> 'r \<Rightarrow> 'r" where
  "run_reg_ops st rm [] r = r"
| "run_reg_ops st rm (RegSet c p # ops) r = run_reg_ops st rm ops (st r c p)"
| "run_reg_ops st rm (RegRemove c # ops) r = run_reg_ops st rm ops (snd (rm r c))"

locale override_table =
  fixes get :: "'r \<Rightarrow> string \<Rightarrow> 'p"
    and put :: "'r \<Rightarrow> string \<Rightarrow> 'p \<Rightarrow> 'r"
  assumes get_put: "get (put r c p) c' = (if c = c' then p else get r c')"
begin

lemma get_puts:
  "get (fold (\<lambda>(c, p) r. put r c p) cps r) c =
     (case map_of (rev cps) c of Some p \<Rightarrow> p | None \<Rightarrow> get r c)"
  by (induction cps arbitrary: r) (auto simp: get_put map_add_def split: option.splits)

end

locale override_registry = override_table get put
  for get :: "'r \<Rightarrow> string \<Rightarrow> 'p" and put :: "'r \<Rightarrow> string \<Rightarrow> 'p \<Rightarrow> 'r" +
  fixes remove :: "'r \<Rightarrow> string \<Rightarrow> 'p option \<times> 'r"
    and dflt :: "string \<Rightarrow> 'p"
  assumes get_remove: "get (snd (remove r c)) c' = (if c = c' then dflt c' else get r c')"
begin

lemma get_run_reg_ops:
  "get (run_reg_ops put remove ops r) c = reg_effect dflt c ops (get r c)"
proof (induction ops arbitrary: r)
  case (Cons op ops)
  then show ?case
    by (cases op) (simp_all add: get_put get_remove)
qed simp

end

interpretation dreg: override_registry deletion_registry_get deletion_registry_set
  deletion_registry_remove deletion_default_for_collection
  by unfold_locales
    (auto simp: deletion_registry_get_def deletion_registry_set_def deletion_registry_remove_def)

interpretation sreg: override_registry sync_registry_get sync_registry_set
  sync_registry_remove sync_default_for_collection
  by unfold_locales
    (auto simp: sync_registry_get_def sync_registry_set_def sync_registry_remove_def)

lemma deletion_with_defaults_get:
  "deletion_registry_get deletion_registry_with_defaults c = deletion_default_for_collection c"
  by (simp add: deletion_registry_get_def deletion_registry_with_defaults_def
      deletion_registry_new_def deletion_defaults_def deletion_default_for_collection_def)

lemma sync_with_defaults_get:
  "sync_registry_get sync_registry_with_defaults c = sync_default_for_collection c"
  by (simp add: sync_registry_get_def sync_registry_with_defaults_def sync_registry_new_def
      sync_defaults_def sync_default_for_collection_def)

section \<open>Properties\<close>

text \<open>
  Both registries answer the last write: after any sequence of calls that
  set and remove overrides, on an empty registry or on one pre-populated with
  the standard defaults, a lookup gives the policy last set for the collection,
  and the collection's default if there is none or it was removed.  The
  pre-populated registry and the empty one are therefore indistinguishable.
\<close>

lemma registries_answer_last_write:
  "deletion_registry_get (run_reg_ops deletion_registry_set deletion_registry_remove ops d0) c
     = reg_effect deletion_default_for_collection c ops (deletion_registry_get d0 c)
   \<and> sync_registry_get (run_reg_ops sync_registry_set sync_registry_remove ops' s0) c
     = reg_effect sync_default_for_collection c ops' (sync_registry_get s0 c)
   \<and> deletion_registry_get deletion_registry_with_defaults c = deletion_registry_get deletion_registry_new c
   \<and> sync_registry_get sync_registry_with_defaults c = sync_registry_get sync_registry_new c"
  by (simp add: dreg.get_run_reg_ops sreg.get_run_reg_ops deletion_with_defaults_get
      sync_with_defaults_get)
    (simp add: deletion_registry_get_def deletion_registry_new_def sync_registry_get_def
      sync_registry_new_def)

end
