(* ===== verification/Sync_Wire.thy ===== *)
theory Sync_Wire
  imports Tombstone_Wire
begin

text \<open>
  The document sync wire format of \<^verbatim>\<open>src/storage/automerge_sync.rs\<close>: message
  types, sync directions, batch entries and batches, the stream frames that the
  coordinator writes and the receiver that reads them.  The Automerge library
  is not part of the sources: its sync messages are a type parameter and its
  \<^verbatim>\<open>encode\<close> and \<^verbatim>\<open>decode\<close> are function arguments.  Batch creation times are
  arguments (the clock reading, in milliseconds).
\<close>

section \<open>Message types and directions\<close>

datatype SyncMessageType =
  DeltaSync | StateSnapshot | WindowedHistoryMsg | TombstoneMsg | TombstoneBatchMsg | TombstoneAck
| SyncBatchMsg | NegentropyInit | NegentropyResponse | NegentropyRequest

fun sync_type_byte :: "SyncMessageType \<Rightarrow> byte" where
  "sync_type_byte DeltaSync = 0x00"
| "sync_type_byte StateSnapshot = 0x01"
| "sync_type_byte WindowedHistoryMsg = 0x02"
| "sync_type_byte TombstoneMsg = 0x04"
| "sync_type_byte TombstoneBatchMsg = 0x05"
| "sync_type_byte TombstoneAck = 0x06"
| "sync_type_byte SyncBatchMsg = 0x07"
| "sync_type_byte NegentropyInit = 0x08"
| "sync_type_byte NegentropyResponse = 0x09"
| "sync_type_byte NegentropyRequest = 0x0A"

datatype SyncDirection = SyncUpward | SyncDownward | SyncLateral | SyncBroadcast

text \<open>\<^verbatim>\<open>doc_key.split(':').next()\<close>: the part before the first colon.\<close>

definition collection_from_doc_key :: "string \<Rightarrow> string" where
  "collection_from_doc_key key = takeWhile (\<lambda>c. c \<noteq> CHR '':'') key"

definition from_doc_key :: "string \<Rightarrow> SyncDirection" where
  "from_doc_key key =
     (let c = collection_from_doc_key key in
      if c \<in> {''nodes'', ''beacons'', ''platforms'', ''summaries''} then SyncUpward
      else if c = ''commands'' then SyncDownward
      else if c = ''cells'' then SyncLateral
      else if c \<in> {''alerts'', ''contact_reports'', ''events''} then SyncBroadcast
      else SyncBroadcast)"

section \<open>Entries and batches\<close>

record SyncEntry =
  doc_key :: string
  sync_type :: SyncMessageType
  entry_payload :: "byte list"

record SyncBatch =
  batch_id :: u64
  created_at :: u64
  batch_ttl :: u8
  entries :: "SyncEntry list"

datatype SyncDecodeError =
  EntryTooShort nat | EntryTruncatedKey | EntryBadKey | EntryUnknownType byte
| EntryTruncatedPayload | BatchTooShort nat

definition entry_new :: "string \<Rightarrow> SyncMessageType \<Rightarrow> byte list \<Rightarrow> SyncEntry" where
  "entry_new key ty p = \<lparr>doc_key = key, sync_type = ty, entry_payload = p\<rparr>"

definition entry_encode :: "SyncEntry \<Rightarrow> byte list" where
  "entry_encode e =
       be_bytes 2 (unat (word_of_nat (length (as_bytes (doc_key e))) :: u16))
     @ as_bytes (doc_key e)
     @ [sync_type_byte (sync_type e)]
     @ be_bytes 4 (unat (word_of_nat (length (entry_payload e)) :: u32))
     @ entry_payload e"

definition entry_type_of_byte :: "byte \<Rightarrow> (SyncDecodeError, SyncMessageType) result" where
  "entry_type_of_byte b =
     (if b = 0x00 then Inr DeltaSync
      else if b = 0x01 then Inr StateSnapshot
      else if b = 0x02 then Inr WindowedHistoryMsg
      else if b = 0x04 then Inr TombstoneMsg
      else if b = 0x05 then Inr TombstoneBatchMsg
      else if b = 0x06 then Inr TombstoneAck
      else if b = 0x07 then Inr SyncBatchMsg
      else Inl (Err (EntryUnknownType b)))"

text \<open>The decoder gives the entry and the number of bytes it consumed.\<close>

definition entry_decode :: "platform \<Rightarrow> byte list \<Rightarrow> (SyncDecodeError, SyncEntry \<times> nat) result" where
  "entry_decode pf bs =
     rbind (ensure (7 \<le> length bs) (EntryTooShort (length bs))) (\<lambda>_.
     rbind (slice 2 bs) (\<lambda>(kl, r1). let n = be_val kl in
     rbind (ensure (2 + n + 1 + 4 \<le> length bs) EntryTruncatedKey) (\<lambda>_.
     rbind (slice n r1) (\<lambda>(kb, r2).
     rbind (from_utf8 EntryBadKey kb) (\<lambda>key.
     rbind (slice 1 r2) (\<lambda>(tb, r3).
     rbind (entry_type_of_byte (hd tb)) (\<lambda>ty.
     rbind (slice 4 r3) (\<lambda>(pl, r4). let m = be_val pl in
     rbind (checked_slice pf EntryTruncatedPayload (length bs) (2 + n + 1 + 4) m r4) (\<lambda>(p, r5).
     Inr (\<lparr>doc_key = key, sync_type = ty, entry_payload = p\<rparr>, 2 + n + 1 + 4 + m))))))))))"

definition DEFAULT_SYNC_BATCH_TTL :: u8 where
  "DEFAULT_SYNC_BATCH_TTL = 5"

text \<open>
  \<^verbatim>\<open>new\<close>, \<^verbatim>\<open>with_id\<close> and \<^verbatim>\<open>with_entries\<close>; the clock reading is given relative to the
  Unix epoch, and a reading before it panics (the code unwraps).
\<close>

definition batch_stamped :: "int \<Rightarrow> u64 \<Rightarrow> SyncEntry list \<Rightarrow> (unit, SyncBatch) result" where
  "batch_stamped now i es =
     (case duration_since now 0 of
        Some d \<Rightarrow> Inr \<lparr>batch_id = i, created_at = word_of_nat (d div 1000000),
                      batch_ttl = DEFAULT_SYNC_BATCH_TTL, entries = es\<rparr>
      | None \<Rightarrow> Inl Panic)"

definition sync_batch_new :: "int \<Rightarrow> (unit, SyncBatch) result" where
  "sync_batch_new now = batch_stamped now 0 []"

definition sync_batch_with_id :: "int \<Rightarrow> u64 \<Rightarrow> (unit, SyncBatch) result" where
  "sync_batch_with_id now i = batch_stamped now i []"

definition sync_batch_with_entries :: "int \<Rightarrow> SyncEntry list \<Rightarrow> (unit, SyncBatch) result" where
  "sync_batch_with_entries now es = batch_stamped now 0 es"

definition with_ttl :: "SyncBatch \<Rightarrow> u8 \<Rightarrow> SyncBatch" where
  "with_ttl b t = b\<lparr>batch_ttl := t\<rparr>"

definition decrement_ttl :: "SyncBatch \<Rightarrow> bool \<times> SyncBatch" where
  "decrement_ttl b =
     (if 0 < batch_ttl b then (True, b\<lparr>batch_ttl := batch_ttl b - 1\<rparr>) else (False, b))"

definition add_delta :: "('m \<Rightarrow> byte list) \<Rightarrow> string \<Rightarrow> 'm \<Rightarrow> SyncBatch \<Rightarrow> SyncBatch" where
  "add_delta enc key m b = b\<lparr>entries := entries b @ [entry_new key DeltaSync (enc m)]\<rparr>"

definition add_snapshot :: "string \<Rightarrow> byte list \<Rightarrow> SyncBatch \<Rightarrow> SyncBatch" where
  "add_snapshot key bs b = b\<lparr>entries := entries b @ [entry_new key StateSnapshot bs]\<rparr>"

definition single_tombstone_key :: "TombstoneSyncMessage \<Rightarrow> string" where
  "single_tombstone_key m =
     ''tombstones:'' @ collection (tombstone m) @ '':'' @ document_id (tombstone m)"

definition add_tombstone :: "TombstoneSyncMessage \<Rightarrow> SyncBatch \<Rightarrow> SyncBatch" where
  "add_tombstone m b =
     b\<lparr>entries := entries b @ [entry_new (single_tombstone_key m) TombstoneMsg (message_encode m)]\<rparr>"

definition payload_size :: "SyncBatch \<Rightarrow> nat" where
  "payload_size b = sum_list (map (\<lambda>e. length (entry_payload e)) (entries b))"

definition sync_batch_encode :: "SyncBatch \<Rightarrow> byte list" where
  "sync_batch_encode b =
       be_bytes 8 (unat (batch_id b))
     @ be_bytes 8 (unat (created_at b))
     @ [batch_ttl b]
     @ be_bytes 4 (unat (word_of_nat (length (entries b)) :: u32))
     @ concat (map entry_encode (entries b))"

text \<open>One turn of the decoding loop; the slice \<^verbatim>\<open>&bytes[offset..]\<close> panics beyond the end.\<close>

definition next_entry :: "platform \<Rightarrow> byte list \<Rightarrow> (SyncDecodeError, SyncEntry \<times> byte list) result" where
  "next_entry pf bs =
     rbind (entry_decode pf bs) (\<lambda>(e, n).
     if n \<le> length bs then Inr (e, drop n bs) else Inl Panic)"

definition sync_batch_decode :: "platform \<Rightarrow> byte list \<Rightarrow> (SyncDecodeError, SyncBatch) result" where
  "sync_batch_decode pf bs =
     rbind (ensure (21 \<le> length bs) (BatchTooShort (length bs))) (\<lambda>_.
     rbind (slice 8 bs) (\<lambda>(i, r1).
     rbind (slice 8 r1) (\<lambda>(t, r2).
     rbind (slice 1 r2) (\<lambda>(l, r3).
     rbind (slice 4 r3) (\<lambda>(n, r4).
     rbind (reserve pf (entry_size pf) (be_val n)) (\<lambda>_.
     rbind (read_many (next_entry pf) (be_val n) r4) (\<lambda>(es, r5).
     Inr \<lparr>batch_id = word_of_nat (be_val i), created_at = word_of_nat (be_val t),
          batch_ttl = hd l, entries = es\<rparr>)))))))"

section \<open>Stream frames\<close>

datatype 'm ReceivedSyncPayload =
  Delta 'm
| Snapshot "byte list"
| SingleTombstone TombstoneSyncMessage
| ManyTombstones TombstoneBatch
| Batch SyncBatch
| NegInit "byte list"
| NegResponse "byte list"

datatype ReceiveError =
  ReadFailed string
| KeyNotUtf8
| BadSyncMessage
| BadTombstone TombstoneDecodeError
| BadTombstoneBatch TombstoneDecodeError
| BadSyncBatch SyncDecodeError
| UnknownMessageType byte

definition write_message :: "string \<Rightarrow> SyncMessageType \<Rightarrow> byte list \<Rightarrow> byte list" where
  "write_message key ty p =
       be_bytes 2 (unat (word_of_nat (length (as_bytes key)) :: u16))
     @ as_bytes key
     @ [sync_type_byte ty]
     @ be_bytes 4 (unat (word_of_nat (length p) :: u32))
     @ p"

definition snapshot_message :: "string \<Rightarrow> byte list \<Rightarrow> byte list" where
  "snapshot_message key state = write_message key StateSnapshot state"

definition delta_message :: "('m \<Rightarrow> byte list) \<Rightarrow> string \<Rightarrow> 'm \<Rightarrow> byte list" where
  "delta_message enc key m = write_message key DeltaSync (enc m)"

text \<open>Nothing is written for an empty batch or an empty list of tombstones.\<close>

definition batch_message :: "SyncBatch \<Rightarrow> byte list option" where
  "batch_message b =
     (if entries b = [] then None
      else Some (write_message ''batch'' SyncBatchMsg (sync_batch_encode b)))"

definition tombstones_message :: "Tombstone list \<Rightarrow> byte list option" where
  "tombstones_message ts =
     (if ts = [] then None
      else Some (write_message ''tombstones:batch'' TombstoneBatchMsg
                   (batch_encode (batch_with_messages (map from_tombstone ts)))))"

definition single_tombstone_message :: "TombstoneSyncMessage \<Rightarrow> byte list" where
  "single_tombstone_message m =
     write_message (single_tombstone_key m) TombstoneMsg (message_encode m)"

text \<open>\<^verbatim>\<open>read_exact\<close> fails when the stream ends early.\<close>

definition read_exact :: "string \<Rightarrow> nat \<Rightarrow> byte list \<Rightarrow> (ReceiveError, byte list \<times> byte list) result" where
  "read_exact what n s =
     (if length s < n then Inl (Err (ReadFailed what)) else Inr (take n s, drop n s))"

definition lift_error :: "('e \<Rightarrow> 'f) \<Rightarrow> ('e, 'a) result \<Rightarrow> ('f, 'a) result" where
  "lift_error f x =
     (case x of Inr a \<Rightarrow> Inr a | Inl (Err e) \<Rightarrow> Inl (Err (f e)) | Inl Panic \<Rightarrow> Inl Panic)"

definition parse_payload ::
  "platform \<Rightarrow> (byte list \<Rightarrow> 'm option) \<Rightarrow> byte \<Rightarrow> byte list \<Rightarrow> (ReceiveError, 'm ReceivedSyncPayload) result" where
  "parse_payload pf dec ty p =
     (if ty = 0x00 then (case dec p of Some m \<Rightarrow> Inr (Delta m) | None \<Rightarrow> Inl (Err BadSyncMessage))
      else if ty = 0x01 then Inr (Snapshot p)
      else if ty = 0x04 then rbind (lift_error BadTombstone (message_decode p)) (\<lambda>m. Inr (SingleTombstone m))
      else if ty = 0x05 then rbind (lift_error BadTombstoneBatch (batch_decode pf p)) (\<lambda>b. Inr (ManyTombstones b))
      else if ty = 0x06 then Inr (ManyTombstones batch_new)
      else if ty = 0x07 then rbind (lift_error BadSyncBatch (sync_batch_decode pf p)) (\<lambda>b. Inr (Batch b))
      else if ty = 0x08 then Inr (NegInit p)
      else if ty = 0x09 then Inr (NegResponse p)
      else Inl (Err (UnknownMessageType ty)))"

text \<open>The two buffers are allocated at their announced lengths before a byte of them is read.\<close>

definition receive_sync_payload_from_stream ::
  "platform \<Rightarrow> (byte list \<Rightarrow> 'm option) \<Rightarrow> byte list
   \<Rightarrow> (ReceiveError, string \<times> 'm ReceivedSyncPayload \<times> nat) result" where
  "receive_sync_payload_from_stream pf dec s =
     rbind (read_exact ''doc_key length'' 2 s) (\<lambda>(kl, s1). let n = be_val kl in
     rbind (reserve pf 1 n) (\<lambda>_.
     rbind (read_exact ''doc_key'' n s1) (\<lambda>(kb, s2).
     rbind (from_utf8 KeyNotUtf8 kb) (\<lambda>key.
     rbind (read_exact ''message type'' 1 s2) (\<lambda>(ty, s3).
     rbind (read_exact ''payload length'' 4 s3) (\<lambda>(pl, s4). let m = be_val pl in
     rbind (reserve pf 1 m) (\<lambda>_.
     rbind (read_exact ''payload'' m s4) (\<lambda>(p, s5).
     rbind (parse_payload pf dec (hd ty) p) (\<lambda>payload.
     Inr (key, payload, 2 + n + 1 + 4 + m))))))))))"

section \<open>What the format can carry\<close>

definition entry_ok :: "SyncEntry \<Rightarrow> bool" where
  "entry_ok e \<longleftrightarrow>
     valid_string (doc_key e) \<and> length (doc_key e) < 65536 \<and> length (entry_payload e) < 2 ^ 32
     \<and> sync_type e \<notin> {NegentropyInit, NegentropyResponse, NegentropyRequest}"

definition sync_batch_ok :: "SyncBatch \<Rightarrow> bool" where
  "sync_batch_ok b \<longleftrightarrow> list_all entry_ok (entries b) \<and> length (entries b) < 2 ^ 32"

lemma entry_type_of_sync_type_byte:
  "sync_type_byte ty \<in> {0, 1, 2, 4, 5, 6, 7} \<Longrightarrow> entry_type_of_byte (sync_type_byte ty) = Inr ty"
  by (cases ty) (simp_all add: entry_type_of_byte_def)

lemma entry_type_of_byte_eq_Inr:
  "entry_type_of_byte b = Inr ty \<longleftrightarrow>
     b = sync_type_byte ty \<and> ty \<notin> {NegentropyInit, NegentropyResponse, NegentropyRequest}"
  by (cases ty) (auto simp: entry_type_of_byte_def split: if_splits)

lemma entry_type_of_byte_not_panic [simp]: "entry_type_of_byte b \<noteq> Inl Panic"
  by (simp add: entry_type_of_byte_def)

lemma entry_decode_encode:
  assumes "entry_ok e" "in_buffer pf len (entry_encode e @ r)"
  shows "entry_decode pf (entry_encode e @ r) = Inr (e, length (entry_encode e))"
proof -
  have "entry_type_of_byte (sync_type_byte (sync_type e)) = Inr (sync_type e)"
    using assms by (simp add: entry_ok_def entry_type_of_byte_eq_Inr)
  moreover have "checked_slice pf EntryTruncatedPayload (length (entry_encode e @ r))
      (2 + length (doc_key e) + 1 + 4) (length (entry_payload e)) (entry_payload e @ r) = Inr (entry_payload e, r)"
    using assms by (subst checked_slice_eq_Inr) (auto simp: entry_ok_def in_buffer_def entry_encode_def)
  ultimately show ?thesis
    using assms(1) by (simp add: entry_ok_def entry_encode_def entry_decode_def Let_def)
qed

lemma entry_decode_canonical:
  assumes "in_buffer pf len bs" "entry_decode pf bs = Inr (e, n)"
  shows "entry_ok e \<and> n = length (entry_encode e) \<and> (\<exists>r. bs = entry_encode e @ r)"
proof -
  obtain kl kb t pl r4 p r5 ty where parts: "bs = kl @ kb @ [t] @ pl @ r4"
    "length kl = 2" "length kb = be_val kl" "utf8_valid kb" "entry_type_of_byte t = Inr ty" "length pl = 4"
    "checked_slice pf EntryTruncatedPayload (length bs) (2 + be_val kl + 1 + 4) (be_val pl) r4 = Inr (p, r5)"
    "e = \<lparr>doc_key = of_bytes kb, sync_type = ty, entry_payload = p\<rparr>" "n = 2 + be_val kl + 1 + 4 + be_val pl"
    using assms(2) by (auto simp: entry_decode_def Let_def reader_eqs length_Suc_conv split: prod.splits)
  have "be_val pl < 2 ^ 32" "be_val kl < 65536"
    using be_val_bound [of pl] be_val_bound [of kl] parts by simp_all
  moreover from this have "length p = be_val pl \<and> r4 = p @ r5"
    using assms(1) parts(1-3,6,7)
    by (subst (asm) checked_slice_eq_Inr) (auto simp: in_buffer_def)
  ultimately show ?thesis
    using parts by (auto simp: entry_ok_def entry_encode_def entry_type_of_byte_eq_Inr)
qed

lemma in_buffer_append: "in_buffer pf len (s @ r) \<Longrightarrow> in_buffer pf len r"
  by (simp add: in_buffer_def)

lemma next_entry_encode:
  "entry_ok e \<Longrightarrow> in_buffer pf len (entry_encode e @ r) \<Longrightarrow> next_entry pf (entry_encode e @ r) = Inr (e, r)"
  by (simp add: next_entry_def entry_decode_encode)

lemma next_entry_canonical:
  "in_buffer pf len bs \<Longrightarrow> next_entry pf bs = Inr (e, r) \<Longrightarrow> entry_ok e \<and> bs = entry_encode e @ r"
  by (auto simp: next_entry_def rbind_eq_Inr dest!: entry_decode_canonical split: prod.splits if_splits)

interpretation entry_codec: bounded_canonical entry_ok entry_encode id "next_entry pf" "in_buffer pf len"
  for pf len
  by unfold_locales (auto simp: next_entry_encode dest: next_entry_canonical in_buffer_append)

lemma next_entry_64:
  assumes "usize_bits pf = 64" "in_buffer pf len bs"
  shows "next_entry pf bs \<noteq> Inl Panic"
proof
  assume p: "next_entry pf bs = Inl Panic"
  have "entry_decode pf bs \<noteq> Inl Panic"
  proof
    assume "entry_decode pf bs = Inl Panic"
    then obtain kl kb t pl r4 where "bs = kl @ kb @ [t] @ pl @ r4" "length kl = 2" "length kb = be_val kl"
      "length pl = 4"
      "checked_slice pf EntryTruncatedPayload (length bs) (2 + be_val kl + 1 + 4) (be_val pl) r4 = Inl Panic"
      by (auto simp: entry_decode_def Let_def reader_eqs length_Suc_conv split: prod.splits)
    then show False
      using assms be_val_bound [of pl]
      by (subst (asm) checked_slice_64) (auto simp: in_buffer_def reader_eqs)
  qed
  then obtain e n where "entry_decode pf bs = Inr (e, n)" "\<not> n \<le> length bs"
    using p by (auto simp: next_entry_def rbind_eq_Inl split: prod.splits if_splits)
  then show False
    using entry_decode_canonical [OF assms(2), of e n] by auto
qed

lemma sync_batch_decode_encode_aux:
  assumes "sync_batch_ok b"
    and "platform_serves pf N" "length (sync_batch_encode b) \<le> N" "length (entries b) * entry_size pf \<le> N"
  shows "sync_batch_decode pf (sync_batch_encode b) = Inr b"
proof -
  let ?es = "concat (map entry_encode (entries b))"
  have "in_buffer pf N (?es @ [])"
    using assms(2,3) by (auto simp: in_buffer_def platform_serves_def sync_batch_encode_def)
  then have "read_many (next_entry pf) (length (entries b)) ?es = Inr (entries b, [])"
    using entry_codec.read_many_enc_room [of "entries b" pf N "[]"] assms(1) by (simp add: sync_batch_ok_def)
  then show ?thesis
    using assms(1) capacity_served [OF assms(2,4)]
    by (simp add: sync_batch_ok_def sync_batch_encode_def sync_batch_decode_def)
qed

lemma sync_batch_decode_panic_aux:
  assumes "usize_bits pf = 64" "length bs \<le> isize_max pf"
  shows "sync_batch_decode pf bs = Inl Panic \<longleftrightarrow>
     21 \<le> length bs \<and> \<not> capacity_ok pf (entry_size pf) (be_val (take 4 (drop 17 bs)))"
proof (cases "21 \<le> length bs")
  case True
  have "read_many (next_entry pf) k (drop 21 bs) \<noteq> Inl Panic" for k
    by (rule read_many_not_panic_inv [of "in_buffer pf (length bs)"])
      (simp add: next_entry_64 [OF assms(1)], frule (1) next_entry_canonical,
        use assms in \<open>auto simp: in_buffer_def\<close>)
  with True show ?thesis
    by (auto simp: sync_batch_decode_def slice_def reserve_eqs rbind_eq_Inl split: prod.splits)
qed (auto simp: sync_batch_decode_def reader_eqs)

section \<open>Lemmas on stream frames\<close>

lemma read_exact_append [simp]: "length xs = n \<Longrightarrow> read_exact what n (xs @ r) = Inr (xs, r)"
  by (auto simp: read_exact_def)

lemma read_exact_Cons [simp]: "read_exact what (Suc 0) (b # r) = Inr ([b], r)"
  by (simp add: read_exact_def)

lemma read_exact_eq_Inr: "read_exact what n s = Inr (a, r) \<longleftrightarrow> length a = n \<and> s = a @ r"
  by (auto simp: read_exact_def append_eq_conv_conj)

lemma read_exact_not_panic [simp]: "read_exact what n s \<noteq> Inl Panic"
  by (simp add: read_exact_def)

lemma lift_error_Inr [simp]: "lift_error f (Inr a) = Inr a"
  by (simp add: lift_error_def)

lemma lift_error_not_panic: "x \<noteq> Inl Panic \<Longrightarrow> lift_error f x \<noteq> Inl Panic"
  by (auto simp: lift_error_def split: sum.splits failure.splits)

text \<open>A machine that has the memory for every count and length a 32-bit field announces.\<close>

definition serves_every_frame :: "platform \<Rightarrow> bool" where
  "serves_every_frame pf \<longleftrightarrow> usize_bits pf = 64 \<and>
     (\<forall>n < 2 ^ 32. capacity_ok pf 1 n \<and> capacity_ok pf (tombstone_size pf) n \<and> capacity_ok pf (entry_size pf) n)"

lemma parse_payload_not_panic:
  assumes "serves_every_frame pf" "length p < 2 ^ 32"
  shows "parse_payload pf dec ty p \<noteq> Inl Panic"
proof -
  have "usize_bits pf = 64" "length p \<le> isize_max pf"
    using assms by (simp_all add: serves_every_frame_def isize_max_def)
  note panics = batch_decode_panic_aux [OF this] sync_batch_decode_panic_aux [OF this]
  have "be_val (take 4 q) < 2 ^ 32" for q
    using be_val_bound [of "take 4 q"] power_increasing [of "min (length q) 4" 4 "256 :: nat"]
    by (simp add: min.commute)
  then have "batch_decode pf p \<noteq> Inl Panic" "sync_batch_decode pf p \<noteq> Inl Panic"
    using assms(1) panics by (auto simp: serves_every_frame_def)
  then show ?thesis
    using message_decode_not_panic_aux [of p]
    by (auto simp: parse_payload_def rbind_eq_Inl dest: lift_error_not_panic split: option.splits)
qed

text \<open>What the receiver makes of a frame: the parse of its payload, under its key.\<close>

lemma receive_write_message:
  assumes "valid_string key" and "length key < 65536" and "length p < 2 ^ 32"
    and "platform_serves pf N" "length key \<le> N" "length p \<le> N"
  shows "receive_sync_payload_from_stream pf dec (write_message key ty p @ rest) =
     rbind (parse_payload pf dec (sync_type_byte ty) p)
       (\<lambda>payload. Inr (key, payload, length (write_message key ty p)))"
  using assms capacity_served [OF assms(4), of _ 1]
  by (simp add: receive_sync_payload_from_stream_def write_message_def Let_def add.assoc)

text \<open>Seven bytes and a key from a peer: a payload length the allocator refuses stops the node.\<close>

lemma receive_length_refused:
  assumes "valid_string key" "length key < 65536" "capacity_ok pf 1 (length key)"
    and "n < 2 ^ 32" "\<not> capacity_ok pf 1 n"
  shows "receive_sync_payload_from_stream pf dec
     (be_bytes 2 (length key) @ as_bytes key @ [ty] @ be_bytes 4 n @ rest) = Inl Panic"
  using assms by (simp add: receive_sync_payload_from_stream_def Let_def reserve_def)

lemma message_norm_from_tombstone:
  "message_norm (from_tombstone t) = from_tombstone (tombstone (message_norm (from_tombstone t)))"
  by (simp add: message_norm_def from_tombstone_def)

lemma decrement_ttl_step: "unat (batch_ttl (snd (decrement_ttl b))) = unat (batch_ttl b) - 1"
proof (cases "batch_ttl b = 0")
  case False
  then have "unat (batch_ttl b - 1) = unat (batch_ttl b) - 1"
    by (rule unat_minus_one)
  with False show ?thesis
    by (simp add: decrement_ttl_def word_neq_0_conv)
qed (simp add: decrement_ttl_def)

lemma decrement_ttl_funpow:
  "unat (batch_ttl (((snd \<circ> decrement_ttl) ^^ k) b)) = unat (batch_ttl b) - k"
  by (induction k) (simp_all add: decrement_ttl_step)

section \<open>Properties\<close>

lemma sync_batch_decode_canonical_aux:
  assumes "sync_batch_decode pf bs = Inr b" "usize_bits pf \<in> {32, 64}" "length bs \<le> isize_max pf"
  shows "sync_batch_ok b \<and> (\<exists>rest. bs = sync_batch_encode b @ rest)"
proof -
  obtain i t l n r4 r5 es where parts: "bs = i @ t @ [l] @ n @ r4"
    "length i = 8" "length t = 8" "length n = 4" "read_many (next_entry pf) (be_val n) r4 = Inr (es, r5)"
    "b = \<lparr>batch_id = word_of_nat (be_val i), created_at = word_of_nat (be_val t), batch_ttl = l, entries = es\<rparr>"
    using assms(1) by (auto simp: sync_batch_decode_def reader_eqs length_Suc_conv split: prod.splits)
  have "in_buffer pf (length bs) r4"
    using assms(2,3) parts(1) by (simp add: in_buffer_def)
  from entry_codec.read_many_canonical [OF this parts(5)] parts show ?thesis
    by (auto simp: sync_batch_ok_def sync_batch_encode_def)
qed

lemma receive_not_panic_aux:
  assumes "serves_every_frame pf"
  shows "receive_sync_payload_from_stream pf dec s \<noteq> Inl Panic"
proof -
  have b: "be_val x < 2 ^ 32" if "length x = 2 \<or> length x = 4" for x
    using be_val_bound [of x] that by (elim disjE) (simp_all add: less_trans [of "be_val x" 65536])
  then have "capacity_ok pf 1 (be_val x)" if "length x = 2 \<or> length x = 4" for x
    using assms that by (auto simp: serves_every_frame_def)
  moreover have "parse_payload pf dec ty p \<noteq> Inl Panic" if "length x = 4" "length p = be_val x" for x ty p
    using parse_payload_not_panic [OF assms, of p] b [of x] that by auto
  ultimately show ?thesis
    by (auto simp: receive_sync_payload_from_stream_def reader_eqs reserve_eqs Let_def read_exact_eq_Inr
        split: prod.splits)
qed

text \<open>On 32 bits the length of one entry is enough: its sum with the offset wraps and the slice panics.\<close>

lemma entry_payload_wraps_32:
  assumes "usize_bits pf = 32"
  shows "entry_decode pf (be_bytes 2 0 @ [0] @ be_bytes 4 (2 ^ 32 - 1)) = Inl Panic"
proof -
  have "checked_slice pf EntryTruncatedPayload 7 7 (2 ^ 32 - 1) [] = Inl Panic"
    by (rule checked_slice_wraps) (use assms in \<open>simp_all add: isize_max_def\<close>)
  moreover have "(slice 4 (be_bytes 4 (2 ^ 32 - 1)) :: (SyncDecodeError, _) result) = Inr (be_bytes 4 (2 ^ 32 - 1), [])"
    by (simp add: slice_def)
  ultimately show ?thesis
    by (simp add: entry_decode_def Let_def entry_type_of_byte_def slice_def [of 0] slice_def [of "Suc 0"]
        from_utf8_def be_val_be_bytes)
qed

text \<open>
  C19.  A sync batch whose keys and payloads fit their length fields, and none
  of whose entries carries a set-reconciliation type, is decoded from its own
  encoding, field by field and entry by entry, on a 32-bit or 64-bit machine that
  serves requests of the size of the encoding and of the decoded list.  The decoder
  accepts nothing but encodings of such batches, followed by bytes it ignores.  On 64
  bits it panics exactly when the input announces a number of entries for which the
  machine refuses the memory, and the receiver of sync streams panics on no bytes
  from a peer when the machine has the memory for every announced length.  Where it
  refuses a payload length, those bytes make the receiver panic.
\<close>

theorem sync_batch_codec:
  "(sync_batch_ok b \<and> platform_serves pf N \<and> length (sync_batch_encode b) \<le> N
      \<and> length (entries b) * entry_size pf \<le> N \<longrightarrow>
      sync_batch_decode pf (sync_batch_encode b) = Inr b) \<and>
   (sync_batch_decode pf bs = Inr d \<and> usize_bits pf \<in> {32, 64} \<and> length bs \<le> isize_max pf \<longrightarrow>
      sync_batch_ok d \<and> (\<exists>rest. bs = sync_batch_encode d @ rest)) \<and>
   (usize_bits pf = 64 \<and> length bs \<le> isize_max pf \<longrightarrow>
      (sync_batch_decode pf bs = Inl Panic \<longleftrightarrow>
         21 \<le> length bs \<and> \<not> capacity_ok pf (entry_size pf) (be_val (take 4 (drop 17 bs))))) \<and>
   (serves_every_frame pf \<longrightarrow> receive_sync_payload_from_stream pf dec s \<noteq> Inl Panic) \<and>
   (valid_string key \<and> length key < 65536 \<and> capacity_ok pf 1 (length key)
      \<and> n < 2 ^ 32 \<and> \<not> capacity_ok pf 1 n \<longrightarrow>
      receive_sync_payload_from_stream pf dec
        (be_bytes 2 (length key) @ as_bytes key @ [ty] @ be_bytes 4 n @ rest) = Inl Panic)"
  using sync_batch_decode_encode_aux sync_batch_decode_canonical_aux sync_batch_decode_panic_aux
    receive_not_panic_aux receive_length_refused by blast

theorem sync_batch_codec_witness:
  "let b = \<lparr>batch_id = 9, created_at = 1700000000000, batch_ttl = 5,
            entries = [entry_new ''nodes:n1'' DeltaSync [1, 2, 3], entry_new ''x'' TombstoneMsg []]\<rparr>;
       roomy = sample_platform\<lparr>alloc_ok := \<lambda>k. k \<le> 2 ^ 40\<rparr>
   in sync_batch_ok b \<and> sync_batch_decode sample_platform (sync_batch_encode b) = Inr b
      \<and> (\<exists>rest. sync_batch_encode b = sync_batch_encode b @ rest)
      \<and> sync_batch_decode sample_platform (replicate 17 0 @ [255, 255, 255, 255]) = Inl Panic
      \<and> receive_sync_payload_from_stream roomy Some [0, 0, 1, 255, 255, 255, 255] \<noteq> Inl Panic
      \<and> receive_sync_payload_from_stream sample_platform Some
          (be_bytes 2 (length ''k'') @ as_bytes ''k'' @ [1] @ be_bytes 4 (2 ^ 32 - 1) @ []) = Inl Panic"
proof -
  let ?b = "\<lparr>batch_id = 9, created_at = 1700000000000, batch_ttl = 5,
      entries = [entry_new ''nodes:n1'' DeltaSync [1, 2, 3], entry_new ''x'' TombstoneMsg []]\<rparr>"
  let ?roomy = "sample_platform\<lparr>alloc_ok := \<lambda>k. k \<le> 2 ^ 40\<rparr>"
  let ?h = "replicate 17 0 @ [255, 255, 255, 255]"
  have ok: "sync_batch_ok ?b"
    by (simp add: sync_batch_ok_def entry_ok_def entry_new_def string_eval)
  have size: "length (sync_batch_encode ?b) \<le> 2 ^ 30" "length (entries ?b) * entry_size sample_platform \<le> 2 ^ 30"
    by (simp_all add: sync_batch_encode_def entry_encode_def entry_new_def sample_platform_def)
  have dec: "sync_batch_decode sample_platform (sync_batch_encode ?b) = Inr ?b"
    using sync_batch_codec [where b = ?b and pf = sample_platform and N = "2 ^ 30"] ok size
      sample_platform_serves by blast
  have bits: "usize_bits sample_platform \<in> {32, 64}" "length (sync_batch_encode ?b) \<le> isize_max sample_platform"
    using size by (simp_all add: sample_platform_def isize_max_def)
  have canon: "\<exists>rest. sync_batch_encode ?b = sync_batch_encode ?b @ rest"
    using sync_batch_codec [where bs = "sync_batch_encode ?b" and d = ?b and pf = sample_platform] dec bits by blast
  have count: "be_val (take 4 (drop 17 ?h)) = 2 ^ 32 - 1"
    by (simp add: be_val_def)
  have "usize_bits sample_platform = 64" "length ?h \<le> isize_max sample_platform" "21 \<le> length ?h"
    "\<not> capacity_ok sample_platform (entry_size sample_platform) (be_val (take 4 (drop 17 ?h)))"
    unfolding count by (simp_all add: sample_platform_def isize_max_def capacity_ok_def)
  then have "sync_batch_decode sample_platform ?h = Inl Panic"
    using sync_batch_codec [where bs = ?h and pf = sample_platform] by blast
  moreover have "receive_sync_payload_from_stream ?roomy Some [0, 0, 1, 255, 255, 255, 255] \<noteq> Inl Panic"
  proof -
    have "serves_every_frame ?roomy"
      by (auto simp: serves_every_frame_def sample_platform_def capacity_ok_def isize_max_def)
    then show ?thesis
      using sync_batch_codec [where pf = ?roomy] by blast
  qed
  moreover have "receive_sync_payload_from_stream sample_platform Some
      (be_bytes 2 (length ''k'') @ as_bytes ''k'' @ [1] @ be_bytes 4 (2 ^ 32 - 1) @ []) = Inl Panic"
  proof -
    have "valid_string ''k''" "length ''k'' < 65536" "capacity_ok sample_platform 1 (length ''k'')"
      "(2 ^ 32 - 1 :: nat) < 2 ^ 32" "\<not> capacity_ok sample_platform 1 (2 ^ 32 - 1)"
      by (simp_all add: string_eval capacity_ok_def sample_platform_def isize_max_def)
    then show ?thesis
      using sync_batch_codec [where pf = sample_platform] by blast
  qed
  ultimately show ?thesis
    using ok dec canon by (simp add: Let_def)
qed

text \<open>
  C7.  What one node writes, the other receives: each of the five kinds of
  frame that the coordinator sends (state snapshot, delta, batch, tombstone
  batch, single tombstone) is received under its key as the payload that was
  sent, with the size that was sent, whatever follows on the stream.  The
  hypothesis on Automerge is that it decodes what it encoded, the one on the machine
  that it serves requests of the size of what was sent and of what is decoded from it.
\<close>

theorem frames_received_as_sent:
  assumes key: "valid_string key" "length key < 65536"
    and "length state < 2 ^ 32"
    and automerge: "dec (enc m) = Some m" "length (enc m) < 2 ^ 32"
    and batch: "sync_batch_ok b" "length (sync_batch_encode b) < 2 ^ 32" "batch_message b = Some bf"
    and ts: "list_all message_ok (map from_tombstone ts)" "length ts < 2 ^ 32"
      "length (batch_encode (batch_with_messages (map from_tombstone ts))) < 2 ^ 32"
      "tombstones_message ts = Some tf"
    and tm: "message_ok tm" "valid_string (single_tombstone_key tm)"
      "length (single_tombstone_key tm) < 65536"
    and machine: "platform_serves pf N" "262171 \<le> N" "length state \<le> N" "length (enc m) \<le> N"
      "length (sync_batch_encode b) \<le> N" "length (entries b) * entry_size pf \<le> N"
      "length (batch_encode (batch_with_messages (map from_tombstone ts))) \<le> N"
      "length ts * tombstone_size pf \<le> N"
  shows "receive_sync_payload_from_stream pf dec (snapshot_message key state @ rest)
           = Inr (key, Snapshot state, length (snapshot_message key state))
     \<and> receive_sync_payload_from_stream pf dec (delta_message enc key m @ rest)
           = Inr (key, Delta m, length (delta_message enc key m))
     \<and> receive_sync_payload_from_stream pf dec (bf @ rest) = Inr (''batch'', Batch b, length bf)
     \<and> receive_sync_payload_from_stream pf dec (tf @ rest)
           = Inr (''tombstones:batch'',
                  ManyTombstones \<lparr>tombstones = map (message_norm \<circ> from_tombstone) ts\<rparr>, length tf)
     \<and> receive_sync_payload_from_stream pf dec (single_tombstone_message tm @ rest)
           = Inr (single_tombstone_key tm, SingleTombstone (message_norm tm),
                  length (single_tombstone_message tm))"
proof -
  have lit: "valid_string ''batch''" "valid_string ''tombstones:batch''"
    by (simp_all add: string_eval)
  note receive = receive_write_message [OF _ _ _ machine(1)]
  have r1: "receive_sync_payload_from_stream pf dec (snapshot_message key state @ rest)
           = Inr (key, Snapshot state, length (snapshot_message key state))"
    using assms by (simp add: snapshot_message_def receive parse_payload_def)
  have r2: "receive_sync_payload_from_stream pf dec (delta_message enc key m @ rest)
           = Inr (key, Delta m, length (delta_message enc key m))"
    using assms by (simp add: delta_message_def receive parse_payload_def)
  have r3: "receive_sync_payload_from_stream pf dec (bf @ rest) = Inr (''batch'', Batch b, length bf)"
    using batch machine lit sync_batch_decode_encode_aux [OF batch(1) machine(1)]
    by (auto simp: batch_message_def receive parse_payload_def split: if_splits)
  have r4: "receive_sync_payload_from_stream pf dec (tf @ rest)
           = Inr (''tombstones:batch'',
                  ManyTombstones \<lparr>tombstones = map (message_norm \<circ> from_tombstone) ts\<rparr>, length tf)"
    using ts machine lit batch_decode_encode_aux [of "batch_with_messages (map from_tombstone ts)" pf N]
    by (auto simp: tombstones_message_def receive parse_payload_def
        batch_with_messages_def split: if_splits)
  have r5: "receive_sync_payload_from_stream pf dec (single_tombstone_message tm @ rest)
           = Inr (single_tombstone_key tm, SingleTombstone (message_norm tm),
                  length (single_tombstone_message tm))"
    using tm machine length_message_encode [OF tm(1)] message_decode_encode_aux [OF tm(1), of "[]"]
    by (simp add: single_tombstone_message_def receive parse_payload_def)
  show ?thesis
    by (intro conjI r1 r2 r3 r4 r5)
qed

theorem frames_received_as_sent_witness:
  "let b = \<lparr>batch_id = 1, created_at = 2, batch_ttl = 3, entries = [entry_new ''k'' StateSnapshot [4]]\<rparr>;
       t = tombstone_new 5000000 ''d1'' ''cells'' ''n1'' 7;
       tf = write_message ''tombstones:batch'' TombstoneBatchMsg
              (batch_encode (batch_with_messages [from_tombstone t]))
   in receive_sync_payload_from_stream sample_platform Some (snapshot_message ''cells:c1'' [1, 2])
        = Inr (''cells:c1'', Snapshot [1, 2], 17)
      \<and> receive_sync_payload_from_stream sample_platform Some (tf @ [0])
        = Inr (''tombstones:batch'', ManyTombstones \<lparr>tombstones = [from_tombstone t]\<rparr>, length tf)"
proof -
  let ?b = "\<lparr>batch_id = 1, created_at = 2, batch_ttl = 3, entries = [entry_new ''k'' StateSnapshot [4]]\<rparr>"
  let ?t = "tombstone_new 5000000 ''d1'' ''cells'' ''n1'' 7"
  let ?tf = "write_message ''tombstones:batch'' TombstoneBatchMsg
              (batch_encode (batch_with_messages [from_tombstone ?t]))"
  have key: "valid_string ''cells:c1''" "length ''cells:c1'' < 65536"
    and batch: "sync_batch_ok ?b"
      "length (sync_batch_encode ?b) < 2 ^ 32"
      "batch_message ?b = Some (write_message ''batch'' SyncBatchMsg (sync_batch_encode ?b))"
    and ts: "list_all message_ok (map from_tombstone [?t])" "length [?t] < 2 ^ 32"
      "length (batch_encode (batch_with_messages (map from_tombstone [?t]))) < 2 ^ 32"
      "tombstones_message [?t] = Some ?tf"
    and tm: "message_ok (from_tombstone ?t)" "valid_string (single_tombstone_key (from_tombstone ?t))"
      "length (single_tombstone_key (from_tombstone ?t)) < 65536"
    and norm: "message_norm (from_tombstone ?t) = from_tombstone ?t"
    by (simp_all add: message_eval sync_batch_ok_def entry_ok_def entry_new_def sync_batch_encode_def
        entry_encode_def batch_message_def tombstones_message_def batch_encode_def batch_with_messages_def
        write_frame_def message_encode_def single_tombstone_key_def)
  have pl: "length [1, 2 :: byte] < 2 ^ 32" "Some (id [9]) = Some [9 :: byte]" "length (id [9 :: byte]) < 2 ^ 32"
    by simp_all
  have sizes: "262171 \<le> (2 ^ 30 :: nat)" "length [1, 2 :: byte] \<le> 2 ^ 30" "length (id [9 :: byte]) \<le> 2 ^ 30"
      "length (sync_batch_encode ?b) \<le> 2 ^ 30" "length (entries ?b) * entry_size sample_platform \<le> 2 ^ 30"
      "length (batch_encode (batch_with_messages (map from_tombstone [?t]))) \<le> 2 ^ 30"
      "length [?t] * tombstone_size sample_platform \<le> 2 ^ 30"
    by (simp_all add: message_eval entry_new_def sync_batch_encode_def entry_encode_def batch_encode_def
        batch_with_messages_def write_frame_def message_encode_def sample_platform_def)
  have all: "receive_sync_payload_from_stream sample_platform Some (snapshot_message ''cells:c1'' [1, 2] @ rest)
        = Inr (''cells:c1'', Snapshot [1, 2], length (snapshot_message ''cells:c1'' [1, 2]))
      \<and> receive_sync_payload_from_stream sample_platform Some (?tf @ rest)
        = Inr (''tombstones:batch'', ManyTombstones \<lparr>tombstones = [from_tombstone ?t]\<rparr>, length ?tf)" for rest
    using frames_received_as_sent [where dec = Some and enc = id and m = "[9]", OF key pl batch ts tm sample_platform_serves sizes, of rest] norm
    by simp
  show ?thesis
    using all [of "[]"] all [of "[0]"] by (simp add: Let_def snapshot_message_def write_message_def)
qed

text \<open>
  The hop budget of a batch: forwarding it is allowed exactly as many
  times as its time to live says, so a batch from this node travels at most
  five hops, and the 8-bit counter never wraps.
\<close>

lemma batch_ttl_hop_budget:
  "fst (decrement_ttl (((snd \<circ> decrement_ttl) ^^ k) b)) = (k < unat (batch_ttl b))"
  using decrement_ttl_funpow [of k b]
  by (auto simp: decrement_ttl_def word_less_nat_alt)

end
