(* ===== verification/Garbage_Collection.thy ===== *)
theory Garbage_Collection
  imports Policies Tombstone_Wire
begin

text \<open>
  The garbage collector of \<^verbatim>\<open>src/qos/garbage_collection.rs\<close>.  The trait
  \<^verbatim>\<open>GcStore\<close> is a record of operations on a store state, which the collector
  takes as an argument; the locale at the end states the laws that a store has
  to provide and proves what the collector then does.  Clock readings are
  arguments.  Storage errors are values of the error type of the store.
\<close>

section \<open>Resurrection policies and configuration\<close>

datatype ResurrectionPolicy = Allow | ReDelete | Reject

definition resurrection_default_for_collection :: "string \<Rightarrow> ResurrectionPolicy" where
  "resurrection_default_for_collection c =
     (if c \<in> {''beacons'', ''platforms'', ''tracks''} then Allow
      else if c \<in> {''nodes'', ''cells'', ''commands'', ''contact_reports''} then ReDelete
      else if c = ''alerts'' then Reject
      else ReDelete)"

record GcConfig =
  gc_interval :: duration
  tombstone_batch_size :: nat
  document_batch_size :: nat
  debug_logging :: bool
  resurrection_policies :: "(string, ResurrectionPolicy) hmap"

definition gc_config_default :: GcConfig where
  "gc_config_default =
     \<lparr>gc_interval = from_secs 300, tombstone_batch_size = 1000, document_batch_size = 500,
      debug_logging = True, resurrection_policies = []\<rparr>"

definition gc_config_with_interval :: "duration \<Rightarrow> GcConfig" where
  "gc_config_with_interval i = gc_config_default\<lparr>gc_interval := i\<rparr>"

definition set_resurrection_policy :: "GcConfig \<Rightarrow> string \<Rightarrow> ResurrectionPolicy \<Rightarrow> GcConfig" where
  "set_resurrection_policy cfg c p =
     cfg\<lparr>resurrection_policies := hm_insert c p (resurrection_policies cfg)\<rparr>"

definition resurrection_policy :: "GcConfig \<Rightarrow> string \<Rightarrow> ResurrectionPolicy" where
  "resurrection_policy cfg c =
     (case hm_get (resurrection_policies cfg) c of
        Some p \<Rightarrow> p | None \<Rightarrow> resurrection_default_for_collection c)"

section \<open>The collector\<close>

record ('s, 'e) GcStore =
  gs_get_all_tombstones :: "'s \<Rightarrow> 'e + Tombstone list"
  gs_remove_tombstone :: "'s \<Rightarrow> string \<Rightarrow> string \<Rightarrow> 'e + bool \<times> 's"
  gs_has_tombstone :: "'s \<Rightarrow> string \<Rightarrow> string \<Rightarrow> 'e + bool"
  gs_get_expired_documents :: "'s \<Rightarrow> string \<Rightarrow> int \<Rightarrow> 'e + string list"
  gs_hard_delete :: "'s \<Rightarrow> string \<Rightarrow> string \<Rightarrow> 'e + 's"
  gs_list_collections :: "'s \<Rightarrow> 'e + string list"

record 'e GcResult =
  tombstones_collected :: nat
  documents_collected :: nat
  resurrections_detected :: nat
  resurrections_redeleted :: nat
  resurrections_allowed :: nat
  resurrections_rejected :: nat
  gc_duration :: duration
  gc_errors :: "(string \<times> 'e) list"

record GarbageCollector =
  policy_registry :: DeletionPolicyRegistry
  gc_config :: GcConfig
  gc_running :: bool
  stats_tombstones :: u64
  stats_documents :: u64
  stats_resurrections :: u64
  stats_runs :: u64

record GcStats =
  total_runs :: u64
  total_tombstones_collected :: u64
  total_documents_collected :: u64
  total_resurrections :: u64
  last_run :: "int option"
  last_duration :: "duration option"

definition gc_result_default :: "'e GcResult" where
  "gc_result_default =
     \<lparr>tombstones_collected = 0, documents_collected = 0, resurrections_detected = 0,
      resurrections_redeleted = 0, resurrections_allowed = 0, resurrections_rejected = 0,
      gc_duration = 0, gc_errors = []\<rparr>"

definition had_work :: "'e GcResult \<Rightarrow> bool" where
  "had_work r \<longleftrightarrow>
     0 < tombstones_collected r \<or> 0 < documents_collected r \<or> 0 < resurrections_detected r"

definition gc_with_policy_registry :: "DeletionPolicyRegistry \<Rightarrow> GcConfig \<Rightarrow> GarbageCollector" where
  "gc_with_policy_registry reg cfg =
     \<lparr>policy_registry = reg, gc_config = cfg, gc_running = False, stats_tombstones = 0,
      stats_documents = 0, stats_resurrections = 0, stats_runs = 0\<rparr>"

definition gc_new :: "GcConfig \<Rightarrow> GarbageCollector" where
  "gc_new cfg = gc_with_policy_registry deletion_registry_new cfg"

text \<open>Whether the loop of \<^verbatim>\<open>collect_tombstones\<close> asks the store to remove the tombstone.\<close>

definition tombstone_due :: "DeletionPolicyRegistry \<Rightarrow> int \<Rightarrow> Tombstone \<Rightarrow> bool" where
  "tombstone_due reg now t =
     (case deletion_registry_get reg (collection t) of
        TombstonePolicy ttl _ \<Rightarrow>
          (case duration_since now (deleted_at t) of Some age \<Rightarrow> ttl < age | None \<Rightarrow> False)
      | _ \<Rightarrow> False)"

fun collect_tombstones_loop ::
  "('s, 'e) GcStore \<Rightarrow> DeletionPolicyRegistry \<Rightarrow> int \<Rightarrow> Tombstone list \<Rightarrow> nat \<Rightarrow> 's \<Rightarrow> 's \<times> ('e + nat)" where
  "collect_tombstones_loop ops reg now [] n s = (s, Inr n)"
| "collect_tombstones_loop ops reg now (t # ts) n s =
     (if tombstone_due reg now t
      then (case gs_remove_tombstone ops s (collection t) (document_id t) of
              Inl e \<Rightarrow> (s, Inl e)
            | Inr (removed, s') \<Rightarrow>
                collect_tombstones_loop ops reg now ts (if removed then n + 1 else n) s')
      else collect_tombstones_loop ops reg now ts n s)"

definition collect_tombstones ::
  "('s, 'e) GcStore \<Rightarrow> GarbageCollector \<Rightarrow> int \<Rightarrow> 's \<Rightarrow> 's \<times> ('e + nat)" where
  "collect_tombstones ops gc now s =
     (case gs_get_all_tombstones ops s of
        Inl e \<Rightarrow> (s, Inl e)
      | Inr ts \<Rightarrow> collect_tombstones_loop ops (policy_registry gc) now
                   (take (tombstone_batch_size (gc_config gc)) ts) 0 s)"

text \<open>\<^verbatim>\<open>SystemTime - Duration\<close> panics below the representable times (64-bit signed seconds).\<close>

definition systime_minus :: "int \<Rightarrow> duration \<Rightarrow> ('e, int) result" where
  "systime_minus now d =
     (if now - int d < - (2 ^ 63 * 10 ^ 9) then Inl Panic else Inr (now - int d))"

text \<open>A document that cannot be deleted is skipped.\<close>

fun hard_delete_loop ::
  "('s, 'e) GcStore \<Rightarrow> string \<Rightarrow> string list \<Rightarrow> nat \<Rightarrow> 's \<Rightarrow> 's \<times> nat" where
  "hard_delete_loop ops c [] n s = (s, n)"
| "hard_delete_loop ops c (d # ds) n s =
     (case gs_hard_delete ops s c d of
        Inl e \<Rightarrow> hard_delete_loop ops c ds n s
      | Inr s' \<Rightarrow> hard_delete_loop ops c ds (n + 1) s')"

fun collect_documents_loop ::
  "('s, 'e) GcStore \<Rightarrow> GarbageCollector \<Rightarrow> int \<Rightarrow> string list \<Rightarrow> nat \<Rightarrow> 's \<Rightarrow> 's \<times> ('e, nat) result" where
  "collect_documents_loop ops gc now [] n s = (s, Inr n)"
| "collect_documents_loop ops gc now (c # cs) n s =
     (case deletion_registry_get (policy_registry gc) c of
        ImplicitTTL ttl _ \<Rightarrow>
          (case systime_minus now ttl of
             Inl x \<Rightarrow> (s, Inl x)
           | Inr cutoff \<Rightarrow>
               (case gs_get_expired_documents ops s c cutoff of
                  Inl e \<Rightarrow> (s, Inl (Err e))
                | Inr ids \<Rightarrow>
                    (let (s', n') = hard_delete_loop ops c
                                      (take (document_batch_size (gc_config gc)) ids) n s
                     in collect_documents_loop ops gc now cs n' s')))
      | _ \<Rightarrow> collect_documents_loop ops gc now cs n s)"

definition collect_expired_documents ::
  "('s, 'e) GcStore \<Rightarrow> GarbageCollector \<Rightarrow> int \<Rightarrow> 's \<Rightarrow> 's \<times> ('e, nat) result" where
  "collect_expired_documents ops gc now s =
     (case gs_list_collections ops s of
        Inl e \<Rightarrow> (s, Inl (Err e))
      | Inr cs \<Rightarrow> collect_documents_loop ops gc now cs 0 s)"

text \<open>
  One run.  The clock is read by each of the two collections (\<open>now1\<close>, \<open>now2\<close>) and
  around the run (\<open>elapsed\<close>); a panic in the second one leaves no result.
\<close>

definition run_gc ::
  "('s, 'e) GcStore \<Rightarrow> int \<Rightarrow> int \<Rightarrow> duration \<Rightarrow> GarbageCollector \<Rightarrow> 's
     \<Rightarrow> 's \<times> GarbageCollector \<times> ('e, 'e GcResult) result" where
  "run_gc ops now1 now2 elapsed gc s =
     (let (s1, r1) = collect_tombstones ops gc now1 s;
          (res1, gc1) =
            (case r1 of
               Inr n \<Rightarrow> (gc_result_default\<lparr>tombstones_collected := n\<rparr>,
                         gc\<lparr>stats_tombstones := stats_tombstones gc + word_of_nat n\<rparr>)
             | Inl e \<Rightarrow> (gc_result_default\<lparr>gc_errors := [(''Tombstone GC error'', e)]\<rparr>, gc));
          (s2, r2) = collect_expired_documents ops gc1 now2 s1
      in case r2 of
           Inl Panic \<Rightarrow> (s2, gc1, Inl Panic)
         | Inl (Err e) \<Rightarrow>
             (s2, gc1\<lparr>stats_runs := stats_runs gc1 + 1\<rparr>,
              Inr (res1\<lparr>gc_errors := gc_errors res1 @ [(''Document GC error'', e)],
                        gc_duration := elapsed\<rparr>))
         | Inr n \<Rightarrow>
             (s2, gc1\<lparr>stats_documents := stats_documents gc1 + word_of_nat n,
                      stats_runs := stats_runs gc1 + 1\<rparr>,
              Inr (res1\<lparr>documents_collected := n, gc_duration := elapsed\<rparr>)))"

definition check_resurrection ::
  "('s, 'e) GcStore \<Rightarrow> 's \<Rightarrow> string \<Rightarrow> string \<Rightarrow> int \<Rightarrow> 'e + ResurrectionPolicy option" where
  "check_resurrection ops s c d document_timestamp =
     (case gs_has_tombstone ops s c d of
        Inl e \<Rightarrow> Inl e
      | Inr exists \<Rightarrow> (if exists then Inr None else Inr None))"

definition handle_resurrection ::
  "GarbageCollector \<Rightarrow> string \<Rightarrow> string \<Rightarrow> ('e + ResurrectionPolicy) \<times> GarbageCollector" where
  "handle_resurrection gc c d =
     (Inr (resurrection_policy (gc_config gc) c),
      gc\<lparr>stats_resurrections := stats_resurrections gc + 1\<rparr>)"

definition gc_stats :: "GarbageCollector \<Rightarrow> GcStats" where
  "gc_stats gc =
     \<lparr>total_runs = stats_runs gc, total_tombstones_collected = stats_tombstones gc,
      total_documents_collected = stats_documents gc, total_resurrections = stats_resurrections gc,
      last_run = None, last_duration = None\<rparr>"

definition gc_stop :: "GarbageCollector \<Rightarrow> GarbageCollector" where
  "gc_stop gc = gc\<lparr>gc_running := False\<rparr>"

section \<open>Resurrection policies as an override table\<close>

interpretation resurrection_table: override_table resurrection_policy set_resurrection_policy
  by unfold_locales (auto simp: resurrection_policy_def set_resurrection_policy_def)

section \<open>The laws of a store, and what the collector does with one\<close>

definition joined :: "string \<Rightarrow> string \<Rightarrow> string" where
  "joined c d = c @ '':'' @ d"

lemma tombstone_key_joined: "tombstone_key t = joined (collection t) (document_id t)"
  by (simp add: tombstone_key_def joined_def)

text \<open>
  \<open>tomb\<close> and \<open>docs\<close> are the abstract contents: the tombstones and the documents by key.
\<close>

locale gc_store_laws =
  fixes ops :: "('s, 'e) GcStore"
    and inv :: "'s \<Rightarrow> bool"
    and tomb :: "'s \<Rightarrow> string \<Rightarrow> Tombstone option"
    and docs :: "'s \<Rightarrow> string \<Rightarrow> 'd option"
    and created :: "'d \<Rightarrow> u64 option"
  assumes tomb_key: "inv s \<Longrightarrow> tomb s k = Some t \<Longrightarrow> tombstone_key t = k"
    and all_law: "inv s \<Longrightarrow> gs_get_all_tombstones ops s = Inr ts \<Longrightarrow> set ts = ran (tomb s)"
    and remove_law: "inv s \<Longrightarrow> gs_remove_tombstone ops s c d = Inr (b, s') \<Longrightarrow>
          inv s' \<and> docs s' = docs s \<and> tomb s' = (tomb s)(joined c d := None)
          \<and> b = (tomb s (joined c d) \<noteq> None)"
    and has_law: "inv s \<Longrightarrow> gs_has_tombstone ops s c d = Inr b \<Longrightarrow> b = (tomb s (joined c d) \<noteq> None)"
    and expired_law: "inv s \<Longrightarrow> gs_get_expired_documents ops s c cutoff = Inr ids \<Longrightarrow>
          set ids = {d. \<exists>x m. docs s (joined c d) = Some x \<and> created x = Some m \<and> m < epoch_millis cutoff}"
    and delete_law: "inv s \<Longrightarrow> gs_hard_delete ops s c d = Inr s' \<Longrightarrow>
          inv s' \<and> tomb s' = tomb s \<and> docs s' = (docs s)(joined c d := None)"
    and list_law: "inv s \<Longrightarrow> gs_list_collections ops s = Inr cs \<Longrightarrow>
          set cs = {c. CHR '':'' \<notin> set c \<and> (\<exists>d. docs s (joined c d) \<noteq> None)}"
begin

definition tomb_step :: "DeletionPolicyRegistry \<Rightarrow> int \<Rightarrow> 's \<Rightarrow> 's \<Rightarrow> bool" where
  "tomb_step reg now s s' \<longleftrightarrow>
     inv s' \<and> docs s' = docs s
     \<and> (\<forall>k. tomb s' k = tomb s k
            \<or> tomb s' k = None \<and> (\<exists>t. tomb s k = Some t \<and> tombstone_due reg now t))"

lemma collect_tombstones_loop_step:
  assumes "inv s0" "tomb_step reg now s0 s" "set ts \<subseteq> ran (tomb s0)"
    "collect_tombstones_loop ops reg now ts n s = (s', res)"
  shows "tomb_step reg now s0 s'"
  using assms(2-4)
proof (induction ts arbitrary: n s)
  case (Cons t ts)
  show ?case
  proof (cases "tombstone_due reg now t")
    case due: True
    obtain k where "tomb s0 k = Some t"
      using Cons.prems(2) by (auto simp: ran_def)
    then have t: "tomb s0 (joined (collection t) (document_id t)) = Some t"
      using tomb_key [OF assms(1)] tombstone_key_joined by metis
    show ?thesis
    proof (cases "gs_remove_tombstone ops s (collection t) (document_id t)")
      case (Inl e)
      then show ?thesis
        using Cons.prems due by auto
    next
      case (Inr bs)
      obtain b s1 where bs: "bs = (b, s1)" by (cases bs)
      have "inv s" using Cons.prems(1) by (simp add: tomb_step_def)
      then have "tomb_step reg now s0 s1"
        using remove_law [of s "collection t" "document_id t" b s1] Inr bs Cons.prems(1) t due
        by (auto simp: tomb_step_def)
      then show ?thesis
        using Cons.IH [of s1] Cons.prems Inr bs due by auto
    qed
  qed (use Cons in auto)
qed auto

lemma collect_tombstones_step:
  assumes "inv s" "collect_tombstones ops gc now s = (s', res)"
  shows "tomb_step (policy_registry gc) now s s'"
proof (cases "gs_get_all_tombstones ops s")
  case (Inl e)
  then show ?thesis using assms by (auto simp: collect_tombstones_def tomb_step_def)
next
  case (Inr ts)
  have "tomb_step (policy_registry gc) now s s"
    using assms(1) by (simp add: tomb_step_def)
  moreover have "set (take (tombstone_batch_size (gc_config gc)) ts) \<subseteq> ran (tomb s)"
    using all_law [OF assms(1) Inr] set_take_subset by fastforce
  ultimately show ?thesis
    using collect_tombstones_loop_step [OF assms(1)] assms(2) Inr by (auto simp: collect_tombstones_def)
qed

lemma collect_tombstones_loop_complete:
  assumes "inv s" "collect_tombstones_loop ops reg now ts n s = (s', Inr m)"
    "\<forall>k t. tomb s k = Some t \<and> tombstone_due reg now t \<longrightarrow> t \<in> set ts"
  shows "\<forall>k t. tomb s' k = Some t \<longrightarrow> \<not> tombstone_due reg now t"
  using assms
proof (induction ts arbitrary: n s)
  case (Cons t ts)
  show ?case
  proof (cases "tombstone_due reg now t")
    case due: True
    then obtain b s1 where rm: "gs_remove_tombstone ops s (collection t) (document_id t) = Inr (b, s1)"
      and rest: "collect_tombstones_loop ops reg now ts (if b then n + 1 else n) s1 = (s', Inr m)"
      using Cons.prems(2) by (auto split: sum.splits)
    have s1: "inv s1" "tomb s1 = (tomb s)(joined (collection t) (document_id t) := None)"
      using remove_law [OF Cons.prems(1) rm] by auto
    have "u \<in> set ts" if u: "tomb s1 k = Some u" "tombstone_due reg now u" for k u
    proof -
      have "tomb s k = Some u" "k \<noteq> joined (collection t) (document_id t)"
        using u s1 by (auto split: if_splits)
      moreover then have "u \<noteq> t"
        using tomb_key [OF Cons.prems(1)] tombstone_key_joined by metis
      ultimately show ?thesis
        using Cons.prems(3) u by auto
    qed
    then show ?thesis
      using Cons.IH [OF s1(1) rest] by blast
  next
    case False
    then show ?thesis
      using Cons.IH [of s n] Cons.prems by auto
  qed
qed auto

end

context gc_store_laws
begin

lemma collect_tombstones_complete:
  assumes "inv s" "collect_tombstones ops gc now s = (s', Inr m)"
    "\<And>ts. gs_get_all_tombstones ops s = Inr ts \<Longrightarrow> length ts \<le> tombstone_batch_size (gc_config gc)"
  shows "\<forall>k t. tomb s' k = Some t \<longrightarrow> \<not> tombstone_due (policy_registry gc) now t"
proof -
  obtain ts where ts: "gs_get_all_tombstones ops s = Inr ts"
    "collect_tombstones_loop ops (policy_registry gc) now ts 0 s = (s', Inr m)"
    using assms(2,3) by (auto simp: collect_tombstones_def split: sum.splits)
  have "\<forall>k t. tomb s k = Some t \<longrightarrow> t \<in> set ts"
    using all_law [OF assms(1) ts(1)] by (auto simp: ran_def)
  then show ?thesis
    using collect_tombstones_loop_complete [OF assms(1) ts(2)] by blast
qed

definition doc_due :: "DeletionPolicyRegistry \<Rightarrow> int \<Rightarrow> string \<Rightarrow> 'd \<Rightarrow> bool" where
  "doc_due reg now k x \<longleftrightarrow>
     (\<exists>c d ttl key m. k = joined c d \<and> CHR '':'' \<notin> set c
        \<and> deletion_registry_get reg c = ImplicitTTL ttl key
        \<and> created x = Some m \<and> m < epoch_millis (now - int ttl))"

definition doc_step :: "DeletionPolicyRegistry \<Rightarrow> int \<Rightarrow> 's \<Rightarrow> 's \<Rightarrow> bool" where
  "doc_step reg now s s' \<longleftrightarrow>
     inv s' \<and> tomb s' = tomb s
     \<and> (\<forall>k. docs s' k = docs s k
            \<or> docs s' k = None \<and> (\<exists>x. docs s k = Some x \<and> doc_due reg now k x))"

lemma doc_step_trans: "doc_step reg now s s' \<Longrightarrow> doc_step reg now s' s'' \<Longrightarrow> doc_step reg now s s''"
  unfolding doc_step_def by metis

lemma hard_delete_loop_step:
  assumes "inv s"
    "\<forall>d \<in> set ds. \<exists>x. docs s (joined c d) = Some x \<and> doc_due reg now (joined c d) x"
    "hard_delete_loop ops c ds n s = (s', n')"
  shows "doc_step reg now s s'"
proof -
  have "inv s' \<and> tomb s' = tomb s \<and>
      (\<forall>k. docs s' k = docs s k \<or> docs s' k = None \<and> k \<in> joined c ` set ds)"
    using assms(1,3)
  proof (induction ds arbitrary: n s)
    case (Cons d ds)
    show ?case
    proof (cases "gs_hard_delete ops s c d")
      case (Inr s1)
      then have s1: "inv s1" "tomb s1 = tomb s" "docs s1 = (docs s)(joined c d := None)"
        using delete_law Cons.prems(1) by auto
      have "hard_delete_loop ops c ds (n + 1) s1 = (s', n')"
        using Cons.prems(2) Inr by simp
      from Cons.IH [OF s1(1) this] s1(2,3) show ?thesis
        by (auto split: if_splits)
    qed (use Cons in auto)
  qed auto
  then show ?thesis
    using assms(2) unfolding doc_step_def by (metis imageE)
qed

lemma collect_documents_loop_step:
  assumes "inv s" "\<forall>c \<in> set cs. CHR '':'' \<notin> set c"
    "collect_documents_loop ops gc now cs n s = (s', res)"
  shows "doc_step (policy_registry gc) now s s'"
  using assms
proof (induction cs arbitrary: n s)
  case Nil
  then show ?case by (simp add: doc_step_def)
next
  case (Cons c cs)
  let ?reg = "policy_registry gc"
  have refl: "doc_step ?reg now s s"
    using Cons.prems(1) by (simp add: doc_step_def)
  show ?case
  proof (cases "deletion_registry_get ?reg c")
    case (ImplicitTTL ttl key)
    show ?thesis
    proof (cases "systime_minus now ttl :: ('e, int) result")
      case (Inl x)
      then show ?thesis using Cons.prems(3) ImplicitTTL refl by simp
    next
      case cut: (Inr cutoff)
      then have cutoff: "cutoff = now - int ttl"
        by (simp add: systime_minus_def split: if_splits)
      show ?thesis
      proof (cases "gs_get_expired_documents ops s c cutoff")
        case (Inl e)
        then show ?thesis using Cons.prems(3) ImplicitTTL cut refl by simp
      next
        case (Inr ids)
        let ?ids = "take (document_batch_size (gc_config gc)) ids"
        obtain s1 n1 where l: "hard_delete_loop ops c ?ids n s = (s1, n1)"
          by (cases "hard_delete_loop ops c ?ids n s")
        have "\<forall>d \<in> set ?ids. \<exists>x. docs s (joined c d) = Some x \<and> doc_due ?reg now (joined c d) x"
          using expired_law [OF Cons.prems(1) Inr] set_take_subset [of _ ids] Cons.prems(2) ImplicitTTL cutoff
          unfolding doc_due_def by fastforce
        then have step: "doc_step ?reg now s s1"
          using hard_delete_loop_step [OF Cons.prems(1) _ l] by blast
        have "collect_documents_loop ops gc now cs n1 s1 = (s', res)"
          using Cons.prems(3) ImplicitTTL cut Inr l by simp
        then have "doc_step ?reg now s1 s'"
          using Cons.IH [of s1 n1] step Cons.prems(2) by (auto simp: doc_step_def)
        with step show ?thesis by (rule doc_step_trans)
      qed
    qed
  qed (use Cons in auto)
qed

lemma collect_expired_documents_step:
  assumes "inv s" "collect_expired_documents ops gc now s = (s', res)"
  shows "doc_step (policy_registry gc) now s s'"
proof (cases "gs_list_collections ops s")
  case (Inl e)
  then show ?thesis using assms by (auto simp: collect_expired_documents_def doc_step_def)
next
  case (Inr cs)
  have "\<forall>c \<in> set cs. CHR '':'' \<notin> set c"
    using list_law [OF assms(1) Inr] by auto
  then show ?thesis
    using collect_documents_loop_step [OF assms(1)] assms(2) Inr
    by (auto simp: collect_expired_documents_def)
qed

lemma run_gc_step:
  assumes "inv s" "run_gc ops now1 now2 elapsed gc s = (s', gc', res)"
  shows "inv s'
     \<and> (\<forall>k. tomb s' k = tomb s k
            \<or> tomb s' k = None \<and> (\<exists>t. tomb s k = Some t \<and> tombstone_due (policy_registry gc) now1 t))
     \<and> (\<forall>k. docs s' k = docs s k
            \<or> docs s' k = None \<and> (\<exists>x. docs s k = Some x \<and> doc_due (policy_registry gc) now2 k x))"
proof -
  obtain s1 r1 where c1: "collect_tombstones ops gc now1 s = (s1, r1)"
    by (cases "collect_tombstones ops gc now1 s")
  define gc1 where "gc1 = (case r1 of Inr n \<Rightarrow> gc\<lparr>stats_tombstones := stats_tombstones gc + word_of_nat n\<rparr>
    | Inl e \<Rightarrow> gc)"
  obtain s2 r2 where c2: "collect_expired_documents ops gc1 now2 s1 = (s2, r2)"
    by (cases "collect_expired_documents ops gc1 now2 s1")
  have s2: "s' = s2"
    using assms(2) c1 c2 unfolding run_gc_def gc1_def
    by (auto simp: Let_def split: sum.splits failure.splits)
  have reg: "policy_registry gc1 = policy_registry gc"
    by (simp add: gc1_def split: sum.splits)
  have t: "tomb_step (policy_registry gc) now1 s s1"
    by (rule collect_tombstones_step [OF assms(1) c1])
  then have "doc_step (policy_registry gc) now2 s1 s2"
    using collect_expired_documents_step [OF _ c2] reg by (auto simp: tomb_step_def)
  with t show ?thesis
    unfolding s2 tomb_step_def doc_step_def by auto
qed

lemma check_resurrection_None:
  "check_resurrection ops s c d ts = Inr r \<Longrightarrow> r = None"
  by (auto simp: check_resurrection_def split: sum.splits if_splits)

end

end
