(* ===== verification/Automerge_Store.thy ===== *)
theory Automerge_Store
  imports Garbage_Collection "HOL-Library.Char_ord" "HOL-Library.List_Lexorder" "HOL-Library.Sublist"
    "HOL-Library.DAList"
begin

text \<open>
  The document store of \<^verbatim>\<open>src/storage/automerge_store.rs\<close>: documents and
  tombstones in two tables of an embedded database, behind an LRU cache, or the
  cache alone in memory mode.  The database (redb), the cache (lru), the
  Automerge documents and the JSON form of a tombstone (serde) are libraries:
  they are one record of functions that every operation takes as an argument,
  and the locale \<open>automerge_env\<close> states what the store relies on.  Keys are the
  strings that the store writes (their bytes are the keys of the tables).  A
  write transaction is one step: it fails and changes nothing, or it commits.
  An error is the error of the operation that failed.
\<close>

section \<open>Libraries\<close>

record ('t, 'c, 'd, 'e) store_env =
  tbl_get :: "'t \<Rightarrow> string \<Rightarrow> 'e + byte list option"
  tbl_insert :: "'t \<Rightarrow> string \<Rightarrow> byte list \<Rightarrow> 'e + 't"
  tbl_remove :: "'t \<Rightarrow> string \<Rightarrow> 'e + byte list option \<times> 't"
  tbl_iter :: "'t \<Rightarrow> 'e + (string \<times> byte list) list"
  tbl_range :: "'t \<Rightarrow> string \<Rightarrow> 'e + (string \<times> byte list) list"
  lru_get :: "'c \<Rightarrow> string \<Rightarrow> 'd option \<times> 'c"
  lru_put :: "'c \<Rightarrow> string \<Rightarrow> 'd \<Rightarrow> 'c"
  lru_pop :: "'c \<Rightarrow> string \<Rightarrow> 'c"
  lru_iter :: "'c \<Rightarrow> (string \<times> 'd) list"
  am_save :: "'d \<Rightarrow> byte list"
  am_load :: "byte list \<Rightarrow> 'e + 'd"
  am_created_at :: "'d \<Rightarrow> u64 option"
  json_to :: "Tombstone \<Rightarrow> 'e + byte list"
  json_from :: "byte list \<Rightarrow> 'e + Tombstone"
  hash_order :: "string list \<Rightarrow> string list"

section \<open>The store\<close>

text \<open>
  \<open>db\<close> is the documents table and the tombstones table, or nothing in memory mode;
  the two channels are the keys sent on them so far.
\<close>

record ('t, 'c) AutomergeStore =
  db :: "('t \<times> 't) option"
  cache :: 'c
  change_tx :: "string list"
  observer_tx :: "string list"

definition is_in_memory :: "('t, 'c) AutomergeStore \<Rightarrow> bool" where
  "is_in_memory s \<longleftrightarrow> db s = None"

definition put_inner ::
  "('t, 'c, 'd, 'e) store_env \<Rightarrow> ('t, 'c) AutomergeStore \<Rightarrow> string \<Rightarrow> 'd \<Rightarrow> bool
     \<Rightarrow> 'e + ('t, 'c) AutomergeStore" where
  "put_inner env s key doc notify =
     rbind (case db s of
              Some (D, T) \<Rightarrow> rbind (tbl_insert env D key (am_save env doc)) (\<lambda>D'.
                             Inr (s\<lparr>db := Some (D', T)\<rparr>))
            | None \<Rightarrow> Inr s) (\<lambda>s1.
     let s2 = s1\<lparr>cache := lru_put env (cache s1) key doc, observer_tx := observer_tx s1 @ [key]\<rparr>
     in Inr (if notify then s2\<lparr>change_tx := change_tx s2 @ [key]\<rparr> else s2))"

definition store_put ::
  "('t, 'c, 'd, 'e) store_env \<Rightarrow> ('t, 'c) AutomergeStore \<Rightarrow> string \<Rightarrow> 'd
     \<Rightarrow> 'e + ('t, 'c) AutomergeStore" where
  "store_put env s key doc = put_inner env s key doc True"

definition put_without_notify ::
  "('t, 'c, 'd, 'e) store_env \<Rightarrow> ('t, 'c) AutomergeStore \<Rightarrow> string \<Rightarrow> 'd
     \<Rightarrow> 'e + ('t, 'c) AutomergeStore" where
  "put_without_notify env s key doc = put_inner env s key doc False"

text \<open>A lookup moves the entry to the front of the cache and fills the cache on a miss.\<close>

definition store_get ::
  "('t, 'c, 'd, 'e) store_env \<Rightarrow> ('t, 'c) AutomergeStore \<Rightarrow> string
     \<Rightarrow> ('e + 'd option) \<times> ('t, 'c) AutomergeStore" where
  "store_get env s key =
     (let (hit, c1) = lru_get env (cache s) key; s1 = s\<lparr>cache := c1\<rparr> in
      case hit of
        Some doc \<Rightarrow> (Inr (Some doc), s1)
      | None \<Rightarrow>
          (case db s1 of
             None \<Rightarrow> (Inr None, s1)
           | Some (D, T) \<Rightarrow>
               (case tbl_get env D key of
                  Inl e \<Rightarrow> (Inl e, s1)
                | Inr None \<Rightarrow> (Inr None, s1)
                | Inr (Some bytes) \<Rightarrow>
                    (case am_load env bytes of
                       Inl e \<Rightarrow> (Inl e, s1)
                     | Inr doc \<Rightarrow> (Inr (Some doc), s1\<lparr>cache := lru_put env (cache s1) key doc\<rparr>)))))"

definition store_delete ::
  "('t, 'c, 'd, 'e) store_env \<Rightarrow> ('t, 'c) AutomergeStore \<Rightarrow> string \<Rightarrow> 'e + ('t, 'c) AutomergeStore" where
  "store_delete env s key =
     rbind (case db s of
              Some (D, T) \<Rightarrow> rbind (tbl_remove env D key) (\<lambda>(old, D').
                             Inr (s\<lparr>db := Some (D', T)\<rparr>))
            | None \<Rightarrow> Inr s) (\<lambda>s1.
     Inr (s1\<lparr>cache := lru_pop env (cache s1) key\<rparr>))"

text \<open>The results of a loop that stops at the first error.\<close>

fun try_map :: "('a \<Rightarrow> 'e + 'b) \<Rightarrow> 'a list \<Rightarrow> 'e + 'b list" where
  "try_map f [] = Inr []"
| "try_map f (x # xs) = rbind (f x) (\<lambda>y. rbind (try_map f xs) (\<lambda>ys. Inr (y # ys)))"

definition scan_prefix ::
  "('t, 'c, 'd, 'e) store_env \<Rightarrow> ('t, 'c) AutomergeStore \<Rightarrow> string \<Rightarrow> 'e + (string \<times> 'd) list" where
  "scan_prefix env s p =
     (case db s of
        None \<Rightarrow> Inr (filter (\<lambda>(k, v). prefix p k) (lru_iter env (cache s)))
      | Some (D, T) \<Rightarrow>
          rbind (tbl_range env D p) (\<lambda>kvs.
          try_map (\<lambda>(k, bytes). rbind (am_load env bytes) (\<lambda>doc. Inr (k, doc)))
            (takeWhile (\<lambda>(k, bytes). prefix p k) kvs)))"

section \<open>Tombstones\<close>

definition put_tombstone ::
  "('t, 'c, 'd, 'e) store_env \<Rightarrow> ('t, 'c) AutomergeStore \<Rightarrow> Tombstone \<Rightarrow> 'e + ('t, 'c) AutomergeStore" where
  "put_tombstone env s t =
     (case db s of
        None \<Rightarrow> Inr s
      | Some (D, T) \<Rightarrow>
          rbind (json_to env t) (\<lambda>bytes.
          rbind (tbl_insert env T (joined (collection t) (document_id t)) bytes) (\<lambda>T'.
          Inr (s\<lparr>db := Some (D, T')\<rparr>))))"

definition get_tombstone ::
  "('t, 'c, 'd, 'e) store_env \<Rightarrow> ('t, 'c) AutomergeStore \<Rightarrow> string \<Rightarrow> string \<Rightarrow> 'e + Tombstone option" where
  "get_tombstone env s c d =
     (case db s of
        None \<Rightarrow> Inr None
      | Some (D, T) \<Rightarrow>
          rbind (tbl_get env T (joined c d)) (\<lambda>found.
          case found of
            Some bytes \<Rightarrow> rbind (json_from env bytes) (\<lambda>t. Inr (Some t))
          | None \<Rightarrow> Inr None))"

definition get_tombstones_for_collection ::
  "('t, 'c, 'd, 'e) store_env \<Rightarrow> ('t, 'c) AutomergeStore \<Rightarrow> string \<Rightarrow> 'e + Tombstone list" where
  "get_tombstones_for_collection env s c =
     (case db s of
        None \<Rightarrow> Inr []
      | Some (D, T) \<Rightarrow>
          rbind (tbl_iter env T) (\<lambda>kvs.
          try_map (\<lambda>(k, bytes). json_from env bytes) (filter (\<lambda>(k, _). prefix (c @ '':'') k) kvs)))"

definition get_all_tombstones ::
  "('t, 'c, 'd, 'e) store_env \<Rightarrow> ('t, 'c) AutomergeStore \<Rightarrow> 'e + Tombstone list" where
  "get_all_tombstones env s =
     (case db s of
        None \<Rightarrow> Inr []
      | Some (D, T) \<Rightarrow>
          rbind (tbl_iter env T) (\<lambda>kvs. try_map (\<lambda>(k, bytes). json_from env bytes) kvs))"

definition remove_tombstone ::
  "('t, 'c, 'd, 'e) store_env \<Rightarrow> ('t, 'c) AutomergeStore \<Rightarrow> string \<Rightarrow> string
     \<Rightarrow> 'e + bool \<times> ('t, 'c) AutomergeStore" where
  "remove_tombstone env s c d =
     (case db s of
        None \<Rightarrow> Inr (False, s)
      | Some (D, T) \<Rightarrow>
          rbind (tbl_remove env T (joined c d)) (\<lambda>(old, T').
          Inr (old \<noteq> None, s\<lparr>db := Some (D, T')\<rparr>)))"

definition has_tombstone ::
  "('t, 'c, 'd, 'e) store_env \<Rightarrow> ('t, 'c) AutomergeStore \<Rightarrow> string \<Rightarrow> string \<Rightarrow> 'e + bool" where
  "has_tombstone env s c d = rbind (get_tombstone env s c d) (\<lambda>t. Inr (t \<noteq> None))"

section \<open>Garbage collection support\<close>

text \<open>The collection of a key: what stands before its first colon, if it has one.\<close>

definition key_collection :: "string \<Rightarrow> string option" where
  "key_collection k =
     (if CHR '':'' \<in> set k then Some (takeWhile (\<lambda>ch. ch \<noteq> CHR '':'') k) else None)"

definition list_collections ::
  "('t, 'c, 'd, 'e) store_env \<Rightarrow> ('t, 'c) AutomergeStore \<Rightarrow> 'e + string list" where
  "list_collections env s =
     (case db s of
        None \<Rightarrow> Inr (hash_order env (remdups (List.map_filter key_collection (map fst (lru_iter env (cache s))))))
      | Some (D, T) \<Rightarrow>
          rbind (tbl_iter env D) (\<lambda>kvs.
          Inr (hash_order env (remdups (List.map_filter key_collection (map fst kvs))))))"

definition get_expired_documents ::
  "('t, 'c, 'd, 'e) store_env \<Rightarrow> ('t, 'c) AutomergeStore \<Rightarrow> string \<Rightarrow> int \<Rightarrow> 'e + string list" where
  "get_expired_documents env s c cutoff =
     rbind (scan_prefix env s (c @ '':'')) (\<lambda>kds.
     Inr (List.map_filter
            (\<lambda>(k, doc). case am_created_at env doc of
                          Some created \<Rightarrow>
                            if created < epoch_millis cutoff \<and> prefix (c @ '':'') k
                            then Some (drop (length (c @ '':'')) k) else None
                        | None \<Rightarrow> None) kds))"

definition hard_delete ::
  "('t, 'c, 'd, 'e) store_env \<Rightarrow> ('t, 'c) AutomergeStore \<Rightarrow> string \<Rightarrow> string
     \<Rightarrow> 'e + ('t, 'c) AutomergeStore" where
  "hard_delete env s c d = store_delete env s (joined c d)"

definition automerge_gc_store ::
  "('t, 'c, 'd, 'e) store_env \<Rightarrow> (('t, 'c) AutomergeStore, 'e) GcStore" where
  "automerge_gc_store env =
     \<lparr>gs_get_all_tombstones = get_all_tombstones env,
      gs_remove_tombstone = remove_tombstone env,
      gs_has_tombstone = has_tombstone env,
      gs_get_expired_documents = get_expired_documents env,
      gs_hard_delete = hard_delete env,
      gs_list_collections = list_collections env\<rparr>"

section \<open>What the libraries promise\<close>

locale automerge_env =
  fixes env :: "('t, 'c, 'd, 'e) store_env"
    and cont :: "'t \<Rightarrow> string \<Rightarrow> byte list option"
    and cached :: "'c \<Rightarrow> string \<Rightarrow> 'd option"
  assumes tbl_get_law: "tbl_get env t k = Inr v \<Longrightarrow> cont t k = v"
    and tbl_insert_law: "tbl_insert env t k b = Inr t' \<Longrightarrow> cont t' = (cont t)(k \<mapsto> b)"
    and tbl_remove_law: "tbl_remove env t k = Inr (v, t') \<Longrightarrow> v = cont t k \<and> cont t' = (cont t)(k := None)"
    and tbl_iter_law: "tbl_iter env t = Inr kvs \<Longrightarrow> distinct (map fst kvs) \<and> map_of kvs = cont t"
    and tbl_range_law: "tbl_range env t p = Inr kvs \<Longrightarrow>
          sorted (map fst kvs) \<and> (\<forall>k b. (k, b) \<in> set kvs \<longleftrightarrow> p \<le> k \<and> cont t k = Some b)"
    and lru_get_law: "lru_get env c k = (hit, c') \<Longrightarrow> hit = cached c k \<and> cached c' = cached c"
    and lru_put_law: "cached (lru_put env c k x) k = Some x"
    and lru_evict_law: "k' \<noteq> k \<Longrightarrow> cached (lru_put env c k x) k' \<in> {cached c k', None}"
    and lru_pop_law: "cached (lru_pop env c k) = (cached c)(k := None)"
    and lru_iter_law: "distinct (map fst (lru_iter env c)) \<and> map_of (lru_iter env c) = cached c"
    and am_load_save: "am_load env (am_save env x) = Inr x"
    and json_law: "json_to env tm = Inr b \<Longrightarrow> json_from env b = Inr tm"
    and hash_order_law: "set (hash_order env xs) = set xs"
begin

definition doc_of :: "byte list \<Rightarrow> 'd option" where
  "doc_of b = (case am_load env b of Inr x \<Rightarrow> Some x | Inl e \<Rightarrow> None)"

definition tomb_of :: "byte list \<Rightarrow> Tombstone option" where
  "tomb_of b = (case json_from env b of Inr t \<Rightarrow> Some t | Inl e \<Rightarrow> None)"

definition docs :: "('t, 'c) AutomergeStore \<Rightarrow> string \<Rightarrow> 'd option" where
  "docs s k = (case db s of Some (D, T) \<Rightarrow> Option.bind (cont D k) doc_of | None \<Rightarrow> cached (cache s) k)"

definition tomb :: "('t, 'c) AutomergeStore \<Rightarrow> string \<Rightarrow> Tombstone option" where
  "tomb s k = (case db s of Some (D, T) \<Rightarrow> Option.bind (cont T k) tomb_of | None \<Rightarrow> None)"

text \<open>
  The invariant: what is cached is what is stored, everything stored can be
  read back, and a tombstone is stored under its own key.
\<close>

definition store_inv :: "('t, 'c) AutomergeStore \<Rightarrow> bool" where
  "store_inv s \<longleftrightarrow>
     (case db s of None \<Rightarrow> True
      | Some (D, T) \<Rightarrow>
          (\<forall>k x. cached (cache s) k = Some x \<longrightarrow> Option.bind (cont D k) doc_of = Some x)
          \<and> (\<forall>k b. cont D k = Some b \<longrightarrow> doc_of b \<noteq> None)
          \<and> (\<forall>k b. cont T k = Some b \<longrightarrow> (\<exists>t. tomb_of b = Some t \<and> tombstone_key t = k)))"

end

section \<open>The store as a map\<close>

lemma set_try_map: "try_map f xs = Inr ys \<Longrightarrow> y \<in> set ys \<longleftrightarrow> (\<exists>x \<in> set xs. f x = Inr y)"
  by (induction xs arbitrary: ys) (auto simp: rbind_eq_Inr)

lemma prefix_between: "p \<le> k \<Longrightarrow> k \<le> p @ r \<Longrightarrow> prefix p (k :: string)"
proof (induction p arbitrary: k)
  case (Cons a p)
  then show ?case
    by (cases k) auto
qed simp

lemma takeWhile_prefix_sorted:
  assumes "sorted (map fst kvs)" "\<forall>k \<in> fst ` set kvs. p \<le> k"
  shows "takeWhile (\<lambda>(k, b). prefix p k) kvs = filter (\<lambda>(k, b). prefix (p :: string) k) kvs"
  using assms
proof (induction kvs)
  case (Cons kv kvs)
  obtain k b where kv: "kv = (k, b)" by (cases kv)
  show ?case
  proof (cases "prefix p k")
    case False
    have "\<not> prefix p k'" if "(k', b') \<in> set kvs" for k' b'
    proof
      assume "prefix p k'"
      then obtain r where "k' = p @ r" by (auto simp: prefix_def)
      moreover have "k \<le> k'" using Cons.prems(1) kv that by fastforce
      ultimately show False
        using prefix_between [of p k r] False Cons.prems(2) kv by auto
    qed
    then have "filter (\<lambda>(k, b). prefix p k) kvs = []"
      by (fastforce simp: filter_empty_conv)
    then show ?thesis
      using kv False by simp
  qed (use Cons kv in auto)
qed simp

lemma prefix_le: "prefix p k \<Longrightarrow> p \<le> (k :: string)"
proof (induction p arbitrary: k)
  case (Cons a p)
  then show ?case by (cases k) auto
qed simp

context automerge_env
begin

lemma doc_of_save [simp]: "doc_of (am_save env x) = Some x"
  by (simp add: doc_of_def am_load_save)

lemma doc_of_eq_Some: "doc_of b = Some x \<longleftrightarrow> am_load env b = Inr x"
  by (simp add: doc_of_def split: sum.splits)

lemma tomb_of_eq_Some: "tomb_of b = Some t \<longleftrightarrow> json_from env b = Inr t"
  by (simp add: tomb_of_def split: sum.splits)

lemma cached_put:
  "cached (lru_put env c k x) k' = Some y \<Longrightarrow> k' = k \<and> y = x \<or> k' \<noteq> k \<and> cached c k' = Some y"
  using lru_put_law [of c k x] lru_evict_law [of k' k c x] by (cases "k' = k") auto

lemma store_inv_cached:
  "store_inv s \<Longrightarrow> db s = Some (D, T) \<Longrightarrow> cached (cache s) k = Some x
     \<Longrightarrow> Option.bind (cont D k) doc_of = Some x"
  by (simp add: store_inv_def)

lemma put_inner_law:
  assumes "store_inv s" "put_inner env s k x n = Inr s'"
  shows "store_inv s' \<and> tomb s' = tomb s \<and> (db s' = None \<longleftrightarrow> db s = None)
     \<and> docs s' k = Some x
     \<and> (db s \<noteq> None \<longrightarrow> docs s' = (docs s)(k \<mapsto> x))
     \<and> (\<forall>k'. k' \<noteq> k \<longrightarrow> docs s' k' \<in> {docs s k', None})"
proof (cases "db s")
  case None
  have s': "db s' = None" "cache s' = lru_put env (cache s) k x"
    using assms(2) None by (auto simp: put_inner_def Let_def split: if_splits)
  have "\<forall>k'. k' \<noteq> k \<longrightarrow> docs s' k' \<in> {docs s k', None}"
    using lru_evict_law [of _ k "cache s" x] None s' by (simp add: docs_def)
  then show ?thesis
    using None s' lru_put_law by (simp add: store_inv_def docs_def tomb_def fun_eq_iff)
next
  case (Some DT)
  obtain D T where DT: "DT = (D, T)" by (cases DT)
  obtain D' where ins: "tbl_insert env D k (am_save env x) = Inr D'"
    using assms(2) Some DT by (auto simp: put_inner_def rbind_eq_Inr split: if_splits)
  have D': "cont D' = (cont D)(k \<mapsto> am_save env x)"
    using tbl_insert_law [OF ins] .
  have s': "db s' = Some (D', T)" "cache s' = lru_put env (cache s) k x"
    using assms(2) Some DT ins by (auto simp: put_inner_def Let_def split: if_splits)
  have "Option.bind (cont D' k') doc_of = Some y" if "cached (cache s') k' = Some y" for k' y
    using cached_put [of "cache s" k x k' y] store_inv_cached [OF assms(1), of D T k' y] that Some DT D' s'
    by auto
  moreover have "doc_of b \<noteq> None" if "cont D' k' = Some b" for k' b
    using that assms(1) Some DT D' by (auto simp: store_inv_def split: if_splits)
  ultimately have "store_inv s'"
    using assms(1) Some DT s' by (simp add: store_inv_def)
  then show ?thesis
    using Some DT s' D' by (auto simp: docs_def tomb_def)
qed

text \<open>The possible outcomes of a lookup.\<close>

lemma store_get_cases:
  assumes "store_get env s k = (r, s')"
  shows "db s' = db s \<and>
     ((\<exists>x. r = Inr (Some x) \<and> cached (cache s) k = Some x \<and> cached (cache s') = cached (cache s))
      \<or> r = Inr None \<and> cached (cache s) k = None \<and> cached (cache s') = cached (cache s)
          \<and> (\<forall>D T. db s = Some (D, T) \<longrightarrow> cont D k = None)
      \<or> (\<exists>e. r = Inl e) \<and> cached (cache s') = cached (cache s)
      \<or> (\<exists>D T b x c. db s = Some (D, T) \<and> cont D k = Some b \<and> am_load env b = Inr x
          \<and> cached c = cached (cache s) \<and> r = Inr (Some x) \<and> cache s' = lru_put env c k x))"
proof -
  obtain hit c1 where g: "lru_get env (cache s) k = (hit, c1)"
    by (cases "lru_get env (cache s) k")
  have c1: "hit = cached (cache s) k" "cached c1 = cached (cache s)"
    using lru_get_law [OF g] by auto
  show ?thesis
  proof (cases "hit")
    case (Some x)
    then show ?thesis
      using assms g c1 by (auto simp: store_get_def)
  next
    case miss: None
    show ?thesis
    proof (cases "db s")
      case None
      then show ?thesis
        using assms g c1 miss by (auto simp: store_get_def)
    next
      case (Some DT)
      obtain D T where DT: "DT = (D, T)" by (cases DT)
      show ?thesis
      proof (cases "tbl_get env D k")
        case (Inl e)
        then show ?thesis
          using assms g c1 miss Some DT by (auto simp: store_get_def)
      next
        case (Inr v)
        then have tg: "tbl_get env D k = Inr (cont D k)"
          using tbl_get_law by metis
        show ?thesis
        proof (cases "cont D k")
          case None
          then show ?thesis
            using assms g c1 miss Some DT tg by (auto simp: store_get_def)
        next
          case b: (Some b)
          then show ?thesis
            using assms g c1 miss Some DT tg by (cases "am_load env b") (auto simp: store_get_def)
        qed
      qed
    qed
  qed
qed

lemma store_get_law:
  assumes "store_inv s" "store_get env s k = (r, s')"
  shows "store_inv s' \<and> tomb s' = tomb s \<and> docs s' = docs s \<and> (db s' = None \<longleftrightarrow> db s = None)
     \<and> (\<forall>v. r = Inr v \<longrightarrow> v = docs s k)"
proof (cases "db s")
  case None
  then show ?thesis
    using store_get_cases [OF assms(2)]
    by (auto simp: store_inv_def docs_def tomb_def fun_eq_iff)
next
  case (Some DT)
  obtain D T where DT: "DT = (D, T)" by (cases DT)
  note cs = store_get_cases [OF assms(2)]
  have keep: "db s' = db s" using cs by blast
  then have same: "docs s' = docs s" "tomb s' = tomb s"
    using Some DT by (auto simp: docs_def tomb_def fun_eq_iff)
  have "Option.bind (cont D k') doc_of = Some x" if "cached (cache s') k' = Some x" for k' x
  proof (cases "cached (cache s') = cached (cache s)")
    case True
    then show ?thesis using that assms(1) Some DT by (auto simp: store_inv_def)
  next
    case False
    then obtain b y c where "cont D k = Some b" "am_load env b = Inr y"
      "cached c = cached (cache s)" "cache s' = lru_put env c k y"
      using cs Some DT by auto
    then show ?thesis
      using cached_put [of c k y k' x] store_inv_cached [OF assms(1), of D T k' x] that Some DT
      by (auto simp: doc_of_eq_Some)
  qed
  then have "store_inv s'"
    using assms(1) Some DT keep by (simp add: store_inv_def)
  moreover have "v = docs s k" if "r = Inr v" for v
    using that cs assms(1) Some DT by (auto simp: docs_def store_inv_def doc_of_def)
  ultimately show ?thesis
    using same keep by simp
qed

end

context automerge_env
begin

lemma store_delete_law:
  assumes "store_inv s" "store_delete env s k = Inr s'"
  shows "store_inv s' \<and> tomb s' = tomb s \<and> docs s' = (docs s)(k := None)
     \<and> (db s' = None \<longleftrightarrow> db s = None)"
proof (cases "db s")
  case None
  then show ?thesis
    using assms by (auto simp: store_delete_def store_inv_def docs_def tomb_def lru_pop_law)
next
  case (Some DT)
  obtain D T where DT: "DT = (D, T)" by (cases DT)
  obtain old D' where rm: "tbl_remove env D k = Inr (old, D')"
    and s': "s' = s\<lparr>db := Some (D', T), cache := lru_pop env (cache s) k\<rparr>"
    using assms(2) Some DT by (auto simp: store_delete_def rbind_eq_Inr)
  have D': "cont D' = (cont D)(k := None)"
    using tbl_remove_law [OF rm] by simp
  show ?thesis
    using assms(1) Some DT s' D'
    by (auto simp: store_inv_def docs_def tomb_def lru_pop_law split: if_splits)
qed

lemma put_tombstone_law:
  assumes "store_inv s" "put_tombstone env s t = Inr s'"
  shows "store_inv s' \<and> docs s' = docs s \<and> (db s' = None \<longleftrightarrow> db s = None)
     \<and> (db s \<noteq> None \<longrightarrow> tomb s' = (tomb s)(tombstone_key t \<mapsto> t)) \<and> (db s = None \<longrightarrow> tomb s' = tomb s)"
proof (cases "db s")
  case None
  then show ?thesis
    using assms by (auto simp: put_tombstone_def)
next
  case (Some DT)
  obtain D T where DT: "DT = (D, T)" by (cases DT)
  obtain b T' where b: "json_to env t = Inr b" and ins: "tbl_insert env T (tombstone_key t) b = Inr T'"
    and s': "s' = s\<lparr>db := Some (D, T')\<rparr>"
    using assms(2) Some DT by (auto simp: put_tombstone_def rbind_eq_Inr tombstone_key_joined)
  have "tomb_of b = Some t"
    using json_law [OF b] by (simp add: tomb_of_eq_Some)
  then show ?thesis
    using assms(1) Some DT s' tbl_insert_law [OF ins]
    by (auto simp: store_inv_def docs_def tomb_def)
qed

lemma get_tombstone_law: "get_tombstone env s c d = Inr r \<Longrightarrow> tomb s (joined c d) = r"
  by (auto simp: get_tombstone_def tomb_def rbind_eq_Inr tomb_of_def dest!: tbl_get_law
      split: option.splits)

lemma has_tombstone_law: "has_tombstone env s c d = Inr b \<Longrightarrow> b = (tomb s (joined c d) \<noteq> None)"
  by (auto simp: has_tombstone_def rbind_eq_Inr dest: get_tombstone_law)

lemma remove_tombstone_law:
  assumes "store_inv s" "remove_tombstone env s c d = Inr (b, s')"
  shows "store_inv s' \<and> docs s' = docs s \<and> tomb s' = (tomb s)(joined c d := None)
     \<and> b = (tomb s (joined c d) \<noteq> None)"
proof (cases "db s")
  case None
  then show ?thesis
    using assms by (auto simp: remove_tombstone_def tomb_def fun_eq_iff)
next
  case (Some DT)
  obtain D T where DT: "DT = (D, T)" by (cases DT)
  obtain old T' where rm: "tbl_remove env T (joined c d) = Inr (old, T')"
    and s': "s' = s\<lparr>db := Some (D, T')\<rparr>" "b = (old \<noteq> None)"
    using assms(2) Some DT by (auto simp: remove_tombstone_def rbind_eq_Inr)
  have T': "old = cont T (joined c d)" "cont T' = (cont T)(joined c d := None)"
    using tbl_remove_law [OF rm] by auto
  have "b = (tomb s (joined c d) \<noteq> None)"
    using assms(1) Some DT s'(2) T'(1) by (cases old) (auto simp: tomb_def store_inv_def, blast)
  then show ?thesis
    using assms(1) Some DT s' T'(2)
    by (auto simp: store_inv_def docs_def tomb_def split: if_splits)
qed

lemma get_all_tombstones_law:
  assumes "store_inv s" "get_all_tombstones env s = Inr ts"
  shows "set ts = ran (tomb s)"
proof (cases "db s")
  case None
  then show ?thesis
    using assms by (auto simp: get_all_tombstones_def tomb_def ran_def)
next
  case (Some DT)
  obtain D T where DT: "DT = (D, T)" by (cases DT)
  obtain kvs where it: "tbl_iter env T = Inr kvs"
    and all: "try_map (\<lambda>(k, bytes). json_from env bytes) kvs = Inr ts"
    using assms(2) Some DT by (auto simp: get_all_tombstones_def rbind_eq_Inr)
  have kvs: "(k, b) \<in> set kvs \<longleftrightarrow> cont T k = Some b" for k b
    using tbl_iter_law [OF it] by (metis map_of_eq_Some_iff)
  have "t \<in> set ts \<longleftrightarrow> (\<exists>k b. (k, b) \<in> set kvs \<and> json_from env b = Inr t)" for t
    using set_try_map [OF all, of t] by force
  then have "t \<in> set ts \<longleftrightarrow> t \<in> ran (tomb s)" for t
    unfolding kvs using Some DT by (simp add: ran_def tomb_def bind_eq_Some_conv tomb_of_eq_Some)
  then show ?thesis by blast
qed

end

lemma set_map_filter: "set (List.map_filter f xs) = {y. \<exists>x \<in> set xs. f x = Some y}"
  by (induction xs) (auto simp: List.map_filter_def split: option.splits)

lemma takeWhile_to_colon: "CHR '':'' \<notin> set c \<Longrightarrow> takeWhile (\<lambda>ch. ch \<noteq> CHR '':'') (joined c d) = c"
  unfolding joined_def by (subst takeWhile_append2) auto

lemma key_collection_joined:
  "key_collection k = Some c \<longleftrightarrow> CHR '':'' \<notin> set c \<and> (\<exists>d. k = joined c d)"
proof
  assume kc: "key_collection k = Some c"
  then have "CHR '':'' \<in> set k"
    by (simp add: key_collection_def split: if_splits)
  then obtain c' d where k: "k = c' @ CHR '':'' # d" "CHR '':'' \<notin> set c'"
    by (meson split_list_first)
  then have "k = joined c' d"
    by (simp add: joined_def)
  moreover have "c = c'"
    using kc takeWhile_to_colon [OF k(2), of d] \<open>k = joined c' d\<close>
    by (simp add: key_collection_def split: if_splits)
  ultimately show "CHR '':'' \<notin> set c \<and> (\<exists>d. k = joined c d)"
    using k(2) by blast
next
  assume "CHR '':'' \<notin> set c \<and> (\<exists>d. k = joined c d)"
  then show "key_collection k = Some c"
    using takeWhile_to_colon by (auto simp: key_collection_def joined_def)
qed

lemma prefix_joined: "prefix (c @ '':'') k \<and> d = drop (Suc (length c)) k \<longleftrightarrow> k = joined c d"
  by (auto simp: joined_def prefix_def)

context automerge_env
begin

lemma scan_prefix_law:
  assumes "store_inv s" "scan_prefix env s p = Inr kds"
  shows "(k, x) \<in> set kds \<longleftrightarrow> prefix p k \<and> docs s k = Some x"
proof (cases "db s")
  case None
  have "(k, x) \<in> set (lru_iter env (cache s)) \<longleftrightarrow> cached (cache s) k = Some x"
    using lru_iter_law [of "cache s"] by (metis map_of_eq_Some_iff)
  then show ?thesis
    using assms None by (auto simp: scan_prefix_def docs_def)
next
  case (Some DT)
  obtain D T where DT: "DT = (D, T)" by (cases DT)
  obtain kvs where rg: "tbl_range env D p = Inr kvs"
    and all: "try_map (\<lambda>(k, bytes). rbind (am_load env bytes) (\<lambda>doc. Inr (k, doc)))
      (takeWhile (\<lambda>(k, b). prefix p k) kvs) = Inr kds"
    using assms(2) Some DT by (auto simp: scan_prefix_def rbind_eq_Inr)
  have kvs: "(k, b) \<in> set kvs \<longleftrightarrow> p \<le> k \<and> cont D k = Some b" "sorted (map fst kvs)" for k b
    using tbl_range_law [OF rg] by auto
  have tw: "takeWhile (\<lambda>(k, b). prefix p k) kvs = filter (\<lambda>(k, b). prefix p k) kvs"
    using kvs by (intro takeWhile_prefix_sorted) auto
  have "(k, x) \<in> set kds \<longleftrightarrow> (\<exists>b. (k, b) \<in> set kvs \<and> prefix p k \<and> am_load env b = Inr x)"
    using set_try_map [OF all, of "(k, x)"] unfolding tw by (fastforce simp: rbind_eq_Inr)
  also have "\<dots> \<longleftrightarrow> prefix p k \<and> docs s k = Some x"
    using kvs(1) prefix_le [of p k] Some DT
    by (auto simp: docs_def bind_eq_Some_conv doc_of_eq_Some)
  finally show ?thesis .
qed

lemma get_expired_documents_law:
  assumes "store_inv s" "get_expired_documents env s c cutoff = Inr ids"
  shows "set ids = {d. \<exists>x m. docs s (joined c d) = Some x \<and> am_created_at env x = Some m
                       \<and> m < epoch_millis cutoff}"
proof -
  define f where "f = (\<lambda>(k, doc). case am_created_at env doc of
                          Some created \<Rightarrow>
                            if created < epoch_millis cutoff \<and> prefix (c @ '':'') k
                            then Some (drop (length (c @ '':'')) k) else None
                        | None \<Rightarrow> None)"
  obtain kds where kds: "scan_prefix env s (c @ '':'') = Inr kds" and ids: "ids = List.map_filter f kds"
    using assms(2) by (auto simp: get_expired_documents_def rbind_eq_Inr f_def)
  have f: "f (k, x) = Some d \<longleftrightarrow>
      (\<exists>m. am_created_at env x = Some m \<and> m < epoch_millis cutoff) \<and> k = joined c d" for k x d
    using prefix_joined [of c k d] by (auto simp: f_def split: option.splits)
  have "d \<in> set ids \<longleftrightarrow> (\<exists>k x. (k, x) \<in> set kds \<and> f (k, x) = Some d)" for d
    unfolding ids by (simp add: set_map_filter Bex_def)
  then have "d \<in> set ids \<longleftrightarrow> (\<exists>x m. docs s (joined c d) = Some x \<and> am_created_at env x = Some m
                       \<and> m < epoch_millis cutoff)" for d
    unfolding scan_prefix_law [OF assms(1) kds] f using prefix_joined [of c "joined c d" d] by blast
  then show ?thesis by blast
qed

lemma list_collections_law:
  assumes "store_inv s" "list_collections env s = Inr cs"
  shows "set cs = {c. CHR '':'' \<notin> set c \<and> (\<exists>d. docs s (joined c d) \<noteq> None)}"
proof (cases "db s")
  case None
  have "fst ` set (lru_iter env (cache s)) = dom (cached (cache s))"
    using lru_iter_law [of "cache s"] dom_map_of_conv_image_fst by metis
  also have "\<dots> = {k. docs s k \<noteq> None}"
    using None by (simp add: docs_def dom_def)
  finally have keys: "fst ` set (lru_iter env (cache s)) = {k. docs s k \<noteq> None}" .
  have cs: "cs = hash_order env (remdups (List.map_filter key_collection (map fst (lru_iter env (cache s)))))"
    using assms(2) None by (simp add: list_collections_def)
  show ?thesis
    unfolding cs by (simp add: hash_order_law set_map_filter key_collection_joined keys del: bex_simps) blast
next
  case (Some DT)
  obtain D T where DT: "DT = (D, T)" by (cases DT)
  obtain kvs where it: "tbl_iter env D = Inr kvs"
    and cs: "cs = hash_order env (remdups (List.map_filter key_collection (map fst kvs)))"
    using assms(2) Some DT by (auto simp: list_collections_def rbind_eq_Inr)
  have "fst ` set kvs = dom (cont D)"
    using tbl_iter_law [OF it] dom_map_of_conv_image_fst by metis
  also have "\<dots> = {k. docs s k \<noteq> None}"
    using assms(1) Some DT by (auto simp: docs_def store_inv_def dom_def bind_eq_Some_conv)
  finally have keys: "fst ` set kvs = {k. docs s k \<noteq> None}" .
  show ?thesis
    unfolding cs by (simp add: hash_order_law set_map_filter key_collection_joined keys del: bex_simps) blast
qed

lemma tomb_key_law: "store_inv s \<Longrightarrow> tomb s k = Some t \<Longrightarrow> tombstone_key t = k"
  by (fastforce simp: tomb_def store_inv_def bind_eq_Some_conv split: option.splits)

lemma automerge_gc_store_laws:
  "gc_store_laws (automerge_gc_store env) store_inv tomb docs (am_created_at env)"
  apply unfold_locales
  subgoal by (rule tomb_key_law)
  subgoal by (simp add: automerge_gc_store_def get_all_tombstones_law)
  subgoal using remove_tombstone_law by (simp add: automerge_gc_store_def)
  subgoal using has_tombstone_law by (simp add: automerge_gc_store_def)
  subgoal by (simp add: automerge_gc_store_def get_expired_documents_law)
  subgoal using store_delete_law by (simp add: automerge_gc_store_def hard_delete_def)
  subgoal by (simp add: automerge_gc_store_def list_collections_law)
  done

end

sublocale automerge_env \<subseteq> gc: gc_store_laws "automerge_gc_store env" store_inv tomb docs "am_created_at env"
  by (rule automerge_gc_store_laws)

section \<open>A reference instance of the libraries\<close>

text \<open>
  Association lists for the tables and the cache (which never evicts), a
  document that is its own creation time, and the wire form of a tombstone as
  its stored form.  It shows that the promises can be kept, and the witnesses
  run on it.
\<close>

definition reference_env ::
  "((string, byte list) alist, (string, u64) alist, u64, string) store_env" where
  "reference_env =
     \<lparr>tbl_get = (\<lambda>t k. Inr (DAList.lookup t k)),
      tbl_insert = (\<lambda>t k b. Inr (DAList.update k b t)),
      tbl_remove = (\<lambda>t k. Inr (DAList.lookup t k, DAList.delete k t)),
      tbl_iter = (\<lambda>t. Inr (DAList.impl_of t)),
      tbl_range = (\<lambda>t p. Inr (sort_key fst (filter (\<lambda>(k, b). p \<le> k) (DAList.impl_of t)))),
      lru_get = (\<lambda>c k. (DAList.lookup c k, c)),
      lru_put = (\<lambda>c k x. DAList.update k x c),
      lru_pop = (\<lambda>c k. DAList.delete k c),
      lru_iter = DAList.impl_of,
      am_save = (\<lambda>x. be_bytes 8 (unat x)),
      am_load = (\<lambda>b. if length b = 8 then Inr (word_of_nat (be_val b)) else Inl ''load''),
      am_created_at = Some,
      json_to = (\<lambda>t. if message_ok (from_tombstone t) \<and> message_norm (from_tombstone t) = from_tombstone t
                      then Inr (message_encode (from_tombstone t)) else Inl ''json''),
      json_from = (\<lambda>b. case message_decode b of Inr m \<Rightarrow> Inr (tombstone m) | Inl e \<Rightarrow> Inl ''json''),
      hash_order = id\<rparr>"

lemma lookup_impl_of: "DAList.lookup t k = Some b \<longleftrightarrow> (k, b) \<in> set (DAList.impl_of t)"
  by (simp add: DAList.lookup_def)

lemma map_of_impl_of: "map_of (DAList.impl_of t) = DAList.lookup t"
  by (simp add: DAList.lookup_def)

interpretation ref: automerge_env reference_env DAList.lookup DAList.lookup
proof
  fix tm b
  assume "json_to reference_env tm = Inr b"
  then have ok: "message_ok (from_tombstone tm)" "message_norm (from_tombstone tm) = from_tombstone tm"
    and b: "b = message_encode (from_tombstone tm)"
    by (auto simp: reference_env_def split: if_splits)
  have "message_decode b = Inr (from_tombstone tm)"
    using message_decode_encode_aux [OF ok(1), of "[]"] ok(2) b by simp
  then show "json_from reference_env b = Inr tm"
    by (simp add: reference_env_def from_tombstone_def)
qed (auto simp: reference_env_def lookup_impl_of [symmetric] map_of_impl_of fun_eq_iff)

definition reference_store :: "((string, byte list) alist, (string, u64) alist) AutomergeStore" where
  "reference_store =
     \<lparr>db = Some (DAList.empty, DAList.empty), cache = DAList.empty, change_tx = [], observer_tx = []\<rparr>"

definition reference_tombstone :: Tombstone where
  "reference_tombstone = tombstone_new 0 ''d1'' ''nodes'' ''n1'' 1"

text \<open>The reference store with one tombstone in it, and its document still there.\<close>

definition reference_deleted :: "((string, byte list) alist, (string, u64) alist) AutomergeStore" where
  "reference_deleted =
     \<lparr>db = Some (DAList.update ''nodes:d1'' (be_bytes 8 5) DAList.empty,
                 DAList.update ''nodes:d1'' (message_encode (from_tombstone reference_tombstone)) DAList.empty),
      cache = DAList.empty, change_tx = [], observer_tx = []\<rparr>"

lemma reference_tombstone_ok:
  "message_ok (from_tombstone reference_tombstone)"
  "message_norm (from_tombstone reference_tombstone) = from_tombstone reference_tombstone"
  by (simp_all add: reference_tombstone_def message_eval)

lemma reference_tombstone_of:
  "ref.tomb_of (message_encode (from_tombstone reference_tombstone)) = Some reference_tombstone"
  using message_decode_encode_aux [of "from_tombstone reference_tombstone" "[]"] reference_tombstone_ok
  by (simp add: ref.tomb_of_eq_Some) (simp add: reference_env_def from_tombstone_def)

lemma reference_store_inv [simp]: "ref.store_inv reference_store"
  by (simp add: ref.store_inv_def reference_store_def)

lemma reference_deleted_inv [simp]: "ref.store_inv reference_deleted"
proof -
  have "ref.doc_of (be_bytes 8 5) = Some 5"
    by (simp add: ref.doc_of_eq_Some) (simp add: reference_env_def)
  moreover have "tombstone_key reference_tombstone = ''nodes:d1''"
    by (simp add: reference_tombstone_def tombstone_new_def tombstone_key_def)
  ultimately show ?thesis
    using reference_tombstone_of
    by (auto simp: ref.store_inv_def reference_deleted_def DAList.lookup_update split: if_splits)
qed

section \<open>Properties\<close>

text \<open>
  C6.  On disk, the store with its cache is a map from keys to documents: a
  put adds the document, a delete removes it, a lookup that succeeds gives
  what was put last and changes nothing, whether it was served by the cache or
  by the database, and a prefix scan gives exactly the documents under the
  prefix, although it stops at the first key without it.  Tombstones are not
  touched.  All of it under what the libraries promise (\<open>automerge_env\<close>).
\<close>

theorem store_refines_map:
  assumes env: "automerge_env env cont cached"
    and inv: "automerge_env.store_inv env cont cached s" and disk: "db s \<noteq> None"
  shows "(\<forall>k x n s'. put_inner env s k x n = Inr s' \<longrightarrow>
            automerge_env.store_inv env cont cached s'
            \<and> automerge_env.docs env cont cached s' = (automerge_env.docs env cont cached s)(k \<mapsto> x)
            \<and> automerge_env.tomb env cont s' = automerge_env.tomb env cont s)
     \<and> (\<forall>k s'. store_delete env s k = Inr s' \<longrightarrow>
            automerge_env.store_inv env cont cached s'
            \<and> automerge_env.docs env cont cached s' = (automerge_env.docs env cont cached s)(k := None)
            \<and> automerge_env.tomb env cont s' = automerge_env.tomb env cont s)
     \<and> (\<forall>k r s'. store_get env s k = (r, s') \<longrightarrow>
            automerge_env.store_inv env cont cached s'
            \<and> automerge_env.docs env cont cached s' = automerge_env.docs env cont cached s
            \<and> (\<forall>v. r = Inr v \<longrightarrow> v = automerge_env.docs env cont cached s k))
     \<and> (\<forall>p kds. scan_prefix env s p = Inr kds \<longrightarrow>
            set kds = {(k, x). prefix p k \<and> automerge_env.docs env cont cached s k = Some x})"
proof -
  have put: "\<forall>k x n s'. put_inner env s k x n = Inr s' \<longrightarrow>
            automerge_env.store_inv env cont cached s'
            \<and> automerge_env.docs env cont cached s' = (automerge_env.docs env cont cached s)(k \<mapsto> x)
            \<and> automerge_env.tomb env cont s' = automerge_env.tomb env cont s"
    using automerge_env.put_inner_law [OF env inv] disk by blast
  have del: "\<forall>k s'. store_delete env s k = Inr s' \<longrightarrow>
            automerge_env.store_inv env cont cached s'
            \<and> automerge_env.docs env cont cached s' = (automerge_env.docs env cont cached s)(k := None)
            \<and> automerge_env.tomb env cont s' = automerge_env.tomb env cont s"
    using automerge_env.store_delete_law [OF env inv] by blast
  have get: "\<forall>k r s'. store_get env s k = (r, s') \<longrightarrow>
            automerge_env.store_inv env cont cached s'
            \<and> automerge_env.docs env cont cached s' = automerge_env.docs env cont cached s
            \<and> (\<forall>v. r = Inr v \<longrightarrow> v = automerge_env.docs env cont cached s k)"
    using automerge_env.store_get_law [OF env inv] by blast
  have scan: "\<forall>p kds. scan_prefix env s p = Inr kds \<longrightarrow>
            set kds = {(k, x). prefix p k \<and> automerge_env.docs env cont cached s k = Some x}"
    using automerge_env.scan_prefix_law [OF env inv] by fast
  show ?thesis
    using put del get scan by (intro conjI)
qed

theorem store_refines_map_witness:
  "ref.docs reference_deleted ''nodes:d1'' = Some 5
   \<and> (\<exists>s'. store_delete reference_env reference_deleted ''nodes:d1'' = Inr s'
           \<and> ref.docs s' ''nodes:d1'' = None)
   \<and> fst (store_get reference_env reference_deleted ''nodes:d1'') = Inr (Some 5)"
proof -
  have disk: "db reference_deleted \<noteq> None"
    by (simp add: reference_deleted_def)
  note law = store_refines_map [OF ref.automerge_env_axioms reference_deleted_inv disk]
  have d: "ref.docs reference_deleted ''nodes:d1'' = Some 5"
    by (simp add: ref.docs_def ref.doc_of_def reference_deleted_def DAList.lookup_update)
      (simp add: reference_env_def)
  obtain s' where s': "store_delete reference_env reference_deleted ''nodes:d1'' = Inr s'"
    by (auto simp: store_delete_def reference_deleted_def reference_env_def)
  have "ref.docs s' ''nodes:d1'' = None"
    using law [THEN conjunct2, THEN conjunct1, rule_format, OF s'] by simp
  moreover obtain r s'' where g: "store_get reference_env reference_deleted ''nodes:d1'' = (Inr r, s'')"
    by (auto simp: store_get_def reference_deleted_def reference_env_def DAList.lookup_update)
  moreover have "r = Some 5"
    using law [THEN conjunct2, THEN conjunct2, THEN conjunct1, rule_format, OF g] d by simp
  ultimately show ?thesis
    using s' d by simp
qed

text \<open>
  C5.  Garbage collection is safe: a run on the store removes a tombstone only
  if its collection's policy keeps tombstones for a bounded time and the
  tombstone is older than that, and removes a document only if its collection
  has an implicit time to live and the document was created before it; it adds
  and changes nothing.
\<close>

theorem gc_removes_only_expired:
  assumes env: "automerge_env env cont cached" and inv: "automerge_env.store_inv env cont cached s"
  shows "let (s', gc', res) = run_gc (automerge_gc_store env) now1 now2 elapsed gc s in
     (\<forall>k. automerge_env.tomb env cont s' k = automerge_env.tomb env cont s k
          \<or> automerge_env.tomb env cont s' k = None
             \<and> (\<exists>t ttl wins age. automerge_env.tomb env cont s k = Some t
                   \<and> deletion_registry_get (policy_registry gc) (collection t) = TombstonePolicy ttl wins
                   \<and> duration_since now1 (deleted_at t) = Some age \<and> ttl < age))
     \<and> (\<forall>k. automerge_env.docs env cont cached s' k = automerge_env.docs env cont cached s k
          \<or> automerge_env.docs env cont cached s' k = None
             \<and> (\<exists>x c d ttl key m. automerge_env.docs env cont cached s k = Some x \<and> k = joined c d
                   \<and> CHR '':'' \<notin> set c
                   \<and> deletion_registry_get (policy_registry gc) c = ImplicitTTL ttl key
                   \<and> am_created_at env x = Some m \<and> m < epoch_millis (now2 - int ttl)))"
proof -
  obtain s' gc' res where r: "run_gc (automerge_gc_store env) now1 now2 elapsed gc s = (s', gc', res)"
    by (cases "run_gc (automerge_gc_store env) now1 now2 elapsed gc s") auto
  have due: "tombstone_due reg now t \<Longrightarrow>
      \<exists>ttl wins age. deletion_registry_get reg (collection t) = TombstonePolicy ttl wins
         \<and> duration_since now (deleted_at t) = Some age \<and> ttl < age" for reg now t
    by (auto simp: tombstone_due_def split: DeletionPolicy.splits option.splits)
  note laws = automerge_env.automerge_gc_store_laws [OF env]
  show ?thesis
    using gc_store_laws.run_gc_step [OF laws inv r] unfolding r Let_def split
      gc_store_laws.doc_due_def [OF laws]
    by (blast dest: due)
qed

theorem gc_removes_only_expired_witness:
  "let (s', gc', res) = run_gc (automerge_gc_store reference_env) (10 ^ 9) (10 ^ 9) 0
                          (gc_new gc_config_default) reference_deleted
   in ref.tomb s' ''nodes:d1'' = Some reference_tombstone"
proof -
  let ?gc = "gc_new gc_config_default"
  obtain s' gc' res where r: "run_gc (automerge_gc_store reference_env) (10 ^ 9) (10 ^ 9) 0 ?gc reference_deleted
      = (s', gc', res)"
    by (cases "run_gc (automerge_gc_store reference_env) (10 ^ 9) (10 ^ 9) 0 ?gc reference_deleted") auto
  have t: "ref.tomb reference_deleted ''nodes:d1'' = Some reference_tombstone"
    using reference_tombstone_of by (simp add: ref.tomb_def reference_deleted_def DAList.lookup_update)
  have young: "\<not> (\<exists>ttl wins age. deletion_registry_get (policy_registry ?gc) (collection reference_tombstone)
        = TombstonePolicy ttl wins
      \<and> duration_since (10 ^ 9) (deleted_at reference_tombstone) = Some age \<and> ttl < age)"
    by (auto simp: gc_new_def gc_with_policy_registry_def deletion_registry_get_def deletion_registry_new_def
        deletion_default_for_collection_def reference_tombstone_def tombstone_new_def duration_since_def
        from_secs_def)
  have "ref.tomb s' ''nodes:d1'' = Some reference_tombstone"
    using gc_removes_only_expired [OF ref.automerge_env_axioms reference_deleted_inv,
        where ?now1.0 = "10 ^ 9" and ?now2.0 = "10 ^ 9" and elapsed = 0 and gc = ?gc] t young
    unfolding r Let_def split by (metis option.inject)
  then show ?thesis
    unfolding r by simp
qed

text \<open>
  Garbage collection is complete up to its batch size: if there are not
  more tombstones than the batch size, a collection that reports no error
  leaves no expired tombstone.
\<close>

lemma gc_collects_all_due:
  assumes env: "automerge_env env cont cached" and inv: "automerge_env.store_inv env cont cached s"
    and small: "\<And>ts. get_all_tombstones env s = Inr ts \<Longrightarrow> length ts \<le> tombstone_batch_size (gc_config gc)"
    and ok: "collect_tombstones (automerge_gc_store env) gc now s = (s', Inr n)"
  shows "\<forall>k t. automerge_env.tomb env cont s' k = Some t \<longrightarrow> \<not> tombstone_due (policy_registry gc) now t"
  using gc_store_laws.collect_tombstones_complete
    [OF automerge_env.automerge_gc_store_laws [OF env] inv ok] small
  by (simp add: automerge_gc_store_def)


text \<open>
  The limit of that: a run looks only at the first tombstones in key
  order, as many as the batch size.  If none of those is due, the run removes
  nothing, however many expired tombstones stand behind them, and so does every
  later run at which the same tombstones still stand in front.  Tombstones of
  collections whose policy is not a tombstone policy are never due, so a batch
  of them in front blocks the collector for good.
\<close>

lemma gc_blocked_by_undue_front:
  assumes "gs_get_all_tombstones ops s = Inr ts"
    and "\<forall>t \<in> set (take (tombstone_batch_size (gc_config gc)) ts).
           \<not> is_tombstone (deletion_registry_get (policy_registry gc) (collection t))"
  shows "collect_tombstones ops gc now s = (s, Inr 0)"
proof -
  have "collect_tombstones_loop ops reg now us n s = (s, Inr n)"
    if "\<forall>t \<in> set us. \<not> tombstone_due reg now t" for reg us n
    using that by (induction us) auto
  moreover have "\<not> is_tombstone (deletion_registry_get reg (collection t)) \<Longrightarrow> \<not> tombstone_due reg now t" for reg t
    by (auto simp: tombstone_due_def is_tombstone_def split: DeletionPolicy.splits)
  ultimately show ?thesis
    using assms by (simp add: collect_tombstones_def)
qed


end
