(* ===== verification/Keyed_State.thy ===== *)
theory Keyed_State
  imports Prelude
begin

text \<open>
  State kept per peer in a hash map whose entries are created on first use
  (\<^verbatim>\<open>entry(k).or_default()\<close>), and the refinement of such a map by one abstract
  machine per peer.
\<close>

definition keyed_step :: "'v \<Rightarrow> ('e \<Rightarrow> 'v \<Rightarrow> 'v) \<Rightarrow> 'k \<times> 'e \<Rightarrow> ('k, 'v) hmap \<Rightarrow> ('k, 'v) hmap" where
  "keyed_step init step ke m = hm_insert (fst ke) (step (snd ke) (hm_get_or init m (fst ke))) m"

definition events_of :: "'k \<Rightarrow> ('k \<times> 'e) list \<Rightarrow> 'e list" where
  "events_of k evs = map snd (filter (\<lambda>ke. fst ke = k) evs)"

lemma events_of_simps [simp]:
  "events_of k [] = []"
  "events_of k (ke # evs) = (if fst ke = k then snd ke # events_of k evs else events_of k evs)"
  by (simp_all add: events_of_def)

lemma length_events_of: "length (events_of k evs) \<le> length evs"
  by (simp add: events_of_def)

lemma hm_get_or_Nil [simp]: "hm_get_or d [] k = d"
  by (simp add: hm_get_or_def)

text \<open>The entry of one key sees the events of that key only, in their order.\<close>

lemma keyed_fold_get:
  "hm_get_or init (fold (keyed_step init step) evs m) k = fold step (events_of k evs) (hm_get_or init m k)"
  by (induction evs arbitrary: m) (simp_all add: keyed_step_def hm_get_or_def)

text \<open>
  A machine with a counter budget that implements an abstract machine.  \<open>I n v\<close>
  is the invariant of a state reached in at most \<open>n\<close> events; up to \<open>budget\<close>
  events the abstraction commutes with every step.
\<close>

locale machine_refinement =
  fixes init :: 'v
    and step :: "'e \<Rightarrow> 'v \<Rightarrow> 'v"
    and I :: "nat \<Rightarrow> 'v \<Rightarrow> bool"
    and abstr :: "'v \<Rightarrow> 'a"
    and astep :: "'e \<Rightarrow> 'a \<Rightarrow> 'a"
    and budget :: nat
  assumes init_inv: "I 0 init"
    and step_inv: "I n v \<Longrightarrow> n < budget \<Longrightarrow> I (Suc n) (step e v)"
    and step_abstr: "I n v \<Longrightarrow> n < budget \<Longrightarrow> abstr (step e v) = astep e (abstr v)"
begin

lemma fold_refines:
  "I n v \<Longrightarrow> n + length es \<le> budget \<Longrightarrow>
   I (n + length es) (fold step es v) \<and> abstr (fold step es v) = fold astep es (abstr v)"
proof (induction es arbitrary: n v)
  case (Cons e es)
  have n: "n < budget" using Cons.prems(2) by simp
  show ?case
    using Cons.IH [OF step_inv [OF Cons.prems(1) n]] Cons.prems(2) step_abstr [OF Cons.prems(1) n, of e]
    by simp
qed simp

lemma keyed_invariant:
  assumes "length evs \<le> budget"
  shows "I (length (events_of k evs)) (hm_get_or init (fold (keyed_step init step) evs []) k)"
  using fold_refines [OF init_inv, of "events_of k evs"] assms length_events_of [of k evs]
  by (simp add: keyed_fold_get)

lemma keyed_refines:
  assumes "length evs \<le> budget"
  shows "abstr (hm_get_or init (fold (keyed_step init step) evs []) k)
           = fold astep (events_of k evs) (abstr init)"
  using fold_refines [OF init_inv, of "events_of k evs"] assms length_events_of [of k evs]
  by (simp add: keyed_fold_get)

end

section \<open>Machines with outputs\<close>

text \<open>A machine that answers every input, the answers of a run, and its final state.\<close>

primrec outputs :: "('i \<Rightarrow> 's \<Rightarrow> 'o \<times> 's) \<Rightarrow> 'i list \<Rightarrow> 's \<Rightarrow> 'o list" where
  "outputs step [] s = []"
| "outputs step (i # is) s = fst (step i s) # outputs step is (snd (step i s))"

primrec final :: "('i \<Rightarrow> 's \<Rightarrow> 'o \<times> 's) \<Rightarrow> 'i list \<Rightarrow> 's \<Rightarrow> 's" where
  "final step [] s = s"
| "final step (i # is) s = final step is (snd (step i s))"

lemma final_append [simp]: "final step (xs @ ys) s = final step ys (final step xs s)"
  by (induction xs arbitrary: s) simp_all

lemma outputs_append [simp]:
  "outputs step (xs @ ys) s = outputs step xs s @ outputs step ys (final step xs s)"
  by (induction xs arbitrary: s) simp_all

lemma final_invariant:
  "P s \<Longrightarrow> (\<And>i s. i \<in> set is \<Longrightarrow> P s \<Longrightarrow> P (snd (step i s))) \<Longrightarrow> P (final step is s)"
  by (induction "is" arbitrary: s) simp_all

text \<open>A machine whose states, under an invariant, abstract to those of a reference that answers alike.\<close>

locale output_refinement =
  fixes step :: "'i \<Rightarrow> 's \<Rightarrow> 'o \<times> 's"
    and rstep :: "'i \<Rightarrow> 'r \<Rightarrow> 'o \<times> 'r"
    and abstr :: "'s \<Rightarrow> 'r"
    and inv :: "'s \<Rightarrow> bool"
  assumes step_refines: "inv s \<Longrightarrow> map_prod id abstr (step i s) = rstep i (abstr s)"
    and step_keeps: "inv s \<Longrightarrow> inv (snd (step i s))"
begin

lemma step_parts:
  "inv s \<Longrightarrow> fst (rstep i (abstr s)) = fst (step i s)"
  "inv s \<Longrightarrow> snd (rstep i (abstr s)) = abstr (snd (step i s))"
  by (simp_all flip: step_refines)

lemma run_refines:
  "inv s \<Longrightarrow> outputs rstep is (abstr s) = outputs step is s
     \<and> final rstep is (abstr s) = abstr (final step is s) \<and> inv (final step is s)"
  by (induction "is" arbitrary: s) (simp_all add: step_parts step_keeps)

end

end
