(* ===== verification/Circuit_Breaker.thy ===== *)
theory Circuit_Breaker
  imports Tombstone_Wire Keyed_State
begin

text \<open>
  Sync errors and the per-peer circuit breaker of \<^verbatim>\<open>src/storage/sync_errors.rs\<close>.
  Peer identifiers are a type parameter.  Every function that reads the system
  clock takes the readings as arguments.  The retry delay is computed in
  floating point with a random jitter; it is an argument, since no decision of
  the breaker depends on it, and the two floating-point fields of a retry policy
  are a type parameter.
\<close>

section \<open>Errors and retry policies\<close>

datatype SyncError =
  Network string
| Document string
| PeerNotFound string
| Protocol string
| State string
| ResourceExhaustion string
| CircuitBreakerOpen
| BandwidthExhausted string

datatype ErrorSeverity = Transient | Recoverable | Severe | Fatal

fun severity :: "SyncError \<Rightarrow> ErrorSeverity" where
  "severity (Network _) = Recoverable"
| "severity (PeerNotFound _) = Transient"
| "severity (Protocol _) = Severe"
| "severity (Document _) = Fatal"
| "severity (State _) = Severe"
| "severity (ResourceExhaustion _) = Severe"
| "severity CircuitBreakerOpen = Transient"
| "severity (BandwidthExhausted _) = Transient"

definition is_retryable :: "SyncError \<Rightarrow> bool" where
  "is_retryable e \<longleftrightarrow> severity e = Transient \<or> severity e = Recoverable"

record 'f RetryPolicy =
  initial_delay :: duration
  max_delay :: duration
  max_attempts :: u32
  backoff_multiplier :: 'f
  jitter_factor :: 'f

definition from_millis :: "nat \<Rightarrow> duration" where
  "from_millis n = n * 1000000"

text \<open>The floating-point literals of the presets are arguments.\<close>

definition retry_default :: "'f \<Rightarrow> 'f \<Rightarrow> 'f RetryPolicy" where
  "retry_default f2_0 f0_1 =
     \<lparr>initial_delay = from_millis 100, max_delay = from_millis 30000, max_attempts = 5,
      backoff_multiplier = f2_0, jitter_factor = f0_1\<rparr>"

definition retry_transient :: "'f \<Rightarrow> 'f \<Rightarrow> 'f RetryPolicy" where
  "retry_transient f1_5 f0_1 =
     \<lparr>initial_delay = from_millis 50, max_delay = from_millis 5000, max_attempts = 10,
      backoff_multiplier = f1_5, jitter_factor = f0_1\<rparr>"

definition retry_severe :: "'f \<Rightarrow> 'f \<Rightarrow> 'f RetryPolicy" where
  "retry_severe f3_0 f0_2 =
     \<lparr>initial_delay = from_millis 1000, max_delay = from_millis 60000, max_attempts = 3,
      backoff_multiplier = f3_0, jitter_factor = f0_2\<rparr>"

definition should_retry :: "'f RetryPolicy \<Rightarrow> u32 \<Rightarrow> bool" where
  "should_retry p attempt \<longleftrightarrow> attempt < max_attempts p"

section \<open>Per-peer health\<close>

datatype CircuitState = Closed | Open | HalfOpen

record CircuitBreakerConfig =
  failure_threshold :: u32
  failure_window :: duration
  open_timeout :: duration
  success_threshold :: u32

text \<open>\<^verbatim>\<open>from_env\<close> with no variable set; a set variable replaces its field.\<close>

definition circuit_config_default :: CircuitBreakerConfig where
  "circuit_config_default =
     \<lparr>failure_threshold = 5, failure_window = from_millis 5000, open_timeout = from_millis 5000,
      success_threshold = 2\<rparr>"

record PeerHealthTracker =
  circuit_state :: CircuitState
  consecutive_failures :: u32
  consecutive_successes :: u32
  last_failure_time :: "int option"
  circuit_opened_at :: "int option"
  total_failures :: u64
  last_error :: "SyncError option"
  retry_attempt :: u32

definition health_default :: PeerHealthTracker where
  "health_default =
     \<lparr>circuit_state = Closed, consecutive_failures = 0, consecutive_successes = 0,
      last_failure_time = None, circuit_opened_at = None, total_failures = 0, last_error = None,
      retry_attempt = 0\<rparr>"

definition health_record_success :: "PeerHealthTracker \<Rightarrow> PeerHealthTracker" where
  "health_record_success h =
     h\<lparr>retry_attempt := 0, consecutive_failures := 0,
       consecutive_successes := consecutive_successes h + 1\<rparr>"

definition health_record_failure :: "int \<Rightarrow> SyncError \<Rightarrow> PeerHealthTracker \<Rightarrow> PeerHealthTracker" where
  "health_record_failure now e h =
     h\<lparr>retry_attempt := retry_attempt h + 1, consecutive_failures := consecutive_failures h + 1,
       consecutive_successes := 0, total_failures := total_failures h + 1,
       last_failure_time := Some now, last_error := Some e\<rparr>"

definition health_reset :: "PeerHealthTracker \<Rightarrow> PeerHealthTracker" where
  "health_reset h = health_default"

section \<open>The handler\<close>

record ('p, 'f) SyncErrorHandler =
  retry_policy :: "'f RetryPolicy"
  circuit_config :: CircuitBreakerConfig
  peer_health :: "('p, PeerHealthTracker) hmap"

definition handler_with_policies :: "'f RetryPolicy \<Rightarrow> CircuitBreakerConfig \<Rightarrow> ('p, 'f) SyncErrorHandler" where
  "handler_with_policies rp cc = \<lparr>retry_policy = rp, circuit_config = cc, peer_health = []\<rparr>"

text \<open>Elapsed time with \<^verbatim>\<open>unwrap_or(Duration::ZERO)\<close>.\<close>

definition elapsed_or_zero :: "int \<Rightarrow> int \<Rightarrow> duration" where
  "elapsed_or_zero now t = (case duration_since now t of Some d \<Rightarrow> d | None \<Rightarrow> 0)"

text \<open>
  The transition that an error makes, on the health of the peer after the
  failure was recorded: the new health, and the value returned at once if the
  circuit decides (\<^verbatim>\<open>return\<close>), nothing if the retry policy is to decide.
  \<open>t_chk\<close> is the clock read in the transition.
\<close>

definition circuit_transition ::
  "CircuitBreakerConfig \<Rightarrow> int \<Rightarrow> PeerHealthTracker
     \<Rightarrow> PeerHealthTracker \<times> (SyncError + duration option) option" where
  "circuit_transition cfg t_chk h =
     (case circuit_state h of
        Open \<Rightarrow>
          (case circuit_opened_at h of
             Some opened_at \<Rightarrow>
               if open_timeout cfg \<le> elapsed_or_zero t_chk opened_at
               then (h\<lparr>circuit_state := HalfOpen, retry_attempt := 0\<rparr>, Some (Inr (Some 0)))
               else (h, Some (Inl CircuitBreakerOpen))
           | None \<Rightarrow> (h, Some (Inl CircuitBreakerOpen)))
      | HalfOpen \<Rightarrow>
          if 1 \<le> consecutive_failures h
          then (h\<lparr>circuit_state := Open, circuit_opened_at := Some t_chk\<rparr>, Some (Inl CircuitBreakerOpen))
          else (h, None)
      | Closed \<Rightarrow>
          if failure_threshold cfg \<le> consecutive_failures h
          then (h\<lparr>circuit_state := Open, circuit_opened_at := Some t_chk\<rparr>, Some (Inl CircuitBreakerOpen))
          else (h, None))"

definition handle_error ::
  "('f RetryPolicy \<Rightarrow> u32 \<Rightarrow> duration) \<Rightarrow> 'f RetryPolicy \<Rightarrow> 'f RetryPolicy \<Rightarrow> int \<Rightarrow> int
     \<Rightarrow> ('p, 'f) SyncErrorHandler \<Rightarrow> 'p \<Rightarrow> SyncError
     \<Rightarrow> (SyncError + duration option) \<times> ('p, 'f) SyncErrorHandler" where
  "handle_error delay_for_attempt transient severe t_fail t_chk eh peer e =
     (let h0 = hm_get_or health_default (peer_health eh) peer;
          h1 = health_record_failure t_fail e h0;
          (h2, decided) = circuit_transition (circuit_config eh) t_chk h1;
          eh' = eh\<lparr>peer_health := hm_insert peer h2 (peer_health eh)\<rparr>
      in case decided of
           Some r \<Rightarrow> (r, eh')
         | None \<Rightarrow>
             if \<not> is_retryable e then (Inr None, eh')
             else let policy = (case severity e of
                                  Transient \<Rightarrow> transient | Severe \<Rightarrow> severe | _ \<Rightarrow> retry_policy eh)
                  in if \<not> should_retry policy (retry_attempt h2) then (Inr None, eh')
                     else (Inr (Some (delay_for_attempt policy (retry_attempt h2))), eh'))"

definition success_transition :: "CircuitBreakerConfig \<Rightarrow> PeerHealthTracker \<Rightarrow> PeerHealthTracker" where
  "success_transition cfg h =
     (if circuit_state h = HalfOpen \<and> success_threshold cfg \<le> consecutive_successes h
      then h\<lparr>circuit_state := Closed, circuit_opened_at := None\<rparr> else h)"

definition handler_record_success :: "('p, 'f) SyncErrorHandler \<Rightarrow> 'p \<Rightarrow> ('p, 'f) SyncErrorHandler" where
  "handler_record_success eh peer =
     (let h = health_record_success (hm_get_or health_default (peer_health eh) peer)
      in eh\<lparr>peer_health := hm_insert peer (success_transition (circuit_config eh) h) (peer_health eh)\<rparr>)"

definition reset_peer :: "('p, 'f) SyncErrorHandler \<Rightarrow> 'p \<Rightarrow> ('p, 'f) SyncErrorHandler" where
  "reset_peer eh peer =
     (case hm_get (peer_health eh) peer of
        Some h \<Rightarrow> eh\<lparr>peer_health := hm_insert peer (health_reset h) (peer_health eh)\<rparr>
      | None \<Rightarrow> eh)"

definition is_circuit_open :: "('p, 'f) SyncErrorHandler \<Rightarrow> 'p \<Rightarrow> bool" where
  "is_circuit_open eh peer =
     (case hm_get (peer_health eh) peer of Some h \<Rightarrow> circuit_state h = Open | None \<Rightarrow> False)"

section \<open>The abstract breaker\<close>

text \<open>
  What a circuit breaker promises: failures in a row are counted while it is
  closed; it is open from the moment it tripped; half open, successes in a row
  are counted.
\<close>

datatype breaker = BClosed nat | BOpen int | BHalf nat

fun breaker_fail :: "CircuitBreakerConfig \<Rightarrow> int \<Rightarrow> breaker \<Rightarrow> breaker" where
  "breaker_fail cfg t (BClosed n) =
     (if unat (failure_threshold cfg) \<le> Suc n then BOpen t else BClosed (Suc n))"
| "breaker_fail cfg t (BOpen t0) = (if open_timeout cfg \<le> elapsed_or_zero t t0 then BHalf 0 else BOpen t0)"
| "breaker_fail cfg t (BHalf m) = BOpen t"

fun breaker_success :: "CircuitBreakerConfig \<Rightarrow> breaker \<Rightarrow> breaker" where
  "breaker_success cfg (BClosed n) = BClosed 0"
| "breaker_success cfg (BOpen t0) = BOpen t0"
| "breaker_success cfg (BHalf m) =
     (if unat (success_threshold cfg) \<le> Suc m then BClosed 0 else BHalf (Suc m))"

definition breaker_of :: "PeerHealthTracker \<Rightarrow> breaker" where
  "breaker_of h =
     (case circuit_state h of
        Closed \<Rightarrow> BClosed (unat (consecutive_failures h))
      | Open \<Rightarrow> BOpen (the (circuit_opened_at h))
      | HalfOpen \<Rightarrow> BHalf (unat (consecutive_successes h)))"

text \<open>What happens to a peer: an attempt failed (with the two clock readings), or succeeded.\<close>

datatype sync_outcome = Failed int int SyncError | Succeeded

fun health_step :: "CircuitBreakerConfig \<Rightarrow> sync_outcome \<Rightarrow> PeerHealthTracker \<Rightarrow> PeerHealthTracker" where
  "health_step cfg (Failed t_fail t_chk e) h = fst (circuit_transition cfg t_chk (health_record_failure t_fail e h))"
| "health_step cfg Succeeded h = success_transition cfg (health_record_success h)"

fun breaker_step :: "CircuitBreakerConfig \<Rightarrow> sync_outcome \<Rightarrow> breaker \<Rightarrow> breaker" where
  "breaker_step cfg (Failed _ t_chk _) b = breaker_fail cfg t_chk b"
| "breaker_step cfg Succeeded b = breaker_success cfg b"

text \<open>
  The invariant of the health of a peer after at most \<open>n\<close> outcomes.  A closed
  circuit is below its threshold, an open one has an opening time, a half-open
  one is below its success threshold.
\<close>

definition health_ok :: "CircuitBreakerConfig \<Rightarrow> nat \<Rightarrow> PeerHealthTracker \<Rightarrow> bool" where
  "health_ok cfg n h \<longleftrightarrow>
     unat (consecutive_failures h) \<le> n \<and> unat (consecutive_successes h) \<le> n
     \<and> (circuit_state h = Closed \<longrightarrow> consecutive_failures h = 0 \<or> consecutive_failures h < failure_threshold cfg)
     \<and> (circuit_state h = Open \<longrightarrow> circuit_opened_at h \<noteq> None)
     \<and> (circuit_state h = HalfOpen \<longrightarrow> consecutive_successes h = 0 \<or> consecutive_successes h < success_threshold cfg)"

section \<open>The handler implements one breaker per peer\<close>

lemma unat_Suc_bound:
  fixes x :: u32
  assumes "unat x \<le> n" and "n < 2 ^ 32 - 1"
  shows "unat (x + 1) = Suc (unat x)"
  using assms by (simp add: unat_word_ariths)

lemma health_ok_counters:
  assumes "health_ok cfg n h" and "n < 2 ^ 32 - 1"
  shows "unat (consecutive_failures h + 1) = Suc (unat (consecutive_failures h))
         \<and> unat (consecutive_successes h + 1) = Suc (unat (consecutive_successes h))
         \<and> unat (consecutive_failures h) \<le> n \<and> unat (consecutive_successes h) \<le> n"
  using assms unat_Suc_bound [OF _ assms(2)] by (simp add: health_ok_def)

lemmas breaker_defs =
  circuit_transition_def success_transition_def health_record_failure_def health_record_success_def breaker_of_def

lemma health_step_ok:
  assumes "health_ok cfg n h" and "n < 2 ^ 32 - 1"
  shows "health_ok cfg (Suc n) (health_step cfg ev h)"
proof (cases ev)
  case (Failed t_fail t_chk e)
  have "unat (consecutive_failures h + 1) \<le> Suc n"
    using health_ok_counters [OF assms] by simp
  then show ?thesis
    using assms(1) Failed
    by (cases "circuit_state h") (auto simp: health_ok_def breaker_defs not_le split: option.splits)
next
  case Succeeded
  have "unat (consecutive_successes h + 1) \<le> Suc n"
    using health_ok_counters [OF assms] by simp
  then show ?thesis
    using assms(1) Succeeded by (cases "circuit_state h") (auto simp: health_ok_def breaker_defs not_le)
qed

lemma health_step_refines:
  assumes "health_ok cfg n h" and "n < 2 ^ 32 - 1"
  shows "breaker_of (health_step cfg ev h) = breaker_step cfg ev (breaker_of h)"
proof (cases ev)
  case (Failed t_fail t_chk e)
  show ?thesis
    using health_ok_counters [OF assms] assms(1) Failed
    by (cases "circuit_state h") (auto simp: health_ok_def breaker_defs word_le_nat_alt)
next
  case Succeeded
  show ?thesis
    using health_ok_counters [OF assms] assms(1) Succeeded by (cases "circuit_state h") (auto simp: health_ok_def breaker_defs word_le_nat_alt)
qed

interpretation breaker: machine_refinement health_default "health_step cfg" "health_ok cfg" breaker_of
  "breaker_step cfg" "2 ^ 32 - 1" for cfg
proof
  show "health_ok cfg 0 health_default" by (simp add: health_ok_def health_default_def)
qed (fact health_step_ok, fact health_step_refines)

text \<open>One call of the handler for an outcome; the delay function and the two built-in policies are fixed.\<close>

fun handler_step ::
  "('f RetryPolicy \<Rightarrow> u32 \<Rightarrow> duration) \<Rightarrow> 'f RetryPolicy \<Rightarrow> 'f RetryPolicy
     \<Rightarrow> 'p \<times> sync_outcome \<Rightarrow> ('p, 'f) SyncErrorHandler \<Rightarrow> ('p, 'f) SyncErrorHandler" where
  "handler_step dl tr sv (p, Failed t_fail t_chk e) eh = snd (handle_error dl tr sv t_fail t_chk eh p e)"
| "handler_step dl tr sv (p, Succeeded) eh = handler_record_success eh p"

lemma handle_error_state:
  "snd (handle_error dl tr sv t_fail t_chk eh p e)
     = eh\<lparr>peer_health := keyed_step health_default (health_step (circuit_config eh)) (p, Failed t_fail t_chk e) (peer_health eh)\<rparr>"
  by (simp add: handle_error_def keyed_step_def Let_def case_prod_beta split: option.splits)

lemma handler_step_keyed:
  "handler_step dl tr sv pe eh
     = eh\<lparr>peer_health := keyed_step health_default (health_step (circuit_config eh)) pe (peer_health eh)\<rparr>"
  by (cases pe; cases "snd pe")
    (simp_all add: handle_error_state handler_record_success_def keyed_step_def Let_def)

lemma handler_run_keyed:
  "fold (handler_step dl tr sv) evs eh
     = eh\<lparr>peer_health := fold (keyed_step health_default (health_step (circuit_config eh))) evs (peer_health eh)\<rparr>"
  by (induction evs arbitrary: eh) (simp_all add: handler_step_keyed)

lemma is_circuit_open_iff:
  "is_circuit_open eh p \<longleftrightarrow> circuit_state (hm_get_or health_default (peer_health eh) p) = Open"
  by (simp add: is_circuit_open_def hm_get_or_def health_default_def split: option.splits)

lemma breaker_of_open: "(\<exists>t. breaker_of h = BOpen t) \<longleftrightarrow> circuit_state h = Open"
  by (simp add: breaker_of_def split: CircuitState.splits)

lemma handle_error_rejects:
  assumes "health_ok cfg n (hm_get_or health_default (peer_health eh) p)"
    and "n < 2 ^ 32 - 1" and "cfg = circuit_config eh"
  shows "fst (handle_error dl tr sv t_fail t_chk eh p e) = Inl CircuitBreakerOpen
           \<longleftrightarrow> is_circuit_open (snd (handle_error dl tr sv t_fail t_chk eh p e)) p"
  using assms
  by (cases "circuit_state (hm_get_or health_default (peer_health eh) p)")
    (auto simp: handle_error_def is_circuit_open_def breaker_defs Let_def split: option.splits)

text \<open>
  C4.  The error handler implements one circuit breaker per peer.  Take any
  sequence of fewer than 2^32 - 1 outcomes for any peers, on a fresh handler with
  any configuration.  The circuit of each peer is then where the abstract
  breaker of that peer is after that peer's own outcomes: it trips at the
  configured number of failures in a row, is open from the moment it tripped,
  becomes half open at the first failure reported after the timeout, reopens at
  the next failure and closes at the configured number of successes.  The next
  error of a peer is answered by \<open>CircuitBreakerOpen\<close> exactly when its circuit is
  open afterwards.
\<close>

theorem handler_refines_breakers:
  assumes "length evs < 2 ^ 32 - 1"
    and eh_def: "eh = fold (handler_step dl tr sv) evs (handler_with_policies rp cfg)"
  shows "breaker_of (hm_get_or health_default (peer_health eh) p)
             = fold (breaker_step cfg) (events_of p evs) (BClosed 0)
         \<and> (is_circuit_open eh p \<longleftrightarrow> (\<exists>t. fold (breaker_step cfg) (events_of p evs) (BClosed 0) = BOpen t))
         \<and> (fst (handle_error dl tr sv t_fail t_chk eh p e) = Inl CircuitBreakerOpen
              \<longleftrightarrow> (\<exists>t. breaker_fail cfg t_chk (fold (breaker_step cfg) (events_of p evs) (BClosed 0)) = BOpen t))"
proof -
  let ?h = "hm_get_or health_default (peer_health eh) p"
  let ?n = "length (events_of p evs)"
  have eh: "peer_health eh = fold (keyed_step health_default (health_step cfg)) evs []" "circuit_config eh = cfg"
    by (simp_all add: eh_def handler_run_keyed handler_with_policies_def)
  have ok: "health_ok cfg ?n ?h"
    using breaker.keyed_invariant [of evs cfg p] assms(1) by (simp add: eh)
  have n: "?n < 2 ^ 32 - 1" using length_events_of [of p evs] assms(1) by linarith
  have spec: "breaker_of ?h = fold (breaker_step cfg) (events_of p evs) (BClosed 0)"
    using breaker.keyed_refines [of evs cfg p] assms(1)
    by (simp add: eh breaker_of_def [of health_default]) (simp add: health_default_def)
  have nxt: "breaker_of (health_step cfg (Failed t_fail t_chk e) ?h) = breaker_fail cfg t_chk (breaker_of ?h)"
    using health_step_refines [OF ok n, of "Failed t_fail t_chk e"] by simp
  have opn: "is_circuit_open (snd (handle_error dl tr sv t_fail t_chk eh p e)) p
             \<longleftrightarrow> circuit_state (health_step cfg (Failed t_fail t_chk e) ?h) = Open"
    unfolding is_circuit_open_iff handle_error_state eh(2) by (simp add: keyed_step_def hm_get_or_def)
  have ans: "fst (handle_error dl tr sv t_fail t_chk eh p e) = Inl CircuitBreakerOpen
             \<longleftrightarrow> (\<exists>t. breaker_fail cfg t_chk (breaker_of ?h) = BOpen t)"
    unfolding handle_error_rejects [OF ok n eh(2) [symmetric]] opn breaker_of_open [symmetric] nxt ..
  show ?thesis
    unfolding spec [symmetric] ans is_circuit_open_iff breaker_of_open by simp
qed

definition sample_outcomes :: "(nat \<times> sync_outcome) list" where
  "sample_outcomes =
     [(1, Failed 0 0 (Network [])), (1, Failed 0 0 (Network [])), (2, Succeeded), (1, Failed 0 0 (Network [])),
      (1, Failed 0 0 (Network [])), (1, Failed 0 0 (Network [])), (1, Failed 1 6000000000 (Network []))]"

definition sample_handler :: "(nat, unit) SyncErrorHandler" where
  "sample_handler =
     fold (handler_step (\<lambda>_ _. 0) (retry_transient () ()) (retry_severe () ())) sample_outcomes
       (handler_with_policies (retry_default () ()) circuit_config_default)"

lemma sample_breaker: "fold (breaker_step circuit_config_default) (events_of 1 sample_outcomes) (BClosed 0) = BHalf 0"
  by (simp add: sample_outcomes_def circuit_config_default_def elapsed_or_zero_def duration_since_def from_millis_def)

theorem handler_refines_breakers_witness:
  "breaker_of (hm_get_or health_default (peer_health sample_handler) 1) = BHalf 0
   \<and> \<not> is_circuit_open sample_handler 1
   \<and> fst (handle_error (\<lambda>_ _. 0) (retry_transient () ()) (retry_severe () ()) 2 7000000000 sample_handler 1 (Network []))
       = Inl CircuitBreakerOpen"
proof -
  have "length sample_outcomes < 2 ^ 32 - 1" by (simp add: sample_outcomes_def)
  from handler_refines_breakers [OF this sample_handler_def, of 1 2 7000000000 "Network []"]
  show ?thesis by (simp only: sample_breaker) simp
qed

end
