(* ===== verification/Flow_Control.thy ===== *)
theory Flow_Control
  imports Keyed_State
begin

text \<open>
  Flow control of \<^verbatim>\<open>src/storage/flow_control.rs\<close>: the token bucket, the bounded
  queue, the cooldown tracker, the resource tracker and the controller that
  combines them.  The atomics are updated under a lock in the controller, so a
  compare-and-exchange loop succeeds at its first round.  Instants are
  nanoseconds, and \<^verbatim>\<open>Instant::duration_since\<close> saturates at zero, as subtraction on
  the naturals does.
\<close>

section \<open>Data\<close>

datatype FlowControlError = RateLimitExceeded | QueueFull nat | CooldownActive u64

record FlowControlConfig =
  max_messages_per_second :: u32
  cfg_tokens_per_refill :: u32
  cfg_refill_interval :: duration
  max_queue_size :: nat
  sync_cooldown :: duration
  max_memory_per_peer :: nat

definition flow_config_default :: FlowControlConfig where
  "flow_config_default =
     \<lparr>max_messages_per_second = 100, cfg_tokens_per_refill = 10, cfg_refill_interval = 100 * 1000000,
      max_queue_size = 1000, sync_cooldown = 100 * 1000000, max_memory_per_peer = 10 * 1024 * 1024\<rparr>"

definition as_millis :: "duration \<Rightarrow> nat" where
  "as_millis d = d div 1000000"

section \<open>Token bucket\<close>

record TokenBucket =
  capacity :: u32
  tokens :: u32
  tokens_per_refill :: u32
  refill_interval :: duration
  last_refill :: instant

definition bucket_new :: "instant \<Rightarrow> u32 \<Rightarrow> u32 \<Rightarrow> duration \<Rightarrow> TokenBucket" where
  "bucket_new now cap tpr iv =
     \<lparr>capacity = cap, tokens = cap, tokens_per_refill = tpr, refill_interval = iv, last_refill = now\<rparr>"

definition saturating_mul :: "u32 \<Rightarrow> u32 \<Rightarrow> u32" where
  "saturating_mul a b = word_of_nat (min (unat a * unat b) (2 ^ 32 - 1))"

text \<open>Division by the interval in whole milliseconds panics when that is zero.\<close>

definition refill :: "instant \<Rightarrow> TokenBucket \<Rightarrow> (FlowControlError, TokenBucket) result" where
  "refill now b =
     (let elapsed = now - last_refill b
      in if elapsed < refill_interval b then Inr b
         else if as_millis (refill_interval b) = 0 then Inl Panic
         else let periods = word_of_nat (as_millis elapsed div as_millis (refill_interval b)) :: u32
              in if periods = 0 then Inr b
                 else let tokens_to_add = saturating_mul periods (tokens_per_refill b)
                      in Inr (b\<lparr>tokens := min (tokens b + tokens_to_add) (capacity b), last_refill := now\<rparr>))"

definition try_acquire :: "instant \<Rightarrow> TokenBucket \<Rightarrow> (FlowControlError, bool \<times> TokenBucket) result" where
  "try_acquire now b =
     rbind (refill now b) (\<lambda>b'.
       if tokens b' = 0 then Inr (False, b') else Inr (True, b'\<lparr>tokens := tokens b' - 1\<rparr>))"

definition bucket_available_tokens :: "instant \<Rightarrow> TokenBucket \<Rightarrow> (FlowControlError, u32 \<times> TokenBucket) result" where
  "bucket_available_tokens now b = rbind (refill now b) (\<lambda>b'. Inr (tokens b', b'))"

section \<open>Bounded queue\<close>

record 'a BoundedQueue =
  queue :: "'a list"
  max_size :: nat
  total_enqueued :: u64
  total_dropped :: u64

definition queue_new :: "nat \<Rightarrow> 'a BoundedQueue" where
  "queue_new n = \<lparr>queue = [], max_size = n, total_enqueued = 0, total_dropped = 0\<rparr>"

fun pop_front :: "'a list \<Rightarrow> 'a option \<times> 'a list" where
  "pop_front [] = (None, [])"
| "pop_front (x # xs) = (Some x, xs)"

definition enqueue :: "'a BoundedQueue \<Rightarrow> 'a \<Rightarrow> 'a option \<times> 'a BoundedQueue" where
  "enqueue q x =
     (let q1 = q\<lparr>total_enqueued := total_enqueued q + 1\<rparr>;
          (dropped, q2) =
            (if max_size q1 \<le> length (queue q1)
             then (fst (pop_front (queue q1)),
                   q1\<lparr>total_dropped := total_dropped q1 + 1, queue := snd (pop_front (queue q1))\<rparr>)
             else (None, q1))
      in (dropped, q2\<lparr>queue := queue q2 @ [x]\<rparr>))"

definition try_enqueue :: "'a BoundedQueue \<Rightarrow> 'a \<Rightarrow> ('a + unit) \<times> 'a BoundedQueue" where
  "try_enqueue q x =
     (if max_size q \<le> length (queue q) then (Inl x, q)
      else (Inr (), q\<lparr>total_enqueued := total_enqueued q + 1, queue := queue q @ [x]\<rparr>))"

definition dequeue :: "'a BoundedQueue \<Rightarrow> 'a option \<times> 'a BoundedQueue" where
  "dequeue q = (fst (pop_front (queue q)), q\<lparr>queue := snd (pop_front (queue q))\<rparr>)"

definition peek :: "'a BoundedQueue \<Rightarrow> 'a option" where
  "peek q = (case queue q of [] \<Rightarrow> None | x # _ \<Rightarrow> Some x)"

definition queue_clear :: "'a BoundedQueue \<Rightarrow> 'a BoundedQueue" where
  "queue_clear q = q\<lparr>queue := []\<rparr>"

section \<open>Cooldowns\<close>

record 'p SyncCooldownTracker =
  last_sync :: "('p \<times> string, instant) hmap"
  cooldown :: duration
  blocked_count :: u64

definition cooldown_new :: "duration \<Rightarrow> 'p SyncCooldownTracker" where
  "cooldown_new d = \<lparr>last_sync = [], cooldown = d, blocked_count = 0\<rparr>"

definition check_cooldown ::
  "instant \<Rightarrow> 'p SyncCooldownTracker \<Rightarrow> 'p \<Rightarrow> string
     \<Rightarrow> (FlowControlError, unit) result \<times> 'p SyncCooldownTracker" where
  "check_cooldown now c peer doc =
     (case hm_get (last_sync c) (peer, doc) of
        Some t \<Rightarrow>
          if now - t < cooldown c
          then (Inl (Err (CooldownActive (word_of_nat (as_millis (cooldown c - (now - t)))))),
                c\<lparr>blocked_count := blocked_count c + 1\<rparr>)
          else (Inr (), c)
      | None \<Rightarrow> (Inr (), c))"

definition cooldown_record_sync :: "instant \<Rightarrow> 'p SyncCooldownTracker \<Rightarrow> 'p \<Rightarrow> string \<Rightarrow> 'p SyncCooldownTracker" where
  "cooldown_record_sync now c peer doc = c\<lparr>last_sync := hm_insert (peer, doc) now (last_sync c)\<rparr>"

definition cooldown_cleanup :: "instant \<Rightarrow> 'p SyncCooldownTracker \<Rightarrow> 'p SyncCooldownTracker" where
  "cooldown_cleanup now c = c\<lparr>last_sync := hm_retain (\<lambda>_ t. now - t < cooldown c * 10) (last_sync c)\<rparr>"

section \<open>Resources of a peer\<close>

record PeerResourceTracker =
  memory_usage :: u64
  max_memory :: u64
  messages_sent :: u64
  messages_received :: u64
  messages_dropped :: u64

definition resource_new :: "u64 \<Rightarrow> PeerResourceTracker" where
  "resource_new m =
     \<lparr>memory_usage = 0, max_memory = m, messages_sent = 0, messages_received = 0, messages_dropped = 0\<rparr>"

definition try_allocate :: "PeerResourceTracker \<Rightarrow> u64 \<Rightarrow> bool \<times> PeerResourceTracker" where
  "try_allocate r bytes =
     (let new_usage = memory_usage r + bytes
      in if max_memory r < new_usage then (False, r) else (True, r\<lparr>memory_usage := new_usage\<rparr>))"

definition free :: "PeerResourceTracker \<Rightarrow> u64 \<Rightarrow> PeerResourceTracker" where
  "free r bytes = r\<lparr>memory_usage := memory_usage r - bytes\<rparr>"

definition record_sent :: "PeerResourceTracker \<Rightarrow> PeerResourceTracker" where
  "record_sent r = r\<lparr>messages_sent := messages_sent r + 1\<rparr>"

definition record_received :: "PeerResourceTracker \<Rightarrow> PeerResourceTracker" where
  "record_received r = r\<lparr>messages_received := messages_received r + 1\<rparr>"

definition record_dropped :: "PeerResourceTracker \<Rightarrow> PeerResourceTracker" where
  "record_dropped r = r\<lparr>messages_dropped := messages_dropped r + 1\<rparr>"

section \<open>The controller\<close>

record FlowControlStats =
  stat_rate_limited :: u64
  stat_queue_dropped :: u64
  stat_cooldown_blocked :: u64
  stat_total_memory_usage :: u64
  stat_active_peers :: nat

record 'p FlowController =
  flow_config :: FlowControlConfig
  rate_limiters :: "('p, TokenBucket) hmap"
  cooldowns :: "'p SyncCooldownTracker"
  resources :: "('p, PeerResourceTracker) hmap"
  rate_limited_count :: u64

definition flow_with_config :: "FlowControlConfig \<Rightarrow> 'p FlowController" where
  "flow_with_config cfg =
     \<lparr>flow_config = cfg, rate_limiters = [], cooldowns = cooldown_new (sync_cooldown cfg), resources = [],
      rate_limited_count = 0\<rparr>"

text \<open>The clock is read when a bucket is created, when it is refilled and when the cooldown is checked.\<close>

definition check_sync_allowed ::
  "instant \<Rightarrow> instant \<Rightarrow> instant \<Rightarrow> 'p FlowController \<Rightarrow> 'p \<Rightarrow> string
     \<Rightarrow> (FlowControlError, unit) result \<times> 'p FlowController" where
  "check_sync_allowed t_new t_refill t_cool fc peer doc =
     (let cfg = flow_config fc;
          limiter = hm_get_or (bucket_new t_new (max_messages_per_second cfg) (cfg_tokens_per_refill cfg)
                                 (cfg_refill_interval cfg)) (rate_limiters fc) peer
      in case try_acquire t_refill limiter of
           Inl f \<Rightarrow> (Inl f, fc\<lparr>rate_limiters := hm_insert peer limiter (rate_limiters fc)\<rparr>)
         | Inr (ok, limiter') \<Rightarrow>
             let fc1 = fc\<lparr>rate_limiters := hm_insert peer limiter' (rate_limiters fc)\<rparr>
             in if \<not> ok then (Inl (Err RateLimitExceeded), fc1\<lparr>rate_limited_count := rate_limited_count fc1 + 1\<rparr>)
                else let (r, c) = check_cooldown t_cool (cooldowns fc1) peer doc
                     in (r, fc1\<lparr>cooldowns := c\<rparr>))"

definition flow_record_sync :: "instant \<Rightarrow> 'p FlowController \<Rightarrow> 'p \<Rightarrow> string \<Rightarrow> 'p FlowController" where
  "flow_record_sync now fc peer doc = fc\<lparr>cooldowns := cooldown_record_sync now (cooldowns fc) peer doc\<rparr>"

text \<open>The tracker returned is a copy: what the caller does to it is not seen by the controller.\<close>

definition get_resource_tracker :: "'p FlowController \<Rightarrow> 'p \<Rightarrow> PeerResourceTracker \<times> 'p FlowController" where
  "get_resource_tracker fc peer =
     (let fc1 = (if \<not> hm_contains (resources fc) peer
                 then fc\<lparr>resources := hm_insert peer
                           (resource_new (word_of_nat (max_memory_per_peer (flow_config fc)))) (resources fc)\<rparr>
                 else fc)
      in (the (hm_get (resources fc1) peer), fc1))"

definition flow_stats :: "'p FlowController \<Rightarrow> FlowControlStats" where
  "flow_stats fc =
     \<lparr>stat_rate_limited = rate_limited_count fc,
      stat_queue_dropped = sum_list (map (\<lambda>(_, r). messages_dropped r) (resources fc)),
      stat_cooldown_blocked = blocked_count (cooldowns fc),
      stat_total_memory_usage = sum_list (map (\<lambda>(_, r). memory_usage r) (resources fc)),
      stat_active_peers = length (resources fc)\<rparr>"

definition flow_cleanup :: "instant \<Rightarrow> 'p FlowController \<Rightarrow> 'p FlowController" where
  "flow_cleanup now fc = fc\<lparr>cooldowns := cooldown_cleanup now (cooldowns fc)\<rparr>"

definition flow_available_tokens ::
  "instant \<Rightarrow> 'p FlowController \<Rightarrow> 'p \<Rightarrow> (FlowControlError, u32) result \<times> 'p FlowController" where
  "flow_available_tokens now fc peer =
     (case hm_get (rate_limiters fc) peer of
        None \<Rightarrow> (Inr (max_messages_per_second (flow_config fc)), fc)
      | Some l \<Rightarrow>
          (case bucket_available_tokens now l of
             Inl f \<Rightarrow> (Inl f, fc)
           | Inr (n, l') \<Rightarrow> (Inr n, fc\<lparr>rate_limiters := hm_insert peer l' (rate_limiters fc)\<rparr>)))"

section \<open>The token bucket bounds the rate\<close>

fun acquire_all :: "instant list \<Rightarrow> TokenBucket \<Rightarrow> (FlowControlError, nat \<times> TokenBucket) result" where
  "acquire_all [] b = Inr (0, b)"
| "acquire_all (t # ts) b =
     rbind (try_acquire t b) (\<lambda>(ok, b').
     rbind (acquire_all ts b') (\<lambda>(n, b''). Inr ((if ok then Suc n else n), b'')))"

text \<open>The refill period in nanoseconds, and the tokens a bucket can hand out up to time \<open>T\<close>.\<close>

definition period_ns :: "duration \<Rightarrow> nat" where
  "period_ns iv = 1000000 * as_millis iv"

definition credit :: "instant \<Rightarrow> TokenBucket \<Rightarrow> nat" where
  "credit T b = unat (tokens b) + unat (tokens_per_refill b) * ((T - last_refill b) div period_ns (refill_interval b))"

definition bucket_ok :: "u32 \<Rightarrow> u32 \<Rightarrow> duration \<Rightarrow> TokenBucket \<Rightarrow> bool" where
  "bucket_ok cap tpr iv b \<longleftrightarrow>
     capacity b = cap \<and> tokens_per_refill b = tpr \<and> refill_interval b = iv \<and> tokens b \<le> cap"

lemma div_add_le: "a div m + b div m \<le> (a + b) div (m :: nat)"
  using div_add1_eq [of a b m] by linarith

lemma as_millis_pos: "1000000 \<le> iv \<Longrightarrow> 0 < as_millis iv"
  by (simp add: as_millis_def div_greater_zero_iff)

lemma periods_eq: "as_millis d div as_millis iv = d div period_ns iv"
  by (simp add: as_millis_def period_ns_def div_mult2_eq)

lemma unat_saturating_mul: "unat (saturating_mul a b) = min (unat a * unat b) (2 ^ 32 - 1)"
  by (simp add: saturating_mul_def unat_of_nat)

lemma unat_plus_le: "unat (a + b) \<le> unat a + unat (b :: 'a::len word)"
  by (simp add: unat_word_ariths)

lemma unat_min: "unat (min a b) = min (unat a) (unat (b :: 'a::len word))"
  by (simp add: min_def word_le_nat_alt)

lemma refill_total:
  assumes "bucket_ok cap tpr iv b" and "1000000 \<le> iv"
  shows "\<exists>b'. refill now b = Inr b' \<and> bucket_ok cap tpr iv b'"
  using assms as_millis_pos [OF assms(2)] by (simp add: refill_def bucket_ok_def Let_def)

lemma refill_credit:
  assumes "refill now b = Inr b'" and "now \<le> T"
  shows "credit T b' \<le> credit T b"
proof (cases "b' = b")
  case False
  let ?el = "now - last_refill b" and ?M = "period_ns (refill_interval b)"
  define add :: u32 where
    "add = saturating_mul (word_of_nat (as_millis ?el div as_millis (refill_interval b))) (tokens_per_refill b)"
  have b': "b' = b\<lparr>tokens := min (tokens b + add) (capacity b), last_refill := now\<rparr>"
    and el: "refill_interval b \<le> ?el" "as_millis (refill_interval b) \<noteq> 0"
    using assms(1) False by (auto simp: refill_def Let_def add_def not_less split: if_splits)
  have "last_refill b < now" using el by (cases "refill_interval b") (auto simp: as_millis_def)
  then have "(T - now) div ?M + ?el div ?M \<le> (T - last_refill b) div ?M"
    using div_add_le [of "T - now" ?M ?el] assms(2) by simp
  then have time: "unat (tokens_per_refill b) * ((T - now) div ?M) + unat (tokens_per_refill b) * (?el div ?M)
                     \<le> unat (tokens_per_refill b) * ((T - last_refill b) div ?M)"
    by (metis distrib_left mult_le_mono2)
  have "unat (word_of_nat (as_millis ?el div as_millis (refill_interval b)) :: u32) \<le> ?el div ?M"
    by (simp add: unat_of_nat periods_eq)
  then have "unat add \<le> unat (tokens_per_refill b) * (?el div ?M)"
    by (simp add: add_def unat_saturating_mul min.coboundedI1 mult.commute mult_le_mono2)
  then have "unat (min (tokens b + add) (capacity b)) \<le> unat (tokens b) + unat (tokens_per_refill b) * (?el div ?M)"
    using unat_plus_le [of "tokens b" add] by (simp add: unat_min)
  with time show ?thesis by (simp add: credit_def b')
qed simp

lemma try_acquire_total:
  assumes "bucket_ok cap tpr iv b" and "1000000 \<le> iv" and "now \<le> T"
  shows "\<exists>ok b'. try_acquire now b = Inr (ok, b') \<and> bucket_ok cap tpr iv b'
           \<and> (if ok then 1 else 0) + credit T b' \<le> credit T b"
proof -
  obtain b1 where b1: "refill now b = Inr b1" "bucket_ok cap tpr iv b1"
    using refill_total [OF assms(1,2)] by blast
  have b1': "credit T b1 \<le> credit T b" by (rule refill_credit [OF b1(1) assms(3)])
  show ?thesis
  proof (cases "tokens b1 = 0")
    case True
    then show ?thesis using b1 b1' by (intro exI [of _ False] exI [of _ b1]) (simp add: try_acquire_def)
  next
    case False
    then have dec: "Suc (unat (tokens b1 - 1)) = unat (tokens b1)"
      using unat_gt_0 [of "tokens b1"] by (simp add: unat_minus_one)
    then have "tokens b1 - 1 \<le> cap"
      using b1(2) unfolding bucket_ok_def word_le_nat_alt by linarith
    then have "bucket_ok cap tpr iv (b1\<lparr>tokens := tokens b1 - 1\<rparr>)" using b1(2) by (simp add: bucket_ok_def)
    moreover have "1 + credit T (b1\<lparr>tokens := tokens b1 - 1\<rparr>) \<le> credit T b"
      using dec b1' by (simp add: credit_def)
    ultimately show ?thesis using b1(1) False
      by (intro exI [of _ True] exI [of _ "b1\<lparr>tokens := tokens b1 - 1\<rparr>"]) (simp add: try_acquire_def)
  qed
qed

lemma acquire_all_credit:
  assumes "bucket_ok cap tpr iv b" and "1000000 \<le> iv" and "\<forall>t \<in> set ts. t \<le> T"
  shows "\<exists>n b'. acquire_all ts b = Inr (n, b') \<and> bucket_ok cap tpr iv b' \<and> n + credit T b' \<le> credit T b"
  using assms
proof (induction ts arbitrary: b)
  case (Cons t ts)
  then have tT: "t \<le> T" by simp
  obtain ok b1 where b1: "try_acquire t b = Inr (ok, b1)" "bucket_ok cap tpr iv b1"
      "(if ok then 1 else 0) + credit T b1 \<le> credit T b"
    using try_acquire_total [OF Cons.prems(1,2) tT] by blast
  moreover obtain n b2 where "acquire_all ts b1 = Inr (n, b2)" "bucket_ok cap tpr iv b2" "n + credit T b2 \<le> credit T b1"
    using Cons.IH [OF b1(2) Cons.prems(2)] Cons.prems(3) by auto
  ultimately show ?case by auto
qed simp

lemma try_acquire_after_period:
  assumes b: "bucket_ok cap tpr iv b" and iv: "1000000 \<le> iv" and pos: "0 < cap" "0 < tpr"
    and el: "last_refill b + iv \<le> now"
    and nowrap: "unat cap + unat tpr * ((now - last_refill b) div period_ns iv) < 2 ^ 32"
  shows "\<exists>b'. try_acquire now b = Inr (True, b')"
proof -
  let ?k = "(now - last_refill b) div period_ns iv"
  define add :: u32 where "add = saturating_mul (word_of_nat ?k) tpr"
  have iv1: "period_ns iv \<le> iv" "0 < period_ns iv" "0 < as_millis iv"
    using as_millis_pos [OF iv] by (simp_all add: period_ns_def as_millis_def)
  have k: "1 \<le> ?k" using iv1 el by (simp add: div_greater_zero_iff Suc_le_eq)
  have tpr: "1 \<le> unat tpr" using pos(2) by (simp add: word_less_nat_alt)
  then have "1 * ?k \<le> unat tpr * ?k" by (rule mult_le_mono1)
  then have klt: "?k < 2 ^ 32" using nowrap by linarith
  then have uk: "unat (word_of_nat ?k :: u32) = ?k" by (simp add: unat_of_nat)
  have "?k * unat tpr < 2 ^ 32" using nowrap by (simp add: mult.commute)
  then have add: "unat add = ?k * unat tpr" unfolding add_def unat_saturating_mul uk by simp
  have "unat (tokens b) \<le> unat cap" using b by (simp add: bucket_ok_def word_le_nat_alt)
  then have "unat (tokens b) + unat add < 2 ^ 32" unfolding add using nowrap by (simp add: mult.commute)
  then have sum: "unat (tokens b + add) = unat (tokens b) + unat add" by (simp add: unat_word_ariths)
  have "1 * 1 \<le> ?k * unat tpr" using k tpr by (rule mult_le_mono)
  then have "0 < unat (tokens b + add)" using sum add by linarith
  then have "min (tokens b + add) cap \<noteq> 0" using pos(1) by (auto simp: min_def)
  moreover have "(word_of_nat ?k :: u32) \<noteq> 0" using uk k by (metis unat_0 not_one_le_zero)
  moreover have "\<not> now - last_refill b < iv" using el by simp
  ultimately show ?thesis
    using b iv1(3) by (simp add: try_acquire_def refill_def Let_def bucket_ok_def periods_eq add_def)
qed

text \<open>
  C38.  A token bucket bounds the rate.  Whatever the times of the requests, a
  bucket that starts full grants up to time \<open>T\<close> at most its capacity plus the
  refill amount for every full period since its start, and never holds more than
  its capacity; no request panics when the interval is at least a millisecond.
  The other way round, once a full interval passed since the last refill and the
  refill does not overflow 32 bits, the next request is granted.
\<close>

theorem token_bucket_rate:
  assumes "1000000 \<le> iv" and "\<forall>t \<in> set ts. t \<le> T"
  shows "\<exists>n b. acquire_all ts (bucket_new t0 cap tpr iv) = Inr (n, b)
           \<and> n \<le> unat cap + unat tpr * ((T - t0) div period_ns iv) \<and> tokens b \<le> cap
           \<and> (0 < cap \<and> 0 < tpr \<and> last_refill b + iv \<le> now
                \<and> unat cap + unat tpr * ((now - last_refill b) div period_ns iv) < 2 ^ 32
                \<longrightarrow> (\<exists>b'. try_acquire now b = Inr (True, b')))"
proof -
  have new: "bucket_ok cap tpr iv (bucket_new t0 cap tpr iv)"
    by (simp add: bucket_ok_def bucket_new_def)
  obtain n b where nb: "acquire_all ts (bucket_new t0 cap tpr iv) = Inr (n, b)" "bucket_ok cap tpr iv b"
      "n + credit T b \<le> credit T (bucket_new t0 cap tpr iv)"
    using acquire_all_credit [OF new assms] by blast
  have "n \<le> unat cap + unat tpr * ((T - t0) div period_ns iv)"
    using nb(3) by (simp add: credit_def bucket_new_def)
  then show ?thesis
    using nb(1,2) try_acquire_after_period [OF nb(2) assms(1)] by (auto simp: bucket_ok_def)
qed

theorem token_bucket_rate_witness:
  "\<exists>n b. acquire_all [0, 0, 100000000] (bucket_new 0 1 1 100000000) = Inr (n, b)
     \<and> n \<le> 2 \<and> tokens b \<le> 1"
proof -
  have "(1000000 :: nat) \<le> 100000000" and "\<forall>t \<in> set [0, 0, 100000000]. t \<le> (100000000 :: nat)"
    by simp_all
  from token_bucket_rate [OF this, of 0 1 1]
  obtain n b where "acquire_all [0, 0, 100000000] (bucket_new 0 1 1 100000000) = Inr (n, b)" "tokens b \<le> 1"
      "n \<le> unat (1 :: u32) + unat (1 :: u32) * ((100000000 - 0) div period_ns 100000000)"
    by blast
  then show ?thesis by (intro exI [of _ n] exI [of _ b]) (simp add: period_ns_def as_millis_def)
qed

section \<open>The bounded queue is a queue\<close>

datatype 'a queue_event = Enqueue 'a | TryEnqueue 'a | Dequeue

text \<open>
  A run of the queue, with what the callers see: the items accepted, the items
  that left (evicted or dequeued) in order, and the number of evictions.
\<close>

record 'a queue_log =
  accepted :: "'a list"
  left_items :: "'a list"
  evicted :: nat

fun queue_step :: "'a queue_event \<Rightarrow> 'a queue_log \<times> 'a BoundedQueue \<Rightarrow> 'a queue_log \<times> 'a BoundedQueue" where
  "queue_step (Enqueue x) (l, q) =
     (let (d, q') = enqueue q x
      in (l\<lparr>accepted := accepted l @ [x], left_items := left_items l @ (case d of Some y \<Rightarrow> [y] | None \<Rightarrow> []),
            evicted := evicted l + (case d of Some y \<Rightarrow> 1 | None \<Rightarrow> 0)\<rparr>, q'))"
| "queue_step (TryEnqueue x) (l, q) =
     (let (r, q') = try_enqueue q x
      in (l\<lparr>accepted := accepted l @ (case r of Inr _ \<Rightarrow> [x] | Inl _ \<Rightarrow> [])\<rparr>, q'))"
| "queue_step Dequeue (l, q) =
     (let (d, q') = dequeue q
      in (l\<lparr>left_items := left_items l @ (case d of Some y \<Rightarrow> [y] | None \<Rightarrow> [])\<rparr>, q'))"

definition queue_inv :: "nat \<Rightarrow> 'a queue_log \<times> 'a BoundedQueue \<Rightarrow> bool" where
  "queue_inv n lq = (case lq of (l, q) \<Rightarrow>
     max_size q = n \<and> left_items l @ queue q = accepted l \<and> length (queue q) \<le> n
     \<and> total_enqueued q = word_of_nat (length (accepted l)) \<and> total_dropped q = word_of_nat (evicted l))"

lemma queue_inv_step:
  assumes "0 < n" and "queue_inv n lq"
  shows "queue_inv n (queue_step e lq)"
  using assms
  by (cases lq; cases e; cases "queue (snd lq)")
    (auto simp: queue_inv_def enqueue_def try_enqueue_def dequeue_def Let_def add.commute)

text \<open>
  C39.  A bounded queue of positive size loses nothing silently.  After any
  sequence of calls, the items that left, evicted or dequeued, followed by the
  items still queued are exactly the items accepted, in the order they were
  accepted; the queue never exceeds its size; and its two counters count the
  items accepted and evicted.
\<close>

theorem bounded_queue_fifo:
  assumes "0 < n"
  shows "case fold queue_step evs (\<lparr>accepted = [], left_items = [], evicted = 0\<rparr>, queue_new n) of
           (l, q) \<Rightarrow> left_items l @ queue q = accepted l \<and> length (queue q) \<le> n
             \<and> total_enqueued q = word_of_nat (length (accepted l)) \<and> total_dropped q = word_of_nat (evicted l)"
proof -
  have "queue_inv n lq \<Longrightarrow> queue_inv n (fold queue_step evs lq)" for lq
    by (induction evs arbitrary: lq) (simp_all add: queue_inv_step [OF assms])
  from this [of "(\<lparr>accepted = [], left_items = [], evicted = 0\<rparr>, queue_new n)"]
  show ?thesis by (simp add: queue_inv_def queue_new_def split: prod.splits)
qed

theorem bounded_queue_fifo_witness:
  "case fold queue_step [Enqueue 1, Enqueue 2, Enqueue 3, TryEnqueue 4, Dequeue, TryEnqueue 5]
          (\<lparr>accepted = [], left_items = [], evicted = 0\<rparr>, queue_new 2) of
     (l, q) \<Rightarrow> left_items l = [1, 2 :: nat] \<and> queue q = [3, 5] \<and> accepted l = [1, 2, 3, 5] \<and> length (queue q) \<le> 2"
  using bounded_queue_fifo [of 2 "[Enqueue 1, Enqueue 2, Enqueue 3, TryEnqueue 4, Dequeue, TryEnqueue 5]"]
  by (simp add: enqueue_def try_enqueue_def dequeue_def queue_new_def)

section \<open>The controller separates syncs\<close>

text \<open>The calls on a controller, each with the clock readings it makes.\<close>

datatype 'p flow_event =
  CheckAllowed instant instant instant 'p string
| RecordSync instant 'p string
| Cleanup instant
| GetTracker 'p
| AvailableTokens instant 'p

fun flow_step :: "'p flow_event \<Rightarrow> 'p FlowController \<Rightarrow> 'p FlowController" where
  "flow_step (CheckAllowed a b c p d) fc = snd (check_sync_allowed a b c fc p d)"
| "flow_step (RecordSync t p d) fc = flow_record_sync t fc p d"
| "flow_step (Cleanup t) fc = flow_cleanup t fc"
| "flow_step (GetTracker p) fc = snd (get_resource_tracker fc p)"
| "flow_step (AvailableTokens t p) fc = snd (flow_available_tokens t fc p)"

text \<open>The last sync recorded for a peer and document, whatever was cleaned up since.\<close>

fun recorded :: "'p \<Rightarrow> string \<Rightarrow> 'p flow_event list \<Rightarrow> instant option \<Rightarrow> instant option" where
  "recorded p d [] acc = acc"
| "recorded p d (RecordSync t p' d' # evs) acc = recorded p d evs (if p' = p \<and> d' = d then Some t else acc)"
| "recorded p d (_ # evs) acc = recorded p d evs acc"

fun cleanup_time :: "'p flow_event \<Rightarrow> instant" where
  "cleanup_time (Cleanup t) = t"
| "cleanup_time _ = 0"

text \<open>
  \<open>agrees T\<close>: from time \<open>T\<close> on, the tracker's entry and the last sync recorded
  lead to the same decision.
\<close>

definition agrees :: "instant \<Rightarrow> duration \<Rightarrow> instant option \<Rightarrow> instant option \<Rightarrow> bool" where
  "agrees T cd entry rec \<longleftrightarrow> entry = rec \<or> entry = None \<and> (\<exists>t. rec = Some t \<and> cd \<le> T - t)"

lemma check_sync_allowed_cooldowns:
  "last_sync (cooldowns (snd (check_sync_allowed a b c fc p d))) = last_sync (cooldowns fc)
   \<and> cooldown (cooldowns (snd (check_sync_allowed a b c fc p d))) = cooldown (cooldowns fc)"
  by (simp add: check_sync_allowed_def check_cooldown_def Let_def split: sum.splits prod.splits option.splits)

lemma other_steps_cooldowns:
  "cooldowns (snd (get_resource_tracker fc p)) = cooldowns fc"
  "cooldowns (snd (flow_available_tokens t fc p)) = cooldowns fc"
  by (simp_all add: get_resource_tracker_def flow_available_tokens_def Let_def
      split: sum.splits prod.splits option.splits)

lemma cleanup_agrees:
  assumes "agrees T (cooldown (cooldowns fc)) (hm_get (last_sync (cooldowns fc)) k) r" and "now \<le> T"
    and "hm_wf (last_sync (cooldowns fc))"
  shows "agrees T (cooldown (cooldowns fc)) (hm_get (last_sync (cooldowns (flow_cleanup now fc))) k) r"
  using assms
  by (auto simp: agrees_def flow_cleanup_def cooldown_cleanup_def hm_get_retain split: option.splits)

lemma flow_step_agrees:
  fixes p :: 'p and d :: string
  assumes "agrees T (cooldown (cooldowns fc)) (hm_get (last_sync (cooldowns fc)) (p, d)) r"
    and "hm_wf (last_sync (cooldowns fc))" and "cleanup_time e \<le> T"
  shows "agrees T (cooldown (cooldowns fc)) (hm_get (last_sync (cooldowns (flow_step e fc))) (p, d)) (recorded p d [e] r)
         \<and> hm_wf (last_sync (cooldowns (flow_step e fc))) \<and> cooldown (cooldowns (flow_step e fc)) = cooldown (cooldowns fc)"
proof (cases e)
  case (Cleanup t)
  then show ?thesis
    using cleanup_agrees [OF assms(1), of t] assms by (simp add: flow_cleanup_def cooldown_cleanup_def)
qed (use assms in \<open>auto simp: check_sync_allowed_cooldowns other_steps_cooldowns flow_record_sync_def
       cooldown_record_sync_def agrees_def\<close>)

lemma recorded_Cons: "recorded p d (e # evs) r = recorded p d evs (recorded p d [e] r)"
  by (cases e) simp_all

lemma flow_run_agrees:
  fixes p :: 'p and d :: string
  assumes "agrees T (cooldown (cooldowns fc)) (hm_get (last_sync (cooldowns fc)) (p, d)) r"
    and "hm_wf (last_sync (cooldowns fc))" and "\<forall>e \<in> set evs. cleanup_time e \<le> T"
  shows "agrees T (cooldown (cooldowns fc)) (hm_get (last_sync (cooldowns (fold flow_step evs fc))) (p, d)) (recorded p d evs r)
         \<and> cooldown (cooldowns (fold flow_step evs fc)) = cooldown (cooldowns fc)"
  using assms
proof (induction evs arbitrary: fc r)
  case (Cons e evs)
  then have eT: "cleanup_time e \<le> T" and rest: "\<forall>e \<in> set evs. cleanup_time e \<le> T" by simp_all
  from flow_step_agrees [OF Cons.prems(1,2) eT]
  show ?case using Cons.IH [of "flow_step e fc" "recorded p d [e] r", OF _ _ rest]
    by (simp only: recorded_Cons [of p d e evs r] fold_simps o_apply)
qed simp

text \<open>
  Flow control keeps syncs of a document with a peer a cooldown apart.
  Take any calls on a fresh controller, and a later check of a peer and document
  whose clock reading is not before any clean-up.  The check succeeds exactly
  when the peer's bucket grants a token and the last sync recorded for that peer
  and document, if any, is at least the cooldown old.  Clean-ups, checks and the
  traffic of other peers never change that decision.
\<close>

lemma sync_cooldown_enforced:
  assumes "\<forall>e \<in> set evs. cleanup_time e \<le> t_cool"
    and fc: "fc = fold flow_step evs (flow_with_config cfg)"
  shows "fst (check_sync_allowed t_new t_refill t_cool fc p d) = Inr ()
         \<longleftrightarrow> (\<exists>l. try_acquire t_refill
                 (hm_get_or (bucket_new t_new (max_messages_per_second (flow_config fc))
                    (cfg_tokens_per_refill (flow_config fc)) (cfg_refill_interval (flow_config fc)))
                  (rate_limiters fc) p) = Inr (True, l))
             \<and> (case recorded p d evs None of None \<Rightarrow> True | Some t \<Rightarrow> sync_cooldown cfg \<le> t_cool - t)"
proof -
  have "agrees t_cool (sync_cooldown cfg) (hm_get (last_sync (cooldowns fc)) (p, d)) (recorded p d evs None)"
    and cd: "cooldown (cooldowns fc) = sync_cooldown cfg"
    using flow_run_agrees [OF _ _ assms(1), of "flow_with_config cfg" p d None]
    by (simp_all add: fc flow_with_config_def cooldown_new_def agrees_def)
  then have "fst (check_cooldown t_cool (cooldowns fc) p d) = Inr ()
        \<longleftrightarrow> (case recorded p d evs None of None \<Rightarrow> True | Some t \<Rightarrow> sync_cooldown cfg \<le> t_cool - t)"
    by (cases "recorded p d evs None") (auto simp: check_cooldown_def agrees_def split: option.splits)
  then show ?thesis
    by (simp add: check_sync_allowed_def Let_def case_prod_beta split: sum.splits)
qed

definition sample_flow :: "nat flow_event list" where
  "sample_flow = [RecordSync 5 1 ''d'', CheckAllowed 6 6 6 2 ''d'', Cleanup 2000000000]"


lemma sum_list_zero: "\<forall>x \<in> set xs. f x = 0 \<Longrightarrow> sum_list (map f xs) = (0 :: 'b::comm_monoid_add)"
  by (induction xs) simp_all

text \<open>
  Resource use never reaches the controller.  Whatever is called on a
  controller, and whatever its callers do with the trackers it hands out, its
  statistics report no memory in use and no dropped message for any peer.
\<close>

lemma resource_usage_never_recorded:
  "stat_total_memory_usage (flow_stats (fold flow_step evs (flow_with_config cfg))) = 0
   \<and> stat_queue_dropped (flow_stats (fold flow_step evs (flow_with_config cfg))) = 0"
proof -
  define idle where "idle fc \<longleftrightarrow> (\<forall>(p, r) \<in> set (resources fc). memory_usage r = 0 \<and> messages_dropped r = 0)"
    for fc :: "'a FlowController"
  have step: "idle fc \<Longrightarrow> idle (flow_step e fc)" for e fc
  proof (cases e)
    case (GetTracker p)
    assume "idle fc"
    then show "idle (flow_step e fc)"
      using set_hm_insert [of p "resource_new (word_of_nat (max_memory_per_peer (flow_config fc)))" "resources fc"] GetTracker
      by (auto simp: idle_def get_resource_tracker_def resource_new_def Let_def)
  qed (auto simp: idle_def check_sync_allowed_def flow_record_sync_def flow_cleanup_def flow_available_tokens_def Let_def
      split: sum.splits prod.splits option.splits)
  have "idle fc \<Longrightarrow> idle (fold flow_step evs fc)" for fc
    by (induction evs arbitrary: fc) (simp_all add: step)
  moreover have "idle (flow_with_config cfg)" by (simp add: idle_def flow_with_config_def)
  ultimately have "idle (fold flow_step evs (flow_with_config cfg))" by blast
  then show ?thesis
    by (auto simp: idle_def flow_stats_def intro!: sum_list_zero)
qed

end
