(* ===== verification/Partition_Detection.thy ===== *)
theory Partition_Detection
  imports Tombstone_Wire
begin

text \<open>
  Heartbeats and partition detection of \<^verbatim>\<open>src/storage/partition_detection.rs\<close>.
  Peers are a type parameter, times are \<^verbatim>\<open>SystemTime\<close> readings passed in.
\<close>

section \<open>Data and operations\<close>

datatype 'p PartitionEvent =
  PartitionDetected 'p u64
| PartitionHealed 'p duration
| PeerRecovered 'p
| HeartbeatSuccess 'p
| HeartbeatFailure 'p u64

datatype PeerPartitionState = Connected | Partitioned | Recovering

record PeerHeartbeat =
  hb_state :: PeerPartitionState
  last_heartbeat :: int
  partition_detected_at :: "int option"
  hb_failures :: u64

definition heartbeat_new :: "int \<Rightarrow> PeerHeartbeat" where
  "heartbeat_new now = \<lparr>hb_state = Connected, last_heartbeat = now, partition_detected_at = None, hb_failures = 0\<rparr>"

definition hb_record_success :: "int \<Rightarrow> PeerHeartbeat \<Rightarrow> 'p \<Rightarrow> 'p PartitionEvent option \<times> PeerHeartbeat" where
  "hb_record_success now hb peer =
     (let was_partitioned = hb_state hb = Partitioned;
          hb1 = hb\<lparr>last_heartbeat := now, hb_failures := 0\<rparr>
      in if was_partitioned then
           let dur = (case partition_detected_at hb1 of
                        Some at \<Rightarrow> (case duration_since now at of Some d \<Rightarrow> d | None \<Rightarrow> 0)
                      | None \<Rightarrow> 0)
           in (Some (PartitionHealed peer dur), hb1\<lparr>hb_state := Recovering, partition_detected_at := None\<rparr>)
         else if hb_state hb1 = Recovering then (Some (PeerRecovered peer), hb1\<lparr>hb_state := Connected\<rparr>)
         else (Some (HeartbeatSuccess peer), hb1))"

definition hb_record_failure ::
  "int \<Rightarrow> PeerHeartbeat \<Rightarrow> 'p \<Rightarrow> u64 \<Rightarrow> 'p PartitionEvent option \<times> PeerHeartbeat" where
  "hb_record_failure now hb peer threshold =
     (let hb1 = hb\<lparr>hb_failures := hb_failures hb + 1\<rparr>
      in if threshold \<le> hb_failures hb1 \<and> hb_state hb1 \<noteq> Partitioned then
           (Some (PartitionDetected peer (hb_failures hb1)),
            hb1\<lparr>hb_state := Partitioned, partition_detected_at := Some now\<rparr>)
         else if hb_state hb1 = Connected then (Some (HeartbeatFailure peer (hb_failures hb1)), hb1)
         else (None, hb1))"

definition is_timeout :: "int \<Rightarrow> PeerHeartbeat \<Rightarrow> duration \<Rightarrow> bool" where
  "is_timeout now hb timeout =
     (case duration_since now (last_heartbeat hb) of Some elapsed \<Rightarrow> timeout < elapsed | None \<Rightarrow> False)"

definition partition_duration :: "int \<Rightarrow> PeerHeartbeat \<Rightarrow> duration option" where
  "partition_duration now hb = Option.bind (partition_detected_at hb) (duration_since now)"

record PartitionConfig =
  heartbeat_interval :: duration
  heartbeat_timeout :: duration
  hb_failure_threshold :: u64

definition partition_config_default :: PartitionConfig where
  "partition_config_default =
     \<lparr>heartbeat_interval = 5 * 10 ^ 9, heartbeat_timeout = 5 * 10 ^ 9 * 3, hb_failure_threshold = 3\<rparr>"

record 'p PartitionDetector =
  heartbeats :: "('p, PeerHeartbeat) hmap"
  pd_config :: PartitionConfig

definition detector_with_config :: "PartitionConfig \<Rightarrow> 'p PartitionDetector" where
  "detector_with_config cfg = \<lparr>heartbeats = [], pd_config = cfg\<rparr>"

definition register_peer :: "int \<Rightarrow> 'p PartitionDetector \<Rightarrow> 'p \<Rightarrow> 'p PartitionDetector" where
  "register_peer now pd peer =
     (if hm_contains (heartbeats pd) peer then pd
      else pd\<lparr>heartbeats := hm_insert peer (heartbeat_new now) (heartbeats pd)\<rparr>)"

definition unregister_peer :: "'p PartitionDetector \<Rightarrow> 'p \<Rightarrow> 'p PartitionDetector" where
  "unregister_peer pd peer = pd\<lparr>heartbeats := hm_remove peer (heartbeats pd)\<rparr>"

definition record_heartbeat_success ::
  "int \<Rightarrow> 'p PartitionDetector \<Rightarrow> 'p \<Rightarrow> 'p PartitionEvent option \<times> 'p PartitionDetector" where
  "record_heartbeat_success now pd peer =
     (case hm_get (heartbeats pd) peer of
        None \<Rightarrow> (None, pd)
      | Some hb \<Rightarrow> let (ev, hb') = hb_record_success now hb peer
                  in (ev, pd\<lparr>heartbeats := hm_insert peer hb' (heartbeats pd)\<rparr>))"

definition record_heartbeat_failure ::
  "int \<Rightarrow> 'p PartitionDetector \<Rightarrow> 'p \<Rightarrow> 'p PartitionEvent option \<times> 'p PartitionDetector" where
  "record_heartbeat_failure now pd peer =
     (case hm_get (heartbeats pd) peer of
        None \<Rightarrow> (None, pd)
      | Some hb \<Rightarrow> let (ev, hb') = hb_record_failure now hb peer (hb_failure_threshold (pd_config pd))
                  in (ev, pd\<lparr>heartbeats := hm_insert peer hb' (heartbeats pd)\<rparr>))"

definition get_peer_state :: "'p PartitionDetector \<Rightarrow> 'p \<Rightarrow> PeerPartitionState option" where
  "get_peer_state pd peer = map_option hb_state (hm_get (heartbeats pd) peer)"

definition get_partitioned_peers :: "'p PartitionDetector \<Rightarrow> 'p list" where
  "get_partitioned_peers pd = map fst (filter (\<lambda>(_, hb). hb_state hb = Partitioned) (heartbeats pd))"

text \<open>The loop reads the clock twice for each peer it visits; \<open>clk\<close> gives both readings.\<close>

definition check_entry ::
  "('p \<Rightarrow> int \<times> int) \<Rightarrow> PartitionConfig \<Rightarrow> 'p \<times> PeerHeartbeat \<Rightarrow> 'p PartitionEvent list \<times> PeerHeartbeat" where
  "check_entry clk cfg = (\<lambda>(peer, hb).
     if hb_state hb \<noteq> Partitioned \<and> is_timeout (fst (clk peer)) hb (heartbeat_timeout cfg)
     then ([PartitionDetected peer (hb_failures hb)],
           hb\<lparr>hb_state := Partitioned, partition_detected_at := Some (snd (clk peer))\<rparr>)
     else ([], hb))"

definition check_timeouts ::
  "('p \<Rightarrow> int \<times> int) \<Rightarrow> 'p PartitionDetector \<Rightarrow> 'p PartitionEvent list \<times> 'p PartitionDetector" where
  "check_timeouts clk pd =
     (let res = map (\<lambda>e. (fst e, check_entry clk (pd_config pd) e)) (heartbeats pd)
      in (concat (map (fst \<circ> snd) res), pd\<lparr>heartbeats := map (\<lambda>(peer, r). (peer, snd r)) res\<rparr>))"

section \<open>Subscribers can follow the events\<close>

text \<open>The life of a peer as a subscriber reconstructs it from the events alone.\<close>

fun follow :: "'p PartitionEvent \<Rightarrow> PeerPartitionState \<Rightarrow> PeerPartitionState option" where
  "follow (PartitionDetected _ _) s = (if s \<noteq> Partitioned then Some Partitioned else None)"
| "follow (PartitionHealed _ _) s = (if s = Partitioned then Some Recovering else None)"
| "follow (PeerRecovered _) s = (if s = Recovering then Some Connected else None)"
| "follow (HeartbeatSuccess _) s = (if s = Connected then Some Connected else None)"
| "follow (HeartbeatFailure _ _) s = (if s = Connected then Some Connected else None)"

fun follow_all :: "'p PartitionEvent list \<Rightarrow> PeerPartitionState \<Rightarrow> PeerPartitionState option" where
  "follow_all [] s = Some s"
| "follow_all (e # es) s = Option.bind (follow e s) (follow_all es)"

fun event_peer :: "'p PartitionEvent \<Rightarrow> 'p" where
  "event_peer (PartitionDetected p _) = p"
| "event_peer (PartitionHealed p _) = p"
| "event_peer (PeerRecovered p) = p"
| "event_peer (HeartbeatSuccess p) = p"
| "event_peer (HeartbeatFailure p _) = p"

definition events_about :: "'p \<Rightarrow> 'p PartitionEvent list \<Rightarrow> 'p PartitionEvent list" where
  "events_about p es = filter (\<lambda>e. event_peer e = p) es"

datatype 'p detector_call =
  Register int 'p
| Unregister 'p
| Success int 'p
| Failure int 'p
| CheckTimeouts "'p \<Rightarrow> int \<times> int"

fun detector_step :: "'p detector_call \<Rightarrow> 'p PartitionDetector \<Rightarrow> 'p PartitionEvent list \<times> 'p PartitionDetector" where
  "detector_step (Register now p) pd = ([], register_peer now pd p)"
| "detector_step (Unregister p) pd = ([], unregister_peer pd p)"
| "detector_step (Success now p) pd = (let (e, pd') = record_heartbeat_success now pd p in (case e of Some x \<Rightarrow> [x] | None \<Rightarrow> [], pd'))"
| "detector_step (Failure now p) pd = (let (e, pd') = record_heartbeat_failure now pd p in (case e of Some x \<Rightarrow> [x] | None \<Rightarrow> [], pd'))"
| "detector_step (CheckTimeouts clk) pd = check_timeouts clk pd"

text \<open>A run gives the trace of the calls with their events.\<close>

fun detector_run ::
  "'p detector_call list \<Rightarrow> 'p PartitionDetector \<Rightarrow> ('p detector_call \<times> 'p PartitionEvent list) list \<times> 'p PartitionDetector" where
  "detector_run [] pd = ([], pd)"
| "detector_run (c # cs) pd =
     (let (es, pd') = detector_step c pd; (tr, pd'') = detector_run cs pd' in ((c, es) # tr, pd''))"

text \<open>
  The events about a peer since it was last unregistered.  No event marks the removal of a
  peer: the subscriber has to forget the peer when it unregisters it.
\<close>

fun removes :: "'p \<Rightarrow> 'p detector_call \<Rightarrow> bool" where
  "removes p (Unregister q) = (p = q)"
| "removes p _ = False"

fun since_removal ::
  "'p \<Rightarrow> ('p detector_call \<times> 'p PartitionEvent list) list \<Rightarrow> 'p PartitionEvent list \<Rightarrow> 'p PartitionEvent list" where
  "since_removal p [] seen = seen"
| "since_removal p ((c, es) # tr) seen =
     since_removal p tr ((if removes p c then [] else seen) @ events_about p es)"

text \<open>A heartbeat is consistent when it has a detection time exactly while it is partitioned.\<close>

definition heartbeat_ok :: "PeerHeartbeat \<Rightarrow> bool" where
  "heartbeat_ok hb \<longleftrightarrow> (hb_state hb = Partitioned \<longleftrightarrow> partition_detected_at hb \<noteq> None)"

lemma follow_all_append: "follow_all (xs @ ys) s = Option.bind (follow_all xs s) (follow_all ys)"
  by (induction xs arbitrary: s) (auto split: bind_splits)

lemma events_about_append [simp]: "events_about p (xs @ ys) = events_about p xs @ events_about p ys"
  by (simp add: events_about_def)

lemma events_about_idem [simp]: "events_about p (events_about p es) = events_about p es"
  by (simp add: events_about_def)

lemmas detector_defs = register_peer_def unregister_peer_def record_heartbeat_success_def record_heartbeat_failure_def
  hb_record_success_def hb_record_failure_def check_entry_def heartbeat_new_def hm_contains_def events_about_def Let_def

lemma check_timeouts_get:
  "hm_get (heartbeats (snd (check_timeouts clk pd))) p
     = map_option (\<lambda>hb. snd (check_entry clk (pd_config pd) (p, hb))) (hm_get (heartbeats pd) p)"
proof -
  have "map_of (map (\<lambda>e. (fst e, snd (check_entry clk cfg e))) m) p
          = map_option (\<lambda>hb. snd (check_entry clk cfg (p, hb))) (map_of m p)" for m cfg
    by (induction m) auto
  then show ?thesis by (simp add: check_timeouts_def comp_def case_prod_beta Let_def)
qed

lemma check_timeouts_events:
  assumes "hm_wf (heartbeats pd)" and "hm_get (heartbeats pd) p = Some hb"
  shows "events_about p (fst (check_timeouts clk pd)) = fst (check_entry clk (pd_config pd) (p, hb))"
proof -
  have own: "filter (\<lambda>e. event_peer e = p) (fst (check_entry clk cfg (q, h)))
               = (if q = p then fst (check_entry clk cfg (q, h)) else [])" for cfg q h
    by (simp add: check_entry_def)
  have none: "p \<notin> fst ` set m \<Longrightarrow> filter (\<lambda>e. event_peer e = p) (concat (map (\<lambda>e. fst (check_entry clk cfg e)) m)) = []" for m cfg
    by (induction m) (auto simp: own)
  have "distinct (map fst m) \<Longrightarrow> map_of m p = Some hb \<Longrightarrow>
        filter (\<lambda>e. event_peer e = p) (concat (map (\<lambda>e. fst (check_entry clk cfg e)) m)) = fst (check_entry clk cfg (p, hb))" for m cfg
    by (induction m) (auto simp: own none split: if_splits)
  then show ?thesis using assms by (simp add: events_about_def check_timeouts_def comp_def Let_def hm_wf_def)
qed

lemma detector_step_wf:
  assumes "hm_wf (heartbeats pd)" shows "hm_wf (heartbeats (snd (detector_step c pd)))"
proof (cases c)
  case (CheckTimeouts clk)
  then show ?thesis using assms by (simp add: check_timeouts_def hm_wf_def comp_def case_prod_beta Let_def)
qed (use assms in \<open>auto simp: detector_defs split: option.splits prod.splits\<close>)

lemma detector_step_follows:
  assumes "hm_wf (heartbeats pd)" and "hm_get (heartbeats pd) p = Some hb" and "heartbeat_ok hb"
    and "\<not> removes p c"
  shows "\<exists>hb'. hm_get (heartbeats (snd (detector_step c pd))) p = Some hb' \<and> heartbeat_ok hb'
           \<and> follow_all (events_about p (fst (detector_step c pd))) (hb_state hb) = Some (hb_state hb')"
proof (cases c)
  case (CheckTimeouts clk)
  then show ?thesis
    using assms check_timeouts_events [OF assms(1,2), of clk]
    by (simp add: check_timeouts_get) (simp add: check_entry_def heartbeat_ok_def)
next
  case (Register t q)
  then show ?thesis using assms by (auto simp: detector_defs)
next
  case (Unregister q)
  then show ?thesis using assms by (auto simp: detector_defs)
next
  case (Success t q)
  then show ?thesis using assms
    by (cases "q = p"; cases "hm_get (heartbeats pd) q"; cases "hb_state hb")
      (auto simp: detector_defs heartbeat_ok_def split: option.splits)
next
  case (Failure t q)
  then show ?thesis using assms
    by (cases "q = p"; cases "hm_get (heartbeats pd) q"; cases "hb_state hb")
      (auto simp: detector_defs heartbeat_ok_def split: option.splits)
qed

text \<open>What the events since its last removal say of a peer, known or not.\<close>

definition followed :: "'p \<Rightarrow> 'p PartitionEvent list \<Rightarrow> 'p PartitionDetector \<Rightarrow> bool" where
  "followed p es pd =
     (case hm_get (heartbeats pd) p of
        None \<Rightarrow> es = []
      | Some hb \<Rightarrow> heartbeat_ok hb \<and> follow_all es Connected = Some (hb_state hb))"

lemma unknown_peer_step:
  assumes "hm_get (heartbeats pd) p = None"
  shows "events_about p (fst (detector_step c pd)) = []
         \<and> (hm_get (heartbeats (snd (detector_step c pd))) p = None
            \<or> (\<exists>t. hm_get (heartbeats (snd (detector_step c pd))) p = Some (heartbeat_new t)))"
proof (cases c)
  case (CheckTimeouts clk)
  have "p \<notin> fst ` set (heartbeats pd)" using assms by (simp add: map_of_eq_None_iff)
  then have "events_about p (fst (check_timeouts clk pd)) = []"
    by (force simp: check_timeouts_def events_about_def check_entry_def Let_def filter_empty_conv split: if_splits)
  then show ?thesis using assms CheckTimeouts by (simp add: check_timeouts_get)
qed (use assms in \<open>auto simp: detector_defs split: option.splits prod.splits\<close>)

lemma followed_step:
  assumes "hm_wf (heartbeats pd)" and "followed p es pd"
  shows "followed p ((if removes p c then [] else es) @ events_about p (fst (detector_step c pd)))
           (snd (detector_step c pd))"
proof (cases "removes p c")
  case True
  then have "c = Unregister p"
    by (cases c) simp_all
  then show ?thesis
    by (simp add: followed_def unregister_peer_def events_about_def)
next
  case stays: False
  show ?thesis
  proof (cases "hm_get (heartbeats pd) p")
    case None
    then show ?thesis
      using assms stays unknown_peer_step [OF None, of c]
      by (auto simp: followed_def heartbeat_new_def heartbeat_ok_def)
  next
    case (Some hb)
    then have ok: "heartbeat_ok hb" and f: "follow_all es Connected = Some (hb_state hb)"
      using assms(2) by (simp_all add: followed_def)
    from detector_step_follows [OF assms(1) Some ok stays] f stays
    show ?thesis by (auto simp: followed_def follow_all_append)
  qed
qed

lemma detector_run_followed:
  assumes "hm_wf (heartbeats pd)" and "followed p es pd"
  shows "followed p (since_removal p (fst (detector_run cs pd)) es) (snd (detector_run cs pd))"
  using assms
proof (induction cs arbitrary: es pd)
  case (Cons c cs)
  from Cons.IH [OF detector_step_wf [OF Cons.prems(1)] followed_step [OF Cons.prems]]
  show ?case by (simp add: Let_def case_prod_beta)
qed simp

text \<open>Failures in a row, each with its own clock reading.\<close>

fun fail_run :: "u64 \<Rightarrow> 'p \<Rightarrow> int list \<Rightarrow> PeerHeartbeat \<Rightarrow> PeerHeartbeat" where
  "fail_run th p [] hb = hb"
| "fail_run th p (t # ts) hb = fail_run th p ts (snd (hb_record_failure t hb p th))"

lemma fail_run_counts:
  assumes "unat (hb_failures hb) + length ts < 2 ^ 64"
    and "hb_state hb = Partitioned \<longleftrightarrow> th \<le> hb_failures hb" and "hb_state hb \<noteq> Recovering"
  shows "hb_failures (fail_run th p ts hb) = hb_failures hb + word_of_nat (length ts)
         \<and> (hb_state (fail_run th p ts hb) = Partitioned \<longleftrightarrow> unat th \<le> unat (hb_failures hb) + length ts)"
  using assms
proof (induction ts arbitrary: hb)
  case Nil
  then show ?case by (simp add: word_le_nat_alt)
next
  case (Cons t ts)
  let ?hb = "snd (hb_record_failure t hb p th)"
  have suc: "unat (hb_failures hb + 1) = Suc (unat (hb_failures hb))"
    using Cons.prems(1) by (simp add: unat_word_ariths)
  have f: "hb_failures ?hb = hb_failures hb + 1"
    by (simp add: hb_record_failure_def Let_def)
  have s: "hb_state ?hb = Partitioned \<longleftrightarrow> th \<le> hb_failures ?hb" "hb_state ?hb \<noteq> Recovering"
    using Cons.prems(2,3) suc unfolding word_le_nat_alt by (auto simp: hb_record_failure_def Let_def word_le_nat_alt)
  show ?case using Cons.IH [of ?hb, OF _ s] Cons.prems(1) by (simp add: f suc)
qed

text \<open>
  C13.  Partition events tell the truth.  Take any calls on a fresh detector: peers
  registered and unregistered, heartbeats that succeed and fail, and checks for
  time-outs.  A subscriber that takes a peer as connected when it appears, moves it along
  its events and forgets it when it unregisters it never meets an event out of place, and
  ends with the state the detector holds.  A peer has no events before it is registered
  and none after it is unregistered.  A peer has a detection time exactly
  while it is partitioned.  A newly registered peer is declared partitioned by
  heartbeat failures in a row exactly from the configured number on.
\<close>

theorem partition_events_followed:
  assumes "0 < th" and "length ts < 2 ^ 64" and "detector_run cs (detector_with_config cfg) = (tr, pd)"
  shows "(case hm_get (heartbeats pd) p of
            None \<Rightarrow> since_removal p tr [] = []
          | Some hb \<Rightarrow> (hb_state hb = Partitioned \<longleftrightarrow> partition_detected_at hb \<noteq> None)
              \<and> follow_all (since_removal p tr []) Connected = Some (hb_state hb))
         \<and> (hb_state (fail_run th p ts (heartbeat_new t0)) = Partitioned \<longleftrightarrow> unat th \<le> length ts)"
proof -
  have "hm_wf (heartbeats (detector_with_config cfg))" "followed p [] (detector_with_config cfg)"
    by (simp_all add: detector_with_config_def followed_def)
  from detector_run_followed [OF this, of cs] have "followed p (since_removal p tr []) pd"
    by (simp add: assms(3))
  then show ?thesis
    using fail_run_counts [of "heartbeat_new t0" ts th p] assms(1,2)
    by (auto simp: followed_def heartbeat_ok_def heartbeat_new_def split: option.splits)
qed

theorem partition_events_followed_witness:
  "let cs = [Register 0 (7 :: nat), Failure 1 7, Unregister 7, Success 2 7, Register 3 7,
             CheckTimeouts (\<lambda>_. (2 * 10 ^ 10, 2 * 10 ^ 10)), Success (3 * 10 ^ 10) 7];
       run = detector_run cs (detector_with_config partition_config_default)
   in hb_state (fail_run 3 (7 :: nat) [1, 2, 3] (heartbeat_new 0)) = Partitioned
      \<and> map snd (fst run)
         = [[], [HeartbeatFailure 7 1], [], [], [], [PartitionDetected 7 0], [PartitionHealed 7 (10 ^ 10)]]
      \<and> get_peer_state (snd run) 7 = Some Recovering
      \<and> follow_all (since_removal 7 (fst run) []) Connected = Some Recovering"
proof -
  let ?cs = "[Register 0 (7 :: nat), Failure 1 7, Unregister 7, Success 2 7, Register 3 7,
      CheckTimeouts (\<lambda>_. (2 * 10 ^ 10, 2 * 10 ^ 10)), Success (3 * 10 ^ 10) 7]"
  obtain tr pd where run: "detector_run ?cs (detector_with_config partition_config_default) = (tr, pd)"
    by fastforce
  have eval: "map snd tr = [[], [HeartbeatFailure 7 1], [], [], [], [PartitionDetected 7 0], [PartitionHealed 7 (10 ^ 10)]]
      \<and> (\<exists>hb. hm_get (heartbeats pd) 7 = Some hb \<and> hb_state hb = Recovering)"
    using run
    by (auto simp: detector_with_config_def partition_config_default_def register_peer_def unregister_peer_def
        hm_contains_def check_timeouts_def check_entry_def heartbeat_new_def is_timeout_def duration_since_def
        record_heartbeat_success_def record_heartbeat_failure_def hb_record_success_def hb_record_failure_def Let_def
        word_le_nat_alt)
  have "(0 :: u64) < 3" and "length [1, 2, 3 :: int] < 2 ^ 64" by simp_all
  from partition_events_followed [OF this run, of 7 0] eval run
  show ?thesis by (auto simp: Let_def get_peer_state_def)
qed

end
