(* ===== verification/Ttl_Manager.thy ===== *)
theory Ttl_Manager
  imports Automerge_Store
begin

text \<open>
  Document expiry: the configuration of \<^verbatim>\<open>src/storage/ttl.rs\<close> and the manager of
  \<^verbatim>\<open>src/storage/ttl_manager.rs\<close>.  The manager's B-tree from expiry instants to keys
  is a list in the order of its instants.  The store the manager shares is an
  argument of the operations that delete from it.
\<close>

section \<open>Configuration\<close>

datatype EvictionStrategy = OldestFirst | StoragePressure u8 | KeepLastN nat | NoEviction

record OfflineRetentionPolicy =
  online_ttl :: duration
  offline_ttl :: duration
  keep_last_n :: nat

record TtlConfig =
  tombstone_ttl_hours :: u32
  tombstone_reaping_enabled :: bool
  days_between_reaping :: u32
  beacon_ttl :: duration
  position_ttl :: duration
  capability_ttl :: duration
  evict_strategy :: EvictionStrategy
  offline_policy :: "OfflineRetentionPolicy option"

definition ttl_config_new :: TtlConfig where
  "ttl_config_new =
     \<lparr>tombstone_ttl_hours = 168, tombstone_reaping_enabled = True, days_between_reaping = 1,
      beacon_ttl = from_secs 600, position_ttl = from_secs 600, capability_ttl = from_secs 7200,
      evict_strategy = NoEviction, offline_policy = None\<rparr>"

definition ttl_config_tactical :: TtlConfig where
  "ttl_config_tactical =
     \<lparr>tombstone_ttl_hours = 168, tombstone_reaping_enabled = True, days_between_reaping = 1,
      beacon_ttl = from_secs 300, position_ttl = from_secs 600, capability_ttl = from_secs 7200,
      evict_strategy = OldestFirst,
      offline_policy = Some \<lparr>online_ttl = from_secs 600, offline_ttl = from_secs 60, keep_last_n = 10\<rparr>\<rparr>"

definition ttl_config_long_duration :: TtlConfig where
  "ttl_config_long_duration =
     \<lparr>tombstone_ttl_hours = 168, tombstone_reaping_enabled = True, days_between_reaping = 1,
      beacon_ttl = from_secs 600, position_ttl = from_secs 3600, capability_ttl = from_secs 172800,
      evict_strategy = StoragePressure 80, offline_policy = None\<rparr>"

definition ttl_config_offline_node :: TtlConfig where
  "ttl_config_offline_node =
     \<lparr>tombstone_ttl_hours = 72, tombstone_reaping_enabled = True, days_between_reaping = 1,
      beacon_ttl = from_secs 30, position_ttl = from_secs 60, capability_ttl = from_secs 300,
      evict_strategy = KeepLastN 10,
      offline_policy = Some \<lparr>online_ttl = from_secs 300, offline_ttl = from_secs 30, keep_last_n = 5\<rparr>\<rparr>"

definition get_collection_ttl :: "TtlConfig \<Rightarrow> string \<Rightarrow> duration option" where
  "get_collection_ttl cfg c =
     (if c = ''beacons'' then Some (beacon_ttl cfg)
      else if c = ''node_positions'' then Some (position_ttl cfg)
      else if c = ''capabilities'' then Some (capability_ttl cfg)
      else if c = ''hierarchical_commands'' then None
      else if c = ''cells'' then Some (from_secs 3600)
      else None)"

section \<open>The manager\<close>

record TtlManager =
  ttl_cfg :: TtlConfig
  expiry_map :: "(instant \<times> string list) list"

definition ttl_manager_new :: "TtlConfig \<Rightarrow> TtlManager" where
  "ttl_manager_new cfg = \<lparr>ttl_cfg = cfg, expiry_map = []\<rparr>"

text \<open>\<^verbatim>\<open>entry(t).or_default().push(k)\<close> on the B-tree.\<close>

fun bt_push :: "instant \<Rightarrow> string \<Rightarrow> (instant \<times> string list) list \<Rightarrow> (instant \<times> string list) list" where
  "bt_push t k [] = [(t, [k])]"
| "bt_push t k ((t', ks) # m) =
     (if t < t' then (t, [k]) # (t', ks) # m
      else if t = t' then (t', ks @ [k]) # m
      else (t', ks) # bt_push t k m)"

definition set_ttl :: "instant \<Rightarrow> TtlManager \<Rightarrow> string \<Rightarrow> duration \<Rightarrow> TtlManager" where
  "set_ttl now mgr key d = mgr\<lparr>expiry_map := bt_push (now + d) key (expiry_map mgr)\<rparr>"

definition schedule :: "(instant \<times> string list) list \<Rightarrow> (instant \<times> string) list" where
  "schedule m = concat (map (\<lambda>(t, ks). map (Pair t) ks) m)"

text \<open>The part of the B-tree up to the last instant that is not after \<open>now\<close>, and the part that is kept.\<close>

definition take_expired :: "instant \<Rightarrow> (instant \<times> string list) list
    \<Rightarrow> (instant \<times> string) list \<times> (instant \<times> string list) list" where
  "take_expired now m =
     (let upto = filter (\<lambda>(t, _). t \<le> now) m;
          split_key = (if upto = [] then now else fst (last upto))
      in (schedule (filter (\<lambda>(t, _). t \<le> split_key) m), filter (\<lambda>(t, _). now < t) m))"

definition slash_collection :: "string \<Rightarrow> string" where
  "slash_collection k = takeWhile (\<lambda>ch. ch \<noteq> CHR ''/'') k"

text \<open>The groups of \<^verbatim>\<open>KeepLastN\<close>, in the order in which their collections first appear.\<close>

definition by_collection :: "(instant \<times> string) list \<Rightarrow> (string \<times> (instant \<times> string) list) list" where
  "by_collection es =
     map (\<lambda>c. (c, filter (\<lambda>(_, k). slash_collection k = c) es)) (remdups (map (slash_collection \<circ> snd) es))"

definition newest_first :: "(instant \<times> string) list \<Rightarrow> (instant \<times> string) list" where
  "newest_first es = sort_key (\<lambda>(t, _). - int t) es"

definition apply_eviction_strategy :: "EvictionStrategy \<Rightarrow> (instant \<times> string) list \<Rightarrow> string list" where
  "apply_eviction_strategy st es =
     (case st of
        OldestFirst \<Rightarrow> map snd (sort_key fst es)
      | KeepLastN n \<Rightarrow> concat (map (\<lambda>(_, g). map snd (drop n (newest_first g))) (by_collection es))
      | StoragePressure _ \<Rightarrow> map snd es
      | NoEviction \<Rightarrow> map snd es)"

fun delete_loop ::
  "('t, 'c, 'd, 'e) store_env \<Rightarrow> string list \<Rightarrow> nat \<Rightarrow> ('t, 'c) AutomergeStore
     \<Rightarrow> ('e + nat) \<times> ('t, 'c) AutomergeStore" where
  "delete_loop env [] n s = (Inr n, s)"
| "delete_loop env (k # ks) n s =
     (case store_delete env s k of
        Inl e \<Rightarrow> (Inl e, s)
      | Inr s' \<Rightarrow> delete_loop env ks (Suc n) s')"

definition cleanup_expired ::
  "('t, 'c, 'd, 'e) store_env \<Rightarrow> instant \<Rightarrow> TtlManager \<Rightarrow> ('t, 'c) AutomergeStore
     \<Rightarrow> ('e + nat) \<times> TtlManager \<times> ('t, 'c) AutomergeStore" where
  "cleanup_expired env now mgr s =
     (let (expired, rest) = take_expired now (expiry_map mgr);
          keys = apply_eviction_strategy (evict_strategy (ttl_cfg mgr)) expired;
          (r, s') = delete_loop env keys 0 s
      in (r, mgr\<lparr>expiry_map := rest\<rparr>, s'))"

text \<open>One round of the background task: every expired key, whatever the strategy; errors are printed.\<close>

definition background_round ::
  "('t, 'c, 'd, 'e) store_env \<Rightarrow> instant \<Rightarrow> TtlManager \<Rightarrow> ('t, 'c) AutomergeStore
     \<Rightarrow> TtlManager \<times> ('t, 'c) AutomergeStore" where
  "background_round env now mgr s =
     (let (expired, rest) = take_expired now (expiry_map mgr)
      in (mgr\<lparr>expiry_map := rest\<rparr>,
          fold (\<lambda>(_, k) s. case store_delete env s k of Inl e \<Rightarrow> s | Inr s' \<Rightarrow> s') expired s))"

definition pending_count :: "TtlManager \<Rightarrow> nat" where
  "pending_count mgr = sum_list (map (\<lambda>(_, ks). length ks) (expiry_map mgr))"

text \<open>
  \<^verbatim>\<open>AutomergeStore::put_with_ttl\<close>: the collection of a key ends at its first slash
  or colon.
\<close>

definition key_prefix :: "string \<Rightarrow> string" where
  "key_prefix k = takeWhile (\<lambda>ch. ch \<noteq> CHR ''/'' \<and> ch \<noteq> CHR '':'') k"

definition put_with_ttl ::
  "('t, 'c, 'd, 'e) store_env \<Rightarrow> instant \<Rightarrow> ('t, 'c) AutomergeStore \<Rightarrow> string \<Rightarrow> 'd \<Rightarrow> TtlManager
     \<Rightarrow> 'e + ('t, 'c) AutomergeStore \<times> TtlManager" where
  "put_with_ttl env now s key doc mgr =
     rbind (store_put env s key doc) (\<lambda>s'.
     Inr (s', case get_collection_ttl (ttl_cfg mgr) (key_prefix key) of
                Some d \<Rightarrow> set_ttl now mgr key d
              | None \<Rightarrow> mgr))"

section \<open>What a clean-up removes\<close>

lemma schedule_Nil [simp]: "schedule [] = []"
  by (simp add: schedule_def)

lemma schedule_Cons [simp]: "schedule ((t, ks) # m) = map (Pair t) ks @ schedule m"
  by (simp add: schedule_def)

lemma set_schedule_bt_push: "set (schedule (bt_push t k m)) = insert (t, k) (set (schedule m))"
  by (induction t k m rule: bt_push.induct) auto

lemma set_bt_push_keys: "fst ` set (bt_push t k m) = insert t (fst ` set m)"
  by (induction t k m rule: bt_push.induct) auto

lemma sorted_bt_push: "sorted_wrt (<) (map fst m) \<Longrightarrow> sorted_wrt (<) (map fst (bt_push t k m))"
proof (induction t k m rule: bt_push.induct)
  case (2 t k t' ks m)
  have "\<forall>x \<in> fst ` set (bt_push t k m). t' < x" if "t' < t"
    using 2(2) that by (auto simp: set_bt_push_keys)
  then show ?case using 2 by fastforce
qed simp

lemma mem_schedule: "(t, k) \<in> set (schedule m) \<longleftrightarrow> (\<exists>ks. (t, ks) \<in> set m \<and> k \<in> set ks)"
  by (induction m) (auto split: prod.splits)

lemma last_filter_ge:
  assumes "sorted_wrt (<) (map fst m)" and "(t :: nat, ks) \<in> set m" and "P t"
  shows "filter (\<lambda>(t, _). P t) m \<noteq> [] \<and> t \<le> fst (last (filter (\<lambda>(t, _). P t) m))"
  using assms
proof (induction m)
  case (Cons x m)
  then show ?case
  proof (cases "(t, ks) \<in> set m")
    case False
    then have x: "x = (t, ks)" using Cons.prems(2) by simp
    have "\<forall>y \<in> set (filter (\<lambda>(t, _). P t) m). t < fst y"
      using Cons.prems(1) x by auto
    then have "filter (\<lambda>(t, _). P t) m \<noteq> [] \<Longrightarrow> t < fst (last (filter (\<lambda>(t, _). P t) m))"
      using last_in_set by blast
    then show ?thesis using x Cons.prems(3) by (auto simp: less_imp_le)
  qed (auto simp: Cons.IH Cons.prems)
qed simp

lemma take_expired_spec:
  assumes "sorted_wrt (<) (map fst m)"
  shows "set (fst (take_expired now m)) = {(t, k) \<in> set (schedule m). t \<le> now}
         \<and> set (schedule (snd (take_expired now m))) = {(t, k) \<in> set (schedule m). now < t}"
proof -
  let ?u = "filter (\<lambda>(t, _). t \<le> now) m"
  let ?sk = "if ?u = [] then now else fst (last ?u)"
  have "?u \<noteq> [] \<Longrightarrow> fst (last ?u) \<le> now"
    using last_in_set [of ?u] by (auto split: prod.splits)
  then have "t \<le> ?sk \<longleftrightarrow> t \<le> now" if "(t, ks) \<in> set m" for t ks
    using last_filter_ge [OF assms that, of "\<lambda>t. t \<le> now"] by (auto split: if_splits)
  then have "filter (\<lambda>(t, _). t \<le> ?sk) m = ?u" by (auto intro!: filter_cong)
  then show ?thesis by (auto simp: take_expired_def Let_def mem_schedule)
qed

lemma apply_strategy_subset: "set (apply_eviction_strategy st es) \<subseteq> snd ` set es"
  by (cases st) (auto simp: apply_eviction_strategy_def by_collection_def newest_first_def dest!: in_set_dropD)

lemma apply_strategy_all:
  "(\<forall>n. st \<noteq> KeepLastN n) \<Longrightarrow> set (apply_eviction_strategy st es) = snd ` set es"
  by (cases st) (auto simp: apply_eviction_strategy_def image_iff)

context automerge_env
begin

lemma delete_loop_law:
  assumes "store_inv s" and "delete_loop env ks n s = (Inr r, s')"
  shows "store_inv s' \<and> r = n + length ks \<and> tomb s' = tomb s
         \<and> (\<forall>k. docs s' k = (if k \<in> set ks then None else docs s k))"
  using assms
proof (induction ks arbitrary: n s)
  case (Cons k ks)
  obtain s1 where s1: "store_delete env s k = Inr s1" and rest: "delete_loop env ks (Suc n) s1 = (Inr r, s')"
    using Cons.prems(2) by (cases "store_delete env s k") auto
  note law = store_delete_law [OF Cons.prems(1) s1]
  from Cons.IH [OF _ rest] law show ?case by auto
qed simp

lemma cleanup_expired_law:
  assumes "store_inv s" and "sorted_wrt (<) (map fst (expiry_map mgr))"
    and "cleanup_expired env now mgr s = (Inr n, mgr', s')"
  shows "let keys = apply_eviction_strategy (evict_strategy (ttl_cfg mgr)) (fst (take_expired now (expiry_map mgr)))
         in store_inv s' \<and> tomb s' = tomb s \<and> n = length keys
            \<and> (\<forall>k. docs s' k = (if k \<in> set keys then None else docs s k))
            \<and> set (schedule (expiry_map mgr')) = {(t, k) \<in> set (schedule (expiry_map mgr)). now < t}"
proof -
  let ?keys = "apply_eviction_strategy (evict_strategy (ttl_cfg mgr)) (fst (take_expired now (expiry_map mgr)))"
  have dl: "delete_loop env ?keys 0 s = (Inr n, s')" and mgr': "expiry_map mgr' = snd (take_expired now (expiry_map mgr))"
    using assms(3) by (auto simp: cleanup_expired_def Let_def case_prod_beta prod_eq_iff)
  from delete_loop_law [OF assms(1) dl] take_expired_spec [OF assms(2), of now] mgr'
  show ?thesis by (simp add: Let_def)
qed

end

section \<open>Expiry end to end\<close>

definition set_ttls :: "(instant \<times> string \<times> duration) list \<Rightarrow> TtlManager \<Rightarrow> TtlManager" where
  "set_ttls calls mgr = fold (\<lambda>(t, k, d) mgr. set_ttl t mgr k d) calls mgr"

lemma set_ttls_schedule:
  assumes "sorted_wrt (<) (map fst (expiry_map mgr))"
  shows "sorted_wrt (<) (map fst (expiry_map (set_ttls calls mgr)))
         \<and> set (schedule (expiry_map (set_ttls calls mgr)))
             = (\<lambda>(t, k, d). (t + d, k)) ` set calls \<union> set (schedule (expiry_map mgr))
         \<and> ttl_cfg (set_ttls calls mgr) = ttl_cfg mgr"
  using assms
proof (induction calls arbitrary: mgr)
  case (Cons c calls)
  obtain t k d where c: "c = (t, k, d)" by (cases c) auto
  have "sorted_wrt (<) (map fst (expiry_map (set_ttl t mgr k d)))"
    using Cons.prems by (simp add: set_ttl_def sorted_bt_push)
  from Cons.IH [OF this] show ?case
    by (auto simp: set_ttls_def c set_ttl_def set_schedule_bt_push)
qed (simp add: set_ttls_def)

lemma due_keys:
  "snd ` {(t, k) \<in> (\<lambda>(t, k, d). (t + d, k)) ` C. t \<le> (now :: nat)} = {k. \<exists>t d. (t, k, d) \<in> C \<and> t + d \<le> now}"
proof (rule set_eqI)
  fix k
  show "k \<in> snd ` {(t, k) \<in> (\<lambda>(t, k, d). (t + d, k)) ` C. t \<le> now} \<longleftrightarrow> k \<in> {k. \<exists>t d. (t, k, d) \<in> C \<and> t + d \<le> now}"
    by (simp add: image_iff Bex_def) blast
qed

lemma later_entries:
  "{(t, k) \<in> (\<lambda>(t, k, d). (t + d, k)) ` C. (now :: nat) < t} = {(t + d, k) | t k d. (t, k, d) \<in> C \<and> now < t + d}"
  by (simp add: image_iff Bex_def set_eq_iff) blast

text \<open>
  C40.  A successful clean-up deletes exactly what expired.  Take any expiries
  set on a fresh manager whose strategy is not \<open>KeepLastN\<close>, and a clean-up that
  meets no storage error.  A document is gone afterwards if some expiry set for
  it was due, and untouched otherwise; tombstones are untouched; and exactly the
  expiries not yet due stay scheduled.  In particular setting an expiry again
  does not postpone an earlier one.
\<close>

theorem ttl_cleanup_exact:
  assumes env: "automerge_env env cont cached" and inv: "automerge_env.store_inv env cont cached s"
    and strategy: "\<forall>n. evict_strategy cfg \<noteq> KeepLastN n"
    and run: "cleanup_expired env now (set_ttls calls (ttl_manager_new cfg)) s = (Inr n, mgr', s')"
  shows "automerge_env.store_inv env cont cached s'
     \<and> automerge_env.tomb env cont s' = automerge_env.tomb env cont s
     \<and> (\<forall>k. automerge_env.docs env cont cached s' k
             = (if \<exists>t d. (t, k, d) \<in> set calls \<and> t + d \<le> now then None
                else automerge_env.docs env cont cached s k))
     \<and> set (schedule (expiry_map mgr')) = {(t + d, k) | t k d. (t, k, d) \<in> set calls \<and> now < t + d}"
proof -
  let ?mgr = "set_ttls calls (ttl_manager_new cfg)"
  have sched: "sorted_wrt (<) (map fst (expiry_map ?mgr))" "ttl_cfg ?mgr = cfg"
    and mem: "set (schedule (expiry_map ?mgr)) = (\<lambda>(t, k, d). (t + d, k)) ` set calls"
    using set_ttls_schedule [of "ttl_manager_new cfg" calls] by (simp_all add: ttl_manager_new_def)
  let ?ex = "fst (take_expired now (expiry_map ?mgr))"
  have keys: "set (apply_eviction_strategy (evict_strategy cfg) ?ex) = {k. \<exists>t d. (t, k, d) \<in> set calls \<and> t + d \<le> now}"
    using apply_strategy_all [OF strategy, of ?ex] take_expired_spec [OF sched(1), of now]
    by (simp only: mem due_keys)
  have left: "{(t, k) \<in> set (schedule (expiry_map ?mgr)). now < t}
                = {(t + d, k) | t k d. (t, k, d) \<in> set calls \<and> now < t + d}"
    by (simp only: mem later_entries)
  show ?thesis
    using automerge_env.cleanup_expired_law [OF env inv sched(1) run]
    unfolding Let_def sched(2) keys left by auto
qed

theorem ttl_cleanup_exact_witness:
  "\<exists>n mgr' s'. cleanup_expired reference_env 100
       (set_ttls [(0, ''nodes:d1'', 50), (90, ''nodes:d1'', 50)] (ttl_manager_new ttl_config_new)) reference_deleted
         = (Inr n, mgr', s')
     \<and> ref.docs s' ''nodes:d1'' = None \<and> set (schedule (expiry_map mgr')) = {(140, ''nodes:d1'')}"
proof -
  let ?mgr = "set_ttls [(0, ''nodes:d1'', 50), (90, ''nodes:d1'', 50)] (ttl_manager_new ttl_config_new)"
  have st: "\<forall>n. evict_strategy ttl_config_new \<noteq> KeepLastN n" by (simp add: ttl_config_new_def)
  have "\<exists>n. fst (delete_loop reference_env ks m s) = Inr n" for ks m s
    by (induction ks arbitrary: m s) (auto simp: store_delete_def reference_env_def split: option.splits)
  then obtain n where n: "fst (delete_loop reference_env
      (apply_eviction_strategy (evict_strategy (ttl_cfg ?mgr)) (fst (take_expired 100 (expiry_map ?mgr)))) 0 reference_deleted) = Inr n"
    by blast
  obtain mgr' s' where run: "cleanup_expired reference_env 100 ?mgr reference_deleted = (Inr n, mgr', s')"
    by (simp add: cleanup_expired_def Let_def case_prod_beta n)
  note law = ttl_cleanup_exact [OF ref.automerge_env_axioms reference_deleted_inv st run]
  have "\<exists>t d. (t, ''nodes:d1'', d) \<in> set [(0, ''nodes:d1'', 50), (90, ''nodes:d1'', 50)] \<and> t + d \<le> (100 :: nat)"
    by (intro exI [of _ 0] exI [of _ 50]) simp
  then have "ref.docs s' ''nodes:d1'' = None"
    using law [THEN conjunct2, THEN conjunct2, THEN conjunct1, rule_format, of "''nodes:d1''"] by (simp only: if_True)
  moreover have "{(t + d, k) | t k d. (t, k, d) \<in> set [(0, ''nodes:d1'', 50), (90, ''nodes:d1'', 50)] \<and> (100 :: nat) < t + d}
                   = {(140, ''nodes:d1'')}"
    by force
  ultimately show ?thesis using run law by auto
qed

end
