(* ===== verification/Sync_Coordinator.thy ===== *)
theory Sync_Coordinator
  imports Sync_Wire Circuit_Breaker Flow_Control Ttl_Manager "HOL-Library.Product_Lexorder"
begin

text \<open>
  The sync coordinator of \<^verbatim>\<open>src/storage/automerge_sync.rs\<close>: outgoing syncs behind
  the circuit breaker and flow control, the handlers of incoming messages with
  the tombstone guard, tombstone propagation, batches and hierarchical routing.

  Automerge and its sync protocol are a record of functions, beside the
  libraries of the store.  What a call reads from its surroundings (clock
  readings, the connected peers, the answer of the network to each frame, the
  answer of the bandwidth allocation) is a record too.  Frames that were sent
  are logged in the state.  An \<^verbatim>\<open>anyhow\<close> error is its message.  The coordinator has
  no channel manager attached, so every frame opens a stream.
\<close>

section \<open>Surroundings and state\<close>

record ('d, 'm, 'y) sync_lib =
  doc_new :: 'd
  doc_merge :: "'d \<Rightarrow> 'd \<Rightarrow> string + 'd"
  gen_msg :: "'d \<Rightarrow> 'y \<Rightarrow> 'm option \<times> 'y"
  recv_msg :: "'d \<Rightarrow> 'y \<Rightarrow> 'm \<Rightarrow> string + 'd \<times> 'y"
  msg_enc :: "'m \<Rightarrow> byte list"
  msg_dec :: "byte list \<Rightarrow> 'm option"
  state_new :: 'y
  state_converged :: "'y \<Rightarrow> 'y"

record ('p, 'f) world =
  w_now :: int
  w_fail :: int
  w_check :: int
  w_instant :: instant
  w_bucket :: instant
  w_refill :: instant
  w_cooldown :: instant
  w_peers :: "'p list"
  w_send :: "'p \<Rightarrow> byte list \<Rightarrow> string + unit"
  w_bandwidth :: "(QoSClass \<Rightarrow> nat \<Rightarrow> bool) option"
  w_delay :: "'f RetryPolicy \<Rightarrow> u32 \<Rightarrow> duration"
  w_transient :: "'f RetryPolicy"
  w_severe :: "'f RetryPolicy"

record PeerSyncStats =
  bytes_sent :: u64
  bytes_received :: u64
  sync_count :: u64
  stat_last_sync :: "int option"
  failure_count :: u64
  latest_only_count :: u64
  full_history_count :: u64
  windowed_count :: u64

definition peer_stats_default :: PeerSyncStats where
  "peer_stats_default =
     \<lparr>bytes_sent = 0, bytes_received = 0, sync_count = 0, stat_last_sync = None, failure_count = 0,
      latest_only_count = 0, full_history_count = 0, windowed_count = 0\<rparr>"

record ('t, 'c, 'p, 'y, 'f) Coordinator =
  co_store :: "('t, 'c) AutomergeStore"
  peer_states :: "(string, ('p, 'y) hmap) hmap"
  peer_stats :: "('p, PeerSyncStats) hmap"
  total_bytes_sent :: u64
  total_bytes_received :: u64
  error_handler :: "('p, 'f) SyncErrorHandler"
  flow_controller :: "'p FlowController"
  sync_mode_registry :: SyncModeRegistry
  next_batch_id :: u64
  sync_router :: "(SyncDirection \<Rightarrow> 'p list \<Rightarrow> 'p list) option"
  ttl_manager :: "TtlManager option"
  outbox :: "('p \<times> byte list) list"

definition with_flow_control ::
  "'f \<Rightarrow> 'f \<Rightarrow> ('t, 'c) AutomergeStore \<Rightarrow> FlowControlConfig \<Rightarrow> ('t, 'c, 'p, 'y, 'f) Coordinator" where
  "with_flow_control f2_0 f0_1 s cfg =
     \<lparr>co_store = s, peer_states = [], peer_stats = [], total_bytes_sent = 0, total_bytes_received = 0,
      error_handler = handler_with_policies (retry_default f2_0 f0_1) circuit_config_default,
      flow_controller = flow_with_config cfg, sync_mode_registry = sync_registry_with_defaults,
      next_batch_id = 1, sync_router = None, ttl_manager = None, outbox = []\<rparr>"

type_synonym ('e, 'a, 's) outcome = "('e + 'a) \<times> 's"

definition obind :: "('e, 'a, 's) outcome \<Rightarrow> ('a \<Rightarrow> 's \<Rightarrow> ('e, 'b, 's) outcome) \<Rightarrow> ('e, 'b, 's) outcome" where
  "obind m f = (case m of (Inl e, s) \<Rightarrow> (Inl e, s) | (Inr a, s) \<Rightarrow> f a s)"

section \<open>Statistics, sync states and sending\<close>

definition update_stats :: "'p \<Rightarrow> (PeerSyncStats \<Rightarrow> PeerSyncStats)
    \<Rightarrow> ('t, 'c, 'p, 'y, 'f) Coordinator \<Rightarrow> ('t, 'c, 'p, 'y, 'f) Coordinator" where
  "update_stats peer f co =
     co\<lparr>peer_stats := hm_insert peer (f (hm_get_or peer_stats_default (peer_stats co) peer)) (peer_stats co)\<rparr>"

definition count_sent ::
  "int \<Rightarrow> 'p \<Rightarrow> nat \<Rightarrow> nat \<Rightarrow> ('t, 'c, 'p, 'y, 'f) Coordinator \<Rightarrow> ('t, 'c, 'p, 'y, 'f) Coordinator" where
  "count_sent now peer bytes syncs co =
     update_stats peer (\<lambda>st. st\<lparr>bytes_sent := bytes_sent st + word_of_nat bytes,
         sync_count := sync_count st + word_of_nat syncs, stat_last_sync := Some now\<rparr>)
       (co\<lparr>total_bytes_sent := total_bytes_sent co + word_of_nat bytes\<rparr>)"

definition count_received ::
  "int \<Rightarrow> 'p \<Rightarrow> nat \<Rightarrow> nat \<Rightarrow> ('t, 'c, 'p, 'y, 'f) Coordinator \<Rightarrow> ('t, 'c, 'p, 'y, 'f) Coordinator" where
  "count_received now peer bytes syncs co =
     update_stats peer (\<lambda>st. st\<lparr>bytes_received := bytes_received st + word_of_nat bytes,
         sync_count := sync_count st + word_of_nat syncs, stat_last_sync := Some now\<rparr>)
       (co\<lparr>total_bytes_received := total_bytes_received co + word_of_nat bytes\<rparr>)"

definition get_or_create_sync_state ::
  "('d, 'm, 'y) sync_lib \<Rightarrow> string \<Rightarrow> 'p \<Rightarrow> ('t, 'c, 'p, 'y, 'f) Coordinator \<Rightarrow> 'y \<times> ('t, 'c, 'p, 'y, 'f) Coordinator" where
  "get_or_create_sync_state lib key peer co =
     (let inner = hm_get_or [] (peer_states co) key; st = hm_get_or (state_new lib) inner peer
      in (st, co\<lparr>peer_states := hm_insert key (hm_insert peer st inner) (peer_states co)\<rparr>))"

definition update_sync_state ::
  "string \<Rightarrow> 'p \<Rightarrow> 'y \<Rightarrow> ('t, 'c, 'p, 'y, 'f) Coordinator \<Rightarrow> ('t, 'c, 'p, 'y, 'f) Coordinator" where
  "update_sync_state key peer st co =
     co\<lparr>peer_states := hm_insert key (hm_insert peer st (hm_get_or [] (peer_states co) key)) (peer_states co)\<rparr>"

definition clear_sync_state_for_document ::
  "string \<Rightarrow> ('t, 'c, 'p, 'y, 'f) Coordinator \<Rightarrow> ('t, 'c, 'p, 'y, 'f) Coordinator" where
  "clear_sync_state_for_document key co = co\<lparr>peer_states := hm_remove key (peer_states co)\<rparr>"

definition clear_peer_sync_state ::
  "'p \<Rightarrow> ('t, 'c, 'p, 'y, 'f) Coordinator \<Rightarrow> ('t, 'c, 'p, 'y, 'f) Coordinator" where
  "clear_peer_sync_state peer co =
     co\<lparr>peer_states := map (\<lambda>(key, m). (key, hm_remove peer m)) (peer_states co)\<rparr>"

definition sync_state_of :: "('t, 'c, 'p, 'y, 'f) Coordinator \<Rightarrow> string \<Rightarrow> 'p \<Rightarrow> 'y option" where
  "sync_state_of co key peer = hm_get (hm_get_or [] (peer_states co) key) peer"

text \<open>
  Opening a stream, writing the frame and counting it; a failure leaves no trace.  A frame is
  sent or not: one whose writing breaks off is not, whatever part of it left the node.
\<close>

definition transmit ::
  "('p, 'f) world \<Rightarrow> 'p \<Rightarrow> byte list \<Rightarrow> nat \<Rightarrow> ('t, 'c, 'p, 'y, 'f) Coordinator
     \<Rightarrow> (string, unit, ('t, 'c, 'p, 'y, 'f) Coordinator) outcome" where
  "transmit w peer frame syncs co =
     (case w_send w peer frame of
        Inl e \<Rightarrow> (Inl e, co)
      | Inr _ \<Rightarrow> (Inr (), count_sent (w_now w) peer (length frame) syncs
                          (co\<lparr>outbox := outbox co @ [(peer, frame)]\<rparr>)))"

definition send_state_snapshot ::
  "('p, 'f) world \<Rightarrow> 'p \<Rightarrow> string \<Rightarrow> byte list \<Rightarrow> ('t, 'c, 'p, 'y, 'f) Coordinator
     \<Rightarrow> (string, unit, ('t, 'c, 'p, 'y, 'f) Coordinator) outcome" where
  "send_state_snapshot w peer key bytes = transmit w peer (snapshot_message key bytes) 1"

definition send_sync_message_for_doc ::
  "('d, 'm, 'y) sync_lib \<Rightarrow> ('p, 'f) world \<Rightarrow> 'p \<Rightarrow> string \<Rightarrow> 'm \<Rightarrow> ('t, 'c, 'p, 'y, 'f) Coordinator
     \<Rightarrow> (string, unit, ('t, 'c, 'p, 'y, 'f) Coordinator) outcome" where
  "send_sync_message_for_doc lib w peer key m = transmit w peer (delta_message (msg_enc lib) key m) 1"

definition send_batch_message ::
  "('p, 'f) world \<Rightarrow> 'p \<Rightarrow> SyncBatch \<Rightarrow> ('t, 'c, 'p, 'y, 'f) Coordinator
     \<Rightarrow> (string, unit, ('t, 'c, 'p, 'y, 'f) Coordinator) outcome" where
  "send_batch_message w peer b co =
     (case batch_message b of
        None \<Rightarrow> (Inr (), co)
      | Some frame \<Rightarrow> transmit w peer frame (length (entries b)) co)"

definition send_tombstones_to_peer ::
  "('t, 'c, 'd, string) store_env \<Rightarrow> ('p, 'f) world \<Rightarrow> 'p \<Rightarrow> ('t, 'c, 'p, 'y, 'f) Coordinator
     \<Rightarrow> (string, unit, ('t, 'c, 'p, 'y, 'f) Coordinator) outcome" where
  "send_tombstones_to_peer env w peer co =
     (case get_all_tombstones env (co_store co) of
        Inl e \<Rightarrow> (Inl e, co)
      | Inr ts \<Rightarrow> (case tombstones_message ts of
                    None \<Rightarrow> (Inr (), co)
                  | Some frame \<Rightarrow> transmit w peer frame 1 co))"

definition sync_tombstones_with_peer ::
  "('t, 'c, 'd, string) store_env \<Rightarrow> ('p, 'f) world \<Rightarrow> 'p \<Rightarrow> ('t, 'c, 'p, 'y, 'f) Coordinator
     \<Rightarrow> ('t, 'c, 'p, 'y, 'f) Coordinator" where
  "sync_tombstones_with_peer env w peer co = snd (send_tombstones_to_peer env w peer co)"

text \<open>A single tombstone counts bytes only.\<close>

definition send_single_tombstone_to_peer ::
  "('p, 'f) world \<Rightarrow> 'p \<Rightarrow> TombstoneSyncMessage \<Rightarrow> ('t, 'c, 'p, 'y, 'f) Coordinator
     \<Rightarrow> (string, unit, ('t, 'c, 'p, 'y, 'f) Coordinator) outcome" where
  "send_single_tombstone_to_peer w peer m co =
     (let frame = single_tombstone_message m
      in case w_send w peer frame of
           Inl e \<Rightarrow> (Inl e, co)
         | Inr _ \<Rightarrow> (Inr (), update_stats peer (\<lambda>st. st\<lparr>bytes_sent := bytes_sent st + word_of_nat (length frame)\<rparr>)
               (co\<lparr>outbox := outbox co @ [(peer, frame)],
                   total_bytes_sent := total_bytes_sent co + word_of_nat (length frame)\<rparr>)))"

definition coord_put_with_ttl ::
  "('t, 'c, 'd, string) store_env \<Rightarrow> ('p, 'f) world \<Rightarrow> string \<Rightarrow> 'd \<Rightarrow> ('t, 'c, 'p, 'y, 'f) Coordinator
     \<Rightarrow> (string, unit, ('t, 'c, 'p, 'y, 'f) Coordinator) outcome" where
  "coord_put_with_ttl env w key doc co =
     (case ttl_manager co of
        Some mgr \<Rightarrow>
          (case put_with_ttl env (w_instant w) (co_store co) key doc mgr of
             Inl e \<Rightarrow> (Inl e, co)
           | Inr (s', mgr') \<Rightarrow> (Inr (), co\<lparr>co_store := s', ttl_manager := Some mgr'\<rparr>))
      | None \<Rightarrow>
          (case store_put env (co_store co) key doc of
             Inl e \<Rightarrow> (Inl e, co)
           | Inr s' \<Rightarrow> (Inr (), co\<lparr>co_store := s'\<rparr>)))"

definition coord_get ::
  "('t, 'c, 'd, string) store_env \<Rightarrow> string \<Rightarrow> ('t, 'c, 'p, 'y, 'f) Coordinator
     \<Rightarrow> (string, 'd option, ('t, 'c, 'p, 'y, 'f) Coordinator) outcome" where
  "coord_get env key co =
     (case store_get env (co_store co) key of
        (Inl e, s') \<Rightarrow> (Inl e, co\<lparr>co_store := s'\<rparr>)
      | (Inr r, s') \<Rightarrow> (Inr r, co\<lparr>co_store := s'\<rparr>))"

definition sync_mode_for_doc :: "('t, 'c, 'p, 'y, 'f) Coordinator \<Rightarrow> string \<Rightarrow> SyncMode" where
  "sync_mode_for_doc co key = sync_registry_get (sync_mode_registry co) (collection_from_doc_key key)"

section \<open>Outgoing syncs\<close>

definition contains :: "string \<Rightarrow> string \<Rightarrow> bool" where
  "contains s needle \<longleftrightarrow> sublist needle s"

fun qos_display :: "QoSClass \<Rightarrow> string" where
  "qos_display Critical = ''P1:Critical''"
| "qos_display High = ''P2:High''"
| "qos_display Normal = ''P3:Normal''"
| "qos_display Low = ''P4:Low''"
| "qos_display Bulk = ''P5:Bulk''"

definition initiate_delta_sync ::
  "('d, 'm, 'y) sync_lib \<Rightarrow> ('p, 'f) world \<Rightarrow> string \<Rightarrow> 'p \<Rightarrow> 'd \<Rightarrow> ('t, 'c, 'p, 'y, 'f) Coordinator
     \<Rightarrow> (string, unit, ('t, 'c, 'p, 'y, 'f) Coordinator) outcome" where
  "initiate_delta_sync lib w key peer doc co =
     (let (st, co1) = get_or_create_sync_state lib key peer co;
          (m, st') = gen_msg lib doc st
      in case m of
           None \<Rightarrow> (Inl ''No initial sync message to send'', co1)
         | Some msg \<Rightarrow>
             obind (send_sync_message_for_doc lib w peer key msg co1) (\<lambda>_ co2.
             (Inr (), update_sync_state key peer st' co2)))"

definition bandwidth_refused :: "('p, 'f) world \<Rightarrow> string \<Rightarrow> nat \<Rightarrow> bool" where
  "bandwidth_refused w key n =
     (case w_bandwidth w of
        Some acquire \<Rightarrow> \<not> acquire (qos_for_collection (collection_from_doc_key key)) n
      | None \<Rightarrow> False)"

definition initiate_sync_inner ::
  "('t, 'c, 'd, string) store_env \<Rightarrow> ('d, 'm, 'y) sync_lib \<Rightarrow> ('p, 'f) world \<Rightarrow> string \<Rightarrow> 'p \<Rightarrow> ('t, 'c, 'p, 'y, 'f) Coordinator
     \<Rightarrow> (string, unit, ('t, 'c, 'p, 'y, 'f) Coordinator) outcome" where
  "initiate_sync_inner env lib w key peer co =
     (let mode = sync_mode_for_doc co key in
      obind (coord_get env key co) (\<lambda>found co1.
      case found of
        None \<Rightarrow> (Inl ''Document not found for sync'', co1)
      | Some doc \<Rightarrow>
          let bytes = am_save env doc in
          if bandwidth_refused w key (length bytes)
          then (Inl (''Bandwidth exhausted for '' @ qos_display (qos_for_collection (collection_from_doc_key key))), co1)
          else
            (case mode of
               LatestOnly \<Rightarrow>
                 obind (send_state_snapshot w peer key bytes co1) (\<lambda>_ co2.
                 (Inr (), update_stats peer (\<lambda>st. st\<lparr>latest_only_count := latest_only_count st + 1\<rparr>) co2))
             | WindowedHistory _ \<Rightarrow>
                 obind (send_state_snapshot w peer key bytes co1) (\<lambda>_ co2.
                 (Inr (), update_stats peer (\<lambda>st. st\<lparr>windowed_count := windowed_count st + 1\<rparr>) co2))
             | FullHistory \<Rightarrow>
                 (let (r, co2) = initiate_delta_sync lib w key peer doc co1
                  in (r, update_stats peer (\<lambda>st. st\<lparr>full_history_count := full_history_count st + 1\<rparr>) co2)))))"

datatype coord_error = CircuitOpen | FlowBlocked "FlowControlError failure" | SyncFailed string | ClockPanic

definition sync_error_of :: "string \<Rightarrow> SyncError" where
  "sync_error_of e =
     (if contains e ''connection'' \<or> contains e ''network'' then Network e
      else if contains e ''document'' \<or> contains e ''CRDT'' then Document e
      else Protocol e)"

definition batch_error_of :: "string \<Rightarrow> SyncError" where
  "batch_error_of e =
     (if contains e ''connection'' \<or> contains e ''network'' then Network e else Protocol e)"

definition report_error ::
  "('p, 'f) world \<Rightarrow> 'p \<Rightarrow> SyncError \<Rightarrow> ('t, 'c, 'p, 'y, 'f) Coordinator \<Rightarrow> ('t, 'c, 'p, 'y, 'f) Coordinator" where
  "report_error w peer e co =
     co\<lparr>error_handler := snd (handle_error (w_delay w) (w_transient w) (w_severe w) (w_fail w) (w_check w)
                               (error_handler co) peer e)\<rparr>"

definition initiate_sync ::
  "('t, 'c, 'd, string) store_env \<Rightarrow> ('d, 'm, 'y) sync_lib \<Rightarrow> ('p, 'f) world \<Rightarrow> string \<Rightarrow> 'p \<Rightarrow> ('t, 'c, 'p, 'y, 'f) Coordinator
     \<Rightarrow> (coord_error, unit, ('t, 'c, 'p, 'y, 'f) Coordinator) outcome" where
  "initiate_sync env lib w key peer co =
     (if is_circuit_open (error_handler co) peer then (Inl CircuitOpen, co)
      else
        let (allowed, fc) = check_sync_allowed (w_bucket w) (w_refill w) (w_cooldown w) (flow_controller co) peer key;
            co1 = co\<lparr>flow_controller := fc\<rparr>
        in case allowed of
             Inl f \<Rightarrow> (Inl (FlowBlocked f), co1)
           | Inr _ \<Rightarrow>
               (case initiate_sync_inner env lib w key peer co1 of
                  (Inr _, co2) \<Rightarrow>
                    (Inr (), co2\<lparr>error_handler := handler_record_success (error_handler co2) peer,
                                flow_controller := flow_record_sync (w_instant w) (flow_controller co2) peer key\<rparr>)
                | (Inl e, co2) \<Rightarrow> (Inl (SyncFailed e), report_error w peer (sync_error_of e) co2)))"

definition sync_document_with_all_peers ::
  "('t, 'c, 'd, string) store_env \<Rightarrow> ('d, 'm, 'y) sync_lib \<Rightarrow> ('p, 'f) world \<Rightarrow> string \<Rightarrow> ('t, 'c, 'p, 'y, 'f) Coordinator \<Rightarrow> ('t, 'c, 'p, 'y, 'f) Coordinator" where
  "sync_document_with_all_peers env lib w key co =
     fold (\<lambda>peer co. snd (initiate_sync env lib w key peer co)) (w_peers w) (clear_sync_state_for_document key co)"

text \<open>The order of an initial sync: by priority class, snapshots before deltas within a class.\<close>

definition sync_rank :: "('t, 'c, 'p, 'y, 'f) Coordinator \<Rightarrow> string \<Rightarrow> u8 \<times> nat" where
  "sync_rank co key =
     (as_u8 (qos_for_collection (collection_from_doc_key key)),
      case sync_mode_for_doc co key of FullHistory \<Rightarrow> 1 | _ \<Rightarrow> 0)"

definition sync_order :: "('t, 'c, 'p, 'y, 'f) Coordinator \<Rightarrow> string list \<Rightarrow> string list" where
  "sync_order co keys = sort_key (sync_rank co) keys"

definition sync_all_documents_with_peer ::
  "('t, 'c, 'd, string) store_env \<Rightarrow> ('d, 'm, 'y) sync_lib \<Rightarrow> ('p, 'f) world \<Rightarrow> 'p \<Rightarrow> ('t, 'c, 'p, 'y, 'f) Coordinator
     \<Rightarrow> (string, unit, ('t, 'c, 'p, 'y, 'f) Coordinator) outcome" where
  "sync_all_documents_with_peer env lib w peer co =
     (case scan_prefix env (co_store co) [] of
        Inl e \<Rightarrow> (Inl e, co)
      | Inr docs \<Rightarrow>
          (Inr (), fold (\<lambda>key co. snd (initiate_sync env lib w key peer co)) (sync_order co (map fst docs)) co))"

section \<open>Batches\<close>

fun fill_batch ::
  "('t, 'c, 'd, string) store_env \<Rightarrow> ('d, 'm, 'y) sync_lib \<Rightarrow> string list \<Rightarrow> SyncBatch \<Rightarrow> ('t, 'c, 'p, 'y, 'f) Coordinator
     \<Rightarrow> (string, SyncBatch, ('t, 'c, 'p, 'y, 'f) Coordinator) outcome" where
  "fill_batch env lib [] b co = (Inr b, co)"
| "fill_batch env lib (key # keys) b co =
     obind (coord_get env key co) (\<lambda>found co1.
     case found of
       None \<Rightarrow> fill_batch env lib keys b co1
     | Some doc \<Rightarrow>
         (case sync_mode_for_doc co1 key of
            FullHistory \<Rightarrow>
              (case fst (gen_msg lib doc (state_new lib)) of
                 Some m \<Rightarrow> fill_batch env lib keys (add_delta (msg_enc lib) key m b) co1
               | None \<Rightarrow> fill_batch env lib keys b co1)
          | _ \<Rightarrow> fill_batch env lib keys (add_snapshot key (am_save env doc) b) co1))"

definition create_batch_for_documents ::
  "('t, 'c, 'd, string) store_env \<Rightarrow> ('d, 'm, 'y) sync_lib \<Rightarrow> ('p, 'f) world \<Rightarrow> string list \<Rightarrow> ('t, 'c, 'p, 'y, 'f) Coordinator
     \<Rightarrow> (coord_error, SyncBatch, ('t, 'c, 'p, 'y, 'f) Coordinator) outcome" where
  "create_batch_for_documents env lib w keys co =
     (let i = next_batch_id co; co1 = co\<lparr>next_batch_id := i + 1\<rparr>
      in case sync_batch_with_id (w_now w) i of
           Inl _ \<Rightarrow> (Inl ClockPanic, co1)
         | Inr b \<Rightarrow>
             (case fill_batch env lib keys b co1 of
                (Inl e, co2) \<Rightarrow> (Inl (SyncFailed e), co2)
              | (Inr b', co2) \<Rightarrow> (Inr b', co2)))"

definition sync_documents_batch ::
  "('t, 'c, 'd, string) store_env \<Rightarrow> ('d, 'm, 'y) sync_lib \<Rightarrow> ('p, 'f) world \<Rightarrow> string list \<Rightarrow> 'p \<Rightarrow> ('t, 'c, 'p, 'y, 'f) Coordinator
     \<Rightarrow> (coord_error, unit, ('t, 'c, 'p, 'y, 'f) Coordinator) outcome" where
  "sync_documents_batch env lib w keys peer co =
     (if is_circuit_open (error_handler co) peer then (Inl CircuitOpen, co)
      else
        obind (create_batch_for_documents env lib w keys (fold clear_sync_state_for_document keys co)) (\<lambda>b co1.
        if entries b = [] then (Inr (), co1)
        else
          (case send_batch_message w peer b co1 of
             (Inr _, co2) \<Rightarrow>
               (Inr (), co2\<lparr>error_handler := handler_record_success (error_handler co2) peer,
                           flow_controller := fold (\<lambda>key fc. flow_record_sync (w_instant w) fc peer key) keys
                                                (flow_controller co2)\<rparr>)
           | (Inl e, co2) \<Rightarrow> (Inl (SyncFailed e), report_error w peer (batch_error_of e) co2))))"

definition sync_documents_batch_with_all_peers ::
  "('t, 'c, 'd, string) store_env \<Rightarrow> ('d, 'm, 'y) sync_lib \<Rightarrow> ('p, 'f) world \<Rightarrow> string list \<Rightarrow> ('t, 'c, 'p, 'y, 'f) Coordinator \<Rightarrow> ('t, 'c, 'p, 'y, 'f) Coordinator" where
  "sync_documents_batch_with_all_peers env lib w keys co =
     fold (\<lambda>peer co. snd (sync_documents_batch env lib w keys peer co)) (w_peers w)
       (fold clear_sync_state_for_document keys co)"

definition get_sync_targets :: "('p, 'f) world \<Rightarrow> ('t, 'c, 'p, 'y, 'f) Coordinator \<Rightarrow> SyncDirection \<Rightarrow> 'p list" where
  "get_sync_targets w co dir =
     (case sync_router co of None \<Rightarrow> w_peers w | Some targets \<Rightarrow> targets dir (w_peers w))"

definition send_batch_to_peers :: "('p, 'f) world \<Rightarrow> SyncBatch \<Rightarrow> 'p list \<Rightarrow> ('t, 'c, 'p, 'y, 'f) Coordinator \<Rightarrow> ('t, 'c, 'p, 'y, 'f) Coordinator" where
  "send_batch_to_peers w b peers co = fold (\<lambda>peer co. snd (send_batch_message w peer b co)) peers co"

definition broadcast_batch :: "('p, 'f) world \<Rightarrow> SyncBatch \<Rightarrow> ('t, 'c, 'p, 'y, 'f) Coordinator \<Rightarrow> ('t, 'c, 'p, 'y, 'f) Coordinator" where
  "broadcast_batch w b co = send_batch_to_peers w b (w_peers w) co"

text \<open>One direction of a routed batch: nothing for no entries, else a new batch to the direction's targets.\<close>

definition route_direction ::
  "('p, 'f) world \<Rightarrow> SyncBatch \<Rightarrow> SyncDirection \<Rightarrow> ('t, 'c, 'p, 'y, 'f) Coordinator \<Rightarrow> (coord_error, unit, ('t, 'c, 'p, 'y, 'f) Coordinator) outcome" where
  "route_direction w b dir co =
     (let es = filter (\<lambda>e. from_doc_key (doc_key e) = dir) (entries b)
      in if es = [] then (Inr (), co)
         else case sync_batch_with_entries (w_now w) es of
                Inl _ \<Rightarrow> (Inl ClockPanic, co)
              | Inr b' \<Rightarrow> (Inr (), send_batch_to_peers w b' (get_sync_targets w co dir) co))"

definition sync_batch_with_hierarchical_routing ::
  "('p, 'f) world \<Rightarrow> SyncBatch \<Rightarrow> ('t, 'c, 'p, 'y, 'f) Coordinator \<Rightarrow> (coord_error, unit, ('t, 'c, 'p, 'y, 'f) Coordinator) outcome" where
  "sync_batch_with_hierarchical_routing w b co =
     (if sync_router co = None then (Inr (), broadcast_batch w b co)
      else
        obind (route_direction w b SyncUpward co) (\<lambda>_ co1.
        obind (route_direction w b SyncDownward co1) (\<lambda>_ co2.
        obind (route_direction w b SyncLateral co2) (\<lambda>_ co3.
        route_direction w b SyncBroadcast co3))))"

section \<open>Incoming messages\<close>

text \<open>The tombstone guard; a storage error lets the message pass (\<^verbatim>\<open>unwrap_or(false)\<close>).\<close>

definition tombstoned :: "('t, 'c, 'd, string) store_env \<Rightarrow> ('t, 'c, 'p, 'y, 'f) Coordinator \<Rightarrow> string \<Rightarrow> bool" where
  "tombstoned env co key =
     (case key_collection key of
        Some c \<Rightarrow>
          (case has_tombstone env (co_store co) c (drop (Suc (length c)) key) of Inr b \<Rightarrow> b | Inl _ \<Rightarrow> False)
      | None \<Rightarrow> False)"

text \<open>
  The source looks for the tombstone before it takes the lock of the document; here the look
  and the write that follows are one step, so a tombstone that arrives between the two is
  not covered.
\<close>

definition receive_sync_message ::
  "('t, 'c, 'd, string) store_env \<Rightarrow> ('d, 'm, 'y) sync_lib \<Rightarrow> ('p, 'f) world \<Rightarrow> string \<Rightarrow> 'p \<Rightarrow> 'm \<Rightarrow> nat \<Rightarrow> ('t, 'c, 'p, 'y, 'f) Coordinator
     \<Rightarrow> (string, unit, ('t, 'c, 'p, 'y, 'f) Coordinator) outcome" where
  "receive_sync_message env lib w key peer m msg_size co =
     (if tombstoned env co key then (Inr (), co)
      else
        let co1 = update_stats peer (\<lambda>st. st\<lparr>bytes_received := bytes_received st + word_of_nat msg_size\<rparr>)
                    (co\<lparr>total_bytes_received := total_bytes_received co + word_of_nat msg_size\<rparr>)
        in obind (coord_get env key co1) (\<lambda>found co2.
           let doc = (case found of Some d \<Rightarrow> d | None \<Rightarrow> doc_new lib);
               (st, co3) = get_or_create_sync_state lib key peer co2
           in case recv_msg lib doc st m of
                Inl e \<Rightarrow> (Inl e, co3)
              | Inr (doc', st') \<Rightarrow>
                  obind (coord_put_with_ttl env w key doc' co3) (\<lambda>_ co4.
                  case gen_msg lib doc' st' of
                    (Some reply, st'') \<Rightarrow>
                      send_sync_message_for_doc lib w peer key reply (update_sync_state key peer st'' co4)
                  | (None, st'') \<Rightarrow> (Inr (), update_sync_state key peer (state_converged lib st'') co4))))"

definition apply_state_snapshot ::
  "('t, 'c, 'd, string) store_env \<Rightarrow> ('d, 'm, 'y) sync_lib \<Rightarrow> ('p, 'f) world \<Rightarrow> string \<Rightarrow> 'p \<Rightarrow> byte list \<Rightarrow> nat
     \<Rightarrow> ('t, 'c, 'p, 'y, 'f) Coordinator \<Rightarrow> (string, unit, ('t, 'c, 'p, 'y, 'f) Coordinator) outcome" where
  "apply_state_snapshot env lib w key peer bytes msg_size co =
     (if tombstoned env co key then (Inr (), co)
      else
        let co1 = count_received (w_now w) peer msg_size 1 co
        in case am_load env bytes of
             Inl _ \<Rightarrow> (Inl ''Failed to load state snapshot'', co1)
           | Inr received \<Rightarrow>
               (case coord_get env key co1 of
                  (Inr (Some existing), co2) \<Rightarrow>
                    (case doc_merge lib existing received of
                       Inl _ \<Rightarrow> (Inl ''Failed to merge state snapshot'', co2)
                     | Inr merged \<Rightarrow> coord_put_with_ttl env w key merged co2)
                | (Inr None, co2) \<Rightarrow> coord_put_with_ttl env w key received co2
                | (Inl _, co2) \<Rightarrow> coord_put_with_ttl env w key received co2))"

definition apply_tombstone ::
  "('t, 'c, 'd, string) store_env \<Rightarrow> Tombstone \<Rightarrow> ('t, 'c, 'p, 'y, 'f) Coordinator \<Rightarrow> (string, bool, ('t, 'c, 'p, 'y, 'f) Coordinator) outcome" where
  "apply_tombstone env t co =
     (case has_tombstone env (co_store co) (collection t) (document_id t) of
        Inl e \<Rightarrow> (Inl e, co)
      | Inr True \<Rightarrow> (Inr False, co)
      | Inr False \<Rightarrow>
          (case put_tombstone env (co_store co) t of
             Inl e \<Rightarrow> (Inl e, co)
           | Inr s1 \<Rightarrow>
               (let key = joined (collection t) (document_id t)
                in obind (coord_get env key (co\<lparr>co_store := s1\<rparr>)) (\<lambda>found co2.
                   if found \<noteq> None
                   then (case store_delete env (co_store co2) key of
                           Inl e \<Rightarrow> (Inl e, co2)
                         | Inr s2 \<Rightarrow> (Inr True, co2\<lparr>co_store := s2\<rparr>))
                   else (Inr True, co2)))))"

section \<open>Tombstone propagation\<close>

text \<open>The peers a tombstone is sent on to, out of the candidates.\<close>

definition propagation_targets :: "('t, 'c, 'p, 'y, 'f) Coordinator \<Rightarrow> PropagationDirection \<Rightarrow> 'p list \<Rightarrow> 'p list" where
  "propagation_targets co dir peers =
     (case dir of
        SystemWide \<Rightarrow> peers
      | Bidirectional \<Rightarrow> peers
      | UpOnly \<Rightarrow> (case sync_router co of Some targets \<Rightarrow> targets SyncUpward peers | None \<Rightarrow> peers)
      | DownOnly \<Rightarrow> (case sync_router co of Some targets \<Rightarrow> targets SyncDownward peers | None \<Rightarrow> peers))"

definition send_tombstone_to ::
  "('p, 'f) world \<Rightarrow> TombstoneSyncMessage \<Rightarrow> 'p list \<Rightarrow> ('t, 'c, 'p, 'y, 'f) Coordinator \<Rightarrow> ('t, 'c, 'p, 'y, 'f) Coordinator" where
  "send_tombstone_to w m peers co = fold (\<lambda>peer co. snd (send_single_tombstone_to_peer w peer m co)) peers co"

definition propagate_tombstone_to_peers ::
  "('p, 'f) world \<Rightarrow> TombstoneSyncMessage \<Rightarrow> 'p \<Rightarrow> ('t, 'c, 'p, 'y, 'f) Coordinator \<Rightarrow> ('t, 'c, 'p, 'y, 'f) Coordinator" where
  "propagate_tombstone_to_peers w m source co =
     (let target_peers = filter (\<lambda>p. p \<noteq> source) (w_peers w)
      in if target_peers = [] then co
         else send_tombstone_to w m (propagation_targets co (direction m) target_peers) co)"

definition propagate_tombstone_to_all ::
  "('p, 'f) world \<Rightarrow> TombstoneSyncMessage \<Rightarrow> ('t, 'c, 'p, 'y, 'f) Coordinator \<Rightarrow> ('t, 'c, 'p, 'y, 'f) Coordinator" where
  "propagate_tombstone_to_all w m co =
     (if w_peers w = [] then co
      else send_tombstone_to w m (propagation_targets co (direction m) (w_peers w)) co)"

definition handle_incoming_tombstone ::
  "('t, 'c, 'd, string) store_env \<Rightarrow> ('p, 'f) world \<Rightarrow> 'p \<Rightarrow> TombstoneSyncMessage \<Rightarrow> nat \<Rightarrow> ('t, 'c, 'p, 'y, 'f) Coordinator
     \<Rightarrow> (string, unit, ('t, 'c, 'p, 'y, 'f) Coordinator) outcome" where
  "handle_incoming_tombstone env w peer m msg_size co =
     obind (apply_tombstone env (tombstone m) (count_received (w_now w) peer msg_size 1 co)) (\<lambda>applied co1.
     (Inr (), if applied then propagate_tombstone_to_peers w m peer co1 else co1))"

definition handle_incoming_tombstone_batch ::
  "('t, 'c, 'd, string) store_env \<Rightarrow> ('p, 'f) world \<Rightarrow> 'p \<Rightarrow> TombstoneBatch \<Rightarrow> nat \<Rightarrow> ('t, 'c, 'p, 'y, 'f) Coordinator \<Rightarrow> ('t, 'c, 'p, 'y, 'f) Coordinator" where
  "handle_incoming_tombstone_batch env w peer b msg_size co =
     fold (\<lambda>m co. snd (apply_tombstone env (tombstone m) co)) (tombstones b)
       (count_received (w_now w) peer msg_size 1 co)"

text \<open>One entry of a received batch; what fails is logged and skipped.\<close>

definition receive_entry ::
  "('t, 'c, 'd, string) store_env \<Rightarrow> ('d, 'm, 'y) sync_lib \<Rightarrow> ('p, 'f) world \<Rightarrow> 'p \<Rightarrow> SyncEntry \<Rightarrow> ('t, 'c, 'p, 'y, 'f) Coordinator \<Rightarrow> ('t, 'c, 'p, 'y, 'f) Coordinator" where
  "receive_entry env lib w peer e co =
     (let n = length (entry_payload e) in
      case sync_type e of
        DeltaSync \<Rightarrow>
          (case msg_dec lib (entry_payload e) of
             Some m \<Rightarrow> snd (receive_sync_message env lib w (doc_key e) peer m n co)
           | None \<Rightarrow> co)
      | StateSnapshot \<Rightarrow> snd (apply_state_snapshot env lib w (doc_key e) peer (entry_payload e) n co)
      | TombstoneMsg \<Rightarrow>
          (case message_decode (entry_payload e) of
             Inr m \<Rightarrow> snd (handle_incoming_tombstone env w peer m n co)
           | Inl _ \<Rightarrow> co)
      | _ \<Rightarrow> co)"

definition receive_batch_message ::
  "('t, 'c, 'd, string) store_env \<Rightarrow> ('d, 'm, 'y) sync_lib \<Rightarrow> ('p, 'f) world \<Rightarrow> 'p \<Rightarrow> SyncBatch \<Rightarrow> nat \<Rightarrow> ('t, 'c, 'p, 'y, 'f) Coordinator \<Rightarrow> ('t, 'c, 'p, 'y, 'f) Coordinator" where
  "receive_batch_message env lib w peer b total_bytes co =
     fold (receive_entry env lib w peer) (entries b) (count_received (w_now w) peer total_bytes (length (entries b)) co)"

end
