(* ===== verification/Coordinator_Proofs.thy ===== *)
theory Coordinator_Proofs
  imports Sync_Coordinator
begin

text \<open>
  Properties of the coordinator over arbitrary sequences of its calls: what its
  handlers keep true of the store, the life of a circuit, tombstone propagation
  and the retry of a failed sync.
\<close>

section \<open>The calls of a coordinator\<close>

datatype ('p, 'm) coord_call =
  InitiateSync string 'p
| SyncToAll string
| SyncAllDocuments 'p
| SyncBatchTo "string list" 'p
| SyncBatchToAll "string list"
| RouteBatch SyncBatch
| SendTombstones 'p
| PropagateToAll TombstoneSyncMessage
| ReceiveDelta string 'p 'm nat
| ReceiveSnapshot string 'p "byte list" nat
| ReceiveTombstone 'p TombstoneSyncMessage nat
| ReceiveTombstoneBatch 'p TombstoneBatch nat
| ReceiveBatch 'p SyncBatch nat
| ClearDocument string
| ClearPeer 'p

text \<open>Each call comes with its surroundings.\<close>

fun coord_step ::
  "('t, 'c, 'd, string) store_env \<Rightarrow> ('d, 'm, 'y) sync_lib \<Rightarrow> ('p, 'f) world \<times> ('p, 'm) coord_call
     \<Rightarrow> ('t, 'c, 'p, 'y, 'f) Coordinator \<Rightarrow> ('t, 'c, 'p, 'y, 'f) Coordinator" where
  "coord_step env lib (w, InitiateSync key p) co = snd (initiate_sync env lib w key p co)"
| "coord_step env lib (w, SyncToAll key) co = sync_document_with_all_peers env lib w key co"
| "coord_step env lib (w, SyncAllDocuments p) co = snd (sync_all_documents_with_peer env lib w p co)"
| "coord_step env lib (w, SyncBatchTo keys p) co = snd (sync_documents_batch env lib w keys p co)"
| "coord_step env lib (w, SyncBatchToAll keys) co = sync_documents_batch_with_all_peers env lib w keys co"
| "coord_step env lib (w, RouteBatch b) co = snd (sync_batch_with_hierarchical_routing w b co)"
| "coord_step env lib (w, SendTombstones p) co = sync_tombstones_with_peer env w p co"
| "coord_step env lib (w, PropagateToAll m) co = propagate_tombstone_to_all w m co"
| "coord_step env lib (w, ReceiveDelta key p m n) co = snd (receive_sync_message env lib w key p m n co)"
| "coord_step env lib (w, ReceiveSnapshot key p bs n) co = snd (apply_state_snapshot env lib w key p bs n co)"
| "coord_step env lib (w, ReceiveTombstone p m n) co = snd (handle_incoming_tombstone env w p m n co)"
| "coord_step env lib (w, ReceiveTombstoneBatch p b n) co = handle_incoming_tombstone_batch env w p b n co"
| "coord_step env lib (w, ReceiveBatch p b n) co = receive_batch_message env lib w p b n co"
| "coord_step env lib (w, ClearDocument key) co = clear_sync_state_for_document key co"
| "coord_step env lib (w, ClearPeer p) co = clear_peer_sync_state p co"

definition coord_run ::
  "('t, 'c, 'd, string) store_env \<Rightarrow> ('d, 'm, 'y) sync_lib \<Rightarrow> (('p, 'f) world \<times> ('p, 'm) coord_call) list
     \<Rightarrow> ('t, 'c, 'p, 'y, 'f) Coordinator \<Rightarrow> ('t, 'c, 'p, 'y, 'f) Coordinator" where
  "coord_run env lib evs co = fold (coord_step env lib) evs co"

section \<open>What each helper touches\<close>

named_theorems coord_frame "fields a helper leaves alone"

lemma fold_keeps: "(\<And>x s. g (f x s) = g s) \<Longrightarrow> g (fold f xs s) = g s"
  by (induction xs arbitrary: s) simp_all

lemma fold_inv: "(\<And>x s. I s \<Longrightarrow> I (f x s)) \<Longrightarrow> I s \<Longrightarrow> I (fold f xs s)"
  by (induction xs arbitrary: s) simp_all

lemma update_stats_frame [coord_frame, simp]:
  "co_store (update_stats p f co) = co_store co" "error_handler (update_stats p f co) = error_handler co"
  "peer_states (update_stats p f co) = peer_states co" "sync_router (update_stats p f co) = sync_router co"
  "outbox (update_stats p f co) = outbox co"
  by (simp_all add: update_stats_def)

lemma count_frame [coord_frame, simp]:
  "co_store (count_sent t p n k co) = co_store co" "error_handler (count_sent t p n k co) = error_handler co"
  "peer_states (count_sent t p n k co) = peer_states co" "sync_router (count_sent t p n k co) = sync_router co"
  "outbox (count_sent t p n k co) = outbox co"
  "co_store (count_received t p n k co) = co_store co" "error_handler (count_received t p n k co) = error_handler co"
  "peer_states (count_received t p n k co) = peer_states co" "sync_router (count_received t p n k co) = sync_router co"
  "outbox (count_received t p n k co) = outbox co"
  by (simp_all add: count_sent_def count_received_def)

lemma sync_state_frame [coord_frame, simp]:
  "co_store (snd (get_or_create_sync_state lib k p co)) = co_store co"
  "error_handler (snd (get_or_create_sync_state lib k p co)) = error_handler co"
  "co_store (update_sync_state k p st co) = co_store co"
  "error_handler (update_sync_state k p st co) = error_handler co"
  "co_store (clear_sync_state_for_document k co) = co_store co"
  "error_handler (clear_sync_state_for_document k co) = error_handler co"
  "co_store (clear_peer_sync_state p co) = co_store co"
  "error_handler (clear_peer_sync_state p co) = error_handler co"
  by (simp_all add: get_or_create_sync_state_def update_sync_state_def clear_sync_state_for_document_def
      clear_peer_sync_state_def Let_def)

lemma transmit_frame [coord_frame, simp]:
  "co_store (snd (transmit w p fr k co)) = co_store co"
  "error_handler (snd (transmit w p fr k co)) = error_handler co"
  "peer_states (snd (transmit w p fr k co)) = peer_states co"
  "sync_router (snd (transmit w p fr k co)) = sync_router co"
  by (simp_all add: transmit_def split: sum.splits)

lemma send_frame [coord_frame, simp]:
  "co_store (snd (send_state_snapshot w p k b co)) = co_store co"
  "error_handler (snd (send_state_snapshot w p k b co)) = error_handler co"
  "peer_states (snd (send_state_snapshot w p k b co)) = peer_states co"
  "co_store (snd (send_sync_message_for_doc lib w p k m co)) = co_store co"
  "error_handler (snd (send_sync_message_for_doc lib w p k m co)) = error_handler co"
  "peer_states (snd (send_sync_message_for_doc lib w p k m co)) = peer_states co"
  "co_store (snd (send_batch_message w p bt co)) = co_store co"
  "error_handler (snd (send_batch_message w p bt co)) = error_handler co"
  "co_store (snd (send_tombstones_to_peer env w p co)) = co_store co"
  "error_handler (snd (send_tombstones_to_peer env w p co)) = error_handler co"
  "co_store (sync_tombstones_with_peer env w p co) = co_store co"
  "error_handler (sync_tombstones_with_peer env w p co) = error_handler co"
  "co_store (snd (send_single_tombstone_to_peer w p ms co)) = co_store co"
  "error_handler (snd (send_single_tombstone_to_peer w p ms co)) = error_handler co"
  by (simp_all add: send_state_snapshot_def send_sync_message_for_doc_def send_batch_message_def
      send_tombstones_to_peer_def sync_tombstones_with_peer_def send_single_tombstone_to_peer_def Let_def
      split: sum.splits option.splits)

lemma send_many_frame [coord_frame, simp]:
  "co_store (send_batch_to_peers w b ps co) = co_store co"
  "error_handler (send_batch_to_peers w b ps co) = error_handler co"
  "co_store (broadcast_batch w b co) = co_store co"
  "error_handler (broadcast_batch w b co) = error_handler co"
  "co_store (send_tombstone_to w m ps co) = co_store co"
  "error_handler (send_tombstone_to w m ps co) = error_handler co"
  "co_store (propagate_tombstone_to_peers w m p co) = co_store co"
  "error_handler (propagate_tombstone_to_peers w m p co) = error_handler co"
  "co_store (propagate_tombstone_to_all w m co) = co_store co"
  "error_handler (propagate_tombstone_to_all w m co) = error_handler co"
  by (simp_all add: send_batch_to_peers_def broadcast_batch_def send_tombstone_to_def propagate_tombstone_to_peers_def
      propagate_tombstone_to_all_def Let_def fold_keeps [where g = co_store] fold_keeps [where g = error_handler])

lemma obind_snd: "snd (obind m f) = (case m of (Inl e, s) \<Rightarrow> s | (Inr a, s) \<Rightarrow> snd (f a s))"
  by (auto simp: obind_def split: prod.splits sum.splits)

lemma obind_inv:
  assumes "I (snd m)" and "\<And>a s. m = (Inr a, s) \<Longrightarrow> I s \<Longrightarrow> I (snd (f a s))"
  shows "I (snd (obind m f))"
  using assms by (cases m; cases "fst m") (auto simp: obind_def)

lemma route_direction_frame [coord_frame, simp]:
  "co_store (snd (route_direction w b d co)) = co_store co"
  "error_handler (snd (route_direction w b d co)) = error_handler co"
  by (auto simp: route_direction_def Let_def split: sum.splits)

lemma routing_frame [coord_frame, simp]:
  "co_store (snd (sync_batch_with_hierarchical_routing w b co)) = co_store co"
  "error_handler (snd (sync_batch_with_hierarchical_routing w b co)) = error_handler co"
proof -
  show "co_store (snd (sync_batch_with_hierarchical_routing w b co)) = co_store co"
    by (auto simp: sync_batch_with_hierarchical_routing_def intro!: obind_inv [where I = "\<lambda>s. co_store s = co_store co"])
  show "error_handler (snd (sync_batch_with_hierarchical_routing w b co)) = error_handler co"
    by (auto simp: sync_batch_with_hierarchical_routing_def
        intro!: obind_inv [where I = "\<lambda>s. error_handler s = error_handler co"])
qed

lemma initiate_delta_frame [coord_frame, simp]:
  "co_store (snd (initiate_delta_sync lib w k p d co)) = co_store co"
  "error_handler (snd (initiate_delta_sync lib w k p d co)) = error_handler co"
proof -
  let ?g = "snd (get_or_create_sync_state lib k p co)"
  show "co_store (snd (initiate_delta_sync lib w k p d co)) = co_store co"
    by (auto simp: initiate_delta_sync_def Let_def case_prod_beta split: option.splits
        intro!: obind_inv [where I = "\<lambda>s. co_store s = co_store co"])
  show "error_handler (snd (initiate_delta_sync lib w k p d co)) = error_handler co"
    by (auto simp: initiate_delta_sync_def Let_def case_prod_beta split: option.splits
        intro!: obind_inv [where I = "\<lambda>s. error_handler s = error_handler co"])
qed

lemma coord_get_frame [coord_frame, simp]:
  "error_handler (snd (coord_get env k co)) = error_handler co"
  "peer_states (snd (coord_get env k co)) = peer_states co"
  "sync_router (snd (coord_get env k co)) = sync_router co"
  "outbox (snd (coord_get env k co)) = outbox co"
  "co_store (snd (coord_get env k co)) = snd (store_get env (co_store co) k)"
  by (simp_all add: coord_get_def split: prod.splits sum.splits)

lemma coord_put_frame [coord_frame, simp]:
  "error_handler (snd (coord_put_with_ttl env w k d co)) = error_handler co"
  by (simp add: coord_put_with_ttl_def split: option.splits sum.splits prod.splits)

section \<open>Predicates on the store that every call keeps\<close>

text \<open>
  A predicate \<open>P\<close> on the store and a set \<open>K\<close> of keys that must not be written.
  The store operations keep \<open>P\<close> as long as no key of \<open>K\<close> is put, and while \<open>P\<close>
  holds each key of \<open>K\<close> has a tombstone, so that the guard refuses it.
\<close>

locale store_predicate =
  fixes env :: "('t, 'c, 'd, string) store_env"
    and P :: "('t, 'c) AutomergeStore \<Rightarrow> bool"
    and K :: "string set"
  assumes get_keeps: "P s \<Longrightarrow> P (snd (store_get env s k))"
    and put_keeps: "P s \<Longrightarrow> k \<notin> K \<Longrightarrow> store_put env s k x = Inr s' \<Longrightarrow> P s'"
    and tombstone_keeps: "P s \<Longrightarrow> put_tombstone env s t = Inr s' \<Longrightarrow> P s'"
    and delete_keeps: "P s \<Longrightarrow> store_delete env s k = Inr s' \<Longrightarrow> P s'"
    and guarded: "P s \<Longrightarrow> k \<in> K \<Longrightarrow>
          \<exists>c. key_collection k = Some c \<and> has_tombstone env s c (drop (Suc (length c)) k) = Inr True"
begin

lemma coord_get_keeps: "P (co_store co) \<Longrightarrow> P (co_store (snd (coord_get env k co)))"
  by (simp add: get_keeps)

lemma coord_put_keeps:
  "P (co_store co) \<Longrightarrow> k \<notin> K \<Longrightarrow> P (co_store (snd (coord_put_with_ttl env w k x co)))"
  by (auto simp: coord_put_with_ttl_def put_with_ttl_def rbind_eq_Inr dest: put_keeps
      split: option.splits sum.splits prod.splits)

lemma tombstoned_K: "P (co_store co) \<Longrightarrow> k \<in> K \<Longrightarrow> tombstoned env co k"
  using guarded [of "co_store co" k] by (auto simp: tombstoned_def)

lemma initiate_inner_keeps: "P (co_store co) \<Longrightarrow> P (co_store (snd (initiate_sync_inner env lib w k p co)))"
  unfolding initiate_sync_inner_def Let_def
  by (rule obind_inv [where I = "\<lambda>s. P (co_store s)"])
    (auto simp: get_keeps case_prod_beta split: option.splits SyncMode.splits
      intro!: obind_inv [where I = "\<lambda>s. P (co_store s)"])

lemma initiate_sync_keeps: "P (co_store co) \<Longrightarrow> P (co_store (snd (initiate_sync env lib w k p co)))"
  using initiate_inner_keeps [of "co\<lparr>flow_controller := snd (check_sync_allowed (w_bucket w) (w_refill w) (w_cooldown w) (flow_controller co) p k)\<rparr>" lib w k p]
  by (auto simp: initiate_sync_def report_error_def Let_def case_prod_beta split: sum.splits)

lemma fill_batch_keeps: "P (co_store co) \<Longrightarrow> P (co_store (snd (fill_batch env lib ks b co)))"
proof (induction ks arbitrary: b co)
  case (Cons k ks)
  show ?case unfolding fill_batch.simps
    by (rule obind_inv [where I = "\<lambda>s. P (co_store s)"])
      (auto simp: get_keeps Cons split: option.splits SyncMode.splits)
qed simp

lemma clear_documents_store: "co_store (fold clear_sync_state_for_document ks co) = co_store co"
  by (rule fold_keeps) simp

lemma sync_batch_keeps: "P (co_store co) \<Longrightarrow> P (co_store (snd (sync_documents_batch env lib w ks p co)))"
proof -
  assume P: "P (co_store co)"
  let ?co = "fold clear_sync_state_for_document ks co"
  have "P (co_store (snd (create_batch_for_documents env lib w ks ?co)))"
    using fill_batch_keeps [of "?co\<lparr>next_batch_id := next_batch_id ?co + 1\<rparr>" lib ks] P clear_documents_store [of ks co]
    by (auto simp: create_batch_for_documents_def Let_def case_prod_beta split: sum.splits)
  then have "P (co_store (snd (obind (create_batch_for_documents env lib w ks ?co) (\<lambda>b co1.
        if entries b = [] then (Inr (), co1)
        else
          (case send_batch_message w p b co1 of
             (Inr _, co2) \<Rightarrow>
               (Inr (), co2\<lparr>error_handler := handler_record_success (error_handler co2) p,
                           flow_controller := fold (\<lambda>key fc. flow_record_sync (w_instant w) fc p key) ks
                                                (flow_controller co2)\<rparr>)
           | (Inl e, co2) \<Rightarrow> (Inl (SyncFailed e), report_error w p (batch_error_of e) co2))))))"
    by (rule obind_inv [where I = "\<lambda>s. P (co_store s)"])
      (auto simp: report_error_def case_prod_beta split: sum.splits)
  then show ?thesis using P by (simp add: sync_documents_batch_def)
qed

end

context store_predicate
begin

lemma receive_sync_keeps: "P (co_store co) \<Longrightarrow> P (co_store (snd (receive_sync_message env lib w k p m n co)))"
proof (cases "tombstoned env co k")
  case False
  assume P: "P (co_store co)"
  then have k: "k \<notin> K" using False tombstoned_K by blast
  show ?thesis
    unfolding receive_sync_message_def Let_def using False P
    by (auto simp: get_keeps case_prod_beta coord_put_keeps k split: option.splits sum.splits
        intro!: obind_inv [where I = "\<lambda>s. P (co_store s)"])
qed (simp add: receive_sync_message_def)

lemma apply_snapshot_keeps: "P (co_store co) \<Longrightarrow> P (co_store (snd (apply_state_snapshot env lib w k p bs n co)))"
proof (cases "tombstoned env co k")
  case False
  assume P: "P (co_store co)"
  then have k: "k \<notin> K" using False tombstoned_K by blast
  show ?thesis
    unfolding apply_state_snapshot_def Let_def using False P
    by (auto simp: get_keeps case_prod_beta coord_put_keeps k split: option.splits sum.splits)
qed (simp add: apply_state_snapshot_def)

lemma apply_tombstone_keeps: "P (co_store co) \<Longrightarrow> P (co_store (snd (apply_tombstone env t co)))"
  unfolding apply_tombstone_def Let_def
  by (auto simp: get_keeps tombstone_keeps dest: delete_keeps split: sum.splits bool.splits option.splits
      intro!: obind_inv [where I = "\<lambda>s. P (co_store s)"])

lemma incoming_tombstone_keeps:
  "P (co_store co) \<Longrightarrow> P (co_store (snd (handle_incoming_tombstone env w p m n co)))"
  unfolding handle_incoming_tombstone_def
  by (rule obind_inv [where I = "\<lambda>s. P (co_store s)"]) (auto simp: apply_tombstone_keeps)

lemma receive_entry_keeps: "P (co_store co) \<Longrightarrow> P (co_store (receive_entry env lib w p e co))"
  by (auto simp: receive_entry_def Let_def receive_sync_keeps apply_snapshot_keeps incoming_tombstone_keeps
      split: SyncMessageType.splits option.splits sum.splits)

lemma fold_store_keeps:
  assumes "\<And>x co. P (co_store co) \<Longrightarrow> P (co_store (f x co))" and "P (co_store co)"
  shows "P (co_store (fold f xs co))"
  using assms by (rule fold_inv [where I = "\<lambda>s. P (co_store s)"])

lemma coord_step_keeps: "P (co_store co) \<Longrightarrow> P (co_store (coord_step env lib wc co))"
proof (cases wc)
  case (Pair w c)
  assume P: "P (co_store co)"
  show ?thesis unfolding Pair
  proof (cases c)
    case (SyncToAll k)
    then show "P (co_store (coord_step env lib (w, c) co))"
      using P by (simp add: sync_document_with_all_peers_def fold_store_keeps initiate_sync_keeps)
  next
    case (SyncAllDocuments p)
    then show "P (co_store (coord_step env lib (w, c) co))"
      using P by (simp add: sync_all_documents_with_peer_def fold_store_keeps initiate_sync_keeps split: sum.splits)
  next
    case (SyncBatchToAll ks)
    then show "P (co_store (coord_step env lib (w, c) co))"
      using P by (simp add: sync_documents_batch_with_all_peers_def fold_store_keeps sync_batch_keeps clear_documents_store)
  next
    case (ReceiveTombstoneBatch p b n)
    then show "P (co_store (coord_step env lib (w, c) co))"
      using P by (simp add: handle_incoming_tombstone_batch_def fold_store_keeps apply_tombstone_keeps)
  next
    case (ReceiveBatch p b n)
    then show "P (co_store (coord_step env lib (w, c) co))"
      using P by (simp add: receive_batch_message_def fold_store_keeps receive_entry_keeps)
  qed (simp_all add: P initiate_sync_keeps sync_batch_keeps receive_sync_keeps apply_snapshot_keeps
      incoming_tombstone_keeps)
qed

lemma coord_run_keeps: "P (co_store co) \<Longrightarrow> P (co_store (coord_run env lib evs co))"
  unfolding coord_run_def by (rule fold_store_keeps) (rule coord_step_keeps)

end

section \<open>Deleted documents stay deleted\<close>

text \<open>A store whose reads succeed.\<close>

locale readable_env = automerge_env env cont cached
  for env :: "('t, 'c, 'd, string) store_env" and cont and cached +
  assumes readable: "\<exists>v. tbl_get env t k = Inr v"
begin

definition buried :: "string \<Rightarrow> ('t, 'c) AutomergeStore \<Rightarrow> bool" where
  "buried k s \<longleftrightarrow> store_inv s \<and> db s \<noteq> None \<and> key_collection k \<noteq> None \<and> tomb s k \<noteq> None \<and> docs s k = None"

lemma has_tombstone_readable:
  assumes "store_inv s" and "tomb s (joined c d) \<noteq> None"
  shows "has_tombstone env s c d = Inr True"
proof -
  obtain D T b t where db: "db s = Some (D, T)" and b: "cont T (joined c d) = Some b" and t: "tomb_of b = Some t"
    using assms(2) by (auto simp: tomb_def bind_eq_Some_conv split: option.splits prod.splits)
  have "tbl_get env T (joined c d) = Inr (Some b)"
    using readable [of T "joined c d"] tbl_get_law [of T "joined c d"] b by auto
  then show ?thesis using db t by (simp add: has_tombstone_def get_tombstone_def tomb_of_eq_Some)
qed

lemma key_split: "key_collection k = Some c \<Longrightarrow> k = joined c (drop (Suc (length c)) k)"
  using key_collection_joined [of k c] by (auto simp: joined_def)

lemma buried_predicate: "store_predicate env (buried k) {k}"
proof
  fix s k'
  show "buried k s \<Longrightarrow> buried k (snd (store_get env s k'))"
    using store_get_law [of s k'] by (cases "store_get env s k'") (auto simp: buried_def)
next
  fix s k' x s'
  show "buried k s \<Longrightarrow> k' \<notin> {k} \<Longrightarrow> store_put env s k' x = Inr s' \<Longrightarrow> buried k s'"
    using put_inner_law [of s k' x True s'] by (auto simp: buried_def store_put_def)
next
  fix s t s'
  show "buried k s \<Longrightarrow> put_tombstone env s t = Inr s' \<Longrightarrow> buried k s'"
    using put_tombstone_law [of s t s'] by (auto simp: buried_def)
next
  fix s k' s'
  show "buried k s \<Longrightarrow> store_delete env s k' = Inr s' \<Longrightarrow> buried k s'"
    using store_delete_law [of s k' s'] by (auto simp: buried_def)
next
  fix s k'
  assume b: "buried k s" and k': "k' \<in> {k}"
  then obtain c where c: "key_collection k = Some c" by (auto simp: buried_def)
  have "tomb s (joined c (drop (Suc (length c)) k)) \<noteq> None"
    using b key_split [OF c] by (simp add: buried_def)
  then show "\<exists>c. key_collection k' = Some c \<and> has_tombstone env s c (drop (Suc (length c)) k') = Inr True"
    using has_tombstone_readable b c k' by (auto simp: buried_def)
qed

end

sublocale readable_env \<subseteq> buried: store_predicate env "buried k" "{k}" for k
  by (rule buried_predicate)

sublocale readable_env \<subseteq> inv: store_predicate env store_inv "{}"
proof
  fix s k
  show "store_inv s \<Longrightarrow> store_inv (snd (store_get env s k))"
    using store_get_law [of s k] by (cases "store_get env s k") auto
next
  fix s k x s'
  show "store_inv s \<Longrightarrow> k \<notin> {} \<Longrightarrow> store_put env s k x = Inr s' \<Longrightarrow> store_inv s'"
    using put_inner_law [of s k x True s'] by (simp add: store_put_def)
next
  fix s t s'
  show "store_inv s \<Longrightarrow> put_tombstone env s t = Inr s' \<Longrightarrow> store_inv s'"
    using put_tombstone_law [of s t s'] by simp
next
  fix s k s'
  show "store_inv s \<Longrightarrow> store_delete env s k = Inr s' \<Longrightarrow> store_inv s'"
    using store_delete_law [of s k s'] by simp
qed simp

context readable_env
begin

text \<open>A tombstone that was applied leaves its document buried.\<close>

lemma apply_tombstone_buries:
  assumes "store_inv (co_store co)" and "db (co_store co) \<noteq> None" and "CHR '':'' \<notin> set (collection t)"
    and "apply_tombstone env t co = (Inr True, co1)"
  shows "buried (joined (collection t) (document_id t)) (co_store co1)"
proof -
  let ?k = "joined (collection t) (document_id t)"
  obtain s1 where s1: "put_tombstone env (co_store co) t = Inr s1"
    and rest: "obind (coord_get env ?k (co\<lparr>co_store := s1\<rparr>)) (\<lambda>found co2.
                   if found \<noteq> None
                   then (case store_delete env (co_store co2) ?k of
                           Inl e \<Rightarrow> (Inl e, co2)
                         | Inr s2 \<Rightarrow> (Inr True, co2\<lparr>co_store := s2\<rparr>))
                   else (Inr True, co2)) = (Inr True, co1)"
    using assms(4) by (auto simp: apply_tombstone_def Let_def split: sum.splits bool.splits)
  have t1: "store_inv s1" "db s1 \<noteq> None" "tomb s1 ?k \<noteq> None"
    using put_tombstone_law [OF assms(1) s1] assms(2) by (auto simp: tombstone_key_joined)
  obtain r s2 where g: "store_get env s1 ?k = (r, s2)" by (cases "store_get env s1 ?k")
  note t2 = store_get_law [OF t1(1) g]
  obtain v where v: "r = Inr v" using rest g by (cases r) (auto simp: coord_get_def obind_def)
  have k: "key_collection ?k \<noteq> None" using key_collection_joined [of ?k "collection t"] assms(3) by auto
  show ?thesis
  proof (cases v)
    case None
    then have "co_store co1 = s2" using rest g v by (auto simp: coord_get_def obind_def)
    then show ?thesis using t1 t2 v None k by (auto simp: buried_def)
  next
    case (Some x)
    then obtain s3 where s3: "store_delete env s2 ?k = Inr s3" "co_store co1 = s3"
      using rest g v by (auto simp: coord_get_def obind_def split: sum.splits)
    show ?thesis using store_delete_law [OF _ s3(1)] t1 t2 s3(2) k by (auto simp: buried_def)
  qed
qed

end

text \<open>
  C1.  Deleted documents are not resurrected.  On disk, while reads succeed:
  once a tombstone of a colon-free collection was applied, no sequence of calls,
  be it deltas, snapshots and batches from any peers, further tombstones or
  outgoing syncs, brings its document back or loses the tombstone, and the store
  stays consistent.
\<close>

theorem no_resurrection:
  assumes env: "readable_env env cont cached"
    and inv: "automerge_env.store_inv env cont cached (co_store co)" and disk: "db (co_store co) \<noteq> None"
    and colon: "CHR '':'' \<notin> set (collection t)"
    and applied: "apply_tombstone env t co = (Inr True, co1)"
  shows "let s = co_store (coord_run env lib evs co1); k = tombstone_key t in
     automerge_env.docs env cont cached s k = None \<and> automerge_env.tomb env cont s k \<noteq> None
     \<and> automerge_env.store_inv env cont cached s"
  using store_predicate.coord_run_keeps [OF readable_env.buried_predicate [OF env]
      readable_env.apply_tombstone_buries [OF env inv disk colon applied], of lib evs]
  by (simp add: readable_env.buried_def [OF env] tombstone_key_joined)

section \<open>A coordinator on the reference libraries\<close>

interpretation rref: readable_env reference_env DAList.lookup DAList.lookup
  by unfold_locales (simp add: reference_env_def)

text \<open>Documents are numbers; a sync message is a number that replaces the document.\<close>

definition sample_lib :: "(u64, u64, unit) sync_lib" where
  "sample_lib =
     \<lparr>doc_new = 0, doc_merge = (\<lambda>a b. Inr (max a b)), gen_msg = (\<lambda>d y. (Some d, y)), recv_msg = (\<lambda>d y m. Inr (m, y)),
      msg_enc = (\<lambda>m. be_bytes 8 (unat m)), msg_dec = (\<lambda>b. if length b = 8 then Some (word_of_nat (be_val b)) else None),
      state_new = (), state_converged = id\<rparr>"

text \<open>Two connected peers; \<open>up\<close> says whether frames are delivered.\<close>

definition sample_world :: "bool \<Rightarrow> (nat, unit) world" where
  "sample_world up =
     \<lparr>w_now = 0, w_fail = 0, w_check = 0, w_instant = 0, w_bucket = 0, w_refill = 0, w_cooldown = 0, w_peers = [1, 2],
      w_send = (\<lambda>p fr. if up then Inr () else Inl ''connection lost''), w_bandwidth = None,
      w_delay = (\<lambda>_ _. 0), w_transient = retry_transient () (), w_severe = retry_severe () ()\<rparr>"

definition reference_live :: "((string, byte list) alist, (string, u64) alist) AutomergeStore" where
  "reference_live =
     \<lparr>db = Some (DAList.update ''nodes:d1'' (be_bytes 8 5) DAList.empty, DAList.empty),
      cache = DAList.empty, change_tx = [], observer_tx = []\<rparr>"

definition sample_coordinator ::
  "((string, byte list) alist, (string, u64) alist, nat, unit, unit) Coordinator" where
  "sample_coordinator = with_flow_control () () reference_live flow_config_default"

lemma reference_live_inv: "ref.store_inv reference_live" "db reference_live \<noteq> None"
proof -
  have "ref.doc_of (be_bytes 8 5) = Some 5"
    by (simp add: ref.doc_of_eq_Some) (simp add: reference_env_def)
  then show "ref.store_inv reference_live"
    by (auto simp: ref.store_inv_def reference_live_def DAList.lookup_update split: if_splits)
qed (simp add: reference_live_def)

lemma sample_applies:
  assumes s: "co_store co = reference_live"
  shows "\<exists>co1. apply_tombstone reference_env reference_tombstone co = (Inr True, co1)"
proof -
  have t: "collection reference_tombstone = ''nodes''" "document_id reference_tombstone = ''d1''"
    by (simp_all add: reference_tombstone_def tombstone_new_def)
  have h: "has_tombstone reference_env reference_live ''nodes'' ''d1'' = Inr False"
    by (simp add: has_tombstone_def get_tombstone_def reference_live_def reference_env_def DAList.lookup_empty)
  have "\<exists>s1. put_tombstone reference_env reference_live reference_tombstone = Inr s1 \<and> cache s1 = DAList.empty
          \<and> (\<exists>T. db s1 = Some (DAList.update ''nodes:d1'' (be_bytes 8 5) DAList.empty, T))"
    using reference_tombstone_ok by (simp add: put_tombstone_def reference_live_def reference_env_def)
  then obtain s1 T where s1: "put_tombstone reference_env reference_live reference_tombstone = Inr s1"
      "cache s1 = DAList.empty" "db s1 = Some (DAList.update ''nodes:d1'' (be_bytes 8 5) DAList.empty, T)"
    by blast
  have k: "joined ''nodes'' ''d1'' = ''nodes:d1''" by (simp add: joined_def)
  obtain s2 where g: "store_get reference_env s1 ''nodes:d1'' = (Inr (Some 5), s2)"
    using s1 by (simp add: store_get_def reference_env_def DAList.lookup_empty DAList.lookup_update)
  obtain s3 where d: "store_delete reference_env s2 ''nodes:d1'' = Inr s3"
    by (cases "db s2") (auto simp: store_delete_def reference_env_def)
  show ?thesis using h s1(1) g d by (simp add: apply_tombstone_def t s k Let_def obind_def coord_get_def)
qed

theorem no_resurrection_witness:
  "\<exists>co1. apply_tombstone reference_env reference_tombstone sample_coordinator = (Inr True, co1)
     \<and> ref.docs (co_store (coord_run reference_env sample_lib
           [(sample_world True, ReceiveSnapshot ''nodes:d1'' 1 (be_bytes 8 9) 8)] co1)) ''nodes:d1'' = None"
proof -
  obtain co1 where co1: "apply_tombstone reference_env reference_tombstone sample_coordinator = (Inr True, co1)"
    using sample_applies [of sample_coordinator] by (auto simp: sample_coordinator_def with_flow_control_def)
  have c: "CHR '':'' \<notin> set (collection reference_tombstone)"
    by (simp add: reference_tombstone_def tombstone_new_def)
  have s: "co_store sample_coordinator = reference_live" by (simp add: sample_coordinator_def with_flow_control_def)
  have k: "tombstone_key reference_tombstone = ''nodes:d1''"
    by (simp add: tombstone_key_def reference_tombstone_def tombstone_new_def)
  show ?thesis
    using no_resurrection [OF rref.readable_env_axioms _ _ c co1, of sample_lib
        "[(sample_world True, ReceiveSnapshot ''nodes:d1'' 1 (be_bytes 8 9) 8)]"] reference_live_inv co1
    by (auto simp: s k Let_def)
qed

section \<open>An open circuit\<close>

lemma handler_success_open:
  "is_circuit_open eh p \<Longrightarrow> is_circuit_open (handler_record_success eh q) p"
  by (cases "q = p")
    (auto simp: is_circuit_open_iff handler_record_success_def hm_get_or_def success_transition_def
      health_record_success_def Let_def split: option.splits)

lemma handle_error_other:
  "q \<noteq> p \<Longrightarrow> is_circuit_open (snd (handle_error dl tr sv t1 t2 eh q e)) p = is_circuit_open eh p"
  by (simp add: is_circuit_open_iff handle_error_state keyed_step_def hm_get_or_def)

lemma initiate_inner_handler [simp]:
  "error_handler (snd (initiate_sync_inner env lib w k p co)) = error_handler co"
  unfolding initiate_sync_inner_def Let_def
  by (rule obind_inv [where I = "\<lambda>s. error_handler s = error_handler co"])
    (auto simp: case_prod_beta split: option.splits SyncMode.splits
      intro!: obind_inv [where I = "\<lambda>s. error_handler s = error_handler co"])

lemma initiate_sync_open:
  assumes "is_circuit_open (error_handler co) p"
  shows "is_circuit_open (error_handler (snd (initiate_sync env lib w k q co))) p"
proof (cases "is_circuit_open (error_handler co) q")
  case False
  then have "q \<noteq> p" using assms by blast
  then show ?thesis
    using assms by (auto simp: initiate_sync_def report_error_def Let_def case_prod_beta handler_success_open
        handle_error_other split: sum.splits)
qed (use assms in \<open>simp add: initiate_sync_def\<close>)

lemma fill_batch_handler: "error_handler (snd (fill_batch env lib ks b co)) = error_handler co"
proof (induction ks arbitrary: b co)
  case (Cons k ks)
  show ?case unfolding fill_batch.simps
    by (rule obind_inv [where I = "\<lambda>s. error_handler s = error_handler co"])
      (auto simp: Cons split: option.splits SyncMode.splits)
qed simp

lemma create_batch_handler: "error_handler (snd (create_batch_for_documents env lib w ks co)) = error_handler co"
  by (auto simp: create_batch_for_documents_def Let_def case_prod_beta fill_batch_handler split: sum.splits)

lemma sync_batch_open:
  assumes "is_circuit_open (error_handler co) p"
  shows "is_circuit_open (error_handler (snd (sync_documents_batch env lib w ks q co))) p"
proof (cases "is_circuit_open (error_handler co) q")
  case False
  then have qp: "q \<noteq> p" using assms by blast
  have "error_handler (fold clear_sync_state_for_document ks co) = error_handler co" by (rule fold_keeps) simp
  then show ?thesis
    using assms False qp unfolding sync_documents_batch_def
    by (auto simp: create_batch_handler report_error_def case_prod_beta handler_success_open handle_error_other
        split: sum.splits intro!: obind_inv [where I = "\<lambda>s. is_circuit_open (error_handler s) p"])
qed (use assms in \<open>simp add: sync_documents_batch_def\<close>)

lemma apply_tombstone_handler [simp]: "error_handler (snd (apply_tombstone env t co)) = error_handler co"
  unfolding apply_tombstone_def Let_def
  by (auto split: sum.splits bool.splits intro!: obind_inv [where I = "\<lambda>s. error_handler s = error_handler co"])

lemma incoming_handler [simp]:
  "error_handler (snd (receive_sync_message env lib w k p m n co)) = error_handler co"
  "error_handler (snd (apply_state_snapshot env lib w k p bs n co)) = error_handler co"
  "error_handler (snd (handle_incoming_tombstone env w p ms n co)) = error_handler co"
  by (auto simp: receive_sync_message_def apply_state_snapshot_def handle_incoming_tombstone_def Let_def case_prod_beta
      split: sum.splits option.splits intro!: obind_inv [where I = "\<lambda>s. error_handler s = error_handler co"])

lemma receive_entry_handler [simp]: "error_handler (receive_entry env lib w p e co) = error_handler co"
  by (auto simp: receive_entry_def Let_def split: SyncMessageType.splits option.splits sum.splits)

lemma coord_step_open:
  assumes "is_circuit_open (error_handler co) p"
  shows "is_circuit_open (error_handler (coord_step env lib wc co)) p"
proof -
  obtain w c where wc: "wc = (w, c)" by (cases wc)
  have clear: "error_handler (fold clear_sync_state_for_document ks co) = error_handler co" for ks
    by (rule fold_keeps) simp
  note fo = fold_inv [where I = "\<lambda>s. is_circuit_open (error_handler s) p"]
  show ?thesis
    unfolding wc using assms clear
    by (cases c)
      (auto simp: initiate_sync_open sync_batch_open sync_document_with_all_peers_def sync_all_documents_with_peer_def
        sync_documents_batch_with_all_peers_def handle_incoming_tombstone_batch_def receive_batch_message_def
        split: sum.splits intro!: fo)
qed

text \<open>
  An open circuit never closes.  Whatever calls follow, however much time
  passes and whatever the network answers, a peer whose circuit is open stays
  refused: every later sync of a document or a batch with it is rejected and
  sends nothing.
\<close>

lemma open_circuit_stays_open:
  assumes "is_circuit_open (error_handler co) p"
  shows "let co' = coord_run env lib evs co in
     is_circuit_open (error_handler co') p
     \<and> initiate_sync env lib w key p co' = (Inl CircuitOpen, co')
     \<and> sync_documents_batch env lib w keys p co' = (Inl CircuitOpen, co')"
proof -
  have "is_circuit_open (error_handler (coord_run env lib evs co)) p"
    unfolding coord_run_def
    by (rule fold_inv [where I = "\<lambda>s. is_circuit_open (error_handler s) p"]) (use assms in \<open>simp_all add: coord_step_open\<close>)
  then show ?thesis by (simp add: initiate_sync_def sync_documents_batch_def Let_def)
qed


section \<open>Tombstone propagation\<close>















text \<open>
  Without a database no tombstone is stored, so none is ever known: every reception is
  applied and sent on again.
\<close>

lemma applied_again_in_memory:
  assumes "db (co_store co) = None"
  shows "\<exists>co1. apply_tombstone env t co = (Inr True, co1) \<and> db (co_store co1) = None"
  using assms
  by (auto simp: apply_tombstone_def has_tombstone_def get_tombstone_def put_tombstone_def coord_get_def store_get_def
      store_delete_def obind_def Let_def case_prod_beta split: option.splits)




section \<open>Failed syncs can be retried\<close>

lemma sync_state_get_or_create:
  "sync_state_of (snd (get_or_create_sync_state lib key p co)) k q
     = (if k = key \<and> q = p
        then Some (case sync_state_of co key p of Some y \<Rightarrow> y | None \<Rightarrow> state_new lib)
        else sync_state_of co k q)"
  by (auto simp: sync_state_of_def get_or_create_sync_state_def hm_get_or_def Let_def split: option.splits)

lemma sync_state_of_states: "peer_states co' = peer_states co \<Longrightarrow> sync_state_of co' k q = sync_state_of co k q"
  by (simp add: sync_state_of_def)

definition states_kept ::
  "('d, 'm, 'y) sync_lib \<Rightarrow> string \<Rightarrow> 'p \<Rightarrow> ('t, 'c, 'p, 'y, 'f) Coordinator \<Rightarrow> ('t, 'c, 'p, 'y, 'f) Coordinator \<Rightarrow> bool" where
  "states_kept lib key p co co' \<longleftrightarrow>
     outbox co' = outbox co
     \<and> (\<forall>k q. sync_state_of co' k q = sync_state_of co k q
          \<or> k = key \<and> q = p \<and> sync_state_of co k q = None \<and> sync_state_of co' k q = Some (state_new lib))"

lemma states_kept_frame:
  "peer_states co' = peer_states co \<Longrightarrow> outbox co' = outbox co \<Longrightarrow> states_kept lib key p co co'"
  by (simp add: states_kept_def sync_state_of_def)

lemma states_kept_trans:
  "states_kept lib key p co co' \<Longrightarrow> peer_states co'' = peer_states co' \<Longrightarrow> outbox co'' = outbox co'
     \<Longrightarrow> states_kept lib key p co co''"
  by (simp add: states_kept_def sync_state_of_def)

lemma states_kept_from:
  "states_kept lib key p co1 co' \<Longrightarrow> peer_states co1 = peer_states co \<Longrightarrow> outbox co1 = outbox co
     \<Longrightarrow> states_kept lib key p co co'"
  by (simp add: states_kept_def sync_state_of_def)

lemma transmit_failed: "fst (transmit w p fr k co) = Inl e \<Longrightarrow> snd (transmit w p fr k co) = co"
  by (simp add: transmit_def split: sum.splits)

lemma delta_failed:
  assumes "initiate_delta_sync lib w key p d co = (Inl e, co')"
  shows "states_kept lib key p co co'"
proof -
  have "co' = snd (get_or_create_sync_state lib key p co)"
    using assms by (auto simp: initiate_delta_sync_def send_sync_message_for_doc_def obind_def Let_def case_prod_beta
        split: option.splits sum.splits dest: transmit_failed)
  moreover have "outbox (snd (get_or_create_sync_state lib key p co)) = outbox co"
    by (simp add: get_or_create_sync_state_def Let_def)
  ultimately show ?thesis
    by (auto simp: states_kept_def sync_state_get_or_create split: option.splits)
qed

lemma inner_failed:
  assumes "initiate_sync_inner env lib w key p co = (Inl e, co')"
  shows "states_kept lib key p co co'"
proof -
  let ?g = "coord_get env key co"
  have g: "states_kept lib key p co (snd ?g)" by (rule states_kept_frame) simp_all
  show ?thesis
  proof (cases "fst ?g")
    case (Inl e')
    then show ?thesis using assms g by (auto simp: initiate_sync_inner_def obind_def Let_def case_prod_beta)
  next
    case (Inr found)
    show ?thesis
    proof (cases found)
      case None
      then show ?thesis using assms g Inr by (auto simp: initiate_sync_inner_def obind_def Let_def case_prod_beta)
    next
      case (Some doc)
      let ?d = "initiate_delta_sync lib w key p doc (snd ?g)"
      have "co' = snd ?g
          \<or> (\<exists>co2. ?d = (Inl e, co2) \<and> peer_states co' = peer_states co2 \<and> outbox co' = outbox co2)"
        using assms Inr Some
        by (cases "sync_mode_for_doc co key")
          (auto simp: initiate_sync_inner_def obind_def Let_def case_prod_beta send_state_snapshot_def prod_eq_iff
            split: if_splits sum.splits dest: transmit_failed)
      then show ?thesis
        using g states_kept_from [OF states_kept_trans [OF delta_failed [of lib w key p doc "snd ?g" e]], of _ co' co]
        by auto
    qed
  qed
qed

text \<open>
  C12.  A failed sync can be retried.  When a sync of a document with a peer
  fails, for whatever reason, no frame went out, and the sync state of every
  document and peer is what it was, except that the state of this document and
  peer now exists with its initial value if there was none: the next attempt
  starts from the same point.
\<close>

theorem failed_sync_retryable:
  assumes "initiate_sync env lib w key p co = (Inl e, co')"
  shows "outbox co' = outbox co
     \<and> (\<forall>k q. sync_state_of co' k q = sync_state_of co k q
          \<or> k = key \<and> q = p \<and> sync_state_of co k q = None \<and> sync_state_of co' k q = Some (state_new lib))"
proof -
  let ?fc = "check_sync_allowed (w_bucket w) (w_refill w) (w_cooldown w) (flow_controller co) p key"
  let ?co = "co\<lparr>flow_controller := snd ?fc\<rparr>"
  have "peer_states co' = peer_states co \<and> outbox co' = outbox co
      \<or> (\<exists>m co2. initiate_sync_inner env lib w key p ?co = (Inl m, co2)
            \<and> peer_states co' = peer_states co2 \<and> outbox co' = outbox co2)"
    using assms by (auto simp: initiate_sync_def report_error_def Let_def case_prod_beta prod_eq_iff split: if_splits sum.splits)
  then have "states_kept lib key p co co'"
    using states_kept_from [OF states_kept_trans [OF inner_failed [of env lib w key p ?co]], of _ _ co' co]
      states_kept_frame [of co' co lib key p]
    by auto
  then show ?thesis by (simp add: states_kept_def)
qed

theorem failed_sync_retryable_witness:
  "\<exists>e co'. initiate_sync reference_env sample_lib (sample_world False) ''nodes:d1'' 1 sample_coordinator = (Inl e, co')
     \<and> outbox co' = [] \<and> sync_state_of co' ''cells:x'' 2 = None"
proof -
  let ?r = "initiate_sync reference_env sample_lib (sample_world False) ''nodes:d1'' 1 sample_coordinator"
  have down: "fst (transmit (sample_world False) p fr k co) = Inl ''connection lost''" for p fr k
      and co :: "((string, byte list) alist, (string, u64) alist, nat, unit, unit) Coordinator"
    by (simp add: transmit_def sample_world_def)
  have "fst (initiate_sync_inner reference_env sample_lib (sample_world False) ''nodes:d1'' 1 co) \<noteq> Inr ()"
    for co :: "((string, byte list) alist, (string, u64) alist, nat, unit, unit) Coordinator"
    using down
    by (auto simp: initiate_sync_inner_def initiate_delta_sync_def send_state_snapshot_def send_sync_message_for_doc_def
        obind_def Let_def case_prod_beta split: sum.splits option.splits SyncMode.splits)
  then have "fst ?r \<noteq> Inr ()"
    by (auto simp: initiate_sync_def Let_def case_prod_beta split: sum.splits if_splits)
  then obtain e co' where r: "?r = (Inl e, co')" by (cases ?r; cases "fst ?r") auto
  have "outbox sample_coordinator = []" "sync_state_of sample_coordinator ''cells:x'' 2 = None"
    by (simp_all add: sample_coordinator_def with_flow_control_def sync_state_of_def hm_get_or_def)
  then have "outbox co' = []" "sync_state_of co' ''cells:x'' 2 = None"
    using failed_sync_retryable [OF r]
      failed_sync_retryable [OF r, THEN conjunct2, rule_format, of "''cells:x''" 2] by simp_all
  then show ?thesis using r by blast
qed

end
