(* ===== verification/Identity.thy ===== *)
theory Identity
  imports Prelude
begin

text \<open>
  Device identity: \<^verbatim>\<open>src/security/keypair.rs\<close>, \<^verbatim>\<open>src/security/device_id.rs\<close> and the part of
  \<^verbatim>\<open>src/security/error.rs\<close> they use.

  The primitives come from other crates (\<^verbatim>\<open>ed25519_dalek\<close>, \<^verbatim>\<open>sha2\<close>, \<^verbatim>\<open>hkdf\<close>, \<^verbatim>\<open>hmac\<close>) and are
  the fields of one parameter, a \<open>crypto\<close> record; \<open>crypto_laws\<close> is what their
  documentation promises and what the security code relies on: the sizes of
  their outputs, and that a signature made with a key verifies under its public
  key.  Nothing is assumed about forgery or collisions.  A signing key is its 32
  secret bytes.  An error keeps its variant and the fixed part of its message.
\<close>

section \<open>The cryptographic primitives\<close>

record crypto =
  public_of :: "byte list \<Rightarrow> byte list"
  ed_point :: "byte list \<Rightarrow> bool"
  ed_sign :: "byte list \<Rightarrow> byte list \<Rightarrow> byte list"
  ed_verify :: "byte list \<Rightarrow> byte list \<Rightarrow> byte list \<Rightarrow> bool"
  hkdf_sha256 :: "byte list option \<Rightarrow> byte list \<Rightarrow> byte list \<Rightarrow> byte list"
  sha256 :: "byte list \<Rightarrow> byte list"
  hmac_sha256 :: "byte list \<Rightarrow> byte list \<Rightarrow> byte list"

definition crypto_laws :: "crypto \<Rightarrow> bool" where
  "crypto_laws cr \<longleftrightarrow>
     (\<forall>k. length (public_of cr k) = 32 \<and> ed_point cr (public_of cr k)) \<and>
     (\<forall>k m. length (ed_sign cr k m) = 64 \<and> ed_verify cr (public_of cr k) m (ed_sign cr k m)) \<and>
     (\<forall>salt ikm info. length (hkdf_sha256 cr salt ikm info) = 32) \<and>
     (\<forall>m. length (sha256 cr m) = 32) \<and>
     (\<forall>k m. length (hmac_sha256 cr k m) = 32)"

lemma crypto_lawsD [simp]:
  assumes "crypto_laws cr"
  shows "length (public_of cr k) = 32" "ed_point cr (public_of cr k)"
    and "length (ed_sign cr k m) = 64" "ed_verify cr (public_of cr k) m (ed_sign cr k m)"
    and "length (hkdf_sha256 cr salt ikm info) = 32"
    and "length (sha256 cr m) = 32" "length (hmac_sha256 cr k m) = 32"
  using assms by (simp_all add: crypto_laws_def)

datatype SecurityError =
    InvalidSignature string
  | ChallengeExpired u64
  | NonceMismatch string string
  | InvalidPublicKey string
  | InvalidDeviceId string
  | KeypairError string
  | PeerNotAuthenticated string
  | AuthenticationFailed string
  | IoError
  | SerializationError string
  | Internal string
  | PeerNotFound string
  | PermissionDenied string string "string list"
  | CertificateError string
  | InvalidCertificateChain string
  | CertificateExpired string
  | CertificateRevoked string
  | UserNotFound string
  | UserAlreadyExists string
  | InvalidCredential string
  | InvalidMfaCode
  | AccountLocked string
  | AccountDisabled string
  | AccountPending string
  | SessionNotFound
  | SessionExpired
  | UnsupportedAuthMethod string
  | PasswordHashError string
  | TotpError string
  | EncryptionError string
  | DecryptionError string
  | KeyExchangeError string
  | NoGroupKey string
  | KeyGenerationMismatch u64 u64

section \<open>Device identifiers\<close>

datatype DeviceId = DeviceId (id_bytes: "byte list")

definition device_id_of_key :: "crypto \<Rightarrow> byte list \<Rightarrow> DeviceId" where
  "device_id_of_key cr pk = DeviceId (take 16 (sha256 cr pk))"

definition device_id_of_key_bytes :: "crypto \<Rightarrow> byte list \<Rightarrow> (SecurityError, DeviceId) result" where
  "device_id_of_key_bytes cr bs =
     (if length bs \<noteq> 32 then Inl (Err (InvalidPublicKey ''expected 32 bytes''))
      else if \<not> ed_point cr bs then Inl (Err (InvalidPublicKey ''not a curve point''))
      else Inr (device_id_of_key cr bs))"

text \<open>\<^verbatim>\<open>format!("{:02x}", b)\<close>: two lowercase hexadecimal digits.\<close>

definition hex_char :: "nat \<Rightarrow> char" where
  "hex_char n = ''0123456789abcdef'' ! n"

definition hex_byte :: "byte \<Rightarrow> string" where
  "hex_byte b = [hex_char (unat b div 16), hex_char (unat b mod 16)]"

definition hex_encode :: "byte list \<Rightarrow> string" where
  "hex_encode bs = concat (map hex_byte bs)"

text \<open>
  \<^verbatim>\<open>u8::from_str_radix(s, 16)\<close> on a slice of two bytes: upper and lower case digits,
  and a leading plus sign before a digit.
\<close>

definition hex_digit :: "char \<Rightarrow> nat option" where
  "hex_digit c =
     (let n = of_char c in
      if 48 \<le> n \<and> n \<le> 57 then Some (n - 48)
      else if 97 \<le> n \<and> n \<le> 102 then Some (n - 87)
      else if 65 \<le> n \<and> n \<le> 70 then Some (n - 55)
      else None)"

definition from_str_radix16 :: "char \<Rightarrow> char \<Rightarrow> byte option" where
  "from_str_radix16 a b =
     (if a = CHR ''+'' then map_option word_of_nat (hex_digit b)
      else case (hex_digit a, hex_digit b) of
        (Some x, Some y) \<Rightarrow> Some (word_of_nat (16 * x + y))
      | _ \<Rightarrow> None)"

text \<open>
  The slice \<^verbatim>\<open>&hex[i..i + 2]\<close> panics when byte \<open>i + 2\<close> is inside a character; its start
  is the end of the slice before it.  The first bad pair ends the iteration.
\<close>

fun hex_pairs :: "string \<Rightarrow> (string, byte list) result" where
  "hex_pairs (a # b # rest) =
     (if rest \<noteq> [] \<and> utf8_cont (byte_of_char (hd rest)) then Inl Panic
      else case from_str_radix16 a b of
        None \<Rightarrow> Inl (Err ''invalid hex at position'')
      | Some x \<Rightarrow> rbind (hex_pairs rest) (\<lambda>xs. Inr (x # xs)))"
| "hex_pairs _ = Inr []"

definition hex_decode :: "string \<Rightarrow> (string, byte list) result" where
  "hex_decode s = (if odd (length s) then Inl (Err ''odd length hex string'') else hex_pairs s)"

definition device_to_hex :: "DeviceId \<Rightarrow> string" where
  "device_to_hex d = hex_encode (id_bytes d)"

definition device_from_hex :: "string \<Rightarrow> (SecurityError, DeviceId) result" where
  "device_from_hex s =
     (case hex_decode s of
        Inl Panic \<Rightarrow> Inl Panic
      | Inl (Err e) \<Rightarrow> Inl (Err (InvalidDeviceId ''invalid hex''))
      | Inr bs \<Rightarrow>
          if length bs \<noteq> 16 then Inl (Err (InvalidDeviceId ''expected 16 bytes (32 hex chars)''))
          else Inr (DeviceId bs))"

section \<open>Key pairs\<close>

record DeviceKeypair =
  signing_key :: "byte list"

definition keypair_from_seed :: "crypto \<Rightarrow> byte list \<Rightarrow> string \<Rightarrow> DeviceKeypair" where
  "keypair_from_seed cr seed ctx =
     \<lparr>signing_key = hkdf_sha256 cr None seed (as_bytes ctx)\<rparr>"

definition from_secret_bytes :: "byte list \<Rightarrow> (SecurityError, DeviceKeypair) result" where
  "from_secret_bytes bs =
     (if length bs \<noteq> 32 then Inl (Err (KeypairError ''expected 32 bytes''))
      else Inr \<lparr>signing_key = bs\<rparr>)"

definition secret_key_bytes :: "DeviceKeypair \<Rightarrow> byte list" where
  "secret_key_bytes kp = signing_key kp"

definition public_key_bytes :: "crypto \<Rightarrow> DeviceKeypair \<Rightarrow> byte list" where
  "public_key_bytes cr kp = public_of cr (signing_key kp)"

definition keypair_device_id :: "crypto \<Rightarrow> DeviceKeypair \<Rightarrow> DeviceId" where
  "keypair_device_id cr kp = device_id_of_key cr (public_key_bytes cr kp)"

definition keypair_sign :: "crypto \<Rightarrow> DeviceKeypair \<Rightarrow> byte list \<Rightarrow> byte list" where
  "keypair_sign cr kp m = ed_sign cr (signing_key kp) m"

definition verify_with_key ::
  "crypto \<Rightarrow> byte list \<Rightarrow> byte list \<Rightarrow> byte list \<Rightarrow> (SecurityError, unit) result" where
  "verify_with_key cr pk m sg = ensure (ed_verify cr pk m sg) (InvalidSignature ''verification failed'')"

definition keypair_verify ::
  "crypto \<Rightarrow> DeviceKeypair \<Rightarrow> byte list \<Rightarrow> byte list \<Rightarrow> (SecurityError, unit) result" where
  "keypair_verify cr kp m sg = verify_with_key cr (public_key_bytes cr kp) m sg"

definition signature_from_bytes :: "byte list \<Rightarrow> (SecurityError, byte list) result" where
  "signature_from_bytes bs =
     (if length bs \<noteq> 64 then Inl (Err (InvalidSignature ''expected 64 bytes'')) else Inr bs)"

definition verifying_key_from_bytes :: "crypto \<Rightarrow> byte list \<Rightarrow> (SecurityError, byte list) result" where
  "verifying_key_from_bytes cr bs =
     (if length bs \<noteq> 32 then Inl (Err (InvalidPublicKey ''expected 32 bytes''))
      else rbind (ensure (ed_point cr bs) (InvalidPublicKey ''not a curve point'')) (\<lambda>_. Inr bs))"

section \<open>Lemmas on keys\<close>

lemma length_public_key_bytes [simp]: "crypto_laws cr \<Longrightarrow> length (public_key_bytes cr kp) = 32"
  by (simp add: public_key_bytes_def)

lemma ed_point_public_key_bytes [simp]: "crypto_laws cr \<Longrightarrow> ed_point cr (public_key_bytes cr kp)"
  by (simp add: public_key_bytes_def)

lemma length_keypair_sign [simp]: "crypto_laws cr \<Longrightarrow> length (keypair_sign cr kp m) = 64"
  by (simp add: keypair_sign_def)

lemma ed_verify_keypair_sign [simp]:
  "crypto_laws cr \<Longrightarrow> ed_verify cr (public_key_bytes cr kp) m (keypair_sign cr kp m)"
  by (simp add: public_key_bytes_def keypair_sign_def)

text \<open>A signature made with a key pair passes the key pair's own check and the one against its public key.\<close>

lemma keypair_verify_sign: "crypto_laws cr \<Longrightarrow> keypair_verify cr kp m (keypair_sign cr kp m) = Inr ()"
  by (simp add: keypair_verify_def verify_with_key_def)

lemma public_key_round_trip:
  "crypto_laws cr \<Longrightarrow>
     verifying_key_from_bytes cr (public_key_bytes cr kp) = Inr (public_key_bytes cr kp) \<and>
     device_id_of_key_bytes cr (public_key_bytes cr kp) = Inr (keypair_device_id cr kp)"
  by (simp add: verifying_key_from_bytes_def device_id_of_key_bytes_def keypair_device_id_def)

text \<open>A concrete signature scheme for the witnesses: the signature repeats the key and the start of the message.\<close>

definition pad :: "nat \<Rightarrow> byte list \<Rightarrow> byte list" where
  "pad n bs = take n (bs @ replicate n 0)"

lemma length_pad [simp]: "length (pad n bs) = n"
  by (simp add: pad_def)

definition sample_crypto :: crypto where
  "sample_crypto =
     \<lparr>public_of = pad 32, ed_point = (\<lambda>pk. True),
      ed_sign = (\<lambda>k m. pad 32 k @ pad 32 m),
      ed_verify = (\<lambda>pk m sg. sg = pk @ pad 32 m),
      hkdf_sha256 = (\<lambda>salt ikm info. pad 32 ikm), sha256 = pad 32,
      hmac_sha256 = (\<lambda>k m. pad 32 (k @ m))\<rparr>"

lemma sample_crypto_laws: "crypto_laws sample_crypto"
  by (simp add: crypto_laws_def sample_crypto_def)

section \<open>Lemmas on hexadecimal\<close>

lemma less_16: "n < 16 \<Longrightarrow> n \<in> {0, 1, 2, 3, 4, 5, 6, 7, 8, 9, 10, 11, 12, 13, 14, 15 :: nat}"
  by (simp add: numeral_eq_Suc less_Suc_eq)

lemma hex_digit_char: "n < 16 \<Longrightarrow> hex_digit (hex_char n) = Some n \<and> hex_char n \<noteq> CHR ''+'' \<and>
    \<not> utf8_cont (byte_of_char (hex_char n))"
  by (drule less_16) (auto simp: hex_char_def hex_digit_def utf8_cont_def byte_of_char_def)

lemma from_str_radix16_hex:
  assumes "b < 256"
  shows "from_str_radix16 (hex_char (b div 16)) (hex_char (b mod 16)) = Some (word_of_nat b)"
  using assms hex_digit_char [of "b div 16"] hex_digit_char [of "b mod 16"]
  by (simp add: from_str_radix16_def less_mult_imp_div_less)

lemma hex_pairs_hex_byte:
  assumes "rest = [] \<or> \<not> utf8_cont (byte_of_char (hd rest))"
  shows "hex_pairs (hex_byte b @ rest) = rbind (hex_pairs rest) (\<lambda>xs. Inr (b # xs))"
  using assms from_str_radix16_hex [of "unat b"] unat_less_pow [of b] by (auto simp: hex_byte_def)

lemma hex_encode_Cons: "hex_encode (b # bs) = hex_byte b @ hex_encode bs"
  by (simp add: hex_encode_def)

lemma hex_encode_head: "hex_encode bs = [] \<or> \<not> utf8_cont (byte_of_char (hd (hex_encode bs)))"
proof (cases bs)
  case (Cons b bs')
  then show ?thesis
    using hex_digit_char [of "unat b div 16"] unat_less_pow [of b]
    by (simp add: hex_encode_Cons hex_byte_def less_mult_imp_div_less)
qed (simp add: hex_encode_def)

lemma hex_pairs_encode: "hex_pairs (hex_encode bs) = Inr bs"
proof (induction bs)
  case (Cons b bs)
  then show ?case
    using hex_pairs_hex_byte [OF hex_encode_head [of bs], of b] by (simp add: hex_encode_Cons)
qed (simp add: hex_encode_def)

lemma length_hex_encode: "length (hex_encode bs) = 2 * length bs"
  by (induction bs) (simp_all add: hex_encode_Cons hex_encode_def hex_byte_def)

lemma hex_decode_encode: "hex_decode (hex_encode bs) = Inr bs"
  by (simp add: hex_decode_def length_hex_encode hex_pairs_encode)

lemma length_hex_pairs: "hex_pairs s = Inr bs \<Longrightarrow> even (length s) \<Longrightarrow> length s = 2 * length bs"
  by (induction s arbitrary: bs rule: hex_pairs.induct)
    (auto simp: rbind_eq_Inr split: if_splits option.splits)

lemma hex_pairs_ascii:
  "list_all (\<lambda>c. of_char c < (128 :: nat)) s \<Longrightarrow> hex_pairs s \<noteq> Inl Panic"
proof (induction s rule: hex_pairs.induct)
  case (1 a b rest)
  have "rest \<noteq> [] \<Longrightarrow> \<not> utf8_cont (byte_of_char (hd rest))"
    using 1(2) by (cases rest)
      (auto simp: utf8_cont_def byte_of_char_def word_le_nat_alt unat_of_nat)
  then show ?case
    using 1 by (auto simp: rbind_eq_Inl split: option.splits)
qed simp_all

lemma utf8_valid_ascii: "list_all (\<lambda>b. b < 0x80) bs \<Longrightarrow> utf8_valid bs"
  by (induction bs) simp_all

lemma device_from_hex_ascii:
  "list_all (\<lambda>c. of_char c < (128 :: nat)) s \<Longrightarrow> device_from_hex s \<noteq> Inl Panic"
  using hex_pairs_ascii [of s]
  by (auto simp: device_from_hex_def hex_decode_def split: sum.splits failure.splits)

lemma device_from_hex_length:
  "device_from_hex s = Inr d \<Longrightarrow> length s = 32 \<and> length (id_bytes d) = 16"
  using length_hex_pairs [of s]
  by (auto simp: device_from_hex_def hex_decode_def split: sum.splits failure.splits if_splits)

text \<open>An accented letter across the first pair boundary, then digits: a valid Rust string of 32 bytes.\<close>

definition split_letter :: string where
  "split_letter = [CHR ''a'', CHR 0xC3, CHR 0xA9, CHR ''b''] @ replicate 28 (CHR ''0'')"

text \<open>
  A device identifier written as 32 lowercase hexadecimal digits is read
  back unchanged; whatever is read has 16 bytes and came from 32 characters; an
  ASCII string of any length and content gives a value or an error, never a
  panic.  Two inputs outside that picture: a well-formed UTF-8 string of 32
  bytes that is not ASCII makes the parser panic, because it slices by byte
  offset, and a plus sign in the first place of a pair is taken as a digit, so
  that a string with no leading digits at all names a device.
\<close>

lemma device_id_hex:
  "(length bs = 16 \<longrightarrow> device_from_hex (device_to_hex (DeviceId bs)) = Inr (DeviceId bs)) \<and>
   (device_from_hex s = Inr d \<longrightarrow> length s = 32 \<and> length (id_bytes d) = 16) \<and>
   (list_all (\<lambda>c. of_char c < (128 :: nat)) s \<longrightarrow> device_from_hex s \<noteq> Inl Panic) \<and>
   valid_string split_letter \<and> length split_letter = 32 \<and>
   device_from_hex split_letter = Inl Panic \<and>
   device_from_hex (concat (replicate 16 ''+f'')) = Inr (DeviceId (replicate 16 15))"
proof (intro conjI impI)
  show "device_from_hex (device_to_hex (DeviceId bs)) = Inr (DeviceId bs)" if "length bs = 16"
    using that by (simp add: device_from_hex_def device_to_hex_def hex_decode_encode)
  show "valid_string split_letter"
    by code_simp
  show "device_from_hex split_letter = Inl Panic"
    by code_simp
  show "device_from_hex (concat (replicate 16 ''+f'')) = Inr (DeviceId (replicate 16 15))"
    by code_simp
qed (use device_from_hex_length device_from_hex_ascii in \<open>auto simp: split_letter_def\<close>)

end
