(* ===== verification/Certificate.thy ===== *)
theory Certificate
  imports Identity
begin

text \<open>
  Mesh certificates, \<^verbatim>\<open>src/security/certificate.rs\<close>: the wire format, signing and
  checking, and the bundle of accepted certificates with its index by node name.
  The reading of \<^verbatim>\<open>SystemTime::now()\<close> that an operation takes is its argument, in
  milliseconds as \<^verbatim>\<open>u64\<close>.  A directory that is loaded is the list of its entries, in
  the order they are listed; an operation that may stop half way returns the
  bundle with its result.
\<close>

section \<open>Tiers and permissions\<close>

datatype MeshTier = Enterprise | Regional | Tactical | Edge

fun tier_name :: "MeshTier \<Rightarrow> string" where
  "tier_name Enterprise = ''Enterprise''"
| "tier_name Regional = ''Regional''"
| "tier_name Tactical = ''Tactical''"
| "tier_name Edge = ''Edge''"

fun tier_byte :: "MeshTier \<Rightarrow> byte" where
  "tier_byte Enterprise = 0"
| "tier_byte Regional = 1"
| "tier_byte Tactical = 2"
| "tier_byte Edge = 3"

definition tier_of_byte :: "byte \<Rightarrow> MeshTier option" where
  "tier_of_byte b =
     (if b = 0 then Some Enterprise
      else if b = 1 then Some Regional
      else if b = 2 then Some Tactical
      else if b = 3 then Some Edge
      else None)"

definition PERM_RELAY :: byte where "PERM_RELAY = 0x01"

definition PERM_EMERGENCY :: byte where "PERM_EMERGENCY = 0x02"

definition PERM_ENROLL :: byte where "PERM_ENROLL = 0x04"

definition PERM_ADMIN :: byte where "PERM_ADMIN = 0x80"

definition PERM_STANDARD :: byte where
  "PERM_STANDARD = or PERM_RELAY PERM_EMERGENCY"

definition PERM_AUTHORITY :: byte where
  "PERM_AUTHORITY = or (or (or PERM_RELAY PERM_EMERGENCY) PERM_ENROLL) PERM_ADMIN"

section \<open>Certificates\<close>

record MeshCertificate =
  cert_subject :: "byte list"
  cert_mesh_id :: string
  cert_node_id :: string
  cert_tier :: MeshTier
  cert_permissions :: byte
  cert_issued_at :: u64
  cert_expires_at :: u64
  cert_issuer :: "byte list"
  cert_signature :: "byte list"

definition cert_new ::
  "byte list \<Rightarrow> string \<Rightarrow> string \<Rightarrow> MeshTier \<Rightarrow> byte \<Rightarrow> u64 \<Rightarrow> u64 \<Rightarrow> byte list \<Rightarrow> MeshCertificate" where
  "cert_new subject mesh node tier perms issued expires issuer =
     \<lparr>cert_subject = subject, cert_mesh_id = mesh, cert_node_id = node, cert_tier = tier,
      cert_permissions = perms, cert_issued_at = issued, cert_expires_at = expires,
      cert_issuer = issuer, cert_signature = replicate 64 0\<rparr>"

text \<open>The two lengths are cast to \<^verbatim>\<open>u8\<close>, which keeps the low eight bits.\<close>

definition cert_signable_bytes :: "MeshCertificate \<Rightarrow> byte list" where
  "cert_signable_bytes c =
       cert_subject c
     @ [word_of_nat (length (as_bytes (cert_mesh_id c)))]
     @ as_bytes (cert_mesh_id c)
     @ [word_of_nat (length (as_bytes (cert_node_id c)))]
     @ as_bytes (cert_node_id c)
     @ [tier_byte (cert_tier c)]
     @ [cert_permissions c]
     @ le_bytes 8 (unat (cert_issued_at c))
     @ le_bytes 8 (unat (cert_expires_at c))
     @ cert_issuer c"

definition cert_encode :: "MeshCertificate \<Rightarrow> byte list" where
  "cert_encode c = cert_signable_bytes c @ cert_signature c"

definition cert_sign_with :: "crypto \<Rightarrow> MeshCertificate \<Rightarrow> DeviceKeypair \<Rightarrow> MeshCertificate" where
  "cert_sign_with cr c issuer = c\<lparr>cert_signature := keypair_sign cr issuer (cert_signable_bytes c)\<rparr>"

definition cert_signed :: "crypto \<Rightarrow> MeshCertificate \<Rightarrow> DeviceKeypair \<Rightarrow> MeshCertificate" where
  "cert_signed cr c issuer = cert_sign_with cr c issuer"

definition cert_new_root ::
  "crypto \<Rightarrow> DeviceKeypair \<Rightarrow> string \<Rightarrow> string \<Rightarrow> MeshTier \<Rightarrow> u64 \<Rightarrow> u64 \<Rightarrow> MeshCertificate" where
  "cert_new_root cr authority mesh node tier issued expires =
     (let pubkey = public_key_bytes cr authority;
          c = cert_new pubkey mesh node tier PERM_AUTHORITY issued expires pubkey
      in cert_sign_with cr c authority)"

definition cert_verify :: "crypto \<Rightarrow> MeshCertificate \<Rightarrow> (SecurityError, unit) result" where
  "cert_verify cr c =
     rbind (ensure (ed_point cr (cert_issuer c)) (InvalidPublicKey ''issuer'')) (\<lambda>_.
     ensure (ed_verify cr (cert_issuer c) (cert_signable_bytes c) (cert_signature c))
       (InvalidSignature ''certificate''))"

definition cert_is_root :: "MeshCertificate \<Rightarrow> bool" where
  "cert_is_root c \<longleftrightarrow> cert_subject c = cert_issuer c"

definition cert_is_valid :: "MeshCertificate \<Rightarrow> u64 \<Rightarrow> bool" where
  "cert_is_valid c now \<longleftrightarrow>
     cert_issued_at c \<le> now \<and> (cert_expires_at c = 0 \<or> now < cert_expires_at c)"

definition cert_has_permission :: "MeshCertificate \<Rightarrow> byte \<Rightarrow> bool" where
  "cert_has_permission c p \<longleftrightarrow> and (cert_permissions c) p = p"

definition cert_time_remaining_ms :: "MeshCertificate \<Rightarrow> u64 \<Rightarrow> u64" where
  "cert_time_remaining_ms c now =
     (if cert_expires_at c = 0 then - 1
      else if now \<le> cert_expires_at c then cert_expires_at c - now else 0)"

text \<open>The tier byte, read with its error.\<close>

definition decode_tier :: "byte \<Rightarrow> (SecurityError, MeshTier) result" where
  "decode_tier b =
     (case tier_of_byte b of
        Some t \<Rightarrow> Inr t
      | None \<Rightarrow> Inl (Err (SerializationError ''invalid tier byte'')))"

definition cert_read :: "byte list \<Rightarrow> (SecurityError, MeshCertificate \<times> byte list) result" where
  "cert_read bs =
     rbind (ensure (148 \<le> length bs) (SerializationError ''certificate too short'')) (\<lambda>_.
     rbind (slice 32 bs) (\<lambda>(subject, r1).
     rbind (slice 1 r1) (\<lambda>(ml, r2).
     rbind (ensure (33 + unat (hd ml) < length bs)
       (SerializationError ''certificate truncated at mesh_id'')) (\<lambda>_.
     rbind (slice (unat (hd ml)) r2) (\<lambda>(mb, r3).
     rbind (from_utf8 (SerializationError ''invalid mesh_id'') mb) (\<lambda>mesh.
     rbind (slice 1 r3) (\<lambda>(nl, r4).
     rbind (ensure (34 + unat (hd ml) + unat (hd nl) + 1 + 1 + 8 + 8 + 32 + 64 \<le> length bs)
       (SerializationError ''certificate truncated at node_id'')) (\<lambda>_.
     rbind (slice (unat (hd nl)) r4) (\<lambda>(nb, r5).
     rbind (from_utf8 (SerializationError ''invalid node_id'') nb) (\<lambda>node.
     rbind (slice 1 r5) (\<lambda>(tb, r6).
     rbind (decode_tier (hd tb)) (\<lambda>tier.
     rbind (slice 1 r6) (\<lambda>(pb, r7).
     rbind (slice 8 r7) (\<lambda>(ib, r8).
     rbind (slice 8 r8) (\<lambda>(eb, r9).
     rbind (slice 32 r9) (\<lambda>(issuer, r10).
     rbind (slice 64 r10) (\<lambda>(sg, r11).
     Inr (\<lparr>cert_subject = subject, cert_mesh_id = mesh, cert_node_id = node, cert_tier = tier,
           cert_permissions = hd pb, cert_issued_at = word_of_nat (le_val ib),
           cert_expires_at = word_of_nat (le_val eb), cert_issuer = issuer,
           cert_signature = sg\<rparr>, r11))))))))))))))))))"

text \<open>The decoder ignores what follows the signature.\<close>

definition cert_decode :: "byte list \<Rightarrow> (SecurityError, MeshCertificate) result" where
  "cert_decode bs = rbind (cert_read bs) (\<lambda>(c, r). Inr c)"

section \<open>The bundle\<close>

record CertificateBundle =
  authorities :: "byte list list"
  certificates :: "(byte list, MeshCertificate) hmap"
  node_id_index :: "(string, byte list) hmap"

definition bundle_new :: CertificateBundle where
  "bundle_new = \<lparr>authorities = [], certificates = [], node_id_index = []\<rparr>"

definition add_authority :: "byte list \<Rightarrow> CertificateBundle \<Rightarrow> CertificateBundle" where
  "add_authority pk b =
     (if pk \<in> set (authorities b) then b else b\<lparr>authorities := authorities b @ [pk]\<rparr>)"

definition is_trusted_issuer :: "crypto \<Rightarrow> CertificateBundle \<Rightarrow> byte list \<Rightarrow> u64 \<Rightarrow> bool" where
  "is_trusted_issuer cr b pk now =
     (if pk \<in> set (authorities b) then True
      else case hm_get (certificates b) pk of
        Some ic \<Rightarrow> cert_has_permission ic PERM_ENROLL \<and> cert_is_valid ic now \<and> cert_verify cr ic = Inr ()
      | None \<Rightarrow> False)"

definition add_certificate_unchecked :: "MeshCertificate \<Rightarrow> CertificateBundle \<Rightarrow> CertificateBundle" where
  "add_certificate_unchecked c b =
     b\<lparr>node_id_index := (if cert_node_id c \<noteq> [] then hm_insert (cert_node_id c) (cert_subject c) (node_id_index b)
                         else node_id_index b),
       certificates := hm_insert (cert_subject c) c (certificates b)\<rparr>"

definition add_certificate ::
  "crypto \<Rightarrow> u64 \<Rightarrow> MeshCertificate \<Rightarrow> CertificateBundle
     \<Rightarrow> CertificateBundle \<times> (SecurityError, unit) result" where
  "add_certificate cr now c b =
     (case cert_verify cr c of
        Inl e \<Rightarrow> (b, Inl e)
      | Inr _ \<Rightarrow>
          if \<not> cert_is_root c \<and> \<not> is_trusted_issuer cr b (cert_issuer c) now
          then (b, Inl (Err (CertificateError
                 ''issuer not in trusted authorities and has no ENROLL delegation'')))
          else
            (b\<lparr>node_id_index := (if cert_node_id c \<noteq> [] then hm_insert (cert_node_id c) (cert_subject c) (node_id_index b)
                                  else node_id_index b),
               certificates := hm_insert (cert_subject c) c (certificates b)\<rparr>,
             Inr ()))"

definition get_certificate :: "CertificateBundle \<Rightarrow> byte list \<Rightarrow> MeshCertificate option" where
  "get_certificate b pk = hm_get (certificates b) pk"

definition validate_peer :: "crypto \<Rightarrow> CertificateBundle \<Rightarrow> byte list \<Rightarrow> u64 \<Rightarrow> bool" where
  "validate_peer cr b pk now =
     (case hm_get (certificates b) pk of
        Some c \<Rightarrow>
          if \<not> cert_is_valid c now then False
          else if cert_verify cr c \<noteq> Inr () then False
          else True
      | None \<Rightarrow> False)"

definition get_peer_tier :: "CertificateBundle \<Rightarrow> byte list \<Rightarrow> MeshTier option" where
  "get_peer_tier b pk = map_option cert_tier (hm_get (certificates b) pk)"

definition get_peer_permissions :: "CertificateBundle \<Rightarrow> byte list \<Rightarrow> byte option" where
  "get_peer_permissions b pk = map_option cert_permissions (hm_get (certificates b) pk)"

definition get_certificate_by_node_id :: "CertificateBundle \<Rightarrow> string \<Rightarrow> MeshCertificate option" where
  "get_certificate_by_node_id b n =
     Option.bind (hm_get (node_id_index b) n) (\<lambda>pk. hm_get (certificates b) pk)"

definition validate_node_id :: "crypto \<Rightarrow> CertificateBundle \<Rightarrow> string \<Rightarrow> u64 \<Rightarrow> bool" where
  "validate_node_id cr b n now =
     (case get_certificate_by_node_id b n of
        Some c \<Rightarrow>
          if \<not> cert_is_valid c now then False
          else if cert_verify cr c \<noteq> Inr () then False
          else True
      | None \<Rightarrow> False)"

definition get_node_tier :: "CertificateBundle \<Rightarrow> string \<Rightarrow> MeshTier option" where
  "get_node_tier b n = map_option cert_tier (get_certificate_by_node_id b n)"

text \<open>
  \<^verbatim>\<open>retain\<close> visits every entry once; the closure drops the name of a certificate that
  is not kept from the index, whatever key the index holds for it.
\<close>

definition drop_index :: "u64 \<Rightarrow> byte list \<times> MeshCertificate \<Rightarrow> (string, byte list) hmap \<Rightarrow> (string, byte list) hmap" where
  "drop_index now e idx =
     (if \<not> cert_is_valid (snd e) now \<and> cert_node_id (snd e) \<noteq> []
      then hm_remove (cert_node_id (snd e)) idx else idx)"

definition remove_expired :: "u64 \<Rightarrow> CertificateBundle \<Rightarrow> CertificateBundle \<times> nat" where
  "remove_expired now b =
     (let kept = hm_retain (\<lambda>_ c. cert_is_valid c now) (certificates b)
      in (b\<lparr>certificates := kept, node_id_index := fold (drop_index now) (certificates b) (node_id_index b)\<rparr>,
          length (certificates b) - length kept))"

text \<open>A directory entry: the listing fails, it is not a file, it cannot be read, or its bytes.\<close>

datatype dir_entry = EntryError | NotAFile | Unreadable | FileBytes "byte list"

fun load_authority_entries ::
  "crypto \<Rightarrow> dir_entry list \<Rightarrow> nat \<Rightarrow> CertificateBundle \<Rightarrow> CertificateBundle \<times> (SecurityError, nat) result" where
  "load_authority_entries cr [] n b = (b, Inr n)"
| "load_authority_entries cr (EntryError # es) n b = (b, Inl (Err IoError))"
| "load_authority_entries cr (NotAFile # es) n b = load_authority_entries cr es n b"
| "load_authority_entries cr (Unreadable # es) n b = (b, Inl (Err IoError))"
| "load_authority_entries cr (FileBytes bs # es) n b =
     (if length bs = 32 \<and> ed_point cr bs
      then load_authority_entries cr es (n + 1) (add_authority bs b)
      else load_authority_entries cr es n b)"

definition load_authorities_from_dir ::
  "crypto \<Rightarrow> dir_entry list option \<Rightarrow> CertificateBundle \<Rightarrow> CertificateBundle \<times> (SecurityError, nat) result" where
  "load_authorities_from_dir cr dir b =
     (case dir of None \<Rightarrow> (b, Inl (Err IoError)) | Some es \<Rightarrow> load_authority_entries cr es 0 b)"

text \<open>Every certificate that is added takes its own clock reading.\<close>

fun load_certificate_entries ::
  "crypto \<Rightarrow> (dir_entry \<times> u64) list \<Rightarrow> nat \<Rightarrow> CertificateBundle
     \<Rightarrow> CertificateBundle \<times> (SecurityError, nat) result" where
  "load_certificate_entries cr [] n b = (b, Inr n)"
| "load_certificate_entries cr ((EntryError, now) # es) n b = (b, Inl (Err IoError))"
| "load_certificate_entries cr ((NotAFile, now) # es) n b = load_certificate_entries cr es n b"
| "load_certificate_entries cr ((Unreadable, now) # es) n b = (b, Inl (Err IoError))"
| "load_certificate_entries cr ((FileBytes bs, now) # es) n b =
     (case cert_decode bs of
        Inl Panic \<Rightarrow> (b, Inl Panic)
      | Inl (Err e) \<Rightarrow> load_certificate_entries cr es n b
      | Inr c \<Rightarrow>
          (case add_certificate cr now c b of
             (b', Inl e) \<Rightarrow> load_certificate_entries cr es n b'
           | (b', Inr _) \<Rightarrow> load_certificate_entries cr es (n + 1) b'))"

definition load_certificates_from_dir ::
  "crypto \<Rightarrow> (dir_entry \<times> u64) list option \<Rightarrow> CertificateBundle
     \<Rightarrow> CertificateBundle \<times> (SecurityError, nat) result" where
  "load_certificates_from_dir cr dir b =
     (case dir of None \<Rightarrow> (b, Inl (Err IoError)) | Some es \<Rightarrow> load_certificate_entries cr es 0 b)"

section \<open>The wire format\<close>

text \<open>What the format can carry: keys and signatures of their size, names of at most 255 bytes.\<close>

definition cert_ok :: "MeshCertificate \<Rightarrow> bool" where
  "cert_ok c \<longleftrightarrow>
     length (cert_subject c) = 32 \<and> length (cert_issuer c) = 32 \<and> length (cert_signature c) = 64 \<and>
     valid_string (cert_mesh_id c) \<and> length (cert_mesh_id c) < 256 \<and>
     valid_string (cert_node_id c) \<and> length (cert_node_id c) < 256"

lemma decode_tier_byte [simp]: "decode_tier (tier_byte t) = Inr t"
  by (cases t) (simp_all add: decode_tier_def tier_of_byte_def)

lemma decode_tier_eq_Inr: "decode_tier b = Inr t \<longleftrightarrow> b = tier_byte t"
  by (cases t) (auto simp: decode_tier_def tier_of_byte_def split: if_splits)

lemma decode_tier_not_panic [simp]: "decode_tier b \<noteq> Inl Panic"
  by (simp add: decode_tier_def split: option.splits)

lemma unat_len_byte [simp]: "n < 256 \<Longrightarrow> unat (word_of_nat n :: byte) = n"
  by (simp add: unat_of_nat)

lemma cert_read_encode: "cert_ok c \<Longrightarrow> cert_read (cert_encode c @ r) = Inr (c, r)"
  by (simp add: cert_ok_def cert_read_def cert_encode_def cert_signable_bytes_def unsigned_less)

lemma cert_read_canonical: "cert_read bs = Inr (c, r) \<Longrightarrow> cert_ok c \<and> bs = cert_encode c @ r"
  by (auto simp: cert_read_def cert_ok_def cert_encode_def cert_signable_bytes_def reader_eqs
      decode_tier_eq_Inr length_Suc_conv valid_string_def unat_of_nat split: prod.splits)

lemma cert_read_not_panic: "cert_read bs \<noteq> Inl Panic"
  by (auto simp: cert_read_def reader_eqs length_Suc_conv split: prod.splits)

interpretation cert_codec: canonical_codec cert_ok cert_encode id cert_read
  by unfold_locales (auto simp: cert_read_encode dest: cert_read_canonical)

lemma cert_signed_verifies:
  "crypto_laws cr \<Longrightarrow> cert_issuer c = public_key_bytes cr kp \<Longrightarrow> cert_verify cr (cert_signed cr c kp) = Inr ()"
  by (simp add: cert_verify_def cert_signed_def cert_sign_with_def cert_signable_bytes_def)

lemma cert_new_root_verifies:
  "crypto_laws cr \<Longrightarrow> cert_verify cr (cert_new_root cr kp mesh node tier issued expires) = Inr ()"
  unfolding cert_new_root_def Let_def cert_signed_def [symmetric]
  by (rule cert_signed_verifies) (simp_all add: cert_new_def)

lemma cert_new_root_fields:
  "cert_is_root (cert_new_root cr kp mesh node tier issued expires)"
  "cert_subject (cert_new_root cr kp mesh node tier issued expires) = public_key_bytes cr kp"
  "cert_has_permission (cert_new_root cr kp mesh node tier issued expires) PERM_ENROLL"
  "cert_is_valid (cert_new_root cr kp mesh node tier issued expires) now \<longleftrightarrow>
     issued \<le> now \<and> (expires = 0 \<or> now < expires)"
  by (simp_all add: cert_new_root_def cert_new_def Let_def cert_is_root_def cert_is_valid_def
      cert_sign_with_def cert_has_permission_def PERM_AUTHORITY_def PERM_RELAY_def
      PERM_EMERGENCY_def PERM_ENROLL_def PERM_ADMIN_def)

lemma cert_encode_inj: "cert_ok c \<Longrightarrow> cert_ok d \<Longrightarrow> cert_encode c = cert_encode d \<Longrightarrow> c = d"
  using cert_codec.rd_enc [of c "[]"] cert_codec.rd_enc [of d "[]"] by simp

lemma cert_signable_inj:
  assumes "cert_ok c" "cert_ok d" "cert_signable_bytes c = cert_signable_bytes d"
  shows "d = c\<lparr>cert_signature := cert_signature d\<rparr>"
proof -
  let ?c = "c\<lparr>cert_signature := cert_signature d\<rparr>"
  have "cert_ok ?c" and "cert_encode ?c = cert_encode d"
    using assms by (simp_all add: cert_ok_def cert_encode_def cert_signable_bytes_def)
  with assms show ?thesis
    using cert_encode_inj [of ?c d] by simp
qed

lemma cert_decode_encode: "cert_ok c \<Longrightarrow> cert_decode (cert_encode c @ r) = Inr c"
  using cert_codec.rd_enc [of c r] by (simp add: cert_decode_def)

lemma cert_decode_canonical: "cert_decode bs = Inr c \<Longrightarrow> cert_ok c \<and> (\<exists>r. bs = cert_encode c @ r)"
  by (auto simp: cert_decode_def rbind_eq_Inr dest: cert_codec.rd_canonical split: prod.splits)

lemma cert_decode_not_panic [simp]: "cert_decode bs \<noteq> Inl Panic"
  using cert_read_not_panic [of bs] by (auto simp: cert_decode_def rbind_eq_Inl split: prod.splits)

lemma length_cert_encode:
  "cert_ok c \<Longrightarrow> length (cert_encode c) = 148 + length (cert_mesh_id c) + length (cert_node_id c)"
  by (simp add: cert_ok_def cert_encode_def cert_signable_bytes_def)

text \<open>
  C17.  The certificate format.  A certificate with names of at most 255 bytes is
  decoded from its encoding, whatever follows; whatever is decoded is such a
  certificate and its encoding is the start of the input; the decoder panics on
  no input; and the signed bytes determine every field, so that a signature
  over them says nothing of any other certificate.
\<close>

theorem certificate_codec:
  "(cert_ok c \<longrightarrow> cert_decode (cert_encode c @ r) = Inr c) \<and>
   (cert_decode bs = Inr d \<longrightarrow> cert_ok d \<and> (\<exists>s. bs = cert_encode d @ s)) \<and>
   cert_decode bs \<noteq> Inl Panic \<and>
   (cert_ok c \<and> cert_ok d \<and> cert_signable_bytes c = cert_signable_bytes d \<longrightarrow>
      d = c\<lparr>cert_signature := cert_signature d\<rparr>)"
  using cert_decode_encode cert_decode_canonical cert_signable_inj by auto

definition sample_certificate :: MeshCertificate where
  "sample_certificate =
     cert_new (replicate 32 7) ''A1B2C3D4'' ''node-1'' Tactical PERM_STANDARD 1000 2000 (replicate 32 9)"

lemma sample_certificate_ok: "cert_ok sample_certificate"
  by code_simp

theorem certificate_codec_witness:
  "cert_decode (cert_encode sample_certificate @ [1, 2, 3]) = Inr sample_certificate \<and>
   cert_decode (replicate 147 0) \<noteq> Inl Panic"
  using certificate_codec [of sample_certificate "[1, 2, 3]" "replicate 147 0" sample_certificate]
    sample_certificate_ok by blast

section \<open>Chains of trust\<close>

text \<open>The operations that change a bundle; the ones that skip the checks are left out.\<close>

datatype bundle_call =
    AddAuthority "byte list"
  | AddCertificate u64 MeshCertificate
  | RemoveExpired u64
  | LoadAuthorities "dir_entry list option"
  | LoadCertificates "(dir_entry \<times> u64) list option"

fun bundle_step :: "crypto \<Rightarrow> bundle_call \<Rightarrow> CertificateBundle \<Rightarrow> CertificateBundle" where
  "bundle_step cr (AddAuthority pk) b = add_authority pk b"
| "bundle_step cr (AddCertificate now c) b = fst (add_certificate cr now c b)"
| "bundle_step cr (RemoveExpired now) b = fst (remove_expired now b)"
| "bundle_step cr (LoadAuthorities dir) b = fst (load_authorities_from_dir cr dir b)"
| "bundle_step cr (LoadCertificates dir) b = fst (load_certificates_from_dir cr dir b)"

definition bundle_run :: "crypto \<Rightarrow> bundle_call list \<Rightarrow> CertificateBundle \<Rightarrow> CertificateBundle" where
  "bundle_run cr calls = fold (bundle_step cr) calls"

text \<open>
  The anchors of a run: the keys it was given as authorities, and the keys of the
  self-signed certificates it was offered.
\<close>

fun entry_keys :: "dir_entry \<Rightarrow> byte list set" where
  "entry_keys (FileBytes bs) = {bs}"
| "entry_keys _ = {}"

fun entry_roots :: "dir_entry \<Rightarrow> byte list set" where
  "entry_roots (FileBytes bs) =
     (case cert_decode bs of
        Inr c \<Rightarrow> if cert_is_root c then {cert_subject c} else {}
      | Inl e \<Rightarrow> {})"
| "entry_roots _ = {}"

fun call_anchors :: "bundle_call \<Rightarrow> byte list set" where
  "call_anchors (AddAuthority pk) = {pk}"
| "call_anchors (AddCertificate now c) = (if cert_is_root c then {cert_subject c} else {})"
| "call_anchors (RemoveExpired now) = {}"
| "call_anchors (LoadAuthorities dir) = (case dir of None \<Rightarrow> {} | Some es \<Rightarrow> \<Union> (set (map entry_keys es)))"
| "call_anchors (LoadCertificates dir) =
     (case dir of None \<Rightarrow> {} | Some es \<Rightarrow> \<Union> (set (map (entry_roots \<circ> fst) es)))"

definition anchors :: "bundle_call list \<Rightarrow> byte list set" where
  "anchors calls = \<Union> (set (map call_anchors calls))"

text \<open>
  A certificate is anchored when its signature verifies and its issuer is an
  anchor, or holds an anchored certificate with the enrolment permission that
  was in its validity period at some time.
\<close>

inductive anchored :: "crypto \<Rightarrow> byte list set \<Rightarrow> MeshCertificate \<Rightarrow> bool" for cr A where
  anchor: "cert_verify cr c = Inr () \<Longrightarrow> cert_issuer c \<in> A \<Longrightarrow> anchored cr A c"
| delegate: "cert_verify cr c = Inr () \<Longrightarrow> anchored cr A d \<Longrightarrow> cert_subject d = cert_issuer c
    \<Longrightarrow> cert_has_permission d PERM_ENROLL \<Longrightarrow> cert_is_valid d t \<Longrightarrow> anchored cr A c"

lemma anchored_mono: "anchored cr A c \<Longrightarrow> A \<subseteq> B \<Longrightarrow> anchored cr B c"
  by (induction rule: anchored.induct) (auto intro: anchored.intros)

lemma anchored_verifies: "anchored cr A c \<Longrightarrow> cert_verify cr c = Inr ()"
  by (cases rule: anchored.cases) auto

definition bundle_inv :: "crypto \<Rightarrow> byte list set \<Rightarrow> CertificateBundle \<Rightarrow> bool" where
  "bundle_inv cr A b \<longleftrightarrow>
     set (authorities b) \<subseteq> A \<and>
     hm_wf (certificates b) \<and> hm_wf (node_id_index b) \<and>
     (\<forall>k c. hm_get (certificates b) k = Some c \<longrightarrow> cert_subject c = k \<and> anchored cr A c)"

lemma bundle_inv_new [simp]: "bundle_inv cr A bundle_new"
  by (simp add: bundle_inv_def bundle_new_def)

lemma bundle_inv_mono: "bundle_inv cr A b \<Longrightarrow> A \<subseteq> B \<Longrightarrow> bundle_inv cr B b"
  unfolding bundle_inv_def by (meson anchored_mono subset_trans)

lemma add_authority_inv: "bundle_inv cr A b \<Longrightarrow> bundle_inv cr (insert pk A) (add_authority pk b)"
  using bundle_inv_mono [of cr A b "insert pk A"]
  by (auto simp: add_authority_def bundle_inv_def)

lemma trusted_issuer_anchored:
  assumes "bundle_inv cr A b" "cert_verify cr c = Inr ()"
    and "cert_is_root c \<Longrightarrow> cert_subject c \<in> A"
    and "cert_is_root c \<or> is_trusted_issuer cr b (cert_issuer c) now"
  shows "anchored cr A c"
  using assms
  by (auto simp: is_trusted_issuer_def bundle_inv_def cert_is_root_def split: if_splits option.splits
      intro: anchored.intros)

lemma add_certificate_inv:
  assumes "bundle_inv cr A b" "cert_is_root c \<Longrightarrow> cert_subject c \<in> A"
  shows "bundle_inv cr A (fst (add_certificate cr now c b))"
proof -
  have "bundle_inv cr A (add_certificate_unchecked c b)" if "anchored cr A c"
    using assms(1) that by (simp add: bundle_inv_def add_certificate_unchecked_def)
  moreover have "fst (add_certificate cr now c b) = b \<or>
      (anchored cr A c \<and> fst (add_certificate cr now c b) = add_certificate_unchecked c b)"
    using trusted_issuer_anchored [OF assms(1) _ assms(2), of now]
    by (auto simp: add_certificate_def add_certificate_unchecked_def split: sum.splits)
  ultimately show ?thesis
    using assms(1) by metis
qed

lemma load_authority_entries_inv:
  "bundle_inv cr A b \<Longrightarrow> \<Union> (set (map entry_keys es)) \<subseteq> A \<Longrightarrow>
     bundle_inv cr A (fst (load_authority_entries cr es n b))"
proof (induction cr es n b rule: load_authority_entries.induct)
  case (5 cr bs es n b)
  then show ?case
    using add_authority_inv [of cr A b bs] by (simp add: insert_absorb)
qed simp_all

lemma load_certificate_entries_inv:
  "bundle_inv cr A b \<Longrightarrow> \<Union> (set (map (entry_roots \<circ> fst) es)) \<subseteq> A \<Longrightarrow>
     bundle_inv cr A (fst (load_certificate_entries cr es n b))"
proof (induction cr es n b rule: load_certificate_entries.induct)
  case (5 cr bs now es n b)
  show ?case
  proof (cases "cert_decode bs")
    case (Inl e)
    then show ?thesis
      using 5(1) [of _ "case e of Err x \<Rightarrow> x"] 5(4,5) by (cases e) simp_all
  next
    case (Inr c)
    obtain b' res where add: "add_certificate cr now c b = (b', res)"
      by fastforce
    then have "bundle_inv cr A b'"
      using 5(4,5) Inr add_certificate_inv [of cr A b c now] by (simp split: if_splits)
    then show ?thesis
      using 5(2) [OF Inr add [symmetric]] 5(3) [OF Inr add [symmetric]] 5(5) Inr add
      by (cases res) simp_all
  qed
qed simp_all

lemma drop_index_wf: "hm_wf idx \<Longrightarrow> hm_wf (fold (drop_index now) cs idx)"
  by (induction cs arbitrary: idx) (simp_all add: drop_index_def)

lemma hm_get_drop_index:
  "hm_get (fold (drop_index now) cs idx) n =
     (if n \<noteq> [] \<and> (\<exists>e \<in> set cs. \<not> cert_is_valid (snd e) now \<and> cert_node_id (snd e) = n) then None
      else hm_get idx n)"
proof (induction cs arbitrary: idx)
  case (Cons e cs)
  then show ?case
    by (cases "\<not> cert_is_valid (snd e) now \<and> cert_node_id (snd e) \<noteq> []") (auto simp: drop_index_def)
qed simp

lemma remove_expired_certificates:
  "hm_wf (certificates b) \<Longrightarrow>
     (hm_get (certificates (fst (remove_expired now b))) k = Some c \<longleftrightarrow>
        hm_get (certificates b) k = Some c \<and> cert_is_valid c now)"
  by (cases "hm_get (certificates b) k") (auto simp: remove_expired_def Let_def hm_get_retain)

lemma remove_expired_inv: "bundle_inv cr A b \<Longrightarrow> bundle_inv cr A (fst (remove_expired now b))"
  using remove_expired_certificates [of b now]
  by (simp add: bundle_inv_def remove_expired_def Let_def drop_index_wf) blast

lemma bundle_step_inv:
  assumes "bundle_inv cr A b" "call_anchors call \<subseteq> A"
  shows "bundle_inv cr A (bundle_step cr call b)"
proof (cases call)
  case (AddAuthority pk)
  then show ?thesis
    using assms add_authority_inv [OF assms(1), of pk] by (simp add: insert_absorb)
next
  case (AddCertificate now c)
  then show ?thesis
    using assms add_certificate_inv [OF assms(1), of c now] by (auto split: if_splits)
next
  case (LoadAuthorities dir)
  then show ?thesis
    using assms load_authority_entries_inv [OF assms(1)]
    by (simp add: load_authorities_from_dir_def split: option.splits)
next
  case (LoadCertificates dir)
  then show ?thesis
    using assms load_certificate_entries_inv [OF assms(1)]
    by (simp add: load_certificates_from_dir_def split: option.splits)
qed (use assms remove_expired_inv in auto)

lemma bundle_run_inv: "bundle_inv cr (anchors calls) (bundle_run cr calls bundle_new)"
proof -
  have "bundle_inv cr A (fold (bundle_step cr) cs b)"
    if "bundle_inv cr A b" "\<Union> (set (map call_anchors cs)) \<subseteq> A" for A cs b
    using that by (induction cs arbitrary: b) (simp_all add: bundle_step_inv)
  then show ?thesis
    by (simp add: bundle_run_def anchors_def)
qed

lemma validate_peer_iff:
  "validate_peer cr b pk now \<longleftrightarrow>
     (\<exists>c. get_certificate b pk = Some c \<and> cert_is_valid c now \<and> cert_verify cr c = Inr ())"
  by (auto simp: validate_peer_def get_certificate_def split: option.splits)

lemma validate_node_id_iff:
  "validate_node_id cr b n now \<longleftrightarrow>
     (\<exists>pk. hm_get (node_id_index b) n = Some pk \<and> validate_peer cr b pk now)"
  by (auto simp: validate_node_id_def validate_peer_def get_certificate_by_node_id_def split: option.splits bind_splits)

text \<open>
  C2.  The chain of trust.  After any sequence of checked operations on a new
  bundle, a peer that the bundle accepts has a certificate for its own key that
  is in its validity period, whose signature verifies, and that leads, through
  holders of the enrolment permission, to an anchor: a key the bundle was given
  as an authority, or the key of a self-signed certificate it was offered.  A
  node name is accepted only when it leads to such a peer.
\<close>

theorem bundle_chain_of_trust:
  assumes "b = bundle_run cr calls bundle_new"
  shows "(validate_peer cr b pk now \<longrightarrow>
      (\<exists>c. get_certificate b pk = Some c \<and> cert_subject c = pk \<and> cert_is_valid c now \<and>
           anchored cr (anchors calls) c)) \<and>
    (validate_node_id cr b n now \<longrightarrow>
      (\<exists>k c. hm_get (node_id_index b) n = Some k \<and> get_certificate b k = Some c \<and>
             cert_subject c = k \<and> cert_is_valid c now \<and> anchored cr (anchors calls) c))"
proof -
  have chain: "\<exists>c. get_certificate b k = Some c \<and> cert_subject c = k \<and> cert_is_valid c now \<and>
      anchored cr (anchors calls) c" if "validate_peer cr b k now" for k
    using that bundle_run_inv [of cr calls]
    unfolding assms bundle_inv_def validate_peer_iff by (auto simp: get_certificate_def)
  then show ?thesis
    unfolding validate_node_id_iff by blast
qed

definition sample_authority :: DeviceKeypair where
  "sample_authority = \<lparr>signing_key = replicate 32 9\<rparr>"

lemma sample_authority_key: "public_key_bytes sample_crypto sample_authority = replicate 32 9"
  by (simp add: public_key_bytes_def sample_crypto_def sample_authority_def pad_def)

definition sample_calls :: "bundle_call list" where
  "sample_calls =
     [AddAuthority (replicate 32 9),
      AddCertificate 1500 (cert_signed sample_crypto sample_certificate sample_authority)]"

theorem bundle_chain_of_trust_witness:
  "validate_peer sample_crypto (bundle_run sample_crypto sample_calls bundle_new) (replicate 32 7) 1600 \<and>
   (\<exists>c. anchored sample_crypto (anchors sample_calls) c \<and> cert_subject c = replicate 32 7)"
proof -
  let ?c = "cert_signed sample_crypto sample_certificate sample_authority"
  have "cert_subject ?c = replicate 32 7" "cert_issuer ?c = replicate 32 9" "cert_is_valid ?c 1600"
    by (simp_all add: cert_signed_def cert_sign_with_def sample_certificate_def cert_new_def cert_is_valid_def)
  moreover have "cert_verify sample_crypto ?c = Inr ()"
    by (rule cert_signed_verifies)
      (simp_all add: sample_crypto_laws sample_authority_key sample_certificate_def cert_new_def)
  ultimately have "validate_peer sample_crypto (bundle_run sample_crypto sample_calls bundle_new) (replicate 32 7) 1600"
    by (simp add: validate_peer_def bundle_run_def sample_calls_def add_certificate_def is_trusted_issuer_def
        add_authority_def bundle_new_def)
  with bundle_chain_of_trust [OF refl, of sample_crypto sample_calls "replicate 32 7" 1600 "[]"]
  show ?thesis
    by blast
qed

text \<open>
  How far the anchors reach.  Whatever a bundle holds and whichever
  authorities it was given, the owner of any key pair can have a certificate
  admitted for any other key, with any tier and any permissions: a self-signed
  certificate is accepted without looking at the authorities, carries every
  permission, and with it the key counts as a trusted issuer.  The two calls
  succeed, leave the authorities as they were, and the peer and its name
  are validated from then on until the certificate expires.
\<close>

lemma self_signed_anchor_admits:
  fixes b :: CertificateBundle
  assumes "crypto_laws cr" "issued \<le> now" "subject \<noteq> public_key_bytes cr kp" "node \<noteq> []"
    and "root = cert_new_root cr kp mesh0 node0 tier0 issued 0"
    and "c = cert_signed cr (cert_new subject mesh node tier perms now expires (public_key_bytes cr kp)) kp"
    and "add_certificate cr now root b = (b1, r1)" "add_certificate cr now c b1 = (b2, r2)"
  shows "r1 = Inr () \<and> r2 = Inr () \<and> authorities b2 = authorities b \<and>
    get_peer_tier b2 subject = Some tier \<and> get_peer_permissions b2 subject = Some perms \<and>
    (\<forall>t. now \<le> t \<and> (expires = 0 \<or> t < expires) \<longrightarrow>
       validate_peer cr b2 subject t \<and> validate_node_id cr b2 node t)"
proof -
  have root: "cert_verify cr root = Inr ()" "cert_is_root root" "cert_subject root = public_key_bytes cr kp"
      "cert_has_permission root PERM_ENROLL" "cert_is_valid root now"
    using assms(1,2) unfolding assms(5) by (simp_all add: cert_new_root_verifies cert_new_root_fields)
  have c: "cert_verify cr c = Inr ()"
    unfolding assms(6) by (rule cert_signed_verifies [OF assms(1)]) (simp add: cert_new_def)
  have flds: "cert_subject c = subject" "cert_node_id c = node" "cert_tier c = tier" "cert_permissions c = perms"
      "cert_issuer c = public_key_bytes cr kp" "cert_issued_at c = now" "cert_expires_at c = expires"
    unfolding assms(6) by (simp_all add: cert_signed_def cert_sign_with_def cert_new_def)
  have b1: "r1 = Inr ()" "b1 = add_certificate_unchecked root b"
    using assms(7) root by (simp_all add: add_certificate_def add_certificate_unchecked_def)
  then have "is_trusted_issuer cr b1 (cert_issuer c) now"
    using root flds by (simp add: is_trusted_issuer_def add_certificate_unchecked_def)
  then have "r2 = Inr ()" "b2 = add_certificate_unchecked c b1"
    using assms(8) c by (simp_all add: add_certificate_def add_certificate_unchecked_def)
  with b1 c flds assms(4) show ?thesis
    by (simp add: add_certificate_unchecked_def get_peer_tier_def get_peer_permissions_def validate_node_id_iff
        validate_peer_def cert_is_valid_def)
qed

text \<open>
  Expiry.  Removing expired certificates keeps exactly the certificates
  that are valid at that time and reports how many went; every peer validates
  as before.  A name validates afterwards exactly when it did before and no
  removed certificate carried the same name: the name of an expired certificate
  leaves the index even when the index already points at its successor.
\<close>

lemma remove_expired_exact:
  assumes "hm_wf (certificates b)" "n \<noteq> []" "remove_expired now b = (b', removed)"
  shows "certificates b' = hm_retain (\<lambda>k c. cert_is_valid c now) (certificates b) \<and>
    removed + length (certificates b') = length (certificates b) \<and>
    validate_peer cr b' pk now = validate_peer cr b pk now \<and>
    (validate_node_id cr b' n now \<longleftrightarrow>
       validate_node_id cr b n now \<and>
       (\<forall>k c. hm_get (certificates b) k = Some c \<and> cert_node_id c = n \<longrightarrow> cert_is_valid c now))"
proof -
  have b': "b' = fst (remove_expired now b)" and removed: "removed = snd (remove_expired now b)"
    using assms(3) by simp_all
  have peer: "validate_peer cr b' k now = validate_peer cr b k now" for k
    using remove_expired_certificates [OF assms(1), of now] unfolding b' validate_peer_iff get_certificate_def by blast
  have "hm_get (node_id_index b') n =
      (if \<exists>k c. hm_get (certificates b) k = Some c \<and> \<not> cert_is_valid c now \<and> cert_node_id c = n
       then None else hm_get (node_id_index b) n)"
    using assms(1,2) unfolding b'
    by (force simp: remove_expired_def Let_def hm_get_drop_index hm_wf_def)
  then have "validate_node_id cr b' n now \<longleftrightarrow> validate_node_id cr b n now \<and>
       (\<forall>k c. hm_get (certificates b) k = Some c \<and> cert_node_id c = n \<longrightarrow> cert_is_valid c now)"
    unfolding validate_node_id_iff peer by auto
  moreover have "length (hm_retain P m) \<le> length m" for P and m :: "(byte list, MeshCertificate) hmap"
    by (simp add: hm_retain_def)
  ultimately show ?thesis
    using peer by (simp add: b' removed remove_expired_def Let_def)
qed

definition outsider :: DeviceKeypair where
  "outsider = \<lparr>signing_key = replicate 32 66\<rparr>"


text \<open>
  A certificate that renames a node leaves its earlier name in the index: the
  earlier name resolves to the new certificate.
\<close>

lemma renamed_node_keeps_old_name:
  assumes "get_certificate_by_node_id b n = Some old" "hm_get (node_id_index b) n = Some (cert_subject c)"
    and "cert_node_id c \<noteq> n"
  shows "get_certificate_by_node_id (add_certificate_unchecked c b) n = Some c"
  using assms by (simp add: get_certificate_by_node_id_def add_certificate_unchecked_def)

text \<open>A node renewed under a new key before its first certificate runs out.\<close>

definition renewed_bundle :: CertificateBundle where
  "renewed_bundle =
     (let old = cert_signed sample_crypto sample_certificate sample_authority;
          new = cert_signed sample_crypto
                  (sample_certificate\<lparr>cert_subject := replicate 32 8, cert_expires_at := 5000\<rparr>) sample_authority
      in add_certificate_unchecked new (add_certificate_unchecked old bundle_new))"


end
