(* ===== verification/Enrollment.thy ===== *)
theory Enrollment
  imports Certificate
begin

text \<open>
  How a node becomes a member: the enrolment protocol of
  \<^verbatim>\<open>src/security/enrollment.rs\<close> (request and response formats, the static service) and
  the genesis of a mesh, \<^verbatim>\<open>src/security/genesis.rs\<close> (derived secrets, certificates issued
  by the founding authority, the stored genesis and the shared credentials).
\<close>

section \<open>Enrolment requests\<close>

datatype EnrollmentStatus = Pending | Approved | Denied string | Revoked string

fun status_byte :: "EnrollmentStatus \<Rightarrow> byte" where
  "status_byte Pending = 0"
| "status_byte Approved = 1"
| "status_byte (Denied why) = 2"
| "status_byte (Revoked why) = 3"

record EnrollmentRequest =
  req_subject :: "byte list"
  req_mesh_id :: string
  req_node_id :: string
  req_tier :: MeshTier
  req_token :: "byte list"
  req_timestamp :: u64
  req_signature :: "byte list"

text \<open>Lengths are cast to \<^verbatim>\<open>u8\<close> and \<^verbatim>\<open>u16\<close>, which keeps the low bits.\<close>

definition write_len16 :: "nat \<Rightarrow> byte list" where
  "write_len16 n = le_bytes 2 (unat (word_of_nat n :: u16))"

definition request_signable_bytes :: "EnrollmentRequest \<Rightarrow> byte list" where
  "request_signable_bytes q =
       req_subject q
     @ [word_of_nat (length (as_bytes (req_mesh_id q)))]
     @ as_bytes (req_mesh_id q)
     @ [word_of_nat (length (as_bytes (req_node_id q)))]
     @ as_bytes (req_node_id q)
     @ [tier_byte (req_tier q)]
     @ write_len16 (length (req_token q))
     @ req_token q
     @ le_bytes 8 (unat (req_timestamp q))"

definition request_encode :: "EnrollmentRequest \<Rightarrow> byte list" where
  "request_encode q = request_signable_bytes q @ req_signature q"

definition request_new ::
  "crypto \<Rightarrow> DeviceKeypair \<Rightarrow> string \<Rightarrow> string \<Rightarrow> MeshTier \<Rightarrow> byte list \<Rightarrow> u64 \<Rightarrow> EnrollmentRequest" where
  "request_new cr kp mesh node tier token now =
     (let q = \<lparr>req_subject = public_key_bytes cr kp, req_mesh_id = mesh, req_node_id = node,
               req_tier = tier, req_token = token, req_timestamp = now, req_signature = replicate 64 0\<rparr>
      in q\<lparr>req_signature := keypair_sign cr kp (request_signable_bytes q)\<rparr>)"

definition request_verify_signature :: "crypto \<Rightarrow> EnrollmentRequest \<Rightarrow> (SecurityError, unit) result" where
  "request_verify_signature cr q =
     rbind (ensure (ed_point cr (req_subject q)) (InvalidPublicKey ''subject'')) (\<lambda>_.
     ensure (ed_verify cr (req_subject q) (request_signable_bytes q) (req_signature q))
       (InvalidSignature ''enrollment request''))"

definition request_read :: "byte list \<Rightarrow> (SecurityError, EnrollmentRequest \<times> byte list) result" where
  "request_read bs =
     rbind (ensure (109 \<le> length bs) (SerializationError ''enrollment request too short'')) (\<lambda>_.
     rbind (slice 32 bs) (\<lambda>(subject, r1).
     rbind (slice 1 r1) (\<lambda>(ml, r2).
     rbind (ensure (33 + unat (hd ml) + 1 \<le> length bs)
       (SerializationError ''enrollment request truncated at mesh_id'')) (\<lambda>_.
     rbind (slice (unat (hd ml)) r2) (\<lambda>(mb, r3).
     rbind (from_utf8 (SerializationError ''invalid mesh_id'') mb) (\<lambda>mesh.
     rbind (slice 1 r3) (\<lambda>(nl, r4).
     rbind (ensure (34 + unat (hd ml) + unat (hd nl) + 1 + 2 \<le> length bs)
       (SerializationError ''enrollment request truncated at node_id'')) (\<lambda>_.
     rbind (slice (unat (hd nl)) r4) (\<lambda>(nb, r5).
     rbind (from_utf8 (SerializationError ''invalid node_id'') nb) (\<lambda>node.
     rbind (slice 1 r5) (\<lambda>(tb, r6).
     rbind (decode_tier (hd tb)) (\<lambda>tier.
     rbind (slice 2 r6) (\<lambda>(kl, r7).
     rbind (ensure (37 + unat (hd ml) + unat (hd nl) + le_val kl + 8 + 64 \<le> length bs)
       (SerializationError ''enrollment request truncated at token'')) (\<lambda>_.
     rbind (slice (le_val kl) r7) (\<lambda>(token, r8).
     rbind (slice 8 r8) (\<lambda>(tsb, r9).
     rbind (slice 64 r9) (\<lambda>(sg, r10).
     Inr (\<lparr>req_subject = subject, req_mesh_id = mesh, req_node_id = node, req_tier = tier,
           req_token = token, req_timestamp = word_of_nat (le_val tsb),
           req_signature = sg\<rparr>, r10))))))))))))))))))"

definition request_decode :: "byte list \<Rightarrow> (SecurityError, EnrollmentRequest) result" where
  "request_decode bs = rbind (request_read bs) (\<lambda>(q, r). Inr q)"

section \<open>Enrolment responses\<close>

record EnrollmentResponse =
  resp_status :: EnrollmentStatus
  resp_certificate :: "MeshCertificate option"
  resp_formation_secret :: "byte list option"
  resp_timestamp :: u64

definition response_approved :: "MeshCertificate \<Rightarrow> byte list option \<Rightarrow> u64 \<Rightarrow> EnrollmentResponse" where
  "response_approved c secret ts =
     \<lparr>resp_status = Approved, resp_certificate = Some c, resp_formation_secret = secret, resp_timestamp = ts\<rparr>"

definition response_denied :: "string \<Rightarrow> u64 \<Rightarrow> EnrollmentResponse" where
  "response_denied why ts =
     \<lparr>resp_status = Denied why, resp_certificate = None, resp_formation_secret = None, resp_timestamp = ts\<rparr>"

definition response_pending :: "u64 \<Rightarrow> EnrollmentResponse" where
  "response_pending ts =
     \<lparr>resp_status = Pending, resp_certificate = None, resp_formation_secret = None, resp_timestamp = ts\<rparr>"

fun status_reason :: "EnrollmentStatus \<Rightarrow> string" where
  "status_reason (Denied why) = why"
| "status_reason (Revoked why) = why"
| "status_reason _ = []"

fun write_blob16 :: "byte list option \<Rightarrow> byte list" where
  "write_blob16 (Some bs) = [1] @ write_len16 (length bs) @ bs"
| "write_blob16 None = [0]"

definition response_encode :: "EnrollmentResponse \<Rightarrow> byte list" where
  "response_encode p =
       [status_byte (resp_status p)]
     @ write_len16 (length (as_bytes (status_reason (resp_status p))))
     @ as_bytes (status_reason (resp_status p))
     @ write_blob16 (map_option cert_encode (resp_certificate p))
     @ write_blob16 (resp_formation_secret p)
     @ le_bytes 8 (unat (resp_timestamp p))"

definition decode_status :: "byte \<Rightarrow> string \<Rightarrow> (SecurityError, EnrollmentStatus) result" where
  "decode_status b why =
     (if b = 0 then Inr Pending
      else if b = 1 then Inr Approved
      else if b = 2 then Inr (Denied why)
      else if b = 3 then Inr (Revoked why)
      else Inl (Err (SerializationError ''invalid status byte'')))"

text \<open>A flag byte and, when it is one, a counted block; the three errors are of the caller.\<close>

definition read_blob16 ::
  "string \<Rightarrow> string \<Rightarrow> string \<Rightarrow> byte list \<Rightarrow> (SecurityError, byte list option \<times> byte list) result" where
  "read_blob16 e_flag e_len e_body bs =
     rbind (ensure (bs \<noteq> []) (SerializationError e_flag)) (\<lambda>_.
     rbind (slice 1 bs) (\<lambda>(flag, r1).
     if hd flag = 1 then
       rbind (ensure (2 \<le> length r1) (SerializationError e_len)) (\<lambda>_.
       rbind (slice 2 r1) (\<lambda>(lb, r2).
       rbind (ensure (le_val lb \<le> length r2) (SerializationError e_body)) (\<lambda>_.
       rbind (slice (le_val lb) r2) (\<lambda>(body, r3). Inr (Some body, r3)))))
     else Inr (None, r1)))"

definition response_read :: "byte list \<Rightarrow> (SecurityError, EnrollmentResponse \<times> byte list) result" where
  "response_read bs =
     rbind (ensure (13 \<le> length bs) (SerializationError ''enrollment response too short'')) (\<lambda>_.
     rbind (slice 1 bs) (\<lambda>(sb, r1).
     rbind (slice 2 r1) (\<lambda>(rl, r2).
     rbind (ensure (3 + le_val rl < length bs)
       (SerializationError ''enrollment response truncated at reason'')) (\<lambda>_.
     rbind (slice (le_val rl) r2) (\<lambda>(rb, r3).
     rbind (if 0 < le_val rl then from_utf8 (SerializationError ''invalid reason'') rb else Inr []) (\<lambda>why.
     rbind (decode_status (hd sb) why) (\<lambda>status.
     rbind (read_blob16 ''enrollment response truncated at certificate flag''
       ''enrollment response truncated at cert_len''
       ''enrollment response truncated at certificate'' r3) (\<lambda>(cb, r4).
     rbind (case cb of None \<Rightarrow> Inr None | Some body \<Rightarrow> rbind (cert_decode body) (\<lambda>c. Inr (Some c))) (\<lambda>cert.
     rbind (read_blob16 ''enrollment response truncated at secret flag''
       ''enrollment response truncated at secret_len''
       ''enrollment response truncated at secret'' r4) (\<lambda>(secret, r5).
     rbind (ensure (8 \<le> length r5)
       (SerializationError ''enrollment response truncated at timestamp'')) (\<lambda>_.
     rbind (slice 8 r5) (\<lambda>(tsb, r6).
     Inr (\<lparr>resp_status = status, resp_certificate = cert, resp_formation_secret = secret,
           resp_timestamp = word_of_nat (le_val tsb)\<rparr>, r6)))))))))))))"

definition response_decode :: "byte list \<Rightarrow> (SecurityError, EnrollmentResponse) result" where
  "response_decode bs = rbind (response_read bs) (\<lambda>(p, r). Inr p)"

section \<open>The static enrolment service\<close>

record StaticEnrollmentService =
  svc_authority :: DeviceKeypair
  svc_mesh_id :: string
  allowed_tokens :: "(byte list, MeshTier \<times> byte) hmap"
  validity_ms :: u64

definition service_new :: "DeviceKeypair \<Rightarrow> string \<Rightarrow> u64 \<Rightarrow> StaticEnrollmentService" where
  "service_new authority mesh validity =
     \<lparr>svc_authority = authority, svc_mesh_id = mesh, allowed_tokens = [], validity_ms = validity\<rparr>"

definition add_token ::
  "byte list \<Rightarrow> MeshTier \<Rightarrow> byte \<Rightarrow> StaticEnrollmentService \<Rightarrow> StaticEnrollmentService" where
  "add_token token tier perms svc =
     svc\<lparr>allowed_tokens := hm_insert token (tier, perms) (allowed_tokens svc)\<rparr>"

text \<open>
  \<open>clock\<close> is the reading of the system clock in milliseconds, or \<open>None\<close> before the
  epoch, where the \<^verbatim>\<open>unwrap\<close> panics.  The sum of the reading and the validity wraps.
\<close>

definition process_request ::
  "crypto \<Rightarrow> StaticEnrollmentService \<Rightarrow> u64 option \<Rightarrow> EnrollmentRequest
     \<Rightarrow> (SecurityError, EnrollmentResponse) result" where
  "process_request cr svc clock q =
     rbind (request_verify_signature cr q) (\<lambda>_.
     if req_mesh_id q \<noteq> svc_mesh_id svc then
       Inr (response_denied
         (''mesh ID mismatch: expected '' @ svc_mesh_id svc @ '', got '' @ req_mesh_id q) (req_timestamp q))
     else
       (case hm_get (allowed_tokens svc) (req_token q) of
          None \<Rightarrow> Inr (response_denied ''invalid bootstrap token'' (req_timestamp q))
        | Some (tier, perms) \<Rightarrow>
            (case clock of
               None \<Rightarrow> Inl Panic
             | Some now \<Rightarrow>
                 let c = cert_signed cr
                       (cert_new (req_subject q) (svc_mesh_id svc) (req_node_id q) tier perms now
                         (now + validity_ms svc) (public_key_bytes cr (svc_authority svc)))
                       (svc_authority svc)
                 in Inr (response_approved c None now))))"

definition check_status :: "StaticEnrollmentService \<Rightarrow> byte list \<Rightarrow> (SecurityError, EnrollmentStatus) result" where
  "check_status svc pk = Inr Pending"

definition revoke :: "StaticEnrollmentService \<Rightarrow> byte list \<Rightarrow> string \<Rightarrow> (SecurityError, unit) result" where
  "revoke svc pk why = Inl (Err (Internal ''static enrollment service does not support revocation''))"

section \<open>Mesh genesis\<close>

datatype MembershipPolicy = OpenMembership | Controlled | Strict

fun policy_byte :: "MembershipPolicy \<Rightarrow> byte" where
  "policy_byte OpenMembership = 0"
| "policy_byte Controlled = 1"
| "policy_byte Strict = 2"

definition policy_of_byte :: "byte \<Rightarrow> MembershipPolicy option" where
  "policy_of_byte b =
     (if b = 0 then Some OpenMembership
      else if b = 1 then Some Controlled
      else if b = 2 then Some Strict
      else None)"

fun policy_name :: "MembershipPolicy \<Rightarrow> string" where
  "policy_name OpenMembership = ''Open''"
| "policy_name Controlled = ''Controlled''"
| "policy_name Strict = ''Strict''"

record MeshGenesis =
  mesh_name :: string
  mesh_seed :: "byte list"
  gen_authority :: DeviceKeypair
  created_at_ms :: u64
  gen_policy :: MembershipPolicy

record MeshCredentials =
  cred_mesh_id :: string
  cred_mesh_name :: string
  cred_formation_secret :: "byte list"
  cred_authority_key :: "byte list"
  cred_policy :: MembershipPolicy

definition genesis_with_seed ::
  "crypto \<Rightarrow> u64 \<Rightarrow> string \<Rightarrow> byte list \<Rightarrow> MembershipPolicy \<Rightarrow> MeshGenesis" where
  "genesis_with_seed cr now name seed pol =
     \<lparr>mesh_name = name, mesh_seed = seed,
      gen_authority = keypair_from_seed cr seed ''peat-mesh:authority-keypair'',
      created_at_ms = now, gen_policy = pol\<rparr>"

definition genesis_with_authority ::
  "u64 \<Rightarrow> string \<Rightarrow> byte list \<Rightarrow> DeviceKeypair \<Rightarrow> MembershipPolicy \<Rightarrow> MeshGenesis" where
  "genesis_with_authority now name seed authority pol =
     \<lparr>mesh_name = name, mesh_seed = seed, gen_authority = authority,
      created_at_ms = now, gen_policy = pol\<rparr>"

definition genesis_derive :: "crypto \<Rightarrow> MeshGenesis \<Rightarrow> string \<Rightarrow> byte list" where
  "genesis_derive cr g ctx = hkdf_sha256 cr (Some (as_bytes (mesh_name g))) (mesh_seed g) (as_bytes ctx)"

text \<open>\<^verbatim>\<open>format!("{:02X}", b)\<close>: two uppercase hexadecimal digits.\<close>

definition upper_hex_byte :: "byte \<Rightarrow> string" where
  "upper_hex_byte b =
     [''0123456789ABCDEF'' ! (unat b div 16), ''0123456789ABCDEF'' ! (unat b mod 16)]"

definition genesis_mesh_id :: "crypto \<Rightarrow> MeshGenesis \<Rightarrow> string" where
  "genesis_mesh_id cr g =
     (let h = genesis_derive cr g ''peat-mesh:mesh-id''
      in upper_hex_byte (h ! 0) @ upper_hex_byte (h ! 1) @ upper_hex_byte (h ! 2) @ upper_hex_byte (h ! 3))"

definition genesis_formation_secret :: "crypto \<Rightarrow> MeshGenesis \<Rightarrow> byte list" where
  "genesis_formation_secret cr g = genesis_derive cr g ''peat-mesh:formation-secret''"

definition genesis_authority_public_key :: "crypto \<Rightarrow> MeshGenesis \<Rightarrow> byte list" where
  "genesis_authority_public_key cr g = public_key_bytes cr (gen_authority g)"

definition root_certificate :: "crypto \<Rightarrow> u64 \<Rightarrow> MeshGenesis \<Rightarrow> string \<Rightarrow> MeshCertificate" where
  "root_certificate cr now g node =
     cert_new_root cr (gen_authority g) (genesis_mesh_id cr g) node Enterprise now 0"

definition issue_certificate ::
  "crypto \<Rightarrow> u64 \<Rightarrow> MeshGenesis \<Rightarrow> byte list \<Rightarrow> string \<Rightarrow> MeshTier \<Rightarrow> byte \<Rightarrow> u64 \<Rightarrow> MeshCertificate" where
  "issue_certificate cr now g subject node tier perms validity =
     (let expires = (if validity = 0 then 0 else now + validity)
      in cert_signed cr
           (cert_new subject (genesis_mesh_id cr g) node tier perms now expires
             (public_key_bytes cr (gen_authority g)))
           (gen_authority g))"

definition genesis_credentials :: "crypto \<Rightarrow> MeshGenesis \<Rightarrow> MeshCredentials" where
  "genesis_credentials cr g =
     \<lparr>cred_mesh_id = genesis_mesh_id cr g, cred_mesh_name = mesh_name g,
      cred_formation_secret = genesis_formation_secret cr g,
      cred_authority_key = genesis_authority_public_key cr g, cred_policy = gen_policy g\<rparr>"

definition genesis_encode :: "MeshGenesis \<Rightarrow> byte list" where
  "genesis_encode g =
       write_len16 (length (as_bytes (mesh_name g)))
     @ as_bytes (mesh_name g)
     @ mesh_seed g
     @ secret_key_bytes (gen_authority g)
     @ le_bytes 8 (unat (created_at_ms g))
     @ [policy_byte (gen_policy g)]"

definition decode_policy :: "byte \<Rightarrow> (SecurityError, MembershipPolicy) result" where
  "decode_policy b =
     (case policy_of_byte b of
        Some p \<Rightarrow> Inr p
      | None \<Rightarrow> Inl (Err (SerializationError ''invalid policy byte'')))"

definition genesis_read :: "byte list \<Rightarrow> (SecurityError, MeshGenesis \<times> byte list) result" where
  "genesis_read bs =
     rbind (ensure (75 \<le> length bs) (SerializationError ''genesis too short'')) (\<lambda>_.
     rbind (slice 2 bs) (\<lambda>(lb, r1).
     rbind (ensure (75 + le_val lb \<le> length bs)
       (SerializationError ''genesis truncated at mesh_name'')) (\<lambda>_.
     rbind (slice (le_val lb) r1) (\<lambda>(nb, r2).
     rbind (from_utf8 (SerializationError ''invalid mesh_name'') nb) (\<lambda>name.
     rbind (slice 32 r2) (\<lambda>(seed, r3).
     rbind (slice 32 r3) (\<lambda>(key, r4).
     rbind (from_secret_bytes key) (\<lambda>authority.
     rbind (slice 8 r4) (\<lambda>(tsb, r5).
     rbind (slice 1 r5) (\<lambda>(pb, r6).
     rbind (decode_policy (hd pb)) (\<lambda>pol.
     Inr (\<lparr>mesh_name = name, mesh_seed = seed, gen_authority = authority,
           created_at_ms = word_of_nat (le_val tsb), gen_policy = pol\<rparr>, r6))))))))))))"

definition genesis_decode :: "byte list \<Rightarrow> (SecurityError, MeshGenesis) result" where
  "genesis_decode bs = rbind (genesis_read bs) (\<lambda>(g, r). Inr g)"

definition credentials_encode :: "MeshCredentials \<Rightarrow> byte list" where
  "credentials_encode c =
       write_len16 (length (as_bytes (cred_mesh_name c)))
     @ as_bytes (cred_mesh_name c)
     @ as_bytes (cred_mesh_id c)
     @ cred_formation_secret c
     @ cred_authority_key c
     @ [policy_byte (cred_policy c)]"

definition credentials_read :: "byte list \<Rightarrow> (SecurityError, MeshCredentials \<times> byte list) result" where
  "credentials_read bs =
     rbind (ensure (75 \<le> length bs) (SerializationError ''credentials too short'')) (\<lambda>_.
     rbind (slice 2 bs) (\<lambda>(lb, r1).
     rbind (ensure (75 + le_val lb \<le> length bs)
       (SerializationError ''credentials truncated at mesh_name'')) (\<lambda>_.
     rbind (slice (le_val lb) r1) (\<lambda>(nb, r2).
     rbind (from_utf8 (SerializationError ''invalid mesh_name'') nb) (\<lambda>name.
     rbind (slice 8 r2) (\<lambda>(mb, r3).
     rbind (from_utf8 (SerializationError ''invalid mesh_id'') mb) (\<lambda>mesh.
     rbind (slice 32 r3) (\<lambda>(secret, r4).
     rbind (slice 32 r4) (\<lambda>(key, r5).
     rbind (slice 1 r5) (\<lambda>(pb, r6).
     rbind (decode_policy (hd pb)) (\<lambda>pol.
     Inr (\<lparr>cred_mesh_id = mesh, cred_mesh_name = name, cred_formation_secret = secret,
           cred_authority_key = key, cred_policy = pol\<rparr>, r6))))))))))))"

definition credentials_decode :: "byte list \<Rightarrow> (SecurityError, MeshCredentials) result" where
  "credentials_decode bs = rbind (credentials_read bs) (\<lambda>(c, r). Inr c)"

section \<open>The formats\<close>

lemma le_val_write_len16 [simp]: "n < 65536 \<Longrightarrow> le_val (write_len16 n) = n"
  by (simp add: write_len16_def unat_of_nat)

lemma length_write_len16 [simp]: "length (write_len16 n) = 2"
  by (simp add: write_len16_def)

lemma write_len16_le_val [simp]: "length bs = 2 \<Longrightarrow> write_len16 (le_val bs) = bs"
  using le_val_bound [of bs] by (simp add: write_len16_def unat_of_nat)

lemma le_val_less16: "length bs = 2 \<Longrightarrow> le_val bs < 65536"
  using le_val_bound [of bs] by simp

definition request_ok :: "EnrollmentRequest \<Rightarrow> bool" where
  "request_ok q \<longleftrightarrow>
     length (req_subject q) = 32 \<and> length (req_signature q) = 64 \<and> length (req_token q) < 65536 \<and>
     valid_string (req_mesh_id q) \<and> length (req_mesh_id q) < 256 \<and>
     valid_string (req_node_id q) \<and> length (req_node_id q) < 256"

lemma request_read_encode: "request_ok q \<Longrightarrow> request_read (request_encode q @ r) = Inr (q, r)"
  by (simp add: request_ok_def request_read_def request_encode_def request_signable_bytes_def unsigned_less)

lemma request_read_canonical: "request_read bs = Inr (q, r) \<Longrightarrow> request_ok q \<and> bs = request_encode q @ r"
  by (auto simp: request_read_def request_ok_def request_encode_def request_signable_bytes_def reader_eqs
      decode_tier_eq_Inr length_Suc_conv valid_string_def unat_of_nat le_val_less16 split: prod.splits)

lemma request_read_not_panic: "request_read bs \<noteq> Inl Panic"
  by (auto simp: request_read_def reader_eqs length_Suc_conv split: prod.splits)

interpretation request_codec: canonical_codec request_ok request_encode id request_read
  by unfold_locales (auto simp: request_read_encode dest: request_read_canonical)

definition blob_ok :: "byte list option \<Rightarrow> bool" where
  "blob_ok x \<longleftrightarrow> (case x of None \<Rightarrow> True | Some bs \<Rightarrow> length bs < 65536)"

lemma read_blob16_write:
  "blob_ok x \<Longrightarrow> read_blob16 e1 e2 e3 (write_blob16 x @ r) = Inr (x, r)"
  by (cases x) (simp_all add: blob_ok_def read_blob16_def)

lemma read_blob16_not_panic [simp]: "read_blob16 e1 e2 e3 bs \<noteq> Inl Panic"
  by (auto simp: read_blob16_def reader_eqs split: prod.splits if_splits)

definition response_ok :: "EnrollmentResponse \<Rightarrow> bool" where
  "response_ok p \<longleftrightarrow>
     valid_string (status_reason (resp_status p)) \<and> length (status_reason (resp_status p)) < 65536 \<and>
     (\<forall>c. resp_certificate p = Some c \<longrightarrow> cert_ok c) \<and> blob_ok (resp_formation_secret p)"

lemma decode_status_byte [simp]: "decode_status (status_byte s) (status_reason s) = Inr s"
  by (cases s) (simp_all add: decode_status_def)

lemma decode_status_no_reason [simp]: "status_reason s = [] \<Longrightarrow> decode_status (status_byte s) [] = Inr s"
  by (cases s) (simp_all add: decode_status_def)

lemma decode_status_not_panic [simp]: "decode_status b why \<noteq> Inl Panic"
  by (simp add: decode_status_def)

lemma blob_ok_cert_encode: "(\<And>c. x = Some c \<Longrightarrow> cert_ok c) \<Longrightarrow> blob_ok (map_option cert_encode x)"
  by (cases x) (simp_all add: blob_ok_def length_cert_encode, simp add: cert_ok_def)

lemma length_write_blob16: "1 \<le> length (write_blob16 x)"
  by (cases x) simp_all

lemma response_read_encode:
  assumes "response_ok p"
  shows "response_read (response_encode p @ r) = Inr (p, r)"
proof -
  note ok = assms [unfolded response_ok_def]
  have cert: "(case map_option cert_encode (resp_certificate p) of None \<Rightarrow> Inr None
      | Some body \<Rightarrow> rbind (cert_decode body) (\<lambda>c. Inr (Some c))) = Inr (resp_certificate p)"
    using ok cert_decode_encode [of _ "[]"] by (cases "resp_certificate p") simp_all
  show ?thesis
    using ok cert length_write_blob16 [of "map_option cert_encode (resp_certificate p)"]
      length_write_blob16 [of "resp_formation_secret p"]
    by (simp add: response_read_def response_encode_def read_blob16_write blob_ok_cert_encode unsigned_less)
qed

interpretation response_codec: wire_codec response_ok response_encode id response_read
  by unfold_locales (simp add: response_read_encode)

lemma response_read_not_panic: "response_read bs \<noteq> Inl Panic"
  by (auto simp: response_read_def reader_eqs length_Suc_conv split: prod.splits option.splits if_splits)

definition genesis_ok :: "MeshGenesis \<Rightarrow> bool" where
  "genesis_ok g \<longleftrightarrow>
     valid_string (mesh_name g) \<and> length (mesh_name g) < 65536 \<and> length (mesh_seed g) = 32 \<and>
     length (signing_key (gen_authority g)) = 32"

definition credentials_ok :: "MeshCredentials \<Rightarrow> bool" where
  "credentials_ok c \<longleftrightarrow>
     valid_string (cred_mesh_name c) \<and> length (cred_mesh_name c) < 65536 \<and>
     valid_string (cred_mesh_id c) \<and> length (cred_mesh_id c) = 8 \<and>
     length (cred_formation_secret c) = 32 \<and> length (cred_authority_key c) = 32"

lemma decode_policy_byte [simp]: "decode_policy (policy_byte p) = Inr p"
  by (cases p) (simp_all add: decode_policy_def policy_of_byte_def)

lemma decode_policy_eq_Inr: "decode_policy b = Inr p \<longleftrightarrow> b = policy_byte p"
  by (cases p) (auto simp: decode_policy_def policy_of_byte_def split: if_splits)

lemma decode_policy_not_panic [simp]: "decode_policy b \<noteq> Inl Panic"
  by (simp add: decode_policy_def split: option.splits)

lemma genesis_read_encode: "genesis_ok g \<Longrightarrow> genesis_read (genesis_encode g @ r) = Inr (g, r)"
  by (simp add: genesis_ok_def genesis_read_def genesis_encode_def from_secret_bytes_def secret_key_bytes_def
      unsigned_less)

lemma genesis_read_canonical: "genesis_read bs = Inr (g, r) \<Longrightarrow> genesis_ok g \<and> bs = genesis_encode g @ r"
  by (auto simp: genesis_read_def genesis_ok_def genesis_encode_def from_secret_bytes_def secret_key_bytes_def
      reader_eqs decode_policy_eq_Inr length_Suc_conv valid_string_def unat_of_nat le_val_less16 split: prod.splits)

lemma credentials_read_encode: "credentials_ok c \<Longrightarrow> credentials_read (credentials_encode c @ r) = Inr (c, r)"
  by (simp add: credentials_ok_def credentials_read_def credentials_encode_def)

lemma credentials_read_canonical:
  "credentials_read bs = Inr (c, r) \<Longrightarrow> credentials_ok c \<and> bs = credentials_encode c @ r"
  by (auto simp: credentials_read_def credentials_ok_def credentials_encode_def reader_eqs decode_policy_eq_Inr
      length_Suc_conv valid_string_def le_val_less16 split: prod.splits)

interpretation genesis_codec: canonical_codec genesis_ok genesis_encode id genesis_read
  by unfold_locales (auto simp: genesis_read_encode dest: genesis_read_canonical)

interpretation credentials_codec: canonical_codec credentials_ok credentials_encode id credentials_read
  by unfold_locales (auto simp: credentials_read_encode dest: credentials_read_canonical)

lemma genesis_read_not_panic: "genesis_read bs \<noteq> Inl Panic"
  by (auto simp: genesis_read_def reader_eqs from_secret_bytes_def length_Suc_conv split: prod.splits if_splits)

lemma credentials_read_not_panic: "credentials_read bs \<noteq> Inl Panic"
  by (auto simp: credentials_read_def reader_eqs length_Suc_conv split: prod.splits)

lemma request_new_ok:
  "crypto_laws cr \<Longrightarrow> valid_string mesh \<Longrightarrow> length mesh < 256 \<Longrightarrow> valid_string node \<Longrightarrow> length node < 256
     \<Longrightarrow> length token < 65536 \<Longrightarrow> request_ok (request_new cr kp mesh node tier token now)"
  by (simp add: request_new_def Let_def request_ok_def)

lemma upper_hex_ascii: "list_all (\<lambda>b. b < 0x80) (as_bytes (upper_hex_byte b))"
proof -
  have "byte_of_char (''0123456789ABCDEF'' ! n) < 0x80" if "n < 16" for n
    using less_16 [OF that] by (auto simp: byte_of_char_def)
  then show ?thesis
    using unat_less_pow [of b] by (simp add: upper_hex_byte_def as_bytes_def less_mult_imp_div_less)
qed

lemma genesis_mesh_id_ok: "valid_string (genesis_mesh_id cr g)" "length (genesis_mesh_id cr g) = 8"
proof -
  have "list_all (\<lambda>b. b < 0x80) (as_bytes (genesis_mesh_id cr g))"
    using upper_hex_ascii by (simp add: genesis_mesh_id_def Let_def as_bytes_def)
  then show "valid_string (genesis_mesh_id cr g)"
    by (simp add: valid_string_def utf8_valid_ascii)
  show "length (genesis_mesh_id cr g) = 8"
    by (simp add: genesis_mesh_id_def Let_def upper_hex_byte_def)
qed

lemma genesis_credentials_ok: "crypto_laws cr \<Longrightarrow> genesis_ok g \<Longrightarrow> credentials_ok (genesis_credentials cr g)"
  by (simp add: credentials_ok_def genesis_ok_def genesis_credentials_def genesis_mesh_id_ok
      genesis_formation_secret_def genesis_derive_def genesis_authority_public_key_def)

text \<open>
  C20.  The stored forms of membership.  Enrolment requests, enrolment responses,
  a stored genesis and shared credentials are each decoded from their own
  encoding, whatever follows, and no input makes one of the four decoders
  panic.
\<close>

theorem membership_codecs:
  "(request_ok q \<longrightarrow> request_decode (request_encode q @ r) = Inr q) \<and> request_decode bs \<noteq> Inl Panic \<and>
   (response_ok p \<longrightarrow> response_decode (response_encode p @ r) = Inr p) \<and> response_decode bs \<noteq> Inl Panic \<and>
   (genesis_ok g \<longrightarrow> genesis_decode (genesis_encode g @ r) = Inr g) \<and> genesis_decode bs \<noteq> Inl Panic \<and>
   (credentials_ok c \<longrightarrow> credentials_decode (credentials_encode c @ r) = Inr c) \<and>
   credentials_decode bs \<noteq> Inl Panic"
  using request_codec.rd_enc [of q r] response_codec.rd_enc [of p r] genesis_codec.rd_enc [of g r]
    credentials_codec.rd_enc [of c r] request_read_not_panic [of bs] response_read_not_panic [of bs]
    genesis_read_not_panic [of bs] credentials_read_not_panic [of bs]
  by (simp add: request_decode_def response_decode_def genesis_decode_def credentials_decode_def rbind_eq_Inl
      split: prod.splits)

definition sample_request :: EnrollmentRequest where
  "sample_request = request_new sample_crypto \<lparr>signing_key = replicate 32 3\<rparr> ''mesh'' ''node'' Edge [1, 2] 77"

definition sample_genesis :: MeshGenesis where
  "sample_genesis = genesis_with_seed sample_crypto 5 ''alpha'' (replicate 32 4) Strict"

theorem membership_codecs_witness:
  "request_decode (request_encode sample_request @ [9]) = Inr sample_request \<and>
   response_decode (response_encode (response_denied ''no'' 3) @ [9]) = Inr (response_denied ''no'' 3) \<and>
   genesis_decode (genesis_encode sample_genesis @ [9]) = Inr sample_genesis \<and>
   credentials_decode (credentials_encode (genesis_credentials sample_crypto sample_genesis) @ [9])
     = Inr (genesis_credentials sample_crypto sample_genesis)"
proof -
  have names: "valid_string ''mesh''" "valid_string ''node''" "valid_string ''no''" "valid_string ''alpha''"
    by (simp_all add: string_eval)
  have "genesis_ok sample_genesis"
    using names by (simp add: genesis_ok_def sample_genesis_def genesis_with_seed_def keypair_from_seed_def
        sample_crypto_laws)
  moreover have "request_ok sample_request"
    unfolding sample_request_def using names by (intro request_new_ok) (simp_all add: sample_crypto_laws)
  moreover have "response_ok (response_denied ''no'' 3)"
    using names by (simp add: response_ok_def response_denied_def blob_ok_def)
  ultimately have "request_ok sample_request" "response_ok (response_denied ''no'' 3)" "genesis_ok sample_genesis"
      "credentials_ok (genesis_credentials sample_crypto sample_genesis)"
    by (simp_all add: genesis_credentials_ok sample_crypto_laws)
  then show ?thesis
    using membership_codecs [of sample_request "[9]" "[]" "response_denied ''no'' 3" sample_genesis
        "genesis_credentials sample_crypto sample_genesis"]
    by blast
qed

section \<open>Who is enrolled\<close>

text \<open>The certificate a service issues for a request.\<close>

definition issued_certificate ::
  "crypto \<Rightarrow> StaticEnrollmentService \<Rightarrow> u64 \<Rightarrow> EnrollmentRequest \<Rightarrow> MeshTier \<Rightarrow> byte \<Rightarrow> MeshCertificate" where
  "issued_certificate cr svc now q tier perms =
     cert_signed cr
       (cert_new (req_subject q) (svc_mesh_id svc) (req_node_id q) tier perms now
         (now + validity_ms svc) (public_key_bytes cr (svc_authority svc)))
       (svc_authority svc)"

lemma issued_certificate_fields [simp]:
  "cert_subject (issued_certificate cr svc now q tier perms) = req_subject q"
  "cert_mesh_id (issued_certificate cr svc now q tier perms) = svc_mesh_id svc"
  "cert_node_id (issued_certificate cr svc now q tier perms) = req_node_id q"
  "cert_tier (issued_certificate cr svc now q tier perms) = tier"
  "cert_permissions (issued_certificate cr svc now q tier perms) = perms"
  "cert_issued_at (issued_certificate cr svc now q tier perms) = now"
  "cert_expires_at (issued_certificate cr svc now q tier perms) = now + validity_ms svc"
  "cert_issuer (issued_certificate cr svc now q tier perms) = public_key_bytes cr (svc_authority svc)"
  by (simp_all add: issued_certificate_def cert_signed_def cert_sign_with_def cert_new_def)

lemma issued_certificate_verifies:
  "crypto_laws cr \<Longrightarrow> cert_verify cr (issued_certificate cr svc now q tier perms) = Inr ()"
  unfolding issued_certificate_def by (rule cert_signed_verifies) (simp_all add: cert_new_def)

lemma issued_certificate_ok:
  "crypto_laws cr \<Longrightarrow> length (req_subject q) = 32 \<Longrightarrow> valid_string (svc_mesh_id svc) \<Longrightarrow>
     length (svc_mesh_id svc) < 256 \<Longrightarrow> valid_string (req_node_id q) \<Longrightarrow> length (req_node_id q) < 256 \<Longrightarrow>
     cert_ok (issued_certificate cr svc now q tier perms)"
  by (simp add: cert_ok_def) (simp add: issued_certificate_def cert_signed_def cert_sign_with_def)

lemma process_request_approved:
  "process_request cr svc clock q = Inr p \<and> resp_status p = Approved \<longleftrightarrow>
     request_verify_signature cr q = Inr () \<and> req_mesh_id q = svc_mesh_id svc \<and>
     (\<exists>tier perms now. hm_get (allowed_tokens svc) (req_token q) = Some (tier, perms) \<and> clock = Some now \<and>
        p = response_approved (issued_certificate cr svc now q tier perms) None now)"
  by (auto simp: process_request_def rbind_eq_Inr response_denied_def response_approved_def issued_certificate_def
      Let_def split: if_splits option.splits)

lemma request_new_verifies:
  "crypto_laws cr \<Longrightarrow> request_verify_signature cr (request_new cr kp mesh node tier token now) = Inr ()"
  by (simp add: request_verify_signature_def request_new_def Let_def request_signable_bytes_def)

text \<open>
  What the static service gives away.  A certificate leaves the service only
  in an approval; an approval is given only for a request signed with the key it
  names, for the service's own mesh and with a registered token; and the
  certificate carries that key and node name, the tier and permissions of the
  token, whatever tier was asked for, and the authority's signature.  The
  formation secret is never sent.
\<close>

lemma enrollment_grants_token_rights:
  assumes "crypto_laws cr" "process_request cr svc clock q = Inr p"
  shows "resp_formation_secret p = None \<and> (resp_certificate p \<noteq> None \<longleftrightarrow> resp_status p = Approved) \<and>
    (\<forall>c. resp_certificate p = Some c \<longrightarrow>
       request_verify_signature cr q = Inr () \<and> req_mesh_id q = svc_mesh_id svc \<and>
       hm_get (allowed_tokens svc) (req_token q) = Some (cert_tier c, cert_permissions c) \<and>
       cert_subject c = req_subject q \<and> cert_node_id c = req_node_id q \<and> cert_mesh_id c = svc_mesh_id svc \<and>
       cert_issuer c = public_key_bytes cr (svc_authority svc) \<and> cert_verify cr c = Inr ())"
proof -
  have "resp_formation_secret p = None \<and> (resp_certificate p \<noteq> None \<longleftrightarrow> resp_status p = Approved)"
    using assms(2) by (auto simp: process_request_def rbind_eq_Inr response_denied_def response_approved_def
        Let_def split: if_splits option.splits)
  moreover have "request_verify_signature cr q = Inr () \<and> req_mesh_id q = svc_mesh_id svc \<and>
       hm_get (allowed_tokens svc) (req_token q) = Some (cert_tier c, cert_permissions c) \<and>
       cert_subject c = req_subject q \<and> cert_node_id c = req_node_id q \<and> cert_mesh_id c = svc_mesh_id svc \<and>
       cert_issuer c = public_key_bytes cr (svc_authority svc) \<and> cert_verify cr c = Inr ()"
    if cert: "resp_certificate p = Some c" for c
  proof -
    obtain tier perms now where "hm_get (allowed_tokens svc) (req_token q) = Some (tier, perms)"
        "request_verify_signature cr q = Inr ()" "req_mesh_id q = svc_mesh_id svc"
        "p = response_approved (issued_certificate cr svc now q tier perms) None now"
      using cert calculation assms(2) process_request_approved [of cr svc clock q p] by auto
    then show ?thesis
      using cert issued_certificate_verifies [OF assms(1)] by (auto simp: response_approved_def)
  qed
  ultimately show ?thesis
    by blast
qed

text \<open>
  C8.  An enrolled node is a member.  The request a node makes with a registered
  token survives the wire, is approved, and the response survives the wire; every
  bundle that has the service's authority among its authorities admits the
  certificate, and then validates the node's key and its name exactly from the
  time of issue to the end of the validity period.
\<close>

theorem enrolled_node_admitted:
  assumes "crypto_laws cr" "hm_get (allowed_tokens svc) token = Some (tier, perms)"
    and "valid_string (svc_mesh_id svc)" "length (svc_mesh_id svc) < 256"
    and "valid_string node" "length node < 256" "node \<noteq> []" "length token < 65536"
    and "0 < validity_ms svc" "unat now + unat (validity_ms svc) < 2 ^ 64"
    and "public_key_bytes cr (svc_authority svc) \<in> set (authorities b)"
    and "q = request_new cr kp (svc_mesh_id svc) node wanted token ts"
  shows "\<exists>p c b'. request_decode (request_encode q) = Inr q \<and>
    process_request cr svc (Some now) q = Inr p \<and> response_decode (response_encode p) = Inr p \<and>
    resp_certificate p = Some c \<and> add_certificate cr t c b = (b', Inr ()) \<and>
    get_peer_tier b' (public_key_bytes cr kp) = Some tier \<and>
    (\<forall>u. validate_peer cr b' (public_key_bytes cr kp) u \<longleftrightarrow> now \<le> u \<and> u < now + validity_ms svc) \<and>
    (\<forall>u. validate_node_id cr b' node u \<longleftrightarrow> now \<le> u \<and> u < now + validity_ms svc)"
proof -
  let ?c = "issued_certificate cr svc now q tier perms"
  let ?p = "response_approved ?c None now"
  let ?b = "add_certificate_unchecked ?c b"
  have q: "req_subject q = public_key_bytes cr kp" "req_node_id q = node" "req_mesh_id q = svc_mesh_id svc"
      "req_token q = token" "request_ok q"
    using assms(1-8) unfolding assms(12)
    by (simp_all add: request_new_def Let_def request_ok_def)
  have p: "process_request cr svc (Some now) q = Inr ?p"
    using process_request_approved [of cr svc "Some now" q ?p] request_new_verifies [OF assms(1)] q assms(2,12) by simp
  have "response_ok ?p"
    using issued_certificate_ok [OF assms(1), of q svc now tier perms] assms(1-6) q
    by (simp add: response_ok_def response_approved_def blob_ok_def)
  then have wire: "request_decode (request_encode q) = Inr q" "response_decode (response_encode ?p) = Inr ?p"
    using request_codec.rd_enc [of q "[]"] response_codec.rd_enc [of ?p "[]"] q
    by (simp_all add: request_decode_def response_decode_def)
  have add: "add_certificate cr t ?c b = (?b, Inr ())"
    using assms(11) issued_certificate_verifies [OF assms(1), of svc now q tier perms]
    by (simp add: add_certificate_def add_certificate_unchecked_def is_trusted_issuer_def)
  have "now + validity_ms svc \<noteq> 0"
    using assms(9,10) by (simp add: unat_eq_0 [symmetric] word_gt_0 unat_plus_simple word_le_nat_alt unat_word_ariths)
  then have valid: "cert_is_valid ?c u \<longleftrightarrow> now \<le> u \<and> u < now + validity_ms svc" for u
    by (simp add: cert_is_valid_def)
  have "validate_peer cr ?b (public_key_bytes cr kp) u \<longleftrightarrow> now \<le> u \<and> u < now + validity_ms svc"
      "validate_node_id cr ?b node u \<longleftrightarrow> now \<le> u \<and> u < now + validity_ms svc" for u
    using valid [of u] issued_certificate_verifies [OF assms(1), of svc now q tier perms] q assms(7)
    by (simp_all add: validate_node_id_iff validate_peer_def add_certificate_unchecked_def)
  moreover have "get_peer_tier ?b (public_key_bytes cr kp) = Some tier"
    using q by (simp add: get_peer_tier_def add_certificate_unchecked_def)
  ultimately show ?thesis
    using p wire add by (intro exI [of _ ?p] exI [of _ ?c] exI [of _ ?b]) (simp add: response_approved_def)
qed

definition sample_service :: StaticEnrollmentService where
  "sample_service = add_token [1, 2] Tactical PERM_STANDARD (service_new sample_authority ''mesh'' 1000)"

lemma sample_service_facts:
  "hm_get (allowed_tokens sample_service) [1, 2] = Some (Tactical, PERM_STANDARD)"
  "svc_mesh_id sample_service = ''mesh''" "validity_ms sample_service = 1000"
  "svc_authority sample_service = sample_authority"
  by (simp_all add: sample_service_def add_token_def service_new_def)


theorem enrolled_node_admitted_witness:
  "\<exists>p c b'. process_request sample_crypto sample_service (Some 500) sample_request = Inr p \<and>
     resp_certificate p = Some c \<and>
     add_certificate sample_crypto 600 c (add_authority (replicate 32 9) bundle_new) = (b', Inr ()) \<and>
     validate_node_id sample_crypto b' ''node'' 1499 \<and> \<not> validate_node_id sample_crypto b' ''node'' 1500"
proof -
  let ?b = "add_authority (replicate 32 9) bundle_new"
  have "valid_string ''mesh''" "valid_string ''node''"
    by (simp_all add: string_eval)
  moreover have "public_key_bytes sample_crypto (svc_authority sample_service) \<in> set (authorities ?b)"
    by (simp add: sample_service_facts sample_authority_key add_authority_def bundle_new_def)
  moreover have "sample_request = request_new sample_crypto \<lparr>signing_key = replicate 32 3\<rparr>
      (svc_mesh_id sample_service) ''node'' Edge [1, 2] 77"
    by (simp add: sample_request_def sample_service_facts)
  ultimately obtain p c b' where "process_request sample_crypto sample_service (Some 500) sample_request = Inr p"
      "resp_certificate p = Some c" "add_certificate sample_crypto 600 c ?b = (b', Inr ())"
      "\<forall>u. validate_node_id sample_crypto b' ''node'' u \<longleftrightarrow> 500 \<le> u \<and> u < 500 + validity_ms sample_service"
    using enrolled_node_admitted [OF sample_crypto_laws sample_service_facts(1), of "''node''" 500 ?b sample_request
        "\<lparr>signing_key = replicate 32 3\<rparr>" Edge 77 600]
    by (auto simp: sample_service_facts)
  moreover have "(500 :: u64) \<le> 1499" "(1499 :: u64) < 500 + 1000" "\<not> (1500 :: u64) < 500 + 1000"
    by simp_all
  ultimately show ?thesis
    using sample_service_facts(3) by auto
qed

text \<open>
  With a validity of zero the static service issues certificates that expire at
  the moment of issue; the genesis authority reads zero as no expiry.
\<close>

lemma zero_validity_differs:
  assumes "validity_ms svc = 0" "0 < now"
  shows "\<not> cert_is_valid (issued_certificate cr svc now q tier perms) u"
    and "cert_is_valid (issue_certificate cr now g subject node tier perms 0) u \<longleftrightarrow> now \<le> u"
  using assms by (auto simp: cert_is_valid_def issue_certificate_def cert_signed_def cert_sign_with_def cert_new_def)

text \<open>
  C16.  Founding a mesh.  The credentials of a genesis survive the wire; a bundle
  that has their authority key, and nothing else, admits the authority's own root
  certificate and every certificate the genesis issues, and validates a member
  from the time of issue, for ever when the validity is zero and otherwise
  to the end of its validity.
\<close>

theorem genesis_bootstraps_mesh:
  assumes "crypto_laws cr" "genesis_ok g" "valid_string node" "length node < 256" "length subject = 32"
    and "unat now + unat validity < 2 ^ 64"
    and "credentials_decode (credentials_encode (genesis_credentials cr g)) = Inr cred"
    and "b = add_authority (cred_authority_key cred) bundle_new"
    and "c = issue_certificate cr now g subject node tier perms validity"
  shows "cred = genesis_credentials cr g \<and> cert_decode (cert_encode c) = Inr c \<and>
    snd (add_certificate cr t (root_certificate cr now g node) b) = Inr () \<and>
    snd (add_certificate cr t c b) = Inr () \<and>
    (validate_peer cr (fst (add_certificate cr t c b)) subject u \<longleftrightarrow>
       now \<le> u \<and> (validity = 0 \<or> u < now + validity))"
proof -
  have cred: "cred = genesis_credentials cr g"
    using credentials_codec.rd_enc [OF genesis_credentials_ok [OF assms(1,2)], of "[]"] assms(7)
    by (simp add: credentials_decode_def)
  have root: "cert_verify cr (root_certificate cr now g node) = Inr ()" "cert_is_root (root_certificate cr now g node)"
    unfolding root_certificate_def using assms(1) by (simp_all add: cert_new_root_verifies cert_new_root_fields)
  have c: "cert_verify cr c = Inr ()"
    unfolding assms(9) issue_certificate_def Let_def by (rule cert_signed_verifies [OF assms(1)]) (simp add: cert_new_def)
  have flds: "cert_subject c = subject" "cert_issuer c = cred_authority_key cred" "cert_ok c"
      "cert_is_valid c u \<longleftrightarrow> now \<le> u \<and> (validity = 0 \<or> now + validity = 0 \<or> u < now + validity)"
    using assms(1,3-5) unfolding assms(9) cred
    by (auto simp: issue_certificate_def Let_def cert_signed_def cert_sign_with_def cert_new_def cert_ok_def
        genesis_mesh_id_ok genesis_credentials_def genesis_authority_public_key_def cert_is_valid_def)
  moreover have "validity \<noteq> 0 \<Longrightarrow> now + validity \<noteq> 0"
    using assms(6) by (simp add: unat_eq_0 [symmetric] unat_word_ariths)
  moreover have "is_trusted_issuer cr b (cert_issuer c) t"
    using flds by (simp add: assms(8) is_trusted_issuer_def add_authority_def bundle_new_def)
  ultimately show ?thesis
    using cred root c cert_decode_encode [of c "[]"]
    by (auto simp: add_certificate_def validate_peer_def)
qed

theorem genesis_bootstraps_mesh_witness:
  "validate_peer sample_crypto (fst (add_certificate sample_crypto 7
       (issue_certificate sample_crypto 6 sample_genesis (replicate 32 1) ''n'' Edge PERM_STANDARD 0)
       (add_authority (cred_authority_key (genesis_credentials sample_crypto sample_genesis)) bundle_new)))
     (replicate 32 1) 99"
proof -
  have names: "valid_string ''n''" "valid_string ''alpha''"
    by (simp_all add: string_eval)
  then have gen: "genesis_ok sample_genesis"
    by (simp add: genesis_ok_def sample_genesis_def genesis_with_seed_def keypair_from_seed_def sample_crypto_laws)
  then have "credentials_decode (credentials_encode (genesis_credentials sample_crypto sample_genesis))
      = Inr (genesis_credentials sample_crypto sample_genesis)"
    using credentials_codec.rd_enc [OF genesis_credentials_ok [OF sample_crypto_laws gen], of "[]"]
    by (simp add: credentials_decode_def)
  from genesis_bootstraps_mesh [OF sample_crypto_laws gen names(1) _ _ _ this refl refl, of "replicate 32 1" 6 0
      Edge PERM_STANDARD 7 99]
  show ?thesis
    by simp
qed

end
