(* ===== verification/Formation.thy ===== *)
theory Formation
  imports Certificate
begin

text \<open>
  Formation keys and the authenticated sync connection:
  \<^verbatim>\<open>src/security/formation_key.rs\<close> (key, challenge and response formats) and
  \<^verbatim>\<open>src/storage/mesh_sync_transport.rs\<close> (the two sides of the handshake, the accept
  handler, the table of connections).

  A side of the handshake is a function from all the bytes it receives to the
  bytes it writes and its result; a read that finds too few bytes is the
  time-out.  It writes a prefix of its output after each read, so a run of the
  two sides is the iteration of the two functions on each other's output.
\<close>

section \<open>Formation keys\<close>

record FormationKey =
  formation_id :: string
  hmac_key :: "byte list"

definition formation_key_new :: "crypto \<Rightarrow> string \<Rightarrow> byte list \<Rightarrow> FormationKey" where
  "formation_key_new cr fid secret =
     \<lparr>formation_id = fid,
      hmac_key = hkdf_sha256 cr (Some (as_bytes fid)) secret (as_bytes ''peat-protocol-v1-formation'')\<rparr>"

text \<open>
  \<^verbatim>\<open>str::trim\<close>: the encodings of the characters with the Unicode property
  \<^verbatim>\<open>White_Space\<close>, taken off both ends.
\<close>

definition is_whitespace :: "byte list \<Rightarrow> bool" where
  "is_whitespace bs \<longleftrightarrow>
     (case bs of
        [a] \<Rightarrow> 9 \<le> a \<and> a \<le> 13 \<or> a = 32
      | [a, b] \<Rightarrow> a = 0xC2 \<and> (b = 0x85 \<or> b = 0xA0)
      | [a, b, c] \<Rightarrow>
          a = 0xE1 \<and> b = 0x9A \<and> c = 0x80 \<or>
          a = 0xE2 \<and> b = 0x80 \<and> (0x80 \<le> c \<and> c \<le> 0x8A \<or> c = 0xA8 \<or> c = 0xA9 \<or> c = 0xAF) \<or>
          a = 0xE2 \<and> b = 0x81 \<and> c = 0x9F \<or>
          a = 0xE3 \<and> b = 0x80 \<and> c = 0x80
      | _ \<Rightarrow> False)"

fun trim_with :: "(byte list \<Rightarrow> bool) \<Rightarrow> byte list \<Rightarrow> byte list" where
  "trim_with ws (a # b # c # r) =
     (if ws [a] then trim_with ws (b # c # r)
      else if ws [a, b] then trim_with ws (c # r)
      else if ws [a, b, c] then trim_with ws r
      else a # b # c # r)"
| "trim_with ws [a, b] = (if ws [a] then trim_with ws [b] else if ws [a, b] then [] else [a, b])"
| "trim_with ws [a] = (if ws [a] then [] else [a])"
| "trim_with ws [] = []"

definition str_trim :: "string \<Rightarrow> string" where
  "str_trim s =
     of_bytes (rev (trim_with (\<lambda>bs. is_whitespace (rev bs)) (rev (trim_with is_whitespace (as_bytes s)))))"

text \<open>\<open>b64\<close> is the decoder of the \<^verbatim>\<open>base64\<close> crate.\<close>

definition formation_key_from_base64 ::
  "crypto \<Rightarrow> (string \<Rightarrow> byte list option) \<Rightarrow> string \<Rightarrow> string \<Rightarrow> (SecurityError, FormationKey) result" where
  "formation_key_from_base64 cr b64 fid s =
     (case b64 (str_trim s) of
        None \<Rightarrow> Inl (Err (AuthenticationFailed ''Invalid base64 shared secret''))
      | Some bs \<Rightarrow>
          let secret = (if length bs = 32 then bs else sha256 cr bs)
          in Inr (formation_key_new cr fid secret))"

definition compute_response :: "crypto \<Rightarrow> FormationKey \<Rightarrow> byte list \<Rightarrow> byte list" where
  "compute_response cr fk nonce = hmac_sha256 cr (hmac_key fk) (nonce @ as_bytes (formation_id fk))"

text \<open>\<open>nonce\<close> is what the random generator delivers.\<close>

definition create_challenge :: "crypto \<Rightarrow> FormationKey \<Rightarrow> byte list \<Rightarrow> byte list \<times> byte list" where
  "create_challenge cr fk nonce = (nonce, compute_response cr fk nonce)"

definition respond_to_challenge :: "crypto \<Rightarrow> FormationKey \<Rightarrow> byte list \<Rightarrow> byte list" where
  "respond_to_challenge cr fk nonce = compute_response cr fk nonce"

definition verify_response :: "crypto \<Rightarrow> FormationKey \<Rightarrow> byte list \<Rightarrow> byte list \<Rightarrow> bool" where
  "verify_response cr fk nonce resp \<longleftrightarrow> compute_response cr fk nonce = resp"

section \<open>Handshake messages\<close>

record FormationChallenge =
  ch_formation_id :: string
  ch_nonce :: "byte list"

definition challenge_to_bytes :: "FormationChallenge \<Rightarrow> byte list" where
  "challenge_to_bytes ch =
       le_bytes 2 (unat (word_of_nat (length (as_bytes (ch_formation_id ch))) :: u16))
     @ as_bytes (ch_formation_id ch)
     @ ch_nonce ch"

definition challenge_read :: "byte list \<Rightarrow> (SecurityError, FormationChallenge \<times> byte list) result" where
  "challenge_read bs =
     rbind (ensure (2 \<le> length bs) (AuthenticationFailed ''Challenge too short'')) (\<lambda>_.
     rbind (slice 2 bs) (\<lambda>(lb, r1).
     rbind (ensure (2 + le_val lb + 32 \<le> length bs) (AuthenticationFailed ''Challenge truncated'')) (\<lambda>_.
     rbind (slice (le_val lb) r1) (\<lambda>(ib, r2).
     rbind (from_utf8 (AuthenticationFailed ''Invalid formation ID'') ib) (\<lambda>fid.
     rbind (slice 32 r2) (\<lambda>(nonce, r3).
     Inr (\<lparr>ch_formation_id = fid, ch_nonce = nonce\<rparr>, r3)))))))"

definition challenge_from_bytes :: "byte list \<Rightarrow> (SecurityError, FormationChallenge) result" where
  "challenge_from_bytes bs = rbind (challenge_read bs) (\<lambda>(ch, r). Inr ch)"

definition response_from_bytes :: "byte list \<Rightarrow> (SecurityError, byte list) result" where
  "response_from_bytes bs =
     rbind (ensure (32 \<le> length bs) (AuthenticationFailed ''Response too short'')) (\<lambda>_.
     rbind (slice 32 bs) (\<lambda>(resp, r). Inr resp))"

datatype FormationAuthResult = Accepted | Rejected

fun auth_result_byte :: "FormationAuthResult \<Rightarrow> byte" where
  "auth_result_byte Accepted = 0x01"
| "auth_result_byte Rejected = 0x00"

definition auth_result_of_byte :: "byte \<Rightarrow> FormationAuthResult" where
  "auth_result_of_byte b = (if b = 0x01 then Accepted else Rejected)"

section \<open>The handshake\<close>

datatype AuthError =
    TimedOut string
  | UnsupportedVersion byte
  | TooLarge nat
  | InvalidMessage SecurityError
  | IdMismatch string string
  | HmacFailed
  | RejectedByAcceptor

definition FORMATION_AUTH_VERSION :: byte where
  "FORMATION_AUTH_VERSION = 1"

text \<open>A length as \<^verbatim>\<open>u32\<close> in little-endian order, then the bytes.\<close>

definition frame32 :: "byte list \<Rightarrow> byte list" where
  "frame32 bs = le_bytes 4 (unat (word_of_nat (length bs) :: u32)) @ bs"

text \<open>
  A side of the handshake as a function of the bytes it receives: its own writes succeed, and
  neither side waits so long that the source's time-out ends the handshake.
\<close>

definition run_formation_auth ::
  "crypto \<Rightarrow> FormationKey \<Rightarrow> byte list \<Rightarrow> byte list \<Rightarrow> byte list \<times> (AuthError, unit) result" where
  "run_formation_auth cr fk nonce0 rx =
     (if length rx < 1 then ([], Inl (Err (TimedOut ''version'')))
      else if hd rx \<noteq> FORMATION_AUTH_VERSION then ([], Inl (Err (UnsupportedVersion (hd rx))))
      else
        let (nonce, expected) = create_challenge cr fk nonce0;
            sent = frame32 (challenge_to_bytes \<lparr>ch_formation_id = formation_id fk, ch_nonce = nonce\<rparr>);
            rx1 = drop 1 rx
        in
        if length rx1 < 4 then (sent, Inl (Err (TimedOut ''response length'')))
        else
          let n = le_val (take 4 rx1); rx2 = drop 4 rx1 in
          if 256 < n then (sent, Inl (Err (TooLarge n)))
          else if length rx2 < n then (sent, Inl (Err (TimedOut ''response body'')))
          else
            (case response_from_bytes (take n rx2) of
               Inl Panic \<Rightarrow> (sent, Inl Panic)
             | Inl (Err e) \<Rightarrow> (sent, Inl (Err (InvalidMessage e)))
             | Inr resp \<Rightarrow>
                 if verify_response cr fk nonce resp
                 then (sent @ [auth_result_byte Accepted], Inr ())
                 else (sent @ [auth_result_byte Rejected], Inl (Err HmacFailed))))"

definition respond_to_formation_auth ::
  "crypto \<Rightarrow> FormationKey \<Rightarrow> byte list \<Rightarrow> byte list \<times> (AuthError, unit) result" where
  "respond_to_formation_auth cr fk rx =
     (let sent = [FORMATION_AUTH_VERSION] in
      if length rx < 4 then (sent, Inl (Err (TimedOut ''challenge length'')))
      else
        let n = le_val (take 4 rx); rx1 = drop 4 rx in
        if 1024 < n then (sent, Inl (Err (TooLarge n)))
        else if length rx1 < n then (sent, Inl (Err (TimedOut ''challenge body'')))
        else
          (case challenge_from_bytes (take n rx1) of
             Inl Panic \<Rightarrow> (sent, Inl Panic)
           | Inl (Err e) \<Rightarrow> (sent, Inl (Err (InvalidMessage e)))
           | Inr ch \<Rightarrow>
               if ch_formation_id ch \<noteq> formation_id fk
               then (sent, Inl (Err (IdMismatch (formation_id fk) (ch_formation_id ch))))
               else
                 let sent' = sent @ frame32 (respond_to_challenge cr fk (ch_nonce ch));
                     rx2 = drop n rx1
                 in
                 if length rx2 < 1 then (sent', Inl (Err (TimedOut ''verdict'')))
                 else
                   (case auth_result_of_byte (hd rx2) of
                      Accepted \<Rightarrow> (sent', Inr ())
                    | Rejected \<Rightarrow> (sent', Inl (Err RejectedByAcceptor)))))"

text \<open>
  Both sides on one stream: in every round each side sees all that the other has
  written so far.  The state is what the acceptor has received and what the
  connector has received.
\<close>

primrec exchange ::
  "crypto \<Rightarrow> FormationKey \<Rightarrow> FormationKey \<Rightarrow> byte list \<Rightarrow> nat \<Rightarrow> byte list \<times> byte list" where
  "exchange cr acc con nonce 0 = ([], [])"
| "exchange cr acc con nonce (Suc k) =
     (let (at_acc, at_con) = exchange cr acc con nonce k
      in (fst (respond_to_formation_auth cr con at_con), fst (run_formation_auth cr acc nonce at_acc)))"

definition acceptor_result ::
  "crypto \<Rightarrow> FormationKey \<Rightarrow> FormationKey \<Rightarrow> byte list \<Rightarrow> nat \<Rightarrow> (AuthError, unit) result" where
  "acceptor_result cr acc con nonce k =
     snd (run_formation_auth cr acc nonce (fst (exchange cr acc con nonce k)))"

definition connector_result ::
  "crypto \<Rightarrow> FormationKey \<Rightarrow> FormationKey \<Rightarrow> byte list \<Rightarrow> nat \<Rightarrow> (AuthError, unit) result" where
  "connector_result cr acc con nonce k =
     snd (respond_to_formation_auth cr con (snd (exchange cr acc con nonce k)))"

section \<open>Accepting a connection\<close>

text \<open>What the accept handler does with a connection.\<close>

datatype AcceptOutcome = CertificateRequired | AuthFailed AuthError | SyncStarted | AcceptPanic

text \<open>
  \<open>now\<close> is the clock in milliseconds, zero before the epoch; \<open>rx\<close> is what the peer sends
  on the authentication stream.
\<close>

definition handler_accept ::
  "crypto \<Rightarrow> FormationKey \<Rightarrow> CertificateBundle option \<Rightarrow> u64 \<Rightarrow> byte list \<Rightarrow> byte list \<Rightarrow> byte list \<Rightarrow> AcceptOutcome" where
  "handler_accept cr fk bundle now peer nonce rx =
     (if (case bundle of Some b \<Rightarrow> \<not> validate_peer cr b peer now | None \<Rightarrow> False) then CertificateRequired
      else case snd (run_formation_auth cr fk nonce rx) of
        Inr _ \<Rightarrow> SyncStarted
      | Inl (Err e) \<Rightarrow> AuthFailed e
      | Inl Panic \<Rightarrow> AcceptPanic)"

section \<open>The table of connections\<close>

text \<open>
  A connection is a number; \<open>closed\<close> tells which have a close reason.  \<open>dial\<close> is the
  outcome of opening a connection to the peer.
\<close>

type_synonym connections = "(byte list, nat) hmap"

definition insert_connection :: "byte list \<Rightarrow> nat \<Rightarrow> connections \<Rightarrow> connections" where
  "insert_connection peer c t = hm_insert peer c t"

definition remove_connection :: "byte list \<Rightarrow> connections \<Rightarrow> connections" where
  "remove_connection peer t = hm_remove peer t"

definition get_connection :: "connections \<Rightarrow> byte list \<Rightarrow> nat option" where
  "get_connection t peer = hm_get t peer"

definition connect_and_authenticate ::
  "crypto \<Rightarrow> FormationKey \<Rightarrow> nat option \<Rightarrow> byte list \<Rightarrow> byte list \<Rightarrow> connections
     \<Rightarrow> connections \<times> (AuthError option, nat) result" where
  "connect_and_authenticate cr fk dial rx peer t =
     (case dial of
        None \<Rightarrow> (t, Inl (Err None))
      | Some c \<Rightarrow>
          (case snd (respond_to_formation_auth cr fk rx) of
             Inl (Err e) \<Rightarrow> (t, Inl (Err (Some e)))
           | Inl Panic \<Rightarrow> (t, Inl Panic)
           | Inr _ \<Rightarrow> (insert_connection peer c t, Inr c)))"

definition get_or_connect ::
  "crypto \<Rightarrow> FormationKey \<Rightarrow> (nat \<Rightarrow> bool) \<Rightarrow> nat option \<Rightarrow> byte list \<Rightarrow> byte list \<Rightarrow> connections
     \<Rightarrow> connections \<times> (AuthError option, nat) result" where
  "get_or_connect cr fk closed dial rx peer t =
     (case get_connection t peer of
        Some c \<Rightarrow>
          if \<not> closed c then (t, Inr c)
          else connect_and_authenticate cr fk dial rx peer (remove_connection peer t)
      | None \<Rightarrow> connect_and_authenticate cr fk dial rx peer t)"

definition connected_peers :: "(nat \<Rightarrow> bool) \<Rightarrow> connections \<Rightarrow> connections \<times> byte list list" where
  "connected_peers closed t =
     (let t' = hm_retain (\<lambda>_ c. \<not> closed c) t in (t', map fst t'))"

text \<open>
  What happens to the table when a connection is taken up and when the task that
  accepts its streams ends.
\<close>

definition start_sync_connection :: "byte list \<Rightarrow> nat \<Rightarrow> connections \<Rightarrow> connections" where
  "start_sync_connection peer c t = insert_connection peer c t"

definition sync_task_ended :: "byte list \<Rightarrow> connections \<Rightarrow> connections" where
  "sync_task_ended peer t = remove_connection peer t"

section \<open>Lemmas on the messages\<close>

definition challenge_ok :: "FormationChallenge \<Rightarrow> bool" where
  "challenge_ok ch \<longleftrightarrow>
     valid_string (ch_formation_id ch) \<and> length (ch_formation_id ch) < 65536 \<and> length (ch_nonce ch) = 32"

lemma challenge_read_to_bytes: "challenge_ok ch \<Longrightarrow> challenge_read (challenge_to_bytes ch @ r) = Inr (ch, r)"
  by (simp add: challenge_ok_def challenge_read_def challenge_to_bytes_def unat_of_nat)

lemma challenge_read_canonical:
  "challenge_read bs = Inr (ch, r) \<Longrightarrow> challenge_ok ch \<and> bs = challenge_to_bytes ch @ r"
  using le_val_bound [of "take 2 bs"]
  by (auto simp: challenge_read_def challenge_ok_def challenge_to_bytes_def reader_eqs valid_string_def unat_of_nat
      split: prod.splits)

interpretation challenge_codec: canonical_codec challenge_ok challenge_to_bytes id challenge_read
  by unfold_locales (auto simp: challenge_read_to_bytes dest: challenge_read_canonical)

lemma challenge_from_bytes_not_panic [simp]: "challenge_from_bytes bs \<noteq> Inl Panic"
  by (auto simp: challenge_from_bytes_def challenge_read_def reader_eqs split: prod.splits)

lemma challenge_round_trip: "challenge_ok ch \<Longrightarrow> challenge_from_bytes (challenge_to_bytes ch) = Inr ch"
  using challenge_codec.rd_enc [of ch "[]"] by (simp add: challenge_from_bytes_def)

lemma length_challenge_to_bytes:
  "length (challenge_to_bytes ch) = 2 + length (ch_formation_id ch) + length (ch_nonce ch)"
  by (simp add: challenge_to_bytes_def)

lemma response_from_bytes_eq:
  "response_from_bytes bs =
     (if length bs < 32 then Inl (Err (AuthenticationFailed ''Response too short'')) else Inr (take 32 bs))"
  by (auto simp: response_from_bytes_def slice_def ensure_def)

lemma length_frame32 [simp]: "length (frame32 bs) = 4 + length bs"
  by (simp add: frame32_def)

lemma frame32_parts:
  "length bs < 2 ^ 32 \<Longrightarrow> le_val (take 4 (frame32 bs @ r)) = length bs"
  "drop 4 (frame32 bs @ r) = bs @ r"
  by (simp_all add: frame32_def unat_of_nat)

lemma length_compute_response [simp]: "crypto_laws cr \<Longrightarrow> length (compute_response cr fk nonce) = 32"
  by (simp add: compute_response_def)

section \<open>Lemmas on the two sides\<close>

lemma acceptor_accepts_iff:
  "snd (run_formation_auth cr fk nonce rx) = Inr () \<longleftrightarrow>
     (\<exists>len body rest. rx = FORMATION_AUTH_VERSION # len @ body @ rest \<and> length len = 4 \<and>
        le_val len = length body \<and> 32 \<le> length body \<and> length body \<le> 256 \<and>
        take 32 body = compute_response cr fk nonce)"
    (is "?l \<longleftrightarrow> ?r")
proof
  assume ?l
  then have *: "rx \<noteq> []" "hd rx = FORMATION_AUTH_VERSION" "4 \<le> length (tl rx)"
      "le_val (take 4 (tl rx)) \<le> 256" "le_val (take 4 (tl rx)) \<le> length (drop 4 (tl rx))"
      "32 \<le> le_val (take 4 (tl rx))"
      "take 32 (take (le_val (take 4 (tl rx))) (drop 4 (tl rx))) = compute_response cr fk nonce"
    by (auto simp: run_formation_auth_def Let_def create_challenge_def response_from_bytes_eq verify_response_def
        drop_Suc min_def split: if_splits)
  let ?n = "le_val (take 4 (tl rx))"
  have "rx = FORMATION_AUTH_VERSION # take 4 (tl rx) @ take ?n (drop 4 (tl rx)) @ drop ?n (drop 4 (tl rx))"
    using *(1,2) by (cases rx) (simp_all del: drop_drop)
  then show ?r
    using * by (intro exI [of _ "take 4 (tl rx)"] exI [of _ "take ?n (drop 4 (tl rx))"]
        exI [of _ "drop ?n (drop 4 (tl rx))"]) simp
next
  assume ?r
  then show ?l
    by (auto simp: run_formation_auth_def Let_def create_challenge_def response_from_bytes_eq verify_response_def)
qed

lemma run_formation_auth_not_panic: "snd (run_formation_auth cr fk nonce rx) \<noteq> Inl Panic"
  by (simp add: run_formation_auth_def Let_def create_challenge_def response_from_bytes_eq)

lemma respond_to_formation_auth_not_panic: "snd (respond_to_formation_auth cr fk rx) \<noteq> Inl Panic"
  by (auto simp: respond_to_formation_auth_def Let_def split: sum.splits failure.splits FormationAuthResult.splits)

text \<open>The challenge an acceptor with key \<open>fk\<close> sends, and the connector's answer to it.\<close>

definition challenge_frame :: "FormationKey \<Rightarrow> byte list \<Rightarrow> byte list" where
  "challenge_frame fk nonce = frame32 (challenge_to_bytes \<lparr>ch_formation_id = formation_id fk, ch_nonce = nonce\<rparr>)"

lemma acceptor_after_version:
  "run_formation_auth cr fk nonce [] = ([], Inl (Err (TimedOut ''version'')))"
  "run_formation_auth cr fk nonce [FORMATION_AUTH_VERSION] =
     (challenge_frame fk nonce, Inl (Err (TimedOut ''response length'')))"
  by (simp_all add: run_formation_auth_def Let_def create_challenge_def challenge_frame_def)

lemma acceptor_after_response:
  "crypto_laws cr \<Longrightarrow> run_formation_auth cr fk nonce (FORMATION_AUTH_VERSION # frame32 (compute_response cr fk nonce)) =
     (challenge_frame fk nonce @ [1], Inr ())"
  using frame32_parts [of "compute_response cr fk nonce" "[]"]
  by (simp add: run_formation_auth_def Let_def create_challenge_def challenge_frame_def response_from_bytes_eq
      verify_response_def)

lemma connector_before_challenge:
  "respond_to_formation_auth cr fk [] = ([FORMATION_AUTH_VERSION], Inl (Err (TimedOut ''challenge length'')))"
  by (simp add: respond_to_formation_auth_def)

lemma connector_after_challenge:
  assumes "valid_string (formation_id fk)" "length (formation_id fk) \<le> 990" "length nonce = 32"
  shows "respond_to_formation_auth cr fk (challenge_frame fk nonce @ rest) =
    (FORMATION_AUTH_VERSION # frame32 (compute_response cr fk nonce),
     if rest = [] then Inl (Err (TimedOut ''verdict''))
     else if hd rest = 1 then Inr () else Inl (Err RejectedByAcceptor))"
proof -
  let ?ch = "\<lparr>ch_formation_id = formation_id fk, ch_nonce = nonce\<rparr>"
  have "challenge_ok ?ch" "length (challenge_to_bytes ?ch) \<le> 1024"
    using assms by (simp_all add: challenge_ok_def length_challenge_to_bytes)
  then show ?thesis
    using frame32_parts [of "challenge_to_bytes ?ch" rest] challenge_round_trip [of ?ch]
    by (auto simp: respond_to_formation_auth_def Let_def challenge_frame_def respond_to_challenge_def
        auth_result_of_byte_def)
qed

lemma connector_refuses_long_id:
  assumes "990 < length (formation_id fk)" "length (formation_id fk) < 65536" "length nonce = 32"
  shows "respond_to_formation_auth cr fk' (challenge_frame fk nonce @ rest) =
    ([FORMATION_AUTH_VERSION], Inl (Err (TooLarge (34 + length (formation_id fk)))))"
  using assms frame32_parts [of "challenge_to_bytes \<lparr>ch_formation_id = formation_id fk, ch_nonce = nonce\<rparr>" rest]
  by (simp add: respond_to_formation_auth_def Let_def challenge_frame_def length_challenge_to_bytes)

section \<open>The handshake as a whole\<close>

lemma exchange_fixpoint:
  assumes "exchange cr acc con nonce n = (xa, xc)"
    and "fst (respond_to_formation_auth cr con xc) = xa" "fst (run_formation_auth cr acc nonce xa) = xc"
  shows "exchange cr acc con nonce (n + k) = (xa, xc)"
  using assms by (induction k) simp_all

lemma exchange_completes:
  assumes "crypto_laws cr" "valid_string (formation_id fk)" "length (formation_id fk) \<le> 990" "length nonce = 32"
  shows "exchange cr fk fk nonce (4 + k) =
    (FORMATION_AUTH_VERSION # frame32 (compute_response cr fk nonce), challenge_frame fk nonce @ [1])"
proof -
  note con = connector_after_challenge [OF assms(2-4), of cr]
  have "exchange cr fk fk nonce 4 =
    (FORMATION_AUTH_VERSION # frame32 (compute_response cr fk nonce), challenge_frame fk nonce @ [1])"
    using con [of "[]"] acceptor_after_response [OF assms(1), of fk nonce]
    by (simp add: numeral_eq_Suc acceptor_after_version connector_before_challenge)
  then show ?thesis
    using con [of "[1]"] acceptor_after_response [OF assms(1), of fk nonce] by (intro exchange_fixpoint) simp_all
qed

lemma exchange_stuck:
  assumes "990 < length (formation_id fk)" "length (formation_id fk) < 65536" "length nonce = 32"
  shows "exchange cr fk fk' nonce (2 + k) = ([FORMATION_AUTH_VERSION], challenge_frame fk nonce)"
proof -
  have "exchange cr fk fk' nonce 2 = ([FORMATION_AUTH_VERSION], challenge_frame fk nonce)"
    by (simp add: numeral_eq_Suc acceptor_after_version connector_before_challenge)
  then show ?thesis
    using connector_refuses_long_id [OF assms, of cr fk' "[]"]
    by (intro exchange_fixpoint) (simp_all add: acceptor_after_version)
qed

text \<open>
  C10.  The formation handshake.  Two nodes that hold the same formation key,
  whatever nonce is drawn, both end with success, and from the fourth round on
  nothing more is written; this is so exactly when the formation identifier has
  at most 990 bytes.  With a longer one the challenge exceeds what the connecting
  side accepts, and both sides fail however long they wait.
\<close>

theorem formation_handshake_completes:
  assumes "crypto_laws cr" "valid_string (formation_id fk)" "length (formation_id fk) < 65536" "length nonce = 32"
    and "4 \<le> k"
  shows "(if length (formation_id fk) \<le> 990
     then acceptor_result cr fk fk nonce k = Inr () \<and> connector_result cr fk fk nonce k = Inr ()
     else acceptor_result cr fk fk nonce k = Inl (Err (TimedOut ''response length'')) \<and>
          connector_result cr fk fk nonce k = Inl (Err (TooLarge (34 + length (formation_id fk))))) \<and>
    exchange cr fk fk nonce (Suc k) = exchange cr fk fk nonce k"
proof (cases "length (formation_id fk) \<le> 990")
  case True
  obtain j where "k = 4 + j"
    using assms(5) le_Suc_ex by blast
  then show ?thesis
    using True exchange_completes [OF assms(1,2) True assms(4), of j] exchange_completes [OF assms(1,2) True assms(4), of "Suc j"]
      connector_after_challenge [OF assms(2) True assms(4), of cr "[1]"] acceptor_after_response [OF assms(1), of fk nonce]
    by (simp add: acceptor_result_def connector_result_def del: exchange.simps)
next
  case False
  obtain j where "k = 2 + j"
    using assms(5) le_Suc_ex [of 2 k] by auto
  then show ?thesis
    using False exchange_stuck [of fk nonce cr fk j] exchange_stuck [of fk nonce cr fk "Suc j"] assms(3,4)
      connector_refuses_long_id [of fk nonce cr fk "[]"]
    by (simp add: acceptor_result_def connector_result_def acceptor_after_version del: exchange.simps)
qed

text \<open>
  C3.  Who gets a sync connection.  Whatever bytes a peer sends, the handler
  starts syncing exactly when a configured certificate bundle validates the peer
  and the peer's answer, after the version byte and within 256 bytes, starts with
  the keyed hash of this handshake's nonce and the formation identifier.  In every
  other case the connection is refused, and no input makes the handler panic.
\<close>

theorem sync_connection_authenticated:
  "(handler_accept cr fk bundle now peer nonce rx = SyncStarted \<longleftrightarrow>
     (\<forall>b. bundle = Some b \<longrightarrow> validate_peer cr b peer now) \<and>
     (\<exists>len body rest. rx = FORMATION_AUTH_VERSION # len @ body @ rest \<and> length len = 4 \<and>
        le_val len = length body \<and> 32 \<le> length body \<and> length body \<le> 256 \<and>
        take 32 body = hmac_sha256 cr (hmac_key fk) (nonce @ as_bytes (formation_id fk)))) \<and>
   handler_accept cr fk bundle now peer nonce rx \<noteq> AcceptPanic"
proof -
  have "handler_accept cr fk bundle now peer nonce rx = SyncStarted \<longleftrightarrow>
      (\<forall>b. bundle = Some b \<longrightarrow> validate_peer cr b peer now) \<and> snd (run_formation_auth cr fk nonce rx) = Inr ()"
    using run_formation_auth_not_panic [of cr fk nonce rx]
    by (auto simp: handler_accept_def split: option.splits sum.splits failure.splits)
  moreover have "handler_accept cr fk bundle now peer nonce rx \<noteq> AcceptPanic"
    using run_formation_auth_not_panic [of cr fk nonce rx]
    by (auto simp: handler_accept_def split: sum.splits failure.splits)
  ultimately show ?thesis
    unfolding acceptor_accepts_iff compute_response_def by blast
qed

text \<open>
  The handshake is one-sided.  A connecting node takes any acceptor for a
  member that names its formation and says yes: no key is needed for either, and
  on the way the node computes the keyed hash of a nonce of the acceptor's
  choice.
\<close>

lemma connector_accepts_keyless_acceptor:
  assumes "valid_string (formation_id fk)" "length (formation_id fk) \<le> 990" "length nonce = 32"
  shows "respond_to_formation_auth cr fk
      (frame32 (challenge_to_bytes \<lparr>ch_formation_id = formation_id fk, ch_nonce = nonce\<rparr>) @ [1]) =
    (FORMATION_AUTH_VERSION # frame32 (hmac_sha256 cr (hmac_key fk) (nonce @ as_bytes (formation_id fk))), Inr ())"
  using connector_after_challenge [OF assms, of cr "[1]"] by (simp add: challenge_frame_def compute_response_def)

definition sample_formation :: FormationKey where
  "sample_formation = formation_key_new sample_crypto ''alpha'' (replicate 32 5)"

lemma sample_formation_id: "formation_id sample_formation = ''alpha''" "valid_string ''alpha''"
  by (simp_all add: sample_formation_def formation_key_new_def string_eval)

theorem formation_handshake_completes_witness:
  "acceptor_result sample_crypto sample_formation sample_formation (replicate 32 6) 4 = Inr () \<and>
   connector_result sample_crypto sample_formation sample_formation (replicate 32 6) 4 = Inr ()"
  using formation_handshake_completes [OF sample_crypto_laws, of sample_formation "replicate 32 6" 4] sample_formation_id
  by simp

theorem sync_connection_authenticated_witness:
  "handler_accept sample_crypto sample_formation None 0 [] (replicate 32 6)
     (FORMATION_AUTH_VERSION # le_bytes 4 32 @ compute_response sample_crypto sample_formation (replicate 32 6)) = SyncStarted"
proof -
  let ?h = "compute_response sample_crypto sample_formation (replicate 32 6)"
  have "FORMATION_AUTH_VERSION # le_bytes 4 32 @ ?h = FORMATION_AUTH_VERSION # le_bytes 4 32 @ ?h @ [] \<and>
      length (le_bytes 4 32) = 4 \<and> le_val (le_bytes 4 32) = length ?h \<and> 32 \<le> length ?h \<and> length ?h \<le> 256 \<and>
      take 32 ?h = hmac_sha256 sample_crypto (hmac_key sample_formation)
        (replicate 32 6 @ as_bytes (formation_id sample_formation))"
    by (simp add: sample_crypto_laws) (simp add: compute_response_def sample_crypto_laws)
  then show ?thesis
    using sync_connection_authenticated [of sample_crypto sample_formation None 0 "[]" "replicate 32 6"
        "FORMATION_AUTH_VERSION # le_bytes 4 32 @ ?h"]
    by blast
qed

section \<open>Lemmas on the table of connections\<close>

text \<open>A connection handed out is open in the table, or was dialled and authenticated just now.\<close>

lemma get_or_connect_spec:
  assumes "get_or_connect cr fk closed dial rx peer t = (t', Inr c)"
  shows "get_connection t' peer = Some c \<and>
    (get_connection t peer = Some c \<and> \<not> closed c \<and> t' = t \<or>
     dial = Some c \<and> snd (respond_to_formation_auth cr fk rx) = Inr ())"
  using assms
  by (auto simp: get_or_connect_def connect_and_authenticate_def get_connection_def insert_connection_def
      remove_connection_def split: option.splits sum.splits failure.splits if_splits)

lemma connected_peers_live:
  "hm_wf t \<Longrightarrow> peer \<in> set (snd (connected_peers closed t)) \<longleftrightarrow> (\<exists>c. get_connection t peer = Some c \<and> \<not> closed c)"
  by (force simp: connected_peers_def Let_def hm_retain_def get_connection_def hm_wf_def)

text \<open>
  The task of a connection removes the peer's entry when it ends, whichever
  connection is in it: after a reconnection the end of the old connection takes
  the new one out of the table.
\<close>

lemma old_task_drops_new_connection:
  "get_connection (start_sync_connection peer new (start_sync_connection peer old t)) peer = Some new \<and>
   get_connection (sync_task_ended peer (start_sync_connection peer new (start_sync_connection peer old t))) peer = None"
  by (simp add: get_connection_def sync_task_ended_def start_sync_connection_def insert_connection_def
      remove_connection_def)

end
