(* ===== verification/Membership.thy ===== *)
theory Membership
  imports Certificate
begin

text \<open>
  Who may connect and who is asked for blobs: the set of formation members
  (\<^verbatim>\<open>src/security/formation_peers.rs\<close>), the connection gate, the index from blobs to peers
  and the list of known peers of \<^verbatim>\<open>src/storage/iroh_blob_store.rs\<close>, and the connector that
  keeps them in step with discovery (\<^verbatim>\<open>src/peer_connector.rs\<close>).

  An endpoint identifier is the 32 bytes of a public key; \<open>iroh_public\<close> is the function
  of the iroh crate from a secret key to it.  A hash set is a list without
  repetitions.
\<close>

section \<open>Formation members and the connection gate\<close>

type_synonym endpoint_id = "byte list"

definition peers_insert :: "endpoint_id \<Rightarrow> endpoint_id list \<Rightarrow> endpoint_id list" where
  "peers_insert e s = List.insert e s"

definition peers_remove :: "endpoint_id \<Rightarrow> endpoint_id list \<Rightarrow> endpoint_id list" where
  "peers_remove e s = removeAll e s"

definition peers_contains :: "endpoint_id list \<Rightarrow> endpoint_id \<Rightarrow> bool" where
  "peers_contains s e \<longleftrightarrow> e \<in> set s"

definition CAP_ENROLLMENT_ALPN :: string where
  "CAP_ENROLLMENT_ALPN = ''peat/enroll/1''"

datatype HandshakeOutcome = HandshakeAccept | HandshakeReject nat

definition after_handshake :: "endpoint_id list \<Rightarrow> string \<Rightarrow> endpoint_id \<Rightarrow> HandshakeOutcome" where
  "after_handshake allowed alpn remote =
     (if alpn = CAP_ENROLLMENT_ALPN then HandshakeAccept
      else if peers_contains allowed remote then HandshakeAccept
      else HandshakeReject 3)"

section \<open>The index of blobs\<close>

record BlobPeerIndex =
  blob_to_peers :: "(string, endpoint_id list) hmap"
  peer_to_blobs :: "(endpoint_id, string list) hmap"

definition index_new :: BlobPeerIndex where
  "index_new = \<lparr>blob_to_peers = [], peer_to_blobs = []\<rparr>"

definition advertise :: "endpoint_id \<Rightarrow> string \<Rightarrow> BlobPeerIndex \<Rightarrow> BlobPeerIndex" where
  "advertise p h idx =
     idx\<lparr>blob_to_peers := hm_insert h (List.insert p (hm_get_or [] (blob_to_peers idx) h)) (blob_to_peers idx),
         peer_to_blobs := hm_insert p (List.insert h (hm_get_or [] (peer_to_blobs idx) p)) (peer_to_blobs idx)\<rparr>"

text \<open>One round of the loop over the blobs of a removed peer.\<close>

definition drop_blob ::
  "endpoint_id \<Rightarrow> string \<Rightarrow> (string, endpoint_id list) hmap \<Rightarrow> (string, endpoint_id list) hmap" where
  "drop_blob p h m =
     (case hm_get m h of
        Some ps \<Rightarrow>
          let ps' = removeAll p ps in
          if ps' = [] then hm_remove h m else hm_insert h ps' m
      | None \<Rightarrow> m)"

definition index_remove_peer :: "endpoint_id \<Rightarrow> BlobPeerIndex \<Rightarrow> BlobPeerIndex" where
  "index_remove_peer p idx =
     (case hm_get (peer_to_blobs idx) p of
        Some blobs \<Rightarrow>
          idx\<lparr>peer_to_blobs := hm_remove p (peer_to_blobs idx),
              blob_to_peers := fold (drop_blob p) blobs (blob_to_peers idx)\<rparr>
      | None \<Rightarrow> idx)"

definition peers_with_blob :: "BlobPeerIndex \<Rightarrow> string \<Rightarrow> endpoint_id list" where
  "peers_with_blob idx h = hm_get_or [] (blob_to_peers idx) h"

definition peer_blob_count :: "BlobPeerIndex \<Rightarrow> endpoint_id \<Rightarrow> nat" where
  "peer_blob_count idx p = (case hm_get (peer_to_blobs idx) p of Some bs \<Rightarrow> length bs | None \<Rightarrow> 0)"

definition total_entries :: "BlobPeerIndex \<Rightarrow> nat" where
  "total_entries idx = sum_list (map (length \<circ> snd) (blob_to_peers idx))"

section \<open>The blob store's peers and the connector\<close>

text \<open>The address book of the iroh crate, as its operations on a state.\<close>

record ('m, 'a) lookup_lib =
  add_endpoint_info :: "endpoint_id \<Rightarrow> 'a list \<Rightarrow> 'm \<Rightarrow> 'm"
  set_endpoint_info :: "endpoint_id \<Rightarrow> 'a list \<Rightarrow> 'm \<Rightarrow> 'm"
  remove_endpoint_info :: "endpoint_id \<Rightarrow> 'm \<Rightarrow> 'm"

record 'm connector_state =
  memory_lookup :: 'm
  known_peers :: "endpoint_id list"
  blob_peer_index :: BlobPeerIndex
  formation_peers :: "endpoint_id list"

definition store_add_peer :: "endpoint_id \<Rightarrow> 'm connector_state \<Rightarrow> 'm connector_state" where
  "store_add_peer e s =
     (if e \<in> set (known_peers s) then s else s\<lparr>known_peers := known_peers s @ [e]\<rparr>)"

definition store_remove_peer :: "endpoint_id \<Rightarrow> 'm connector_state \<Rightarrow> 'm connector_state" where
  "store_remove_peer e s =
     s\<lparr>known_peers := filter (\<lambda>p. p \<noteq> e) (known_peers s),
       blob_peer_index := index_remove_peer e (blob_peer_index s)\<rparr>"

record 'a PeerInfo =
  peer_node_id :: string
  peer_addresses :: "'a list"

datatype 'a DiscoveryEvent =
    PeerFound "'a PeerInfo"
  | PeerLost string
  | PeerUpdated "'a PeerInfo"

definition derive_peer_endpoint_id :: "crypto \<Rightarrow> (byte list \<Rightarrow> endpoint_id) \<Rightarrow> byte list \<Rightarrow> string \<Rightarrow> endpoint_id" where
  "derive_peer_endpoint_id cr iroh_public secret host =
     iroh_public (hkdf_sha256 cr None secret (as_bytes (''iroh:'' @ host)))"

text \<open>
  One event.  \<open>bundle\<close> is the shared certificate bundle as it is when the event is
  handled, \<open>clock\<close> the system clock in milliseconds, \<open>None\<close> before the epoch: with a
  bundle the reading is unwrapped, and the task dies.
\<close>

definition certified ::
  "crypto \<Rightarrow> CertificateBundle option \<Rightarrow> u64 option \<Rightarrow> string \<Rightarrow> (unit, bool) result" where
  "certified cr bundle clock host =
     (case bundle of
        None \<Rightarrow> Inr True
      | Some b \<Rightarrow>
          (case clock of None \<Rightarrow> Inl Panic | Some now \<Rightarrow> Inr (validate_node_id cr b host now)))"

fun connector_step ::
  "crypto \<Rightarrow> (byte list \<Rightarrow> endpoint_id) \<Rightarrow> ('m, 'a) lookup_lib \<Rightarrow> byte list \<Rightarrow> endpoint_id
     \<Rightarrow> CertificateBundle option \<times> u64 option \<times> 'a DiscoveryEvent
     \<Rightarrow> 'm connector_state \<Rightarrow> (unit, 'm connector_state) result" where
  "connector_step cr iroh_public lib secret me (bundle, clock, PeerFound info) s =
     (let e = derive_peer_endpoint_id cr iroh_public secret (peer_node_id info) in
      if e = me then Inr s
      else rbind (certified cr bundle clock (peer_node_id info)) (\<lambda>ok.
        if \<not> ok then Inr s
        else
          let s1 = s\<lparr>memory_lookup := add_endpoint_info lib e (peer_addresses info) (memory_lookup s)\<rparr>;
              s2 = store_add_peer e s1
          in Inr (s2\<lparr>formation_peers := peers_insert e (formation_peers s2)\<rparr>)))"
| "connector_step cr iroh_public lib secret me (bundle, clock, PeerLost host) s =
     (let e = derive_peer_endpoint_id cr iroh_public secret host;
          s1 = s\<lparr>memory_lookup := remove_endpoint_info lib e (memory_lookup s)\<rparr>;
          s2 = store_remove_peer e s1
      in Inr (s2\<lparr>formation_peers := peers_remove e (formation_peers s2)\<rparr>))"
| "connector_step cr iroh_public lib secret me (bundle, clock, PeerUpdated info) s =
     (let e = derive_peer_endpoint_id cr iroh_public secret (peer_node_id info) in
      if e = me then Inr s
      else rbind (certified cr bundle clock (peer_node_id info)) (\<lambda>ok.
        if \<not> ok then
          let s1 = s\<lparr>memory_lookup := remove_endpoint_info lib e (memory_lookup s)\<rparr>;
              s2 = store_remove_peer e s1
          in Inr (s2\<lparr>formation_peers := peers_remove e (formation_peers s2)\<rparr>)
        else Inr (s\<lparr>memory_lookup := set_endpoint_info lib e (peer_addresses info) (memory_lookup s)\<rparr>)))"

primrec connector_run ::
  "crypto \<Rightarrow> (byte list \<Rightarrow> endpoint_id) \<Rightarrow> ('m, 'a) lookup_lib \<Rightarrow> byte list \<Rightarrow> endpoint_id
     \<Rightarrow> (CertificateBundle option \<times> u64 option \<times> 'a DiscoveryEvent) list
     \<Rightarrow> 'm connector_state \<Rightarrow> (unit, 'm connector_state) result" where
  "connector_run cr iroh_public lib secret me [] s = Inr s"
| "connector_run cr iroh_public lib secret me (ev # evs) s =
     rbind (connector_step cr iroh_public lib secret me ev s) (connector_run cr iroh_public lib secret me evs)"

text \<open>
  What the node starts the connector with: the address book of its new endpoint, a blob
  store that knows no peer, and a set of formation peers that holds the node's own
  endpoint, so that connections to itself are let through.
\<close>

definition connector_start :: "'m \<Rightarrow> endpoint_id \<Rightarrow> 'm connector_state" where
  "connector_start book me =
     \<lparr>memory_lookup = book, known_peers = [], blob_peer_index = index_new,
      formation_peers = peers_insert me []\<rparr>"

section \<open>The index is a relation\<close>

text \<open>The pairs of peer and blob that both directions of the index hold.\<close>

definition index_rel :: "BlobPeerIndex \<Rightarrow> (endpoint_id \<times> string) set" where
  "index_rel idx = {(p, h). p \<in> set (hm_get_or [] (blob_to_peers idx) h)}"

definition index_inv :: "BlobPeerIndex \<Rightarrow> bool" where
  "index_inv idx \<longleftrightarrow>
     hm_wf (blob_to_peers idx) \<and>
     (\<forall>h ps. hm_get (blob_to_peers idx) h = Some ps \<longrightarrow> ps \<noteq> [] \<and> distinct ps) \<and>
     (\<forall>p hs. hm_get (peer_to_blobs idx) p = Some hs \<longrightarrow> distinct hs) \<and>
     (\<forall>p h. (p, h) \<in> index_rel idx \<longleftrightarrow> h \<in> set (hm_get_or [] (peer_to_blobs idx) p))"

lemma hm_get_or_insert [simp]: "hm_get_or d (hm_insert k v m) k' = (if k' = k then v else hm_get_or d m k')"
  by (simp add: hm_get_or_def)

lemma hm_get_or_remove [simp]: "hm_get_or d (hm_remove k m) k' = (if k' = k then d else hm_get_or d m k')"
  by (simp add: hm_get_or_def)

lemma index_inv_new: "index_inv index_new" "index_rel index_new = {}"
  by (simp_all add: index_inv_def index_rel_def index_new_def hm_get_or_def)

lemma advertise_rel: "index_rel (advertise p h idx) = insert (p, h) (index_rel idx)"
  by (auto simp: index_rel_def advertise_def)

lemma distinct_get_or: "(\<And>v. hm_get m k = Some v \<Longrightarrow> distinct v) \<Longrightarrow> distinct (hm_get_or [] m k)"
  by (simp add: hm_get_or_def split: option.splits)

lemma index_invD:
  assumes "index_inv idx"
  shows "hm_wf (blob_to_peers idx)"
    and "hm_get (blob_to_peers idx) h = Some ps \<Longrightarrow> ps \<noteq> [] \<and> distinct ps"
    and "hm_get (peer_to_blobs idx) p = Some hs \<Longrightarrow> distinct hs"
    and "(p, h) \<in> index_rel idx \<longleftrightarrow> h \<in> set (hm_get_or [] (peer_to_blobs idx) p)"
  using assms unfolding index_inv_def by blast+

lemma index_invI:
  assumes "hm_wf (blob_to_peers idx)"
    and "\<And>h ps. hm_get (blob_to_peers idx) h = Some ps \<Longrightarrow> ps \<noteq> [] \<and> distinct ps"
    and "\<And>p hs. hm_get (peer_to_blobs idx) p = Some hs \<Longrightarrow> distinct hs"
    and "\<And>p h. (p, h) \<in> index_rel idx \<longleftrightarrow> h \<in> set (hm_get_or [] (peer_to_blobs idx) p)"
  shows "index_inv idx"
  using assms unfolding index_inv_def by blast

lemma insert_not_Nil: "List.insert x xs \<noteq> []"
  by (cases xs) (auto simp: List.insert_def)

lemma advertise_inv:
  assumes "index_inv idx"
  shows "index_inv (advertise p h idx)"
proof (rule index_invI)
  have d: "distinct (hm_get_or [] (blob_to_peers idx) h)" "distinct (hm_get_or [] (peer_to_blobs idx) p)"
    using index_invD(2) [OF assms, of h] index_invD(3) [OF assms, of p]
    by (simp_all only: distinct_get_or)
  show "hm_wf (blob_to_peers (advertise p h idx))"
    using index_invD(1) [OF assms] by (simp add: advertise_def)
  show "ps \<noteq> [] \<and> distinct ps" if "hm_get (blob_to_peers (advertise p h idx)) g = Some ps" for g ps
    using that d(1) index_invD(2) [OF assms, of g ps] by (cases "g = h") (auto simp: advertise_def insert_not_Nil)
  show "distinct hs" if "hm_get (peer_to_blobs (advertise p h idx)) q = Some hs" for q hs
    using that d(2) index_invD(3) [OF assms, of q hs] by (cases "q = p") (auto simp: advertise_def)
  show "(q, g) \<in> index_rel (advertise p h idx) \<longleftrightarrow> g \<in> set (hm_get_or [] (peer_to_blobs (advertise p h idx)) q)" for q g
    using index_invD(4) [OF assms, of q g] by (auto simp: advertise_rel) (auto simp: advertise_def split: if_splits)
qed

lemma drop_blob_get_or:
  "hm_get_or [] (drop_blob p h m) h' = (if h' = h then removeAll p (hm_get_or [] m h) else hm_get_or [] m h')"
  by (cases "hm_get m h") (auto simp: drop_blob_def hm_get_or_def Let_def)

lemma drop_blobs_get_or:
  "hm_get_or [] (fold (drop_blob p) hs m) h = (if h \<in> set hs then removeAll p (hm_get_or [] m h) else hm_get_or [] m h)"
  by (induction hs arbitrary: m) (auto simp: drop_blob_get_or)

lemma drop_blob_wf:
  assumes "hm_wf m \<and> (\<forall>h ps. hm_get m h = Some ps \<longrightarrow> ps \<noteq> [] \<and> distinct ps)"
  shows "hm_wf (drop_blob p g m) \<and> (\<forall>h ps. hm_get (drop_blob p g m) h = Some ps \<longrightarrow> ps \<noteq> [] \<and> distinct ps)"
proof (cases "hm_get m g")
  case (Some ps)
  then have "distinct ps"
    using assms by blast
  with assms Some show ?thesis
    by (cases "removeAll p ps = []") (simp_all add: drop_blob_def Let_def distinct_removeAll del: removeAll_id)
qed (use assms in \<open>simp add: drop_blob_def\<close>)

lemma drop_blobs_wf:
  "hm_wf m \<and> (\<forall>h ps. hm_get m h = Some ps \<longrightarrow> ps \<noteq> [] \<and> distinct ps) \<Longrightarrow>
   hm_wf (fold (drop_blob p) hs m) \<and>
   (\<forall>h ps. hm_get (fold (drop_blob p) hs m) h = Some ps \<longrightarrow> ps \<noteq> [] \<and> distinct ps)"
proof (induction hs arbitrary: m)
  case (Cons g hs)
  show ?case
    unfolding fold.simps comp_apply by (rule Cons.IH [OF drop_blob_wf [OF Cons.prems]])
qed simp

lemma remove_peer_rel:
  assumes "index_inv idx"
  shows "index_rel (index_remove_peer p idx) = {(q, h) \<in> index_rel idx. q \<noteq> p}"
proof -
  have only: "h \<in> set (hm_get_or [] (peer_to_blobs idx) p)" if "p \<in> set (hm_get_or [] (blob_to_peers idx) h)" for h
    using that index_invD(4) [OF assms, of p h] by (simp add: index_rel_def)
  show ?thesis
  proof (cases "hm_get (peer_to_blobs idx) p")
    case None
    then show ?thesis
      using only by (auto simp: index_rel_def index_remove_peer_def hm_get_or_def [of _ "peer_to_blobs idx"])
  next
    case (Some hs)
    then have "p \<in> set (hm_get_or [] (blob_to_peers idx) h) \<Longrightarrow> h \<in> set hs" for h
      using only [of h] by (simp add: hm_get_or_def [of _ "peer_to_blobs idx"])
    with Some show ?thesis
      by (auto simp: index_rel_def index_remove_peer_def drop_blobs_get_or split: if_splits)
  qed
qed

lemma remove_peer_maps:
  "blob_to_peers (index_remove_peer p idx) = fold (drop_blob p) (hm_get_or [] (peer_to_blobs idx) p) (blob_to_peers idx)"
  "hm_get (peer_to_blobs (index_remove_peer p idx)) q = (if q = p then None else hm_get (peer_to_blobs idx) q)"
  by (simp_all add: index_remove_peer_def hm_get_or_def split: option.splits)

lemma remove_peer_inv:
  assumes "index_inv idx"
  shows "index_inv (index_remove_peer p idx)"
proof (rule index_invI)
  have "hm_wf (blob_to_peers idx) \<and>
      (\<forall>h ps. hm_get (blob_to_peers idx) h = Some ps \<longrightarrow> ps \<noteq> [] \<and> distinct ps)"
    using index_invD(1,2) [OF assms] by blast
  from drop_blobs_wf [OF this] have kept: "hm_wf (blob_to_peers (index_remove_peer p idx)) \<and>
      (\<forall>h ps. hm_get (blob_to_peers (index_remove_peer p idx)) h = Some ps \<longrightarrow> ps \<noteq> [] \<and> distinct ps)"
    unfolding remove_peer_maps(1) by blast
  show "hm_wf (blob_to_peers (index_remove_peer p idx))"
    using kept by blast
  show "ps \<noteq> [] \<and> distinct ps" if "hm_get (blob_to_peers (index_remove_peer p idx)) h = Some ps" for h ps
    using kept that by blast
  show "distinct hs" if "hm_get (peer_to_blobs (index_remove_peer p idx)) q = Some hs" for q hs
    using that index_invD(3) [OF assms, of q hs] by (simp add: remove_peer_maps(2) split: if_splits)
  show "(q, h) \<in> index_rel (index_remove_peer p idx) \<longleftrightarrow>
      h \<in> set (hm_get_or [] (peer_to_blobs (index_remove_peer p idx)) q)" for q h
    unfolding remove_peer_rel [OF assms] using index_invD(4) [OF assms, of q h]
    by (simp add: hm_get_or_def [of _ "peer_to_blobs (index_remove_peer p idx)"] remove_peer_maps(2))
      (simp add: hm_get_or_def)
qed

text \<open>Counting the pairs a map of lists stands for.\<close>

definition map_rel :: "('h, 'p list) hmap \<Rightarrow> ('p \<times> 'h) set" where
  "map_rel m = {(p, h). p \<in> set (hm_get_or [] m h)}"

lemma map_rel_Cons:
  "hm_get m g = None \<Longrightarrow> map_rel ((g, ps) # m) = (\<lambda>p. (p, g)) ` set ps \<union> map_rel m"
  "hm_get m g = None \<Longrightarrow> (\<lambda>p. (p, g)) ` set ps \<inter> map_rel m = {}"
  by (auto simp: map_rel_def hm_get_or_def split: if_splits)

lemma card_map_rel:
  "hm_wf m \<Longrightarrow> \<forall>(h, ps) \<in> set m. distinct ps \<Longrightarrow>
     finite (map_rel m) \<and> card (map_rel m) = sum_list (map (length \<circ> snd) m)"
proof (induction m)
  case Nil
  then show ?case
    by (simp add: map_rel_def hm_get_or_def)
next
  case (Cons e m)
  obtain g ps where e: "e = (g, ps)"
    by (rule prod.exhaust)
  have "hm_get m g = None" "hm_wf m" "distinct ps"
    using Cons(2,3) by (simp_all add: e hm_wf_def map_of_eq_None_iff)
  moreover have "card ((\<lambda>p. (p, g)) ` set ps) = length ps"
    using \<open>distinct ps\<close> by (simp add: card_image inj_on_def distinct_card)
  ultimately show ?case
    using Cons(1,3) map_rel_Cons [of m g ps] by (simp add: e card_Un_disjoint)
qed

lemma total_entries_card:
  assumes "index_inv idx"
  shows "finite (index_rel idx) \<and> total_entries idx = card (index_rel idx)"
proof -
  have wf: "hm_wf (blob_to_peers idx)"
    by (rule index_invD(1) [OF assms])
  have "\<forall>(h, ps) \<in> set (blob_to_peers idx). distinct ps"
  proof clarify
    fix h ps
    assume "(h, ps) \<in> set (blob_to_peers idx)"
    then have "hm_get (blob_to_peers idx) h = Some ps"
      using wf by (simp add: hm_wf_def)
    then show "distinct ps"
      using index_invD(2) [OF assms] by blast
  qed
  from card_map_rel [OF wf this] show ?thesis
    by (simp add: index_rel_def map_rel_def total_entries_def)
qed

text \<open>The two operations that change the index, and the same on the relation.\<close>

datatype index_op = Advertise endpoint_id string | RemovePeer endpoint_id

fun index_step :: "index_op \<Rightarrow> BlobPeerIndex \<Rightarrow> BlobPeerIndex" where
  "index_step (Advertise p h) idx = advertise p h idx"
| "index_step (RemovePeer p) idx = index_remove_peer p idx"

fun rel_step :: "index_op \<Rightarrow> (endpoint_id \<times> string) set \<Rightarrow> (endpoint_id \<times> string) set" where
  "rel_step (Advertise p h) r = insert (p, h) r"
| "rel_step (RemovePeer p) r = {(q, h) \<in> r. q \<noteq> p}"

lemma index_run:
  "index_inv idx \<Longrightarrow> index_inv (fold index_step ops idx) \<and>
     index_rel (fold index_step ops idx) = fold rel_step ops (index_rel idx)"
proof (induction ops arbitrary: idx)
  case (Cons op ops)
  have "index_inv (index_step op idx)" "index_rel (index_step op idx) = rel_step op (index_rel idx)"
    using Cons(2) by (cases op; simp add: advertise_inv remove_peer_inv advertise_rel remove_peer_rel)+
  with Cons(1) [of "index_step op idx"] show ?case
    by simp
qed simp

text \<open>
  The blob index.  After any sequence of announcements and peer removals the
  two tables are the two directions of one relation: the pairs announced whose
  peer was not removed since.  A lookup lists the peers of a blob, each once; the
  count of a peer is the number of its blobs; the total is the number of pairs,
  so nothing of a removed peer stays behind in either table.
\<close>

lemma blob_index_refines_relation:
  "set (peers_with_blob (fold index_step ops index_new) h) = {p. (p, h) \<in> fold rel_step ops {}} \<and>
   distinct (peers_with_blob (fold index_step ops index_new) h) \<and>
   peer_blob_count (fold index_step ops index_new) p = card {g. (p, g) \<in> fold rel_step ops {}} \<and>
   total_entries (fold index_step ops index_new) = card (fold rel_step ops {})"
proof -
  let ?idx = "fold index_step ops index_new"
  have inv: "index_inv ?idx" and rel: "fold rel_step ops {} = index_rel ?idx"
    using index_run [OF index_inv_new(1), of ops] index_inv_new(2) by simp_all
  have "distinct (peers_with_blob ?idx h)"
    unfolding peers_with_blob_def using index_invD(2) [OF inv, of h] by (simp only: distinct_get_or)
  moreover have "{g. (p, g) \<in> index_rel ?idx} = set (hm_get_or [] (peer_to_blobs ?idx) p)"
    using index_invD(4) [OF inv, of p] by simp
  then have "peer_blob_count ?idx p = card {g. (p, g) \<in> index_rel ?idx}"
    using index_invD(3) [OF inv, of p]
    by (cases "hm_get (peer_to_blobs ?idx) p") (simp_all add: peer_blob_count_def hm_get_or_def distinct_card)
  moreover have "set (peers_with_blob ?idx h) = {p. (p, h) \<in> index_rel ?idx}"
    by (simp add: index_rel_def peers_with_blob_def)
  ultimately show ?thesis
    using total_entries_card [OF inv] unfolding rel by simp
qed

section \<open>The gate follows discovery\<close>

text \<open>
  What one event means for one endpoint: found with a certificate admits it, lost
  or updated without one expels it, and everything else leaves it as it was.
\<close>

fun gate_step ::
  "crypto \<Rightarrow> (string \<Rightarrow> endpoint_id) \<Rightarrow> endpoint_id \<Rightarrow> endpoint_id
     \<Rightarrow> CertificateBundle option \<times> u64 option \<times> 'a DiscoveryEvent \<Rightarrow> bool \<Rightarrow> bool" where
  "gate_step cr eid me e (bundle, clock, PeerFound info) g =
     (if eid (peer_node_id info) = e \<and> e \<noteq> me \<and> certified cr bundle clock (peer_node_id info) = Inr True
      then True else g)"
| "gate_step cr eid me e (bundle, clock, PeerLost host) g = (if eid host = e then False else g)"
| "gate_step cr eid me e (bundle, clock, PeerUpdated info) g =
     (if eid (peer_node_id info) = e \<and> e \<noteq> me \<and> certified cr bundle clock (peer_node_id info) = Inr False
      then False else g)"

definition gate ::
  "crypto \<Rightarrow> (string \<Rightarrow> endpoint_id) \<Rightarrow> endpoint_id \<Rightarrow> endpoint_id
     \<Rightarrow> (CertificateBundle option \<times> u64 option \<times> 'a DiscoveryEvent) list \<Rightarrow> bool" where
  "gate cr eid me e evs = fold (gate_step cr eid me e) evs False"

lemmas connector_defs = store_add_peer_def store_remove_peer_def peers_insert_def peers_remove_def Let_def

lemma connector_step_gate:
  assumes "connector_step cr iroh_public lib secret me ev s = Inr s'"
    and "eid = derive_peer_endpoint_id cr iroh_public secret"
  shows "(e \<in> set (formation_peers s')) = gate_step cr eid me e ev (e \<in> set (formation_peers s))"
    and "(e \<in> set (known_peers s')) = gate_step cr eid me e ev (e \<in> set (known_peers s))"
proof -
  obtain cb clk d where ev: "ev = (cb, clk, d)"
    by (rule prod_cases3)
  have "(e \<in> set (formation_peers s')) = gate_step cr eid me e ev (e \<in> set (formation_peers s)) \<and>
      (e \<in> set (known_peers s')) = gate_step cr eid me e ev (e \<in> set (known_peers s))"
  proof (cases d)
    case (PeerFound info)
    then show ?thesis
      using assms ev
      by (cases "eid (peer_node_id info) = me"; cases "certified cr cb clk (peer_node_id info)")
        (auto simp: connector_defs split: if_splits)
  next
    case (PeerLost host)
    then show ?thesis
      using assms ev by (auto simp: connector_defs)
  next
    case (PeerUpdated info)
    then show ?thesis
      using assms ev
      by (cases "eid (peer_node_id info) = me"; cases "certified cr cb clk (peer_node_id info)")
        (auto simp: connector_defs split: if_splits)
  qed
  then show "(e \<in> set (formation_peers s')) = gate_step cr eid me e ev (e \<in> set (formation_peers s))"
      "(e \<in> set (known_peers s')) = gate_step cr eid me e ev (e \<in> set (known_peers s))"
    by blast+
qed

lemma connector_run_gate:
  assumes "connector_run cr iroh_public lib secret me evs s = Inr s'"
    and "eid = derive_peer_endpoint_id cr iroh_public secret"
  shows "(e \<in> set (formation_peers s')) = fold (gate_step cr eid me e) evs (e \<in> set (formation_peers s)) \<and>
    (e \<in> set (known_peers s')) = fold (gate_step cr eid me e) evs (e \<in> set (known_peers s))"
  using assms(1)
proof (induction evs arbitrary: s)
  case (Cons ev evs)
  then obtain t where t: "connector_step cr iroh_public lib secret me ev s = Inr t"
      "connector_run cr iroh_public lib secret me evs t = Inr s'"
    by (auto simp: rbind_eq_Inr)
  show ?case
    using Cons.IH [OF t(2)] connector_step_gate [OF t(1) assms(2), of e] by simp
qed simp

text \<open>The events that admit an endpoint and those that expel it.\<close>

fun admits ::
  "crypto \<Rightarrow> (string \<Rightarrow> endpoint_id) \<Rightarrow> endpoint_id \<Rightarrow> endpoint_id
     \<Rightarrow> CertificateBundle option \<times> u64 option \<times> 'a DiscoveryEvent \<Rightarrow> bool" where
  "admits cr eid me e (cb, clk, PeerFound info) \<longleftrightarrow>
     eid (peer_node_id info) = e \<and> e \<noteq> me \<and> certified cr cb clk (peer_node_id info) = Inr True"
| "admits cr eid me e _ \<longleftrightarrow> False"

fun expels ::
  "crypto \<Rightarrow> (string \<Rightarrow> endpoint_id) \<Rightarrow> endpoint_id \<Rightarrow> endpoint_id
     \<Rightarrow> CertificateBundle option \<times> u64 option \<times> 'a DiscoveryEvent \<Rightarrow> bool" where
  "expels cr eid me e (cb, clk, PeerLost host) \<longleftrightarrow> eid host = e"
| "expels cr eid me e (cb, clk, PeerUpdated info) \<longleftrightarrow>
     eid (peer_node_id info) = e \<and> e \<noteq> me \<and> certified cr cb clk (peer_node_id info) = Inr False"
| "expels cr eid me e _ \<longleftrightarrow> False"

lemma gate_step_eq: "gate_step cr eid me e ev g \<longleftrightarrow> admits cr eid me e ev \<or> g \<and> \<not> expels cr eid me e ev"
  by (cases "(cr, eid, me, e, ev, g)" rule: gate_step.cases) auto

lemma gate_iff:
  "gate cr eid me e evs \<longleftrightarrow>
     (\<exists>pre ev post. evs = pre @ ev # post \<and> admits cr eid me e ev \<and> (\<forall>x \<in> set post. \<not> expels cr eid me e x))"
    (is "_ \<longleftrightarrow> ?r evs")
proof (induction evs rule: rev_induct)
  case Nil
  then show ?case
    by (simp add: gate_def)
next
  case (snoc x evs)
  have "?r (evs @ [x]) \<longleftrightarrow> admits cr eid me e x \<or> ?r evs \<and> \<not> expels cr eid me e x"
  proof
    assume "?r (evs @ [x])"
    then obtain pre ev post where *: "evs @ [x] = pre @ ev # post" "admits cr eid me e ev"
        "\<forall>y \<in> set post. \<not> expels cr eid me e y"
      by blast
    show "admits cr eid me e x \<or> ?r evs \<and> \<not> expels cr eid me e x"
    proof (cases post rule: rev_cases)
      case (snoc post' y)
      with * have "evs = pre @ ev # post'" "y = x"
        by (simp_all flip: append_Cons append_assoc)
      moreover have "\<forall>z \<in> set post'. \<not> expels cr eid me e z" "\<not> expels cr eid me e y"
        using * snoc by simp_all
      ultimately show ?thesis
        using *(2) by blast
    qed (use * in auto)
  next
    assume "admits cr eid me e x \<or> ?r evs \<and> \<not> expels cr eid me e x"
    then show "?r (evs @ [x])"
    proof
      assume "admits cr eid me e x"
      then show ?thesis
        by (intro exI [of _ evs] exI [of _ x] exI [of _ "[]"]) simp
    next
      assume "?r evs \<and> \<not> expels cr eid me e x"
      then obtain pre ev post where "evs = pre @ ev # post" "admits cr eid me e ev"
          "\<forall>y \<in> set post. \<not> expels cr eid me e y" "\<not> expels cr eid me e x"
        by blast
      then show ?thesis
        by (intro exI [of _ pre] exI [of _ ev] exI [of _ "post @ [x]"]) auto
    qed
  qed
  with snoc show ?case
    by (simp add: gate_def gate_step_eq)
qed

lemma self_not_admitted [simp]: "\<not> admits cr eid me me ev"
  by (cases "(cr, eid, me, me, ev)" rule: admits.cases) simp_all

text \<open>From a start where the endpoint is let through, it stays so until an event expels it.\<close>

lemma fold_gate:
  "fold (gate_step cr eid me e) evs g \<longleftrightarrow> gate cr eid me e evs \<or> g \<and> (\<forall>x \<in> set evs. \<not> expels cr eid me e x)"
proof (induction evs rule: rev_induct)
  case (snoc x evs)
  then show ?case
    by (auto simp: gate_def gate_step_eq)
qed (simp add: gate_def)

text \<open>
  C9.  The connection gate of a node, from its start on.  After any discovery events the
  endpoint's hook lets a peer through, outside the enrolment protocol, exactly when some
  event announced a name of that peer, not this node's own, and, where a certificate
  bundle is configured, the bundle of that moment validated the name, and no later event
  reported the peer lost or updated with a name that the configured bundle no longer
  validates; without a bundle every announced peer is let through.  The
  peers asked for blobs are the same ones.  An update never admits a peer, and a repeated
  announcement never expels one.  The node itself is let through from the start, until its
  own name is reported lost; then no event lets it through again.
\<close>

theorem gate_follows_discovery:
  assumes "connector_run cr iroh_public lib secret me evs (connector_start book me) = Inr s"
    and "alpn \<noteq> CAP_ENROLLMENT_ALPN" and "eid = derive_peer_endpoint_id cr iroh_public secret"
  shows "(e \<in> set (known_peers s) \<longleftrightarrow>
      (\<exists>pre ev post. evs = pre @ ev # post \<and> admits cr eid me e ev \<and> (\<forall>x \<in> set post. \<not> expels cr eid me e x))) \<and>
    (after_handshake (formation_peers s) alpn e = HandshakeAccept \<longleftrightarrow>
      e \<in> set (known_peers s) \<or> e = me \<and> (\<forall>x \<in> set evs. \<not> expels cr eid me e x)) \<and>
    me \<notin> set (known_peers s)"
proof -
  have "me \<notin> set (known_peers s)"
    using connector_run_gate [OF assms(1,3), of me] gate_iff [of cr eid me me evs]
    by (simp add: connector_start_def gate_def self_not_admitted)
  then show ?thesis
    using connector_run_gate [OF assms(1,3), of e] gate_iff [of cr eid me e evs] assms(2)
    by (auto simp: connector_start_def fold_gate after_handshake_def peers_contains_def peers_insert_def)
qed

text \<open>An endpoint key derived by copying the start of the context string, and an address book that is a log.\<close>

definition sample_lookup :: "(endpoint_id list, nat) lookup_lib" where
  "sample_lookup = \<lparr>add_endpoint_info = (\<lambda>e as m. e # m), set_endpoint_info = (\<lambda>e as m. m),
     remove_endpoint_info = (\<lambda>e m. removeAll e m)\<rparr>"

theorem gate_follows_discovery_witness:
  "let bundle = bundle_run sample_crypto sample_calls bundle_new;
       found = \<lambda>name. (Some bundle, Some 1600, PeerFound \<lparr>peer_node_id = name, peer_addresses = [1 :: nat]\<rparr>);
       eid = derive_peer_endpoint_id sample_crypto id [4]
   in \<exists>s. connector_run sample_crypto id sample_lookup [4] [0] [found ''node-1''] (connector_start [] [0]) = Inr s \<and>
       known_peers s = [eid ''node-1''] \<and>
       after_handshake (formation_peers s) ''sync'' (eid ''node-1'') = HandshakeAccept \<and>
       after_handshake (formation_peers s) ''sync'' [0] = HandshakeAccept"
proof -
  let ?b = "bundle_run sample_crypto sample_calls bundle_new"
  let ?c = "cert_signed sample_crypto sample_certificate sample_authority"
  let ?info = "\<lparr>peer_node_id = ''node-1'', peer_addresses = [1 :: nat]\<rparr>"
  let ?eid = "derive_peer_endpoint_id sample_crypto id [4]"
  have "cert_subject ?c = replicate 32 7" "cert_node_id ?c = ''node-1''" "cert_issuer ?c = replicate 32 9" "cert_is_valid ?c 1600"
    by (simp_all add: cert_signed_def cert_sign_with_def sample_certificate_def cert_new_def cert_is_valid_def)
  moreover have "cert_verify sample_crypto ?c = Inr ()"
    by (rule cert_signed_verifies)
      (simp_all add: sample_crypto_laws sample_authority_key sample_certificate_def cert_new_def)
  ultimately have "validate_node_id sample_crypto ?b ''node-1'' 1600"
    by (simp add: validate_node_id_iff validate_peer_def bundle_run_def sample_calls_def add_certificate_def
        is_trusted_issuer_def add_authority_def bundle_new_def)
  then have cert: "certified sample_crypto (Some ?b) (Some 1600) ''node-1'' = Inr True"
    by (simp add: certified_def)
  have other: "?eid ''node-1'' \<noteq> [0]"
  proof
    assume "?eid ''node-1'' = [0]"
    then have "length (?eid ''node-1'') = length [0 :: byte]"
      by simp
    then show False
      by (simp add: derive_peer_endpoint_id_def sample_crypto_laws)
  qed
  obtain s where s: "connector_run sample_crypto id sample_lookup [4] [0]
      [(Some ?b, Some 1600, PeerFound ?info)] (connector_start [] [0]) = Inr s" "known_peers s = [?eid ''node-1'']"
    using other cert by (simp add: Let_def store_add_peer_def connector_start_def)
  have "after_handshake (formation_peers s) ''sync'' (?eid ''node-1'') = HandshakeAccept"
      "after_handshake (formation_peers s) ''sync'' [0] = HandshakeAccept"
    using gate_follows_discovery [OF s(1) _ refl, of "''sync''"] s(2) by (simp_all add: CAP_ENROLLMENT_ALPN_def)
  then show ?thesis
    using s by (auto simp: Let_def)
qed

end
