(* ===== verification/Encryption.thy ===== *)
theory Encryption
  imports Identity
begin

text \<open>
  Encryption of messages and stored documents, \<^verbatim>\<open>src/security/encryption.rs\<close>: symmetric
  keys, channels between two peers, group keys of cells, the manager that holds
  them.  The cipher and the key exchange are of other crates (\<^verbatim>\<open>chacha20poly1305\<close>,
  \<^verbatim>\<open>x25519_dalek\<close>) and are the fields of a \<open>cipher\<close> record; \<open>cipher_laws\<close> is what
  they document: decryption undoes encryption under the same key and nonce, and
  the two ends of an exchange agree.  Nonces and fresh key bytes are the
  arguments that the random generator supplies; nothing is assumed about them.
\<close>

section \<open>The primitives\<close>

record cipher =
  aead_encrypt :: "byte list \<Rightarrow> byte list \<Rightarrow> byte list \<Rightarrow> byte list option"
  aead_decrypt :: "byte list \<Rightarrow> byte list \<Rightarrow> byte list \<Rightarrow> byte list option"
  x25519_public :: "byte list \<Rightarrow> byte list"
  x25519_dh :: "byte list \<Rightarrow> byte list \<Rightarrow> byte list"

definition cipher_laws :: "cipher \<Rightarrow> bool" where
  "cipher_laws ci \<longleftrightarrow>
     (\<forall>k n m c. aead_encrypt ci k n m = Some c \<longrightarrow> aead_decrypt ci k n c = Some m) \<and>
     (\<forall>a b. x25519_dh ci a (x25519_public ci b) = x25519_dh ci b (x25519_public ci a))"

record EncryptionKeypair =
  enc_secret :: "byte list"
  enc_public :: "byte list"

definition enc_keypair_from_secret_bytes :: "cipher \<Rightarrow> byte list \<Rightarrow> EncryptionKeypair" where
  "enc_keypair_from_secret_bytes ci bs = \<lparr>enc_secret = bs, enc_public = x25519_public ci bs\<rparr>"

definition dh_exchange :: "cipher \<Rightarrow> EncryptionKeypair \<Rightarrow> byte list \<Rightarrow> byte list" where
  "dh_exchange ci kp peer = x25519_dh ci (enc_secret kp) peer"

type_synonym SymmetricKey = "byte list"

definition derive_from_shared_secret :: "crypto \<Rightarrow> byte list \<Rightarrow> byte list \<Rightarrow> SymmetricKey" where
  "derive_from_shared_secret cr shared info = hkdf_sha256 cr None shared info"

definition derive_for_peer :: "crypto \<Rightarrow> byte list \<Rightarrow> SymmetricKey" where
  "derive_for_peer cr shared = derive_from_shared_secret cr shared (as_bytes ''peat-protocol-v1-peer'')"

record EncryptedData =
  nonce :: "byte list"
  ciphertext :: "byte list"

definition key_encrypt ::
  "cipher \<Rightarrow> SymmetricKey \<Rightarrow> byte list \<Rightarrow> byte list \<Rightarrow> (SecurityError, EncryptedData) result" where
  "key_encrypt ci k n m =
     (case aead_encrypt ci k n m of
        None \<Rightarrow> Inl (Err (EncryptionError ''aead''))
      | Some c \<Rightarrow> Inr \<lparr>nonce = n, ciphertext = c\<rparr>)"

definition key_decrypt :: "cipher \<Rightarrow> SymmetricKey \<Rightarrow> EncryptedData \<Rightarrow> (SecurityError, byte list) result" where
  "key_decrypt ci k d =
     (case aead_decrypt ci k (nonce d) (ciphertext d) of
        None \<Rightarrow> Inl (Err (DecryptionError ''aead''))
      | Some m \<Rightarrow> Inr m)"

definition data_to_bytes :: "EncryptedData \<Rightarrow> byte list" where
  "data_to_bytes d = nonce d @ ciphertext d"

definition data_from_bytes :: "byte list \<Rightarrow> (SecurityError, EncryptedData) result" where
  "data_from_bytes bs =
     rbind (ensure (12 \<le> length bs) (DecryptionError ''ciphertext too short for nonce'')) (\<lambda>_.
     rbind (slice 12 bs) (\<lambda>(n, c). Inr \<lparr>nonce = n, ciphertext = c\<rparr>))"

section \<open>Channels and group keys\<close>

record SecureChannel =
  channel_peer :: DeviceId
  channel_key :: SymmetricKey
  established_at :: int

definition channel_new :: "int \<Rightarrow> DeviceId \<Rightarrow> SymmetricKey \<Rightarrow> SecureChannel" where
  "channel_new now peer k = \<lparr>channel_peer = peer, channel_key = k, established_at = now\<rparr>"

definition channel_encrypt ::
  "cipher \<Rightarrow> SecureChannel \<Rightarrow> byte list \<Rightarrow> byte list \<Rightarrow> (SecurityError, EncryptedData) result" where
  "channel_encrypt ci ch n m = key_encrypt ci (channel_key ch) n m"

definition channel_decrypt :: "cipher \<Rightarrow> SecureChannel \<Rightarrow> EncryptedData \<Rightarrow> (SecurityError, byte list) result" where
  "channel_decrypt ci ch d = key_decrypt ci (channel_key ch) d"

definition channel_age_secs :: "int \<Rightarrow> SecureChannel \<Rightarrow> nat" where
  "channel_age_secs now ch =
     (if established_at ch \<le> now then nat (now - established_at ch) div 1000000000 else 0)"

record GroupKey =
  group_cell_id :: string
  group_key :: SymmetricKey
  generation :: u64
  group_created_at :: int

record EncryptedCellMessage =
  msg_cell_id :: string
  msg_generation :: u64
  msg_encrypted :: EncryptedData

definition group_generate :: "int \<Rightarrow> byte list \<Rightarrow> string \<Rightarrow> GroupKey" where
  "group_generate now kb cell =
     \<lparr>group_cell_id = cell, group_key = kb, generation = 1, group_created_at = now\<rparr>"

definition group_from_bytes :: "int \<Rightarrow> string \<Rightarrow> byte list \<Rightarrow> u64 \<Rightarrow> GroupKey" where
  "group_from_bytes now cell kb g =
     \<lparr>group_cell_id = cell, group_key = kb, generation = g, group_created_at = now\<rparr>"

definition group_encrypt ::
  "cipher \<Rightarrow> GroupKey \<Rightarrow> byte list \<Rightarrow> byte list \<Rightarrow> (SecurityError, EncryptedCellMessage) result" where
  "group_encrypt ci gk n m =
     rbind (key_encrypt ci (group_key gk) n m) (\<lambda>d.
     Inr \<lparr>msg_cell_id = group_cell_id gk, msg_generation = generation gk, msg_encrypted = d\<rparr>)"

definition group_decrypt :: "cipher \<Rightarrow> GroupKey \<Rightarrow> EncryptedCellMessage \<Rightarrow> (SecurityError, byte list) result" where
  "group_decrypt ci gk msg =
     (if msg_cell_id msg \<noteq> group_cell_id gk then Inl (Err (DecryptionError ''cell ID mismatch''))
      else if msg_generation msg \<noteq> generation gk then Inl (Err (DecryptionError ''key generation mismatch''))
      else key_decrypt ci (group_key gk) (msg_encrypted msg))"

definition group_rotate :: "int \<Rightarrow> byte list \<Rightarrow> GroupKey \<Rightarrow> GroupKey" where
  "group_rotate now kb gk =
     \<lparr>group_cell_id = group_cell_id gk, group_key = kb, generation = generation gk + 1, group_created_at = now\<rparr>"

definition cell_message_to_bytes :: "EncryptedCellMessage \<Rightarrow> byte list" where
  "cell_message_to_bytes msg =
       le_bytes 4 (unat (word_of_nat (length (as_bytes (msg_cell_id msg))) :: u32))
     @ as_bytes (msg_cell_id msg)
     @ le_bytes 8 (unat (msg_generation msg))
     @ data_to_bytes (msg_encrypted msg)"

definition cell_message_from_bytes :: "byte list \<Rightarrow> (SecurityError, EncryptedCellMessage) result" where
  "cell_message_from_bytes bs =
     rbind (ensure (12 \<le> length bs) (DecryptionError ''message too short'')) (\<lambda>_.
     rbind (slice 4 bs) (\<lambda>(lb, r1).
     rbind (ensure (4 + le_val lb + 8 \<le> length bs) (DecryptionError ''message truncated'')) (\<lambda>_.
     rbind (slice (le_val lb) r1) (\<lambda>(cb, r2).
     rbind (from_utf8 (DecryptionError ''cell_id'') cb) (\<lambda>cell.
     rbind (slice 8 r2) (\<lambda>(gb, r3).
     rbind (data_from_bytes r3) (\<lambda>d.
     Inr \<lparr>msg_cell_id = cell, msg_generation = word_of_nat (le_val gb), msg_encrypted = d\<rparr>)))))))"

record EncryptedDocument =
  doc_encrypted :: EncryptedData
  doc_encrypted_by :: DeviceId
  doc_encrypted_at :: u64

section \<open>The manager\<close>

record EncryptionManager =
  em_keypair :: EncryptionKeypair
  em_device_id :: DeviceId
  peer_channels :: "(DeviceId, SecureChannel) hmap"
  cell_keys :: "(string, GroupKey) hmap"
  device_key :: SymmetricKey

definition manager_new :: "crypto \<Rightarrow> EncryptionKeypair \<Rightarrow> DeviceId \<Rightarrow> EncryptionManager" where
  "manager_new cr kp d =
     \<lparr>em_keypair = kp, em_device_id = d, peer_channels = [], cell_keys = [],
      device_key = hkdf_sha256 cr None (enc_public kp) (as_bytes ''peat-protocol-v1-device'')\<rparr>"

definition manager_public_key_bytes :: "EncryptionManager \<Rightarrow> byte list" where
  "manager_public_key_bytes em = enc_public (em_keypair em)"

definition establish_channel ::
  "crypto \<Rightarrow> cipher \<Rightarrow> int \<Rightarrow> DeviceId \<Rightarrow> byte list \<Rightarrow> EncryptionManager \<Rightarrow> EncryptionManager" where
  "establish_channel cr ci now peer pk em =
     (let shared = dh_exchange ci (em_keypair em) pk;
          k = derive_for_peer cr shared;
          ch = channel_new now peer k
      in em\<lparr>peer_channels := hm_insert peer ch (peer_channels em)\<rparr>)"

definition get_channel :: "EncryptionManager \<Rightarrow> DeviceId \<Rightarrow> SecureChannel option" where
  "get_channel em peer = hm_get (peer_channels em) peer"

definition has_channel :: "EncryptionManager \<Rightarrow> DeviceId \<Rightarrow> bool" where
  "has_channel em peer = hm_contains (peer_channels em) peer"

definition remove_channel :: "DeviceId \<Rightarrow> EncryptionManager \<Rightarrow> EncryptionManager" where
  "remove_channel peer em = em\<lparr>peer_channels := hm_remove peer (peer_channels em)\<rparr>"

definition encrypt_for_peer ::
  "cipher \<Rightarrow> EncryptionManager \<Rightarrow> DeviceId \<Rightarrow> byte list \<Rightarrow> byte list \<Rightarrow> (SecurityError, EncryptedData) result" where
  "encrypt_for_peer ci em peer n m =
     (case hm_get (peer_channels em) peer of
        None \<Rightarrow> Inl (Err (EncryptionError ''no channel for peer''))
      | Some ch \<Rightarrow> channel_encrypt ci ch n m)"

definition decrypt_from_peer ::
  "cipher \<Rightarrow> EncryptionManager \<Rightarrow> DeviceId \<Rightarrow> EncryptedData \<Rightarrow> (SecurityError, byte list) result" where
  "decrypt_from_peer ci em peer d =
     (case hm_get (peer_channels em) peer of
        None \<Rightarrow> Inl (Err (DecryptionError ''no channel for peer''))
      | Some ch \<Rightarrow> channel_decrypt ci ch d)"

definition get_or_create_cell_key ::
  "int \<Rightarrow> byte list \<Rightarrow> string \<Rightarrow> EncryptionManager \<Rightarrow> EncryptionManager \<times> GroupKey" where
  "get_or_create_cell_key now kb cell em =
     (case hm_get (cell_keys em) cell of
        Some gk \<Rightarrow> (em, gk)
      | None \<Rightarrow>
          let gk = group_generate now kb cell
          in (em\<lparr>cell_keys := hm_insert cell gk (cell_keys em)\<rparr>, gk))"

definition set_cell_key :: "GroupKey \<Rightarrow> EncryptionManager \<Rightarrow> EncryptionManager" where
  "set_cell_key gk em = em\<lparr>cell_keys := hm_insert (group_cell_id gk) gk (cell_keys em)\<rparr>"

definition get_cell_key :: "EncryptionManager \<Rightarrow> string \<Rightarrow> GroupKey option" where
  "get_cell_key em cell = hm_get (cell_keys em) cell"

definition rotate_cell_key ::
  "int \<Rightarrow> byte list \<Rightarrow> string \<Rightarrow> EncryptionManager
     \<Rightarrow> EncryptionManager \<times> (SecurityError, GroupKey) result" where
  "rotate_cell_key now kb cell em =
     (case hm_get (cell_keys em) cell of
        None \<Rightarrow> (em, Inl (Err (EncryptionError ''no key for cell'')))
      | Some old \<Rightarrow>
          let new = group_rotate now kb old
          in (em\<lparr>cell_keys := hm_insert cell new (cell_keys em)\<rparr>, Inr new))"

definition remove_cell_key :: "string \<Rightarrow> EncryptionManager \<Rightarrow> EncryptionManager" where
  "remove_cell_key cell em = em\<lparr>cell_keys := hm_remove cell (cell_keys em)\<rparr>"

definition encrypt_for_cell ::
  "cipher \<Rightarrow> EncryptionManager \<Rightarrow> string \<Rightarrow> byte list \<Rightarrow> byte list \<Rightarrow> (SecurityError, EncryptedCellMessage) result" where
  "encrypt_for_cell ci em cell n m =
     (case hm_get (cell_keys em) cell of
        None \<Rightarrow> Inl (Err (EncryptionError ''no key for cell''))
      | Some gk \<Rightarrow> group_encrypt ci gk n m)"

definition decrypt_cell_message ::
  "cipher \<Rightarrow> EncryptionManager \<Rightarrow> EncryptedCellMessage \<Rightarrow> (SecurityError, byte list) result" where
  "decrypt_cell_message ci em msg =
     (case hm_get (cell_keys em) (msg_cell_id msg) of
        None \<Rightarrow> Inl (Err (DecryptionError ''no key for cell''))
      | Some gk \<Rightarrow> group_decrypt ci gk msg)"

text \<open>\<open>secs\<close> is the clock in whole seconds, zero before the epoch.\<close>

definition encrypt_document ::
  "cipher \<Rightarrow> EncryptionManager \<Rightarrow> u64 \<Rightarrow> byte list \<Rightarrow> byte list \<Rightarrow> (SecurityError, EncryptedDocument) result" where
  "encrypt_document ci em secs n m =
     rbind (key_encrypt ci (device_key em) n m) (\<lambda>d.
     Inr \<lparr>doc_encrypted = d, doc_encrypted_by = em_device_id em, doc_encrypted_at = secs\<rparr>)"

definition decrypt_document :: "cipher \<Rightarrow> EncryptionManager \<Rightarrow> EncryptedDocument \<Rightarrow> (SecurityError, byte list) result" where
  "decrypt_document ci em d =
     (if doc_encrypted_by d \<noteq> em_device_id em
      then Inl (Err (DecryptionError ''document encrypted by different device''))
      else key_decrypt ci (device_key em) (doc_encrypted d))"

section \<open>Messages\<close>

lemma key_decrypt_encrypt: "cipher_laws ci \<Longrightarrow> key_encrypt ci k n m = Inr d \<Longrightarrow> key_decrypt ci k d = Inr m"
  by (auto simp: cipher_laws_def key_encrypt_def key_decrypt_def split: option.splits)

lemma key_encrypt_nonce: "key_encrypt ci k n m = Inr d \<Longrightarrow> nonce d = n"
  by (auto simp: key_encrypt_def split: option.splits)

lemma data_round_trip: "length (nonce d) = 12 \<Longrightarrow> data_from_bytes (data_to_bytes d) = Inr d"
  by (simp add: data_from_bytes_def data_to_bytes_def)

lemma data_from_bytes_not_panic [simp]: "data_from_bytes bs \<noteq> Inl Panic"
  by (auto simp: data_from_bytes_def reader_eqs split: prod.splits)

definition cell_message_ok :: "EncryptedCellMessage \<Rightarrow> bool" where
  "cell_message_ok msg \<longleftrightarrow>
     valid_string (msg_cell_id msg) \<and> length (msg_cell_id msg) < 2 ^ 32 \<and> length (nonce (msg_encrypted msg)) = 12"

lemma cell_message_round_trip:
  "cell_message_ok msg \<Longrightarrow> cell_message_from_bytes (cell_message_to_bytes msg) = Inr msg"
  by (simp add: cell_message_ok_def cell_message_from_bytes_def cell_message_to_bytes_def data_round_trip
      unat_of_nat unsigned_less)

lemma cell_message_from_bytes_not_panic: "cell_message_from_bytes bs \<noteq> Inl Panic"
  by (auto simp: cell_message_from_bytes_def reader_eqs split: prod.splits)

text \<open>
  C14.  Messages between peers.  When two devices have exchanged public keys, what
  one encrypts for the other is, after the wire, decrypted to the same bytes by
  the other, whatever further channels and cell keys the two hold; and once the
  receiver removed the channel it is refused.
\<close>

theorem secure_channel_delivers:
  assumes "cipher_laws ci" "length n = 12"
    and "em_keypair alice = enc_keypair_from_secret_bytes ci sa" "em_keypair bob = enc_keypair_from_secret_bytes ci sb"
    and "alice' = establish_channel cr ci t1 bob_id (manager_public_key_bytes bob) alice"
    and "bob' = establish_channel cr ci t2 alice_id (manager_public_key_bytes alice) bob"
    and "encrypt_for_peer ci alice' bob_id n m = Inr d"
  shows "data_from_bytes (data_to_bytes d) = Inr d \<and> decrypt_from_peer ci bob' alice_id d = Inr m \<and>
    decrypt_from_peer ci (remove_channel alice_id bob') alice_id d = Inl (Err (DecryptionError ''no channel for peer''))"
proof -
  let ?k = "derive_for_peer cr (x25519_dh ci sa (x25519_public ci sb))"
  have "x25519_dh ci sb (x25519_public ci sa) = x25519_dh ci sa (x25519_public ci sb)"
    using assms(1) unfolding cipher_laws_def by blast
  then have bob: "decrypt_from_peer ci bob' alice_id d = key_decrypt ci ?k d"
    using assms(3,4,6) by (simp add: decrypt_from_peer_def establish_channel_def Let_def channel_decrypt_def
        channel_new_def dh_exchange_def enc_keypair_from_secret_bytes_def manager_public_key_bytes_def)
  have alice: "key_encrypt ci ?k n m = Inr d"
    using assms(3-5,7) by (simp add: encrypt_for_peer_def establish_channel_def Let_def channel_encrypt_def
        channel_new_def dh_exchange_def enc_keypair_from_secret_bytes_def manager_public_key_bytes_def)
  show ?thesis
    using bob key_decrypt_encrypt [OF assms(1) alice] key_encrypt_nonce [OF alice] assms(2) data_round_trip [of d]
    by (simp add: remove_channel_def decrypt_from_peer_def)
qed

text \<open>
  C15.  Rotating a cell's key.  After a rotation the device refuses every message
  of the generation before, its own included, and the holders of the earlier key
  refuse every new one, without trying the cipher; a member that is given the new
  key reads, after the wire, exactly what was sent.
\<close>

theorem rotation_separates_generations:
  assumes "cipher_laws ci" "length n = 12" "length n' = 12" "valid_string cell" "length cell < 2 ^ 32"
    and "hm_get (cell_keys em) cell = Some gk" "group_cell_id gk = cell"
    and "rotate_cell_key now kb cell em = (em', Inr new)"
    and "encrypt_for_cell ci em cell n m = Inr old_msg" "encrypt_for_cell ci em' cell n' m' = Inr new_msg"
  shows "decrypt_cell_message ci em old_msg = Inr m \<and>
    decrypt_cell_message ci em' old_msg = Inl (Err (DecryptionError ''key generation mismatch'')) \<and>
    decrypt_cell_message ci em new_msg = Inl (Err (DecryptionError ''key generation mismatch'')) \<and>
    cell_message_from_bytes (cell_message_to_bytes new_msg) = Inr new_msg \<and>
    decrypt_cell_message ci (set_cell_key new other) new_msg = Inr m'"
proof -
  have new: "new = group_rotate now kb gk" "hm_get (cell_keys em') cell = Some new" "group_cell_id new = cell"
    using assms(6-8) by (auto simp: rotate_cell_key_def Let_def group_rotate_def)
  obtain d where d: "key_encrypt ci (group_key gk) n m = Inr d"
      "old_msg = \<lparr>msg_cell_id = cell, msg_generation = generation gk, msg_encrypted = d\<rparr>"
    using assms(6,7,9) by (auto simp: encrypt_for_cell_def group_encrypt_def rbind_eq_Inr)
  obtain d' where d': "key_encrypt ci (group_key new) n' m' = Inr d'"
      "new_msg = \<lparr>msg_cell_id = cell, msg_generation = generation new, msg_encrypted = d'\<rparr>"
    using assms(10) new by (auto simp: encrypt_for_cell_def group_encrypt_def rbind_eq_Inr)
  have "generation new \<noteq> generation gk" "generation gk \<noteq> generation new"
    using new(1) by (simp_all add: group_rotate_def)
  moreover have "cell_message_ok new_msg"
    using assms(3-5) d' key_encrypt_nonce [OF d'(1)] by (simp add: cell_message_ok_def)
  ultimately show ?thesis
    using assms(6,7) new d d' key_decrypt_encrypt [OF assms(1) d(1)] key_decrypt_encrypt [OF assms(1) d'(1)]
      cell_message_round_trip [of new_msg]
    by (simp add: decrypt_cell_message_def group_decrypt_def set_cell_key_def)
qed

text \<open>
  Documents at rest.  A document is decrypted by the device that encrypted
  it; another device identity is refused.  The key is derived from the device's
  public key alone: whoever knows the public key, which is sent to every peer,
  computes the key and reads the document.
\<close>

lemma at_rest_key_is_public:
  assumes "cipher_laws ci" "em = manager_new cr kp dev" "encrypt_document ci em secs n m = Inr d"
  shows "decrypt_document ci em d = Inr m \<and>
    (dev' \<noteq> dev \<longrightarrow> decrypt_document ci (em\<lparr>em_device_id := dev'\<rparr>) d
       = Inl (Err (DecryptionError ''document encrypted by different device''))) \<and>
    key_decrypt ci (hkdf_sha256 cr None (manager_public_key_bytes em) (as_bytes ''peat-protocol-v1-device''))
      (doc_encrypted d) = Inr m"
  using assms key_decrypt_encrypt [OF assms(1), of "device_key em" n m "doc_encrypted d"]
  by (auto simp: encrypt_document_def rbind_eq_Inr decrypt_document_def manager_new_def manager_public_key_bytes_def)

text \<open>A concrete cipher for the witnesses: the key in front of the message, and a commutative exchange.\<close>

definition sample_cipher :: cipher where
  "sample_cipher =
     \<lparr>aead_encrypt = (\<lambda>k n m. Some (k @ m)), aead_decrypt = (\<lambda>k n c. Some (drop (length k) c)),
      x25519_public = id, x25519_dh = (\<lambda>a b. le_bytes 32 (le_val a * le_val b))\<rparr>"

lemma sample_cipher_laws: "cipher_laws sample_cipher"
  by (simp add: cipher_laws_def sample_cipher_def mult.commute)

lemma sample_cipher_encrypts: "key_encrypt sample_cipher k n m = Inr \<lparr>nonce = n, ciphertext = k @ m\<rparr>"
  by (simp add: key_encrypt_def sample_cipher_def)

definition sample_manager :: "byte \<Rightarrow> EncryptionManager" where
  "sample_manager x =
     manager_new sample_crypto (enc_keypair_from_secret_bytes sample_cipher [x]) (DeviceId (replicate 16 x))"

theorem secure_channel_delivers_witness:
  "\<exists>d. encrypt_for_peer sample_cipher
        (establish_channel sample_crypto sample_cipher 0 (DeviceId [2]) (manager_public_key_bytes (sample_manager 2))
          (sample_manager 1)) (DeviceId [2]) (replicate 12 0) [104, 105] = Inr d \<and>
     decrypt_from_peer sample_cipher
        (establish_channel sample_crypto sample_cipher 0 (DeviceId [1]) (manager_public_key_bytes (sample_manager 1))
          (sample_manager 2)) (DeviceId [1]) d = Inr [104, 105]"
proof -
  let ?a = "establish_channel sample_crypto sample_cipher 0 (DeviceId [2])
    (manager_public_key_bytes (sample_manager 2)) (sample_manager 1)"
  obtain d where d: "encrypt_for_peer sample_cipher ?a (DeviceId [2]) (replicate 12 0) [104, 105] = Inr d"
    by (simp add: encrypt_for_peer_def establish_channel_def Let_def channel_encrypt_def sample_cipher_encrypts)
  have "em_keypair (sample_manager x) = enc_keypair_from_secret_bytes sample_cipher [x]" for x
    by (simp add: sample_manager_def manager_new_def)
  from secure_channel_delivers [OF sample_cipher_laws _ this this refl refl d] d show ?thesis
    by simp
qed

definition sample_cell :: EncryptionManager where
  "sample_cell = fst (get_or_create_cell_key 0 [7] ''cell'' (sample_manager 1))"

theorem rotation_separates_generations_witness:
  "\<exists>em' new msg. rotate_cell_key 5 [8] ''cell'' sample_cell = (em', Inr new) \<and>
     encrypt_for_cell sample_cipher em' ''cell'' (replicate 12 0) [1, 2] = Inr msg \<and>
     decrypt_cell_message sample_cipher sample_cell msg = Inl (Err (DecryptionError ''key generation mismatch'')) \<and>
     decrypt_cell_message sample_cipher (set_cell_key new (sample_manager 3)) msg = Inr [1, 2]"
proof -
  let ?gk = "group_generate 0 [7] ''cell''"
  have cell: "hm_get (cell_keys sample_cell) ''cell'' = Some ?gk" "group_cell_id ?gk = ''cell''"
    by (simp_all add: sample_cell_def get_or_create_cell_key_def sample_manager_def manager_new_def group_generate_def Let_def)
  then obtain em' new where rot: "rotate_cell_key 5 [8] ''cell'' sample_cell = (em', Inr new)"
      "hm_get (cell_keys em') ''cell'' = Some new"
    by (simp add: rotate_cell_key_def Let_def)
  obtain old_msg where old_msg: "encrypt_for_cell sample_cipher sample_cell ''cell'' (replicate 12 0) [9] = Inr old_msg"
    using cell by (simp add: encrypt_for_cell_def group_encrypt_def sample_cipher_encrypts)
  obtain msg where msg: "encrypt_for_cell sample_cipher em' ''cell'' (replicate 12 0) [1, 2] = Inr msg"
    using rot by (simp add: encrypt_for_cell_def group_encrypt_def sample_cipher_encrypts)
  have "valid_string ''cell''"
    by (simp add: string_eval)
  with rotation_separates_generations [OF sample_cipher_laws _ _ _ _ cell rot(1) old_msg msg, of "sample_manager 3"] rot msg
  show ?thesis
    by simp
qed


end
