(* ===== verification/Bypass.thy ===== *)
theory Bypass
  imports Encryption Keyed_State
begin

text \<open>
  The UDP bypass channel, \<^verbatim>\<open>src/transport/bypass.rs\<close>: configuration, credentials, the
  replay window over 8-bit sequence numbers, the 12-byte header, the channel's
  send path and one turn of its receive loop.

  The socket is a parameter: the outcome of a send, of joining a multicast group
  and of binding are arguments, and what the receive loop reads is an event.
  Subscribers are behind a broadcast channel of another crate; a received
  message is returned by the step that publishes it.  The signature and cipher
  primitives are those of the theories Identity and Encryption.
\<close>

unbundle bit_operations_syntax

section \<open>Errors and configuration\<close>

datatype IpAddr = V4 u32 | V6 "128 word"

type_synonym SocketAddr = "IpAddr \<times> u16"

datatype BypassError =
    Io string
  | Encode string
  | Decode string
  | Config string
  | NotStarted
  | MessageTooLarge nat nat
  | InvalidHeader
  | StaleMessage
  | BadSignature
  | DecryptionFailed
  | UnauthorizedSource IpAddr
  | ReplayDetected u8
  | MissingCredential string

datatype MessagePriority = PriorityBackground | PriorityNormal | PriorityHigh | PriorityCritical

datatype BypassTransport = Unicast | Multicast IpAddr u16 | Broadcast

datatype MessageEncoding = Protobuf | Json | Raw | Cbor

record BypassCollectionConfig =
  bypass_collection :: string
  bypass_transport :: BypassTransport
  bypass_encoding :: MessageEncoding
  bypass_ttl_ms :: u64
  bypass_priority :: MessagePriority

record UdpConfig =
  bind_port :: u16
  buffer_size :: nat
  multicast_ttl :: u32

record BypassChannelConfig =
  udp :: UdpConfig
  bypass_collections :: "BypassCollectionConfig list"
  multicast_enabled :: bool
  max_message_size :: nat

definition udp_config_default :: UdpConfig where
  "udp_config_default = \<lparr>bind_port = 5150, buffer_size = 65536, multicast_ttl = 32\<rparr>"

definition bypass_config_new :: BypassChannelConfig where
  "bypass_config_new =
     \<lparr>udp = udp_config_default, bypass_collections = [], multicast_enabled = True, max_message_size = 65000\<rparr>"

definition with_collection :: "BypassChannelConfig \<Rightarrow> BypassCollectionConfig \<Rightarrow> BypassChannelConfig" where
  "with_collection cfg c = cfg\<lparr>bypass_collections := bypass_collections cfg @ [c]\<rparr>"

definition get_collection :: "BypassChannelConfig \<Rightarrow> string \<Rightarrow> BypassCollectionConfig option" where
  "get_collection cfg name = find (\<lambda>c. bypass_collection c = name) (bypass_collections cfg)"

section \<open>Security configuration and credentials\<close>

record BypassSecurityConfig =
  require_signature :: bool
  encrypt_payload :: bool
  source_allowlist :: "IpAddr list option"
  replay_protection :: bool
  replay_window_size :: nat

definition full_security :: BypassSecurityConfig where
  "full_security =
     \<lparr>require_signature = True, encrypt_payload = True, source_allowlist = None,
      replay_protection = True, replay_window_size = 64\<rparr>"

definition is_source_allowed :: "BypassSecurityConfig \<Rightarrow> IpAddr \<Rightarrow> bool" where
  "is_source_allowed sc ip = (case source_allowlist sc of Some ips \<Rightarrow> ip \<in> set ips | None \<Rightarrow> True)"

record BypassSecurityCredentials =
  signing_key :: "byte list option"
  peer_keys :: "(string, byte list) hmap"
  encryption_key :: "byte list option"

definition credentials_sign ::
  "crypto \<Rightarrow> BypassSecurityCredentials \<Rightarrow> byte list \<Rightarrow> (BypassError, byte list) result" where
  "credentials_sign cr c m =
     (case signing_key c of
        None \<Rightarrow> Inl (Err (MissingCredential ''signing key''))
      | Some k \<Rightarrow> Inr (ed_sign cr k m))"

definition credentials_verify ::
  "crypto \<Rightarrow> BypassSecurityCredentials \<Rightarrow> string \<Rightarrow> byte list \<Rightarrow> byte list \<Rightarrow> (BypassError, unit) result" where
  "credentials_verify cr c peer m sig =
     (case hm_get (peer_keys c) peer of
        None \<Rightarrow> Inl (Err (MissingCredential (''peer key for '' @ peer)))
      | Some k \<Rightarrow> ensure (ed_verify cr k m sig) BadSignature)"

text \<open>A cipher key has 32 bytes by its type, so \<^verbatim>\<open>new_from_slice\<close> accepts it.\<close>

definition credentials_encrypt ::
  "cipher \<Rightarrow> BypassSecurityCredentials \<Rightarrow> byte list \<Rightarrow> byte list \<Rightarrow> (BypassError, byte list) result" where
  "credentials_encrypt ci c m n =
     (case encryption_key c of
        None \<Rightarrow> Inl (Err (MissingCredential ''encryption key''))
      | Some k \<Rightarrow>
          (case aead_encrypt ci k n m of
             None \<Rightarrow> Inl (Err (Encode ''Encryption failed''))
           | Some x \<Rightarrow> Inr x))"

definition credentials_decrypt ::
  "cipher \<Rightarrow> BypassSecurityCredentials \<Rightarrow> byte list \<Rightarrow> byte list \<Rightarrow> (BypassError, byte list) result" where
  "credentials_decrypt ci c x n =
     (case encryption_key c of
        None \<Rightarrow> Inl (Err (MissingCredential ''encryption key''))
      | Some k \<Rightarrow>
          (case aead_decrypt ci k n x of
             None \<Rightarrow> Inl (Err DecryptionFailed)
           | Some m \<Rightarrow> Inr m))"

section \<open>Replay protection\<close>

record ReplayWindow =
  highest_seq :: u8
  seen :: u64

definition replay_window_new :: ReplayWindow where
  "replay_window_new = \<lparr>highest_seq = 0, seen = 0\<rparr>"

definition check_and_update :: "nat \<Rightarrow> u8 \<Rightarrow> ReplayWindow \<Rightarrow> bool \<times> ReplayWindow" where
  "check_and_update window_size sq w =
     (let ws = (word_of_nat (min window_size 64) :: u8);
          diff = highest_seq w - sq;
          ahead = sq - highest_seq w
      in if diff = 0 \<and> seen w = 0 then (True, \<lparr>highest_seq = sq, seen = 1\<rparr>)
         else if sq = highest_seq w then (False, w)
         else if 0 < ahead \<and> ahead < 128 then
           (True, \<lparr>highest_seq = sq,
                   seen = (if unat ahead < 64 then push_bit (unat ahead) (seen w) OR 1 else 1)\<rparr>)
         else if diff < ws \<and> diff < 64 then
           (let b = push_bit (unat diff) 1
            in if seen w AND b \<noteq> 0 then (False, w) else (True, w\<lparr>seen := seen w OR b\<rparr>))
         else (False, w))"

record ReplayTracker =
  windows :: "(IpAddr, ReplayWindow) hmap"
  window_size :: nat

definition tracker_new :: "nat \<Rightarrow> ReplayTracker" where
  "tracker_new n = \<lparr>windows = [], window_size = min n 64\<rparr>"

definition tracker_check :: "IpAddr \<Rightarrow> u8 \<Rightarrow> ReplayTracker \<Rightarrow> (BypassError, unit) result \<times> ReplayTracker" where
  "tracker_check src sq t =
     (let (ok, w) = check_and_update (window_size t) sq (hm_get_or replay_window_new (windows t) src)
      in (if ok then Inr () else Inl (Err (ReplayDetected sq)), t\<lparr>windows := hm_insert src w (windows t)\<rparr>))"

definition clear_source :: "IpAddr \<Rightarrow> ReplayTracker \<Rightarrow> ReplayTracker" where
  "clear_source src t = t\<lparr>windows := hm_remove src (windows t)\<rparr>"

definition clear_all :: "ReplayTracker \<Rightarrow> ReplayTracker" where
  "clear_all t = t\<lparr>windows := []\<rparr>"

section \<open>The header\<close>

record BypassHeader =
  magic :: "byte list"
  collection_hash :: u32
  header_ttl_ms :: u16
  header_flags :: u8
  header_sequence :: u8

definition BYPASS_MAGIC :: "byte list" where
  "BYPASS_MAGIC = [0x45, 0x43, 0x48, 0x45]"

definition fnv_write :: "u64 \<Rightarrow> byte list \<Rightarrow> u64" where
  "fnv_write h bs = fold (\<lambda>b h. (h XOR ucast b) * 1099511628211) bs h"

text \<open>A \<^verbatim>\<open>str\<close> feeds its bytes and then the byte \<^verbatim>\<open>0xff\<close> to the hasher.\<close>

definition hash_collection :: "string \<Rightarrow> u32" where
  "hash_collection name = ucast (fnv_write (fnv_write 14695981039346656037 (as_bytes name)) [0xFF])"

definition bypass_header_new :: "string \<Rightarrow> duration \<Rightarrow> u8 \<Rightarrow> BypassHeader" where
  "bypass_header_new coll ttl sq =
     \<lparr>magic = BYPASS_MAGIC, collection_hash = hash_collection coll,
      header_ttl_ms = word_of_nat (min (ttl div 1000000) 65535), header_flags = 0, header_sequence = sq\<rparr>"

definition bypass_header_encode :: "BypassHeader \<Rightarrow> byte list" where
  "bypass_header_encode h =
     magic h @ be_bytes 4 (unat (collection_hash h)) @ be_bytes 2 (unat (header_ttl_ms h))
     @ [header_flags h, header_sequence h]"

definition bypass_header_read :: "byte list \<Rightarrow> (BypassError, BypassHeader \<times> byte list) result" where
  "bypass_header_read bs =
     rbind (ensure (12 \<le> length bs) InvalidHeader) (\<lambda>_.
     rbind (slice 4 bs) (\<lambda>(m, r1).
     rbind (ensure (m = BYPASS_MAGIC) InvalidHeader) (\<lambda>_.
     rbind (slice 4 r1) (\<lambda>(hb, r2).
     rbind (slice 2 r2) (\<lambda>(tb, r3).
     rbind (slice 1 r3) (\<lambda>(fb, r4).
     rbind (slice 1 r4) (\<lambda>(sb, r5).
     Inr (\<lparr>magic = m, collection_hash = word_of_nat (be_val hb), header_ttl_ms = word_of_nat (be_val tb),
           header_flags = hd fb, header_sequence = hd sb\<rparr>, r5))))))))"

definition bypass_header_decode :: "byte list \<Rightarrow> (BypassError, BypassHeader) result" where
  "bypass_header_decode bs = rbind (bypass_header_read bs) (\<lambda>(h, _). Inr h)"

text \<open>\<^verbatim>\<open>Instant::duration_since\<close> is zero for a later instant.\<close>

definition is_stale :: "BypassHeader \<Rightarrow> instant \<Rightarrow> instant \<Rightarrow> bool" where
  "is_stale h received sent \<longleftrightarrow> unat (header_ttl_ms h) * 1000000 < received - sent"

section \<open>The channel\<close>

record BypassMessage =
  bm_source :: SocketAddr
  bm_collection_hash :: u32
  bm_data :: "byte list"
  bm_received_at :: instant
  bm_sequence :: u8
  bm_priority :: MessagePriority

datatype BypassTarget = ToUnicast SocketAddr | ToMulticast IpAddr u16 | ToBroadcast u16

record BypassMetrics =
  messages_sent :: u64
  messages_received :: u64
  bytes_sent :: u64
  bytes_received :: u64
  stale_dropped :: u64
  invalid_dropped :: u64
  send_errors :: u64
  receive_errors :: u64
  signature_rejected :: u64
  decryption_failed :: u64
  unauthorized_source :: u64
  replay_rejected :: u64

definition bypass_metrics_default :: BypassMetrics where
  "bypass_metrics_default =
     \<lparr>messages_sent = 0, messages_received = 0, bytes_sent = 0, bytes_received = 0,
      stale_dropped = 0, invalid_dropped = 0, send_errors = 0, receive_errors = 0,
      signature_rejected = 0, decryption_failed = 0, unauthorized_source = 0, replay_rejected = 0\<rparr>"

record UdpBypassChannel =
  bypass_config :: BypassChannelConfig
  bypass_socket :: bool
  multicast_sockets :: "IpAddr list"
  collection_map :: "(u32, BypassCollectionConfig) hmap"
  bypass_sequence :: u8
  bypass_metrics :: BypassMetrics
  bypass_running :: bool

definition bypass_channel_new :: "BypassChannelConfig \<Rightarrow> UdpBypassChannel" where
  "bypass_channel_new cfg =
     \<lparr>bypass_config = cfg, bypass_socket = False, multicast_sockets = [],
      collection_map = fold (\<lambda>c. hm_insert (hash_collection (bypass_collection c)) c) (bypass_collections cfg) [],
      bypass_sequence = 0, bypass_metrics = bypass_metrics_default, bypass_running = False\<rparr>"

text \<open>What the operating system answers.\<close>

record udp_io =
  udp_bind :: "u16 \<Rightarrow> string + unit"
  udp_join :: "IpAddr \<Rightarrow> string + unit"
  udp_send :: "byte list \<Rightarrow> SocketAddr \<Rightarrow> string + nat"

definition bypass_start :: "udp_io \<Rightarrow> UdpBypassChannel \<Rightarrow> (BypassError, unit) result \<times> UdpBypassChannel" where
  "bypass_start io ch =
     (if bypass_running ch then (Inr (), ch)
      else case udp_bind io (bind_port (udp (bypass_config ch))) of
             Inl e \<Rightarrow> (Inl (Err (Io e)), ch)
           | Inr _ \<Rightarrow> (Inr (), ch\<lparr>bypass_socket := True, bypass_running := True\<rparr>))"

datatype udp_event = Datagram SocketAddr instant "byte list" | RecvError | RecvTimeout

text \<open>One turn of the receive loop; a datagram longer than the buffer is cut.\<close>

definition bypass_receive :: "udp_event \<Rightarrow> UdpBypassChannel \<Rightarrow> BypassMessage option \<times> UdpBypassChannel" where
  "bypass_receive ev ch =
     (let m = bypass_metrics ch;
          invalid = (None, ch\<lparr>bypass_metrics := m\<lparr>invalid_dropped := invalid_dropped m + 1\<rparr>\<rparr>)
      in if \<not> bypass_running ch then (None, ch)
      else case ev of
        RecvTimeout \<Rightarrow> (None, ch)
      | RecvError \<Rightarrow> (None, ch\<lparr>bypass_metrics := m\<lparr>receive_errors := receive_errors m + 1\<rparr>\<rparr>)
      | Datagram src now d \<Rightarrow>
          (let buf = take (buffer_size (udp (bypass_config ch))) d
           in if length buf < 12 then invalid
              else case bypass_header_decode (take 12 buf) of
                Inl _ \<Rightarrow> invalid
              | Inr h \<Rightarrow>
                  (Some \<lparr>bm_source = src, bm_collection_hash = collection_hash h, bm_data = drop 12 buf,
                         bm_received_at = now, bm_sequence = header_sequence h,
                         bm_priority = (case hm_get (collection_map ch) (collection_hash h) of
                                          Some c \<Rightarrow> bypass_priority c | None \<Rightarrow> PriorityNormal)\<rparr>,
                   ch\<lparr>bypass_metrics := m\<lparr>messages_received := messages_received m + 1,
                        bytes_received := bytes_received m + word_of_nat (length buf)\<rparr>\<rparr>)))"

definition bypass_stop :: "UdpBypassChannel \<Rightarrow> UdpBypassChannel" where
  "bypass_stop ch = ch\<lparr>bypass_running := False, bypass_socket := False, multicast_sockets := []\<rparr>"

definition get_or_create_multicast ::
  "udp_io \<Rightarrow> IpAddr \<Rightarrow> UdpBypassChannel \<Rightarrow> (BypassError, unit) result \<times> UdpBypassChannel" where
  "get_or_create_multicast io g ch =
     (if g \<in> set (multicast_sockets ch) then (Inr (), ch)
      else case udp_join io g of
             Inl e \<Rightarrow> (Inl (Err (Io e)), ch)
           | Inr _ \<Rightarrow> (Inr (), ch\<lparr>multicast_sockets := g # multicast_sockets ch\<rparr>))"

definition leave_multicast :: "IpAddr \<Rightarrow> UdpBypassChannel \<Rightarrow> UdpBypassChannel" where
  "leave_multicast g ch = ch\<lparr>multicast_sockets := removeAll g (multicast_sockets ch)\<rparr>"

text \<open>\<open>destination\<close> is the address a target is sent to.\<close>

primrec destination :: "BypassTarget \<Rightarrow> SocketAddr" where
  "destination (ToUnicast a) = a"
| "destination (ToMulticast g p) = (g, p)"
| "destination (ToBroadcast p) = (V4 0xFFFFFFFF, p)"

text \<open>
  A send takes a sequence number once the checks passed, whatever the socket
  then answers.  The last component is the datagram handed to the socket.
\<close>

definition bypass_send ::
  "udp_io \<Rightarrow> BypassTarget \<Rightarrow> string \<Rightarrow> byte list \<Rightarrow> UdpBypassChannel
     \<Rightarrow> (BypassError, unit) result \<times> UdpBypassChannel \<times> (byte list \<times> SocketAddr) option" where
  "bypass_send io target coll payload ch =
     (let cfg = bypass_config ch in
      if \<not> bypass_socket ch then (Inl (Err NotStarted), ch, None)
      else if 0 < max_message_size cfg \<and> max_message_size cfg < length payload then
        (Inl (Err (MessageTooLarge (length payload) (max_message_size cfg))), ch, None)
      else
        (let ttl = (case get_collection cfg coll of
                      Some c \<Rightarrow> unat (bypass_ttl_ms c) * 1000000 | None \<Rightarrow> 5000000000);
             frame = bypass_header_encode (bypass_header_new coll ttl (bypass_sequence ch)) @ payload;
             ch1 = ch\<lparr>bypass_sequence := bypass_sequence ch + 1\<rparr>;
             (ready, ch2) = (case target of
                               ToMulticast g _ \<Rightarrow> get_or_create_multicast io g ch1
                             | _ \<Rightarrow> (Inr (), ch1))
         in case ready of
              Inl e \<Rightarrow> (Inl e, ch2, None)
            | Inr _ \<Rightarrow>
                (case udp_send io frame (destination target) of
                   Inl e \<Rightarrow> (Inl (Err (Io e)), ch2, None)
                 | Inr n \<Rightarrow>
                     (let m = bypass_metrics ch2
                      in (Inr (),
                          ch2\<lparr>bypass_metrics := m\<lparr>messages_sent := messages_sent m + 1,
                                bytes_sent := bytes_sent m + word_of_nat n\<rparr>\<rparr>,
                          Some (frame, destination target))))))"

definition send_to_collection ::
  "udp_io \<Rightarrow> string \<Rightarrow> SocketAddr option \<Rightarrow> byte list \<Rightarrow> UdpBypassChannel
     \<Rightarrow> (BypassError, unit) result \<times> UdpBypassChannel \<times> (byte list \<times> SocketAddr) option" where
  "send_to_collection io coll addr payload ch =
     (case get_collection (bypass_config ch) coll of
        None \<Rightarrow> (Inl (Err (Config (''Unknown collection: '' @ coll))), ch, None)
      | Some c \<Rightarrow>
          (case bypass_transport c of
             Unicast \<Rightarrow>
               (case addr of
                  None \<Rightarrow> (Inl (Err (Config ''Unicast requires target address'')), ch, None)
                | Some a \<Rightarrow> bypass_send io (ToUnicast a) coll payload ch)
           | Multicast g p \<Rightarrow> bypass_send io (ToMulticast g p) coll payload ch
           | Broadcast \<Rightarrow> bypass_send io (ToBroadcast (bind_port (udp (bypass_config ch)))) coll payload ch))"

section \<open>The header on the wire\<close>

lemma length_bypass_magic: "length BYPASS_MAGIC = 4"
  by (simp add: BYPASS_MAGIC_def)

lemma length_bypass_header [simp]: "magic h = BYPASS_MAGIC \<Longrightarrow> length (bypass_header_encode h) = 12"
  by (simp add: bypass_header_encode_def BYPASS_MAGIC_def)

interpretation bypass_codec: canonical_codec "\<lambda>h. magic h = BYPASS_MAGIC" bypass_header_encode id bypass_header_read
proof unfold_locales
  fix h :: BypassHeader and r :: "byte list"
  assume "magic h = BYPASS_MAGIC"
  then show "bypass_header_read (bypass_header_encode h @ r) = Inr (id h, r)"
    by (simp add: bypass_header_read_def bypass_header_encode_def length_bypass_magic)
next
  fix bs r :: "byte list" and h :: BypassHeader
  assume "bypass_header_read bs = Inr (h, r)"
  then show "magic h = BYPASS_MAGIC \<and> id h = h \<and> bs = bypass_header_encode h @ r"
    by (auto simp: bypass_header_read_def bypass_header_encode_def reader_eqs length_Suc_conv split: prod.splits)
qed

section \<open>The replay window against a set of accepted numbers\<close>

text \<open>
  The reference keeps the highest number and the set of numbers accepted among
  the last 64 up to it.
\<close>

record replay_ref =
  ref_top :: u8
  ref_accepted :: "u8 set"

definition ref_new :: replay_ref where
  "ref_new = \<lparr>ref_top = 0, ref_accepted = {}\<rparr>"

definition ref_check :: "nat \<Rightarrow> u8 \<Rightarrow> replay_ref \<Rightarrow> bool \<times> replay_ref" where
  "ref_check n sq s =
     (let ahead = unat (sq - ref_top s); behind = unat (ref_top s - sq)
      in if 0 < ahead \<and> ahead < 128 \<or> sq = ref_top s \<and> ref_accepted s = {} then
           (True, \<lparr>ref_top = sq, ref_accepted = insert sq {x \<in> ref_accepted s. unat (sq - x) < 64}\<rparr>)
         else if sq \<noteq> ref_top s \<and> behind < min n 64 \<and> sq \<notin> ref_accepted s then
           (True, s\<lparr>ref_accepted := insert sq (ref_accepted s)\<rparr>)
         else (False, s))"

definition window_abs :: "ReplayWindow \<Rightarrow> replay_ref" where
  "window_abs w =
     \<lparr>ref_top = highest_seq w,
      ref_accepted = {x. unat (highest_seq w - x) < 64 \<and> bit (seen w) (unat (highest_seq w - x))}\<rparr>"

lemma unat_gap_add:
  fixes a b c :: u8
  assumes "unat (a - b) + unat (b - c) < 256"
  shows "unat (a - c) = unat (a - b) + unat (b - c)"
proof -
  have "unat ((a - b) + (b - c)) = unat (a - b) + unat (b - c)"
    using assms unat_plus_if' [of "a - b" "b - c"] by simp
  then show ?thesis by simp
qed

lemma unat_gap_sub:
  fixes a b c :: u8
  assumes "unat (a - b) \<le> unat (a - c)"
  shows "unat (b - c) = unat (a - c) - unat (a - b)"
proof -
  have "a - b \<le> a - c"
    using assms by (simp add: word_le_nat_alt)
  then have "unat ((a - c) - (a - b)) = unat (a - c) - unat (a - b)"
    by (rule unat_sub)
  then show ?thesis by simp
qed

lemma unat_gap_opposite:
  fixes a b :: u8
  assumes "a \<noteq> b"
  shows "unat (a - b) + unat (b - a) = 256"
proof -
  have "unat (- w) = 256 - unat w" if "w \<noteq> 0" for w :: u8
    using that unat_sub_if' [of 0 w] by (simp add: unat_gt_0)
  from this [of "a - b"] have "unat (b - a) = 256 - unat (a - b)"
    using assms by simp
  then show ?thesis
    using unat_u8_bound [of "a - b"] by linarith
qed

lemma window_abs_empty: "ref_accepted (window_abs w) = {} \<longleftrightarrow> seen w = 0"
proof
  assume empty: "ref_accepted (window_abs w) = {}"
  show "seen w = 0"
  proof (rule bit_eqI)
    fix n
    assume "possible_bit TYPE(u64) n"
    then have n: "n < 64" by simp
    have "highest_seq w - word_of_nat n \<notin> ref_accepted (window_abs w)"
      unfolding empty by simp
    moreover have "highest_seq w - (highest_seq w - word_of_nat n) = word_of_nat n"
      by simp
    moreover have "unat (word_of_nat n :: u8) = n"
      using n by (simp add: unat_of_nat take_bit_nat_eq_self)
    ultimately have "\<not> bit (seen w) n"
      using n by (simp only: window_abs_def replay_ref.simps mem_Collect_eq) simp
    then show "bit (seen w) n = bit 0 n"
      by simp
  qed
qed (simp add: window_abs_def)

lemma bit_of_seen: "n < 64 \<Longrightarrow> (v AND 2 ^ n = 0) = (\<not> bit (v :: u64) n)"
proof -
  assume n: "n < 64"
  have "bit (v AND 2 ^ n) i \<longleftrightarrow> i = n \<and> bit v n" for i
    using n by (auto simp: bit_and_iff bit_exp_iff)
  then show ?thesis
    by (metis bit_0_eq bot_apply bot_bool_def bit_eqI)
qed

lemma abs_first: "window_abs \<lparr>highest_seq = sq, seen = 1\<rparr> = \<lparr>ref_top = sq, ref_accepted = {sq}\<rparr>"
  by (auto simp: window_abs_def bit_1_iff unat_eq_0)

lemma abs_ahead:
  assumes "0 < unat (sq - highest_seq w)" "unat (sq - highest_seq w) < 128"
  shows "window_abs \<lparr>highest_seq = sq,
            seen = (if unat (sq - highest_seq w) < 64 then push_bit (unat (sq - highest_seq w)) (seen w) OR 1 else 1)\<rparr>
       = \<lparr>ref_top = sq, ref_accepted = insert sq {x \<in> ref_accepted (window_abs w). unat (sq - x) < 64}\<rparr>"
    (is "window_abs ?w = _")
proof -
  let ?a = "unat (sq - highest_seq w)"
  have "x \<in> ref_accepted (window_abs ?w) \<longleftrightarrow> x = sq \<or> x \<in> ref_accepted (window_abs w) \<and> unat (sq - x) < 64" for x
  proof (cases "?a \<le> unat (sq - x)")
    case True
    then have gap: "unat (highest_seq w - x) = unat (sq - x) - ?a"
      by (rule unat_gap_sub)
    then have "sq - x \<noteq> 0"
      using True assms(1) by auto
    then show ?thesis
      using True gap assms(1) by (auto simp: window_abs_def bit_or_iff bit_push_bit_iff bit_1_iff unat_eq_0)
  next
    case False
    have "unat (sq - x) = ?a + unat (highest_seq w - x)" if "unat (highest_seq w - x) < 64"
      using that assms(2) by (intro unat_gap_add) simp
    then have "x \<notin> ref_accepted (window_abs w)"
      using False by (auto simp: window_abs_def)
    then show ?thesis
      using False by (auto simp: window_abs_def bit_or_iff bit_push_bit_iff bit_1_iff unat_eq_0)
  qed
  then show ?thesis
    by (intro replay_ref.equality) (auto simp: window_abs_def)
qed

lemma abs_behind:
  assumes "unat (highest_seq w - sq) < 64"
  shows "window_abs (w\<lparr>seen := seen w OR 2 ^ unat (highest_seq w - sq)\<rparr>)
       = (window_abs w)\<lparr>ref_accepted := insert sq (ref_accepted (window_abs w))\<rparr>"
proof -
  have "unat (highest_seq w - x) = unat (highest_seq w - sq) \<longleftrightarrow> x = sq" for x
    by (auto dest: unsigned_word_eqI)
  then show ?thesis
    using assms by (auto simp: window_abs_def bit_or_iff bit_exp_iff)
qed

lemma check_refines: "map_prod id window_abs (check_and_update n sq w) = ref_check n sq (window_abs w)"
proof -
  let ?a = "unat (sq - highest_seq w)" and ?d = "unat (highest_seq w - sq)"
  have ws: "unat (word_of_nat (min n 64) :: u8) = min n 64"
    by (simp add: unat_of_nat take_bit_nat_eq_self)
  have top: "ref_top (window_abs w) = highest_seq w"
    by (simp add: window_abs_def)
  consider "sq = highest_seq w" | "sq \<noteq> highest_seq w" "?a < 128"
    | "sq \<noteq> highest_seq w" "\<not> ?a < 128" by blast
  then show ?thesis
  proof cases
    case 1
    then show ?thesis
      using window_abs_empty [of w]
      by (auto simp: check_and_update_def ref_check_def top abs_first)
  next
    case 2
    then have "0 < ?a" by (simp add: unat_gt_0)
    with 2 show ?thesis
      by (simp add: check_and_update_def ref_check_def top word_less_nat_alt abs_ahead Let_def del: unat_gt_0)
  next
    case 3
    then have "?d < 64 \<Longrightarrow> sq \<in> ref_accepted (window_abs w) \<longleftrightarrow> bit (seen w) ?d"
      by (simp add: window_abs_def)
    with 3 show ?thesis
      by (auto simp: check_and_update_def ref_check_def top word_less_nat_alt ws bit_of_seen abs_behind Let_def)
  qed
qed


section \<open>The tracker, source by source\<close>

datatype replay_op = Packet IpAddr u8 | ClearSource IpAddr | ClearAll

primrec replay_step :: "replay_op \<Rightarrow> ReplayTracker \<Rightarrow> (BypassError, unit) result \<times> ReplayTracker" where
  "replay_step (Packet ip sq) t = tracker_check ip sq t"
| "replay_step (ClearSource ip) t = (Inr (), clear_source ip t)"
| "replay_step ClearAll t = (Inr (), clear_all t)"

text \<open>The reference: one window of accepted numbers for each source.\<close>

primrec ref_step :: "nat \<Rightarrow> replay_op \<Rightarrow> (IpAddr \<Rightarrow> replay_ref) \<Rightarrow> (BypassError, unit) result \<times> (IpAddr \<Rightarrow> replay_ref)" where
  "ref_step n (Packet ip sq) f =
     (let (ok, r) = ref_check n sq (f ip)
      in (if ok then Inr () else Inl (Err (ReplayDetected sq)), f(ip := r)))"
| "ref_step n (ClearSource ip) f = (Inr (), f(ip := ref_new))"
| "ref_step n ClearAll f = (Inr (), \<lambda>_. ref_new)"

definition tracker_abs :: "ReplayTracker \<Rightarrow> IpAddr \<Rightarrow> replay_ref" where
  "tracker_abs t ip = window_abs (hm_get_or replay_window_new (windows t) ip)"

lemma window_abs_new: "window_abs replay_window_new = ref_new"
  by (simp add: window_abs_def replay_window_new_def ref_new_def)

lemma replay_step_refines:
  "window_size t = n \<Longrightarrow> map_prod id tracker_abs (replay_step op t) = ref_step n op (tracker_abs t)"
proof (cases op)
  case (Packet ip sq)
  assume n: "window_size t = n"
  obtain ok w where w: "check_and_update n sq (hm_get_or replay_window_new (windows t) ip) = (ok, w)"
    by fastforce
  then have "ref_check n sq (tracker_abs t ip) = (ok, window_abs w)"
    using check_refines [of n sq "hm_get_or replay_window_new (windows t) ip"] by (simp add: tracker_abs_def)
  then show ?thesis
    using n w Packet by (auto simp: tracker_check_def tracker_abs_def hm_get_or_def fun_eq_iff)
qed (auto simp: clear_source_def clear_all_def tracker_abs_def hm_get_or_def window_abs_new fun_eq_iff)

interpretation replay: output_refinement replay_step "ref_step n" tracker_abs "\<lambda>t. window_size t = n" for n
proof unfold_locales
  show "window_size (snd (replay_step op t)) = n" if "window_size t = n" for op t
    using that by (cases op) (auto simp: tracker_check_def clear_source_def clear_all_def split: prod.splits)
qed (rule replay_step_refines)

lemma tracker_abs_new: "tracker_abs (tracker_new n) = (\<lambda>_. ref_new)"
  by (simp add: tracker_abs_def tracker_new_def window_abs_new fun_eq_iff)

lemma ref_check_min: "ref_check (min n 64) sq s = ref_check n sq s"
proof -
  have "min (min n 64) 64 = min n 64" by simp
  then show ?thesis
    unfolding ref_check_def by (simp only:)
qed

lemma ref_step_min: "ref_step (min n 64) = ref_step n"
proof (intro ext)
  fix op f
  show "ref_step (min n 64) op f = ref_step n op f"
    by (cases op) (simp_all add: ref_check_min)
qed

text \<open>
  C22.  The replay tracker with its 64-bit window answers every sequence of
  packets and resets, from any number of sources, exactly as the reference that
  keeps for each source the set of the numbers accepted among its last 64.
\<close>

theorem replay_window_equivalent:
  "outputs replay_step ops (tracker_new n) = outputs (ref_step n) ops (\<lambda>_. ref_new)"
proof -
  have "window_size (tracker_new n) = min n 64"
    by (simp add: tracker_new_def)
  from replay.run_refines [OF this, of ops] show ?thesis
    by (simp add: tracker_abs_new ref_step_min)
qed

section \<open>How long a packet stays refused\<close>

text \<open>\<open>advance\<close> is how far the highest number of a source moves forward during a run.\<close>

definition top_of :: "IpAddr \<Rightarrow> ReplayTracker \<Rightarrow> u8" where
  "top_of ip t = highest_seq (hm_get_or replay_window_new (windows t) ip)"

primrec advance :: "IpAddr \<Rightarrow> replay_op list \<Rightarrow> ReplayTracker \<Rightarrow> nat" where
  "advance ip [] t = 0"
| "advance ip (op # ops) t =
     (let t' = snd (replay_step op t) in unat (top_of ip t' - top_of ip t) + advance ip ops t')"

definition keeps_source :: "IpAddr \<Rightarrow> replay_op \<Rightarrow> bool" where
  "keeps_source ip op \<longleftrightarrow> op \<noteq> ClearSource ip \<and> op \<noteq> ClearAll"

text \<open>A number at distance \<open>d\<close> behind the highest that was accepted.\<close>

definition recorded :: "u8 \<Rightarrow> nat \<Rightarrow> replay_ref \<Rightarrow> bool" where
  "recorded sq d r \<longleftrightarrow> unat (ref_top r - sq) = d \<and> (d < 64 \<longrightarrow> sq \<in> ref_accepted r)"

lemma ref_check_accepts:
  "ref_check n sq r = (True, r') \<Longrightarrow> sq \<in> ref_accepted r'"
  by (auto simp: ref_check_def Let_def split: if_splits)

lemma ref_check_records:
  assumes "recorded sq d r" "ref_check n x r = (ok, r')" "d + unat (ref_top r' - ref_top r) < 256"
  shows "recorded sq (d + unat (ref_top r' - ref_top r)) r'"
proof -
  have "unat (ref_top r' - sq) = unat (ref_top r' - ref_top r) + unat (ref_top r - sq)"
    using assms by (intro unat_gap_add) (simp add: recorded_def)
  then show ?thesis
    using assms by (auto simp: recorded_def ref_check_def Let_def split: if_splits)
qed

lemma ref_check_recorded:
  assumes "recorded sq d r" "d < 256" "n \<le> 64"
  shows "fst (ref_check n sq r) \<longleftrightarrow> 128 < d"
proof (cases "d = 0")
  case True
  then show ?thesis
    using assms(1) by (auto simp: recorded_def ref_check_def unat_eq_0)
next
  case False
  then have "sq \<noteq> ref_top r" "unat (ref_top r - sq) = d"
    using assms(1) by (auto simp: recorded_def)
  moreover have "unat (sq - ref_top r) = 256 - d"
    using unat_gap_opposite [of "ref_top r" sq] calculation by simp
  ultimately show ?thesis
    using assms False by (auto simp: recorded_def ref_check_def Let_def)
qed

lemma top_of_abs: "top_of ip t = ref_top (tracker_abs t ip)"
  by (simp add: top_of_def tracker_abs_def window_abs_def)

lemma step_records:
  assumes "recorded sq d (tracker_abs t ip)" "keeps_source ip op"
    and "d + unat (top_of ip (snd (replay_step op t)) - top_of ip t) < 256"
  shows "recorded sq (d + unat (top_of ip (snd (replay_step op t)) - top_of ip t)) (tracker_abs (snd (replay_step op t)) ip)"
proof -
  have abs: "tracker_abs (snd (replay_step op t)) = snd (ref_step (window_size t) op (tracker_abs t))"
    by (simp add: replay.step_parts(2) [OF refl])
  show ?thesis
  proof (cases "\<exists>x. op = Packet ip x")
    case True
    then obtain x where x: "op = Packet ip x" by blast
    obtain ok r where r: "ref_check (window_size t) x (tracker_abs t ip) = (ok, r)"
      by fastforce
    then have "tracker_abs (snd (replay_step op t)) ip = r"
      using abs x by simp
    then show ?thesis
      using ref_check_records [OF assms(1) r] assms(3) by (simp add: top_of_abs)
  next
    case False
    then have "tracker_abs (snd (replay_step op t)) ip = tracker_abs t ip"
      using abs assms(2) by (cases op) (auto simp: keeps_source_def split: prod.splits)
    then show ?thesis
      using assms by (simp add: top_of_abs)
  qed
qed

lemma tracker_check_verdict:
  "fst (tracker_check ip sq t) =
     (if fst (ref_check (window_size t) sq (tracker_abs t ip)) then Inr () else Inl (Err (ReplayDetected sq)))"
  using replay.step_parts(1) [of t "window_size t" "Packet ip sq"]
  by (auto split: prod.splits if_splits)

lemma tracker_check_abs:
  "tracker_abs (snd (tracker_check ip sq t)) ip = snd (ref_check (window_size t) sq (tracker_abs t ip))"
  using fun_cong [OF replay.step_parts(2) [of t "window_size t" "Packet ip sq"], of ip]
  by (simp split: prod.splits)

lemma run_records:
  "recorded sq d (tracker_abs t ip) \<Longrightarrow> list_all (keeps_source ip) ops \<Longrightarrow> d + advance ip ops t < 256 \<Longrightarrow>
   recorded sq (d + advance ip ops t) (tracker_abs (final replay_step ops t) ip)"
proof (induction ops arbitrary: t d)
  case (Cons op ops)
  let ?t = "snd (replay_step op t)" and ?g = "unat (top_of ip (snd (replay_step op t)) - top_of ip t)"
  have "d + ?g + advance ip ops ?t < 256"
    using Cons.prems(3) by (simp add: Let_def)
  moreover from this have "recorded sq (d + ?g) (tracker_abs ?t ip)"
    using Cons.prems by (intro step_records) simp_all
  ultimately show ?case
    using Cons.IH [of "d + ?g" ?t] Cons.prems(2) by (simp add: Let_def add.assoc)
qed simp

lemma final_window_size: "window_size (final replay_step ops t) = window_size t"
  using replay.run_refines [of t "window_size t" ops] by simp

text \<open>
  C23.  Once a packet of a source was accepted, the same sequence number of that
  source is refused as a replay, whatever packets of any source come in between,
  for as long as the highest number of the source is at most 128 ahead of it.
  Beyond that, until the numbers have gone round, the recorded packet is accepted
  again.
\<close>

theorem replay_refused_within_half_range:
  assumes "fst (tracker_check ip sq t) = Inr ()" "window_size t \<le> 64"
    and "list_all (keeps_source ip) ops"
  defines "t1 \<equiv> snd (tracker_check ip sq t)"
  defines "gap \<equiv> unat (top_of ip t1 - sq) + advance ip ops t1"
  assumes "gap < 256"
  shows "fst (tracker_check ip sq (final replay_step ops t1)) =
     (if gap \<le> 128 then Inl (Err (ReplayDetected sq)) else Inr ())"
proof -
  let ?t2 = "final replay_step ops t1"
  have "ref_check (window_size t) sq (tracker_abs t ip) = (True, tracker_abs t1 ip)"
    using assms(1) by (simp add: t1_def tracker_check_abs tracker_check_verdict prod_eq_iff split: if_splits)
  then have "recorded sq (unat (top_of ip t1 - sq)) (tracker_abs t1 ip)"
    using ref_check_accepts by (simp add: recorded_def top_of_abs)
  then have "recorded sq gap (tracker_abs ?t2 ip)"
    using run_records assms(3,6) by (simp add: gap_def)
  moreover have "window_size ?t2 \<le> 64"
    using assms(2) by (auto simp: final_window_size t1_def tracker_check_def split: prod.splits)
  ultimately have "fst (ref_check (window_size ?t2) sq (tracker_abs ?t2 ip)) \<longleftrightarrow> 128 < gap"
    using assms(6) by (intro ref_check_recorded)
  then show ?thesis
    by (auto simp: tracker_check_verdict)
qed

lemmas replay_eval = tracker_new_def tracker_check_def check_and_update_def replay_window_new_def hm_get_or_def
  top_of_def keeps_source_def

theorem replay_refused_within_half_range_witness:
  "fst (tracker_check (V4 1) 5 (snd (tracker_check (V4 1) 6 (snd (tracker_check (V4 1) 5 (tracker_new 64))))))
     = Inl (Err (ReplayDetected 5))"
  using replay_refused_within_half_range [of "V4 1" 5 "tracker_new 64" "[Packet (V4 1) 6]"]
  by (simp add: replay_eval)

text \<open>
  A source that was not heard before: the first packet is accepted when its number
  is below 128 or within the window before the wrap, and refused in between.
  After a first packet before the wrap, the number 0 is refused although it was
  never sent.
\<close>

lemma first_packet_refused_in_the_middle:
  "fst (tracker_check ip sq (tracker_new 64)) = Inr () \<longleftrightarrow> sq < 128 \<or> 192 < sq"
proof -
  have "unat (0 - sq) = (if sq = 0 then 0 else 256 - unat sq)"
    using unat_gap_opposite [of 0 sq] by auto
  moreover have "window_size (tracker_new 64) = 64"
    by (simp add: tracker_new_def)
  moreover have "sq = 0 \<or> 0 < unat sq"
    by (simp add: unat_gt_0 flip: word_neq_0_conv)
  ultimately show ?thesis
    by (auto simp: tracker_check_verdict tracker_abs_new ref_check_def ref_new_def word_less_nat_alt Let_def
        split: if_splits)
qed

lemma zero_refused_after_first_packet:
  "fst (tracker_check ip 0 (snd (tracker_check ip 200 (tracker_new 64)))) = Inl (Err (ReplayDetected 0))"
  by (simp add: replay_eval)

section \<open>From the sender to the receiver\<close>

definition priority_of :: "UdpBypassChannel \<Rightarrow> u32 \<Rightarrow> MessagePriority" where
  "priority_of ch h = (case hm_get (collection_map ch) h of Some c \<Rightarrow> bypass_priority c | None \<Rightarrow> PriorityNormal)"

lemma bypass_header_decode_encode [simp]:
  "magic h = BYPASS_MAGIC \<Longrightarrow> bypass_header_decode (bypass_header_encode h) = Inr h"
  using bypass_codec.rd_enc [of h "[]"] by (simp add: bypass_header_decode_def)

text \<open>The time to live and the flags of a frame have no influence on its delivery.\<close>

lemma receive_encoded:
  assumes "bypass_running ch" "magic h = BYPASS_MAGIC"
    and "12 + length payload \<le> buffer_size (udp (bypass_config ch))"
  shows "fst (bypass_receive (Datagram src now (bypass_header_encode h @ payload)) ch) =
     Some \<lparr>bm_source = src, bm_collection_hash = collection_hash h, bm_data = payload, bm_received_at = now,
           bm_sequence = header_sequence h, bm_priority = priority_of ch (collection_hash h)\<rparr>"
  using assms by (simp add: bypass_receive_def priority_of_def Let_def)

lemma received_was_encoded:
  assumes "bypass_receive ev ch = (Some m, ch')"
  obtains src now d h where "ev = Datagram src now d" "magic h = BYPASS_MAGIC"
    "take (buffer_size (udp (bypass_config ch))) d = bypass_header_encode h @ bm_data m"
    "bm_source m = src" "bm_collection_hash m = collection_hash h" "bm_sequence m = header_sequence h"
proof -
  obtain src now d where ev: "ev = Datagram src now d"
    using assms by (cases ev) (auto simp: bypass_receive_def Let_def split: if_splits)
  let ?buf = "take (buffer_size (udp (bypass_config ch))) d"
  obtain h where h: "bypass_header_decode (take 12 ?buf) = Inr h" "\<not> length ?buf < 12" "bypass_running ch"
    using assms ev by (auto simp: bypass_receive_def Let_def split: if_splits sum.splits)
  then obtain r where r: "bypass_header_read (take 12 ?buf) = Inr (h, r)"
    by (auto simp: bypass_header_decode_def rbind_eq_Inr)
  from bypass_codec.rd_canonical [OF this] have ok: "magic h = BYPASS_MAGIC" "take 12 ?buf = bypass_header_encode h @ r"
    by simp_all
  then have "length (take 12 ?buf) = 12 + length r"
    by simp
  moreover have "length (take 12 ?buf) \<le> 12"
    by simp
  ultimately have "r = []"
    by (metis add_le_same_cancel1 le_zero_eq length_0_conv)
  then have "?buf = bypass_header_encode h @ drop 12 ?buf"
    using ok(2) by (metis append_Nil2 append_take_drop_id)
  with h ok(1) assms ev show thesis
    by (intro that [of src now d h]) (auto simp: bypass_receive_def Let_def)
qed

text \<open>
  A payload that a channel accepted for sending leaves as one datagram for
  the address of its target and with a fresh sequence number, and any running
  channel whose buffer holds it publishes the same payload, with the hash of the
  collection and the sender's sequence number.  An oversized payload or a channel
  that was not started sends nothing and uses no sequence number.
\<close>

lemma bypass_frame_delivered:
  assumes "bypass_running rx" "12 + length payload \<le> buffer_size (udp (bypass_config rx))"
  shows "case bypass_send io target coll payload tx of
      (Inr _, tx', out) \<Rightarrow>
        \<exists>frame. out = Some (frame, destination target) \<and> bypass_sequence tx' = bypass_sequence tx + 1 \<and>
          fst (bypass_receive (Datagram src now frame) rx) =
            Some \<lparr>bm_source = src, bm_collection_hash = hash_collection coll, bm_data = payload, bm_received_at = now,
                  bm_sequence = bypass_sequence tx, bm_priority = priority_of rx (hash_collection coll)\<rparr>
    | (Inl e, tx', out) \<Rightarrow>
        out = None \<and>
        (if \<not> bypass_socket tx then e = Err NotStarted \<and> tx' = tx
         else if 0 < max_message_size (bypass_config tx) \<and> max_message_size (bypass_config tx) < length payload
         then e = Err (MessageTooLarge (length payload) (max_message_size (bypass_config tx))) \<and> tx' = tx
         else (\<exists>s. e = Err (Io s)) \<and> bypass_sequence tx' = bypass_sequence tx + 1)"
proof -
  have header: "magic (bypass_header_new coll ttl sq) = BYPASS_MAGIC"
    "collection_hash (bypass_header_new coll ttl sq) = hash_collection coll"
    "header_sequence (bypass_header_new coll ttl sq) = sq" for ttl sq
    by (simp_all add: bypass_header_new_def)
  have join: "get_or_create_multicast io g ch = (Inl e, ch') \<Longrightarrow> ch' = ch \<and> (\<exists>s. e = Err (Io s))"
    "get_or_create_multicast io g ch = (Inr u, ch') \<Longrightarrow> bypass_sequence ch' = bypass_sequence ch" for g ch e u ch'
    by (auto simp: get_or_create_multicast_def split: if_splits sum.splits)
  show ?thesis
    by (auto simp: bypass_send_def Let_def header receive_encoded [OF assms(1) _ assms(2)]
        split: prod.splits sum.splits BypassTarget.splits dest!: join)
qed

definition sample_io :: udp_io where
  "sample_io = \<lparr>udp_bind = \<lambda>_. Inr (), udp_join = \<lambda>_. Inr (), udp_send = \<lambda>f _. Inr (length f)\<rparr>"

definition sample_channel :: UdpBypassChannel where
  "sample_channel = snd (bypass_start sample_io (bypass_channel_new bypass_config_new))"


text \<open>Credentials: what one holder of the shared key encrypts, another decrypts; a signature verifies under the peer's key.\<close>

lemma credentials_roundtrip:
  assumes "cipher_laws ci" "encryption_key a = encryption_key b" "credentials_encrypt ci a m n = Inr x"
  shows "credentials_decrypt ci b x n = Inr m"
  using assms by (auto simp: credentials_encrypt_def credentials_decrypt_def cipher_laws_def split: option.splits)

lemma credentials_signature:
  assumes "crypto_laws cr" "signing_key a = Some k" "hm_get (peer_keys b) peer = Some (public_of cr k)"
    and "credentials_sign cr a m = Inr s"
  shows "credentials_verify cr b peer m s = Inr ()"
  using assms by (auto simp: credentials_sign_def credentials_verify_def)

end
