(* ===== verification/Transport_Types.thy ===== *)
theory Transport_Types
  imports Prelude
begin

text \<open>
  The types the transports share, \<^verbatim>\<open>src/transport/mod.rs\<close>: events about peers, the state
  of a connection, errors.  A \<^verbatim>\<open>NodeId\<close> is its string.  A subscriber that follows the
  connect and disconnect events holds a set of peers; \<open>follow\<close> is that set, or
  \<open>None\<close> once an event does not fit it.
\<close>

type_synonym NodeId = string

datatype DisconnectReason =
    RemoteClosed | Timeout | NetworkError string | LocalClosed | IdleTimeout | ApplicationError string | Unknown

datatype ConnectionState = Healthy | Degraded | Suspect | Dead

record ConnectionHealth =
  rtt_ms :: u32
  rtt_variance_ms :: u32
  packet_loss_percent :: u8
  health_state :: ConnectionState
  last_activity :: instant

datatype PeerEvent =
    PeerConnected NodeId instant
  | PeerDisconnected NodeId DisconnectReason duration
  | PeerDegraded NodeId ConnectionHealth
  | PeerReconnecting NodeId u32 "u32 option"
  | PeerReconnectFailed NodeId u32 string bool

datatype TransportError =
    ConnectionFailed string
  | TransportPeerNotFound string
  | AlreadyConnected string
  | TransportNotStarted
  | TransportOther string

fun follow_event :: "NodeId set option \<Rightarrow> PeerEvent \<Rightarrow> NodeId set option" where
  "follow_event (Some S) (PeerConnected p _) = (if p \<in> S then None else Some (insert p S))"
| "follow_event (Some S) (PeerDisconnected p _ _) = (if p \<in> S then Some (S - {p}) else None)"
| "follow_event s _ = s"

definition follow :: "PeerEvent list \<Rightarrow> NodeId set \<Rightarrow> NodeId set option" where
  "follow evs S = foldl follow_event (Some S) evs"

lemma follow_simps [simp]:
  "follow [] S = Some S"
  "follow (PeerConnected p t # evs) S = (if p \<in> S then None else follow evs (insert p S))"
  "follow (PeerDisconnected p r d # evs) S = (if p \<in> S then follow evs (S - {p}) else None)"
proof -
  have none: "foldl follow_event None evs = None" for evs
    by (induction evs) (simp_all split: PeerEvent.splits)
  show "follow [] S = Some S"
    by (simp add: follow_def)
  show "follow (PeerConnected p t # evs) S = (if p \<in> S then None else follow evs (insert p S))"
    by (simp add: follow_def none)
  show "follow (PeerDisconnected p r d # evs) S = (if p \<in> S then follow evs (S - {p}) else None)"
    by (simp add: follow_def none)
qed

lemma follow_append:
  "follow xs S = Some T \<Longrightarrow> follow (xs @ ys) S = follow ys T"
  by (simp add: follow_def)

lemma follow_disconnects:
  "distinct (map fst xs) \<Longrightarrow> fst ` set xs \<subseteq> S \<Longrightarrow>
   follow (map (\<lambda>(p, d). PeerDisconnected p r d) xs) S = Some (S - fst ` set xs)"
proof (induction xs arbitrary: S)
  case (Cons x xs)
  obtain p d where x: "x = (p, d)" by fastforce
  have "S - {p} - fst ` set xs = S - fst ` set (x # xs)" "fst ` set xs \<subseteq> S - {p}"
    using Cons.prems x by auto
  then show ?case
    using Cons.IH [of "S - {p}"] Cons.prems x by simp
qed simp

end
