(* ===== verification/Lite_Wire.thy ===== *)
theory Lite_Wire
  imports Identity "HOL-Library.Multiset"
begin

text \<open>
  The Peat-Lite wire protocol and its bridge to documents: the first and the last
  part of \<^verbatim>\<open>src/transport/lite.rs\<close> (\<^verbatim>\<open>QueryRequest\<close>, \<^verbatim>\<open>LiteMessage\<close>, \<^verbatim>\<open>LiteDocumentBridge\<close>).

  The message types, CRDT types and constants are of the crate \<^verbatim>\<open>peat_lite\<close>: the
  fields of a \<open>lite_lib\<close> record, with \<open>lite_laws\<close> for what the source relies on (a
  four-byte magic, codes that read back).  JSON values and hexadecimal strings
  are of \<^verbatim>\<open>serde_json\<close> and \<^verbatim>\<open>hex\<close>: the fields of a \<open>json_lib\<close> record, whose laws say
  that a value answers with what it was built from.  Where the source returns
  \<^verbatim>\<open>None\<close> for bad input the model returns \<open>Err ()\<close>, so that a panic remains visible.
\<close>

section \<open>The libraries\<close>

datatype MessageType =
    Announce | Heartbeat | Data | Query | Ack | Leave
  | OtaOffer | OtaAccept | OtaData | OtaAck | OtaComplete | OtaResult | OtaAbort
  | OtherMessage nat

datatype CrdtType = LwwRegister | GCounter | PnCounter | OrSet | OtherCrdt nat

record lite_lib =
  lite_magic :: "byte list"
  lite_version :: byte
  message_code :: "MessageType \<Rightarrow> byte"
  message_of_code :: "byte \<Rightarrow> MessageType option"
  crdt_code :: "CrdtType \<Rightarrow> byte"
  crdt_of_code :: "byte \<Rightarrow> CrdtType option"
  caps_from_bits :: "u16 \<Rightarrow> u16"
  caps_empty :: u16
  caps_default :: u16

text \<open>The types a value of the crate can have are those of some code.\<close>

definition message_type_ok :: "lite_lib \<Rightarrow> MessageType \<Rightarrow> bool" where
  "message_type_ok L t \<longleftrightarrow> message_of_code L (message_code L t) = Some t"

definition crdt_type_ok :: "lite_lib \<Rightarrow> CrdtType \<Rightarrow> bool" where
  "crdt_type_ok L t \<longleftrightarrow> crdt_of_code L (crdt_code L t) = Some t"

definition lite_laws :: "lite_lib \<Rightarrow> bool" where
  "lite_laws L \<longleftrightarrow>
     length (lite_magic L) = 4 \<and>
     (\<forall>b t. message_of_code L b = Some t \<longrightarrow> message_code L t = b) \<and>
     (\<forall>b t. crdt_of_code L b = Some t \<longrightarrow> crdt_code L t = b) \<and>
     list_all (message_type_ok L) [Announce, Heartbeat, Data, Query, Ack, Leave, OtaOffer, OtaAccept, OtaData,
        OtaAck, OtaComplete, OtaResult, OtaAbort] \<and>
     list_all (crdt_type_ok L) [LwwRegister, GCounter, PnCounter, OrSet]"

record 'j json_lib =
  j_str :: "string \<Rightarrow> 'j"
  j_u64 :: "u64 \<Rightarrow> 'j"
  j_i64 :: "int \<Rightarrow> 'j"
  j_object :: "(string, 'j) hmap \<Rightarrow> 'j"
  j_array :: "'j list \<Rightarrow> 'j"
  as_str :: "'j \<Rightarrow> string option"
  as_u64 :: "'j \<Rightarrow> u64 option"
  as_object :: "'j \<Rightarrow> (string, 'j) hmap option"
  as_array :: "'j \<Rightarrow> 'j list option"
  to_vec :: "(string, 'j) hmap \<Rightarrow> byte list option"
  hex_enc :: "byte list \<Rightarrow> string"
  hex_dec :: "string \<Rightarrow> byte list option"

definition json_laws :: "'j json_lib \<Rightarrow> bool" where
  "json_laws J \<longleftrightarrow>
     (\<forall>s. as_str J (j_str J s) = Some s) \<and>
     (\<forall>n. as_u64 J (j_u64 J n) = Some n) \<and>
     (\<forall>xs. as_array J (j_array J xs) = Some xs) \<and>
     (\<forall>m. hm_wf m \<longrightarrow> (\<exists>m'. as_object J (j_object J m) = Some m' \<and> mset m' = mset m)) \<and>
     (\<forall>bs. hex_dec J (hex_enc J bs) = Some bs)"

section \<open>Numbers in hexadecimal\<close>

text \<open>\<^verbatim>\<open>{:08X}\<close> of a \<^verbatim>\<open>u32\<close> has eight upper case digits; \<^verbatim>\<open>u32::from_str_radix(s, 16)\<close> reads any.\<close>

primrec upper_hex :: "nat \<Rightarrow> nat \<Rightarrow> string" where
  "upper_hex 0 v = []"
| "upper_hex (Suc k) v = upper_hex k (v div 16) @ [''0123456789ABCDEF'' ! (v mod 16)]"

definition u32_hex :: "u32 \<Rightarrow> string" where
  "u32_hex w = upper_hex 8 (unat w)"

definition u32_from_hex :: "string \<Rightarrow> u32 option" where
  "u32_from_hex s =
     (let ds = (case s of c # r \<Rightarrow> if c = CHR ''+'' then r else s | [] \<Rightarrow> [])
      in if ds = [] then None
         else case those (map hex_digit ds) of
           None \<Rightarrow> None
         | Some ns \<Rightarrow>
             (let v = foldl (\<lambda>a d. 16 * a + d) 0 ns
              in if v < 2 ^ 32 then Some (word_of_nat v) else None))"

section \<open>Queries and messages\<close>

record QueryRequest =
  query_crdt :: CrdtType
  query_collection :: string
  query_doc_id :: "string option"

definition query_encode :: "lite_lib \<Rightarrow> QueryRequest \<Rightarrow> byte list" where
  "query_encode L q =
     (let cb = as_bytes (query_collection q);
          db = as_bytes (case query_doc_id q of Some d \<Rightarrow> d | None \<Rightarrow> [])
      in [crdt_code L (query_crdt q), word_of_nat (length cb)] @ cb @ [word_of_nat (length db)] @ db)"

definition query_decode :: "lite_lib \<Rightarrow> byte list \<Rightarrow> (unit, QueryRequest) result" where
  "query_decode L bs =
     rbind (ensure (3 \<le> length bs) ()) (\<lambda>_.
     rbind (slice 1 bs) (\<lambda>(tb, r1).
     rbind (case crdt_of_code L (hd tb) of None \<Rightarrow> Inl (Err ()) | Some t \<Rightarrow> Inr t) (\<lambda>t.
     rbind (slice 1 r1) (\<lambda>(lb, r2).
     rbind (ensure (2 + unat (hd lb) + 1 \<le> length bs) ()) (\<lambda>_.
     rbind (slice (unat (hd lb)) r2) (\<lambda>(cb, r3).
     rbind (from_utf8 () cb) (\<lambda>coll.
     rbind (slice 1 r3) (\<lambda>(db, r4).
     rbind (ensure (2 + unat (hd lb) + 1 + unat (hd db) \<le> length bs) ()) (\<lambda>_.
     if 0 < unat (hd db) then
       rbind (slice (unat (hd db)) r4) (\<lambda>(ib, _).
       rbind (from_utf8 () ib) (\<lambda>d.
       Inr \<lparr>query_crdt = t, query_collection = coll, query_doc_id = Some d\<rparr>))
     else Inr \<lparr>query_crdt = t, query_collection = coll, query_doc_id = None\<rparr>)))))))))"

record LiteMessage =
  msg_type :: MessageType
  msg_flags :: u16
  msg_node_id :: u32
  msg_seq_num :: u32
  msg_payload :: "byte list"

definition lite_encode :: "lite_lib \<Rightarrow> LiteMessage \<Rightarrow> byte list" where
  "lite_encode L m =
     lite_magic L @ [lite_version L, message_code L (msg_type m)] @ le_bytes 2 (unat (msg_flags m))
     @ le_bytes 4 (unat (msg_node_id m)) @ le_bytes 4 (unat (msg_seq_num m)) @ msg_payload m"

definition lite_decode :: "lite_lib \<Rightarrow> byte list \<Rightarrow> (unit, LiteMessage) result" where
  "lite_decode L bs =
     rbind (ensure (16 \<le> length bs) ()) (\<lambda>_.
     rbind (slice 4 bs) (\<lambda>(mb, r1).
     rbind (ensure (mb = lite_magic L) ()) (\<lambda>_.
     rbind (slice 1 r1) (\<lambda>(vb, r2).
     rbind (ensure (hd vb = lite_version L) ()) (\<lambda>_.
     rbind (slice 1 r2) (\<lambda>(tb, r3).
     rbind (case message_of_code L (hd tb) of None \<Rightarrow> Inl (Err ()) | Some t \<Rightarrow> Inr t) (\<lambda>t.
     rbind (slice 2 r3) (\<lambda>(fb, r4).
     rbind (slice 4 r4) (\<lambda>(nb, r5).
     rbind (slice 4 r5) (\<lambda>(sb, r6).
     Inr \<lparr>msg_type = t, msg_flags = word_of_nat (le_val fb), msg_node_id = word_of_nat (le_val nb),
          msg_seq_num = word_of_nat (le_val sb), msg_payload = r6\<rparr>))))))))))"

definition lite_ack :: "u32 \<Rightarrow> u32 \<Rightarrow> LiteMessage" where
  "lite_ack node sq =
     \<lparr>msg_type = Ack, msg_flags = 0, msg_node_id = node, msg_seq_num = 0, msg_payload = le_bytes 4 (unat sq)\<rparr>"

definition lite_query :: "lite_lib \<Rightarrow> u32 \<Rightarrow> u32 \<Rightarrow> QueryRequest \<Rightarrow> LiteMessage" where
  "lite_query L node sq q =
     \<lparr>msg_type = Query, msg_flags = 0, msg_node_id = node, msg_seq_num = sq, msg_payload = query_encode L q\<rparr>"

definition lite_data :: "lite_lib \<Rightarrow> u32 \<Rightarrow> u32 \<Rightarrow> CrdtType \<Rightarrow> byte list \<Rightarrow> LiteMessage" where
  "lite_data L node sq ct bs =
     \<lparr>msg_type = Data, msg_flags = 0, msg_node_id = node, msg_seq_num = sq, msg_payload = crdt_code L ct # bs\<rparr>"

definition ota_offer ::
  "u32 \<Rightarrow> byte list \<Rightarrow> u32 \<Rightarrow> u16 \<Rightarrow> u16 \<Rightarrow> byte list \<Rightarrow> u16 \<Rightarrow> u16 \<Rightarrow> byte list option \<Rightarrow> LiteMessage" where
  "ota_offer node ver sz chunks chunk_sz sha sid flags sig =
     \<lparr>msg_type = OtaOffer, msg_flags = 0, msg_node_id = node, msg_seq_num = 0,
      msg_payload = ver @ le_bytes 4 (unat sz) @ le_bytes 2 (unat chunks) @ le_bytes 2 (unat chunk_sz) @ sha
        @ le_bytes 2 (unat sid) @ le_bytes 2 (unat flags)
        @ (case sig of Some s \<Rightarrow> s @ replicate 16 0 | None \<Rightarrow> replicate 16 0)\<rparr>"

definition ota_data :: "u32 \<Rightarrow> u16 \<Rightarrow> u16 \<Rightarrow> byte list \<Rightarrow> LiteMessage" where
  "ota_data node sid chunk bs =
     \<lparr>msg_type = OtaData, msg_flags = 0, msg_node_id = node, msg_seq_num = 0,
      msg_payload = le_bytes 2 (unat sid) @ le_bytes 2 (unat chunk)
        @ le_bytes 2 (unat (word_of_nat (length bs) :: u16)) @ bs\<rparr>"

definition ota_complete :: "u32 \<Rightarrow> u16 \<Rightarrow> LiteMessage" where
  "ota_complete node sid =
     \<lparr>msg_type = OtaComplete, msg_flags = 0, msg_node_id = node, msg_seq_num = 0, msg_payload = le_bytes 2 (unat sid)\<rparr>"

definition ota_abort :: "u32 \<Rightarrow> u16 \<Rightarrow> u8 \<Rightarrow> LiteMessage" where
  "ota_abort node sid reason =
     \<lparr>msg_type = OtaAbort, msg_flags = 0, msg_node_id = node, msg_seq_num = 0,
      msg_payload = le_bytes 2 (unat sid) @ [reason, 0]\<rparr>"

section \<open>Payloads of the primitive CRDTs\<close>

text \<open>The sums wrap around, as they do in a release build.\<close>

definition gcounter_entry_read :: "byte list \<Rightarrow> (unit, (u32 \<times> u64) \<times> byte list) result" where
  "gcounter_entry_read bs =
     rbind (slice 4 bs) (\<lambda>(nb, r1).
     rbind (slice 8 r1) (\<lambda>(cb, r2).
     Inr ((word_of_nat (le_val nb), word_of_nat (le_val cb)), r2)))"

definition decode_gcounter :: "byte list \<Rightarrow> (unit, (u32 \<times> u64) list \<times> u64) result" where
  "decode_gcounter bs =
     rbind (ensure (6 \<le> length bs) ()) (\<lambda>_.
     rbind (slice 4 bs) (\<lambda>(_, r1).
     rbind (slice 2 r1) (\<lambda>(nb, r2).
     rbind (ensure (6 + le_val nb * 12 \<le> length bs) ()) (\<lambda>_.
     rbind (read_many gcounter_entry_read (le_val nb) r2) (\<lambda>(counts, _).
     Inr (counts, sum_list (map snd counts)))))))"

definition decode_lww_register :: "byte list \<Rightarrow> (unit, u64 \<times> u32 \<times> byte list) result" where
  "decode_lww_register bs =
     rbind (ensure (12 \<le> length bs) ()) (\<lambda>_.
     rbind (slice 8 bs) (\<lambda>(tb, r1).
     rbind (slice 4 r1) (\<lambda>(nb, r2).
     Inr (word_of_nat (le_val tb), word_of_nat (le_val nb), r2))))"

definition pncounter_entry_read :: "byte list \<Rightarrow> (unit, (u32 \<times> u64 \<times> u64) \<times> byte list) result" where
  "pncounter_entry_read bs =
     rbind (slice 4 bs) (\<lambda>(nb, r1).
     rbind (slice 8 r1) (\<lambda>(ib, r2).
     rbind (slice 8 r2) (\<lambda>(db, r3).
     Inr ((word_of_nat (le_val nb), word_of_nat (le_val ib), word_of_nat (le_val db)), r3))))"

text \<open>The net value is an \<^verbatim>\<open>i64\<close>: the signed reading of the 64-bit sum.\<close>

definition decode_pncounter :: "byte list \<Rightarrow> (unit, (u32 \<times> u64 \<times> u64) list \<times> int) result" where
  "decode_pncounter bs =
     rbind (ensure (6 \<le> length bs) ()) (\<lambda>_.
     rbind (slice 4 bs) (\<lambda>(_, r1).
     rbind (slice 2 r1) (\<lambda>(nb, r2).
     rbind (ensure (6 + le_val nb * 20 \<le> length bs) ()) (\<lambda>_.
     rbind (read_many pncounter_entry_read (le_val nb) r2) (\<lambda>(entries, _).
     Inr (entries, sint (sum_list (map (\<lambda>(_, i, d). i - d) entries))))))))"

record OrSetElement =
  tag_node_id :: u32
  tag_seq :: u32
  orset_value :: "byte list"

definition orset_element_read :: "byte list \<Rightarrow> (unit, OrSetElement \<times> byte list) result" where
  "orset_element_read bs =
     rbind (ensure (10 \<le> length bs) ()) (\<lambda>_.
     rbind (slice 4 bs) (\<lambda>(nb, r1).
     rbind (slice 4 r1) (\<lambda>(sb, r2).
     rbind (slice 2 r2) (\<lambda>(lb, r3).
     rbind (ensure (10 + le_val lb \<le> length bs) ()) (\<lambda>_.
     rbind (slice (le_val lb) r3) (\<lambda>(v, r4).
     Inr (\<lparr>tag_node_id = word_of_nat (le_val nb), tag_seq = word_of_nat (le_val sb), orset_value = v\<rparr>, r4)))))))"

definition decode_orset :: "byte list \<Rightarrow> (unit, u32 \<times> OrSetElement list) result" where
  "decode_orset bs =
     rbind (ensure (6 \<le> length bs) ()) (\<lambda>_.
     rbind (slice 4 bs) (\<lambda>(lb, r1).
     rbind (slice 2 r1) (\<lambda>(nb, r2).
     rbind (read_many orset_element_read (le_val nb) r2) (\<lambda>(es, _).
     Inr (word_of_nat (le_val lb), es)))))"

section \<open>Documents\<close>

text \<open>
  \<open>now\<close> is the reading of the system clock in milliseconds, \<open>None\<close> when it is before
  the epoch and the \<^verbatim>\<open>unwrap\<close> panics.
\<close>

type_synonym 'j doc = "(string, 'j) hmap"

definition updated_at :: "'j json_lib \<Rightarrow> u64 option \<Rightarrow> 'j doc \<Rightarrow> (unit, 'j doc) result" where
  "updated_at J now doc =
     (case now of None \<Rightarrow> Inl Panic | Some ms \<Rightarrow> Inr (hm_insert ''updated_at'' (j_u64 J ms) doc))"

definition gcounter_to_fields ::
  "'j json_lib \<Rightarrow> u64 option \<Rightarrow> string \<Rightarrow> (u32 \<times> u64) list \<Rightarrow> u64 \<Rightarrow> (unit, 'j doc) result" where
  "gcounter_to_fields J now node counts tot =
     (let f1 = hm_insert ''type'' (j_str J ''gcounter'') [];
          f2 = hm_insert ''source_node'' (j_str J node) f1;
          f3 = hm_insert ''total'' (j_u64 J tot) f2;
          node_counts = fold (\<lambda>(nid, c). hm_insert (u32_hex nid) (j_u64 J c)) counts [];
          f4 = hm_insert ''node_counts'' (j_object J node_counts) f3
      in updated_at J now f4)"

definition lww_register_to_fields ::
  "'j json_lib \<Rightarrow> u64 option \<Rightarrow> string \<Rightarrow> u64 \<Rightarrow> byte list \<Rightarrow> (unit, 'j doc) result" where
  "lww_register_to_fields J now node ts v =
     (let f1 = hm_insert ''type'' (j_str J ''lww_register'') [];
          f2 = hm_insert ''source_node'' (j_str J node) f1;
          f3 = hm_insert ''timestamp'' (j_u64 J ts) f2;
          f4 = (if length v = 4 then hm_insert ''value_i32'' (j_i64 J (sint (word_of_nat (le_val v) :: u32))) f3
                else if length v = 8 then hm_insert ''value_i64'' (j_i64 J (sint (word_of_nat (le_val v) :: u64))) f3
                else f3);
          f5 = hm_insert ''value_hex'' (j_str J (hex_enc J v)) f4
      in updated_at J now f5)"

text \<open>An entry that does not read as a node and its counts is skipped.\<close>

definition gcounter_entry_from_json :: "'j json_lib \<Rightarrow> string \<times> 'j \<Rightarrow> (u32 \<times> u64) option" where
  "gcounter_entry_from_json J = (\<lambda>(k, c).
     Option.bind (u32_from_hex k) (\<lambda>nid. map_option (\<lambda>n. (nid, n)) (as_u64 J c)))"

definition encode_gcounter_from_doc :: "'j json_lib \<Rightarrow> 'j doc \<Rightarrow> byte list option" where
  "encode_gcounter_from_doc J doc =
     Option.bind (hm_get doc ''node_counts'') (\<lambda>v.
     Option.bind (as_object J v) (\<lambda>obj.
     let entries = List.map_filter (gcounter_entry_from_json J) obj
     in Some (le_bytes 4 0 @ le_bytes 2 (unat (word_of_nat (length entries) :: u16))
          @ concat (map (\<lambda>(nid, n). le_bytes 4 (unat nid) @ le_bytes 8 (unat n)) entries))))"

definition pncounter_to_fields ::
  "'j json_lib \<Rightarrow> u64 option \<Rightarrow> string \<Rightarrow> (u32 \<times> u64 \<times> u64) list \<Rightarrow> int \<Rightarrow> (unit, 'j doc) result" where
  "pncounter_to_fields J now node entries net =
     (let f1 = hm_insert ''type'' (j_str J ''pncounter'') [];
          f2 = hm_insert ''source_node'' (j_str J node) f1;
          f3 = hm_insert ''net_value'' (j_i64 J net) f2;
          node_entries = fold (\<lambda>(nid, i, d). hm_insert (u32_hex nid)
            (j_object J [(''increments'', j_u64 J i), (''decrements'', j_u64 J d)])) entries [];
          f4 = hm_insert ''node_entries'' (j_object J node_entries) f3
      in updated_at J now f4)"

definition pncounter_entry_from_json :: "'j json_lib \<Rightarrow> string \<times> 'j \<Rightarrow> (u32 \<times> u64 \<times> u64) option" where
  "pncounter_entry_from_json J = (\<lambda>(k, e).
     Option.bind (u32_from_hex k) (\<lambda>nid.
     Option.bind (as_object J e) (\<lambda>o1.
     Option.bind (Option.bind (hm_get o1 ''increments'') (as_u64 J)) (\<lambda>i.
     map_option (\<lambda>d. (nid, i, d)) (Option.bind (hm_get o1 ''decrements'') (as_u64 J))))))"

definition encode_pncounter_from_doc :: "'j json_lib \<Rightarrow> 'j doc \<Rightarrow> byte list option" where
  "encode_pncounter_from_doc J doc =
     Option.bind (hm_get doc ''node_entries'') (\<lambda>v.
     Option.bind (as_object J v) (\<lambda>obj.
     let entries = List.map_filter (pncounter_entry_from_json J) obj
     in Some (le_bytes 4 0 @ le_bytes 2 (unat (word_of_nat (length entries) :: u16))
          @ concat (map (\<lambda>(nid, i, d). le_bytes 4 (unat nid) @ le_bytes 8 (unat i) @ le_bytes 8 (unat d)) entries))))"

definition orset_to_fields ::
  "'j json_lib \<Rightarrow> u64 option \<Rightarrow> string \<Rightarrow> OrSetElement list \<Rightarrow> (unit, 'j doc) result" where
  "orset_to_fields J now node es =
     (let f1 = hm_insert ''type'' (j_str J ''orset'') [];
          f2 = hm_insert ''source_node'' (j_str J node) f1;
          f3 = hm_insert ''count'' (j_u64 J (word_of_nat (length es))) f2;
          f4 = hm_insert ''elements'' (j_array J (map (\<lambda>e.
                 j_object J [(''tag_node'', j_str J (u32_hex (tag_node_id e))),
                             (''tag_seq'', j_u64 J (word_of_nat (unat (tag_seq e)))),
                             (''value'', j_str J (hex_enc J (orset_value e)))]) es)) f3
      in updated_at J now f4)"

text \<open>A \<^verbatim>\<open>?\<close> inside the loop gives up the whole document.\<close>

definition orset_element_from_json :: "'j json_lib \<Rightarrow> 'j \<Rightarrow> OrSetElement option" where
  "orset_element_from_json J v =
     Option.bind (as_object J v) (\<lambda>obj.
     Option.bind (Option.bind (hm_get obj ''tag_node'') (as_str J)) (\<lambda>ts.
     Option.bind (u32_from_hex ts) (\<lambda>node.
     Option.bind (Option.bind (hm_get obj ''tag_seq'') (as_u64 J)) (\<lambda>sq.
     Option.bind (Option.bind (hm_get obj ''value'') (as_str J)) (\<lambda>vs.
     map_option (\<lambda>bs. \<lparr>tag_node_id = node, tag_seq = word_of_nat (unat sq), orset_value = bs\<rparr>) (hex_dec J vs))))))"

definition encode_orset_from_doc :: "'j json_lib \<Rightarrow> 'j doc \<Rightarrow> byte list option" where
  "encode_orset_from_doc J doc =
     Option.bind (hm_get doc ''elements'') (\<lambda>v.
     Option.bind (as_array J v) (\<lambda>arr.
     map_option (\<lambda>es. le_bytes 4 0 @ le_bytes 2 (unat (word_of_nat (length arr) :: u16))
         @ concat (map (\<lambda>e. le_bytes 4 (unat (tag_node_id e)) @ le_bytes 4 (unat (tag_seq e))
              @ le_bytes 2 (unat (word_of_nat (length (orset_value e)) :: u16)) @ orset_value e) es))
       (those (map (orset_element_from_json J) arr))))"

definition encode_lww_from_doc :: "'j json_lib \<Rightarrow> u64 option \<Rightarrow> 'j doc \<Rightarrow> u32 \<Rightarrow> byte list option" where
  "encode_lww_from_doc J now doc node =
     Option.bind (to_vec J doc) (\<lambda>json.
     Option.bind now (\<lambda>ms. Some (le_bytes 8 (unat ms) @ le_bytes 4 (unat node) @ json)))"

section \<open>Lemmas on hexadecimal numbers\<close>

lemma foldl_upper_hex:
  "\<exists>ns. map hex_digit (upper_hex k v) = map Some ns \<and> foldl (\<lambda>a d. 16 * a + d) 0 ns = v mod 16 ^ k"
proof (induction k arbitrary: v)
  case (Suc k)
  obtain ns where ns: "map hex_digit (upper_hex k (v div 16)) = map Some ns"
    "foldl (\<lambda>a d. 16 * a + d) 0 ns = v div 16 mod 16 ^ k"
    using Suc by blast
  have "n < 16 \<Longrightarrow> hex_digit (''0123456789ABCDEF'' ! n) = Some n" for n
    by (drule less_16) (auto simp: hex_digit_def)
  moreover have "v mod (16 * 16 ^ k) = 16 * (v div 16 mod 16 ^ k) + v mod 16"
    by (rule mod_mult2_eq)
  ultimately show ?case
    using ns by (intro exI [of _ "ns @ [v mod 16]"]) simp
qed simp

lemma length_upper_hex [simp]: "length (upper_hex k v) = k"
  by (induction k arbitrary: v) simp_all

lemma upper_hex_no_plus: "CHR ''+'' \<notin> set (upper_hex k v)"
proof (induction k arbitrary: v)
  case (Suc k)
  have "n < 16 \<Longrightarrow> ''0123456789ABCDEF'' ! n \<noteq> CHR ''+''" for n
    by (drule less_16) auto
  from this [of "v mod 16"] Suc show ?case by simp
qed simp

lemma those_map_Some [simp]: "those (map Some xs) = Some xs"
  by (induction xs) simp_all

lemma u32_from_hex_hex [simp]: "u32_from_hex (u32_hex w) = Some w"
proof -
  obtain ns where ns: "map hex_digit (upper_hex 8 (unat w)) = map Some ns"
    "foldl (\<lambda>a d. 16 * a + d) 0 ns = unat w mod 16 ^ 8"
    using foldl_upper_hex by blast
  obtain c r where s: "upper_hex 8 (unat w) = c # r"
    using length_upper_hex [of 8 "unat w"] by (cases "upper_hex 8 (unat w)") auto
  have "c \<noteq> CHR ''+''"
    using upper_hex_no_plus [of 8 "unat w"] s by auto
  then have "u32_from_hex (u32_hex w) =
     (case those (map hex_digit (upper_hex 8 (unat w))) of None \<Rightarrow> None
      | Some ns \<Rightarrow> let v = foldl (\<lambda>a d. 16 * a + d) 0 ns in if v < 2 ^ 32 then Some (word_of_nat v) else None)"
    by (simp add: u32_from_hex_def u32_hex_def s)
  then show ?thesis
    using ns by (simp add: Let_def)
qed

lemma u32_hex_inj [simp]: "u32_hex a = u32_hex b \<longleftrightarrow> a = b"
  by (metis option.inject u32_from_hex_hex)

section \<open>Messages and queries on the wire\<close>

definition query_ok :: "lite_lib \<Rightarrow> QueryRequest \<Rightarrow> bool" where
  "query_ok L q \<longleftrightarrow> crdt_type_ok L (query_crdt q) \<and> length (query_collection q) < 256 \<and>
     valid_string (query_collection q) \<and>
     (case query_doc_id q of Some d \<Rightarrow> length d < 256 \<and> valid_string d | None \<Rightarrow> True)"

definition query_norm :: "QueryRequest \<Rightarrow> QueryRequest" where
  "query_norm q = q\<lparr>query_doc_id := (if query_doc_id q = Some [] then None else query_doc_id q)\<rparr>"

lemma unat_word8 [simp]: "x < 256 \<Longrightarrow> unat (word_of_nat x :: u8) = x"
  by (simp add: unat_of_nat)

lemma le_val_bound2 [simp]: "length bs = 2 \<Longrightarrow> le_val bs < 65536"
  using le_val_bound [of bs] by simp

lemma lite_lawsD:
  assumes "lite_laws L"
  shows "length (lite_magic L) = 4"
    and "message_of_code L b = Some t \<Longrightarrow> message_code L t = b"
    and "crdt_of_code L b = Some c \<Longrightarrow> crdt_code L c = b"
    and "t \<in> {Announce, Heartbeat, Data, Query, Ack, Leave, OtaOffer, OtaAccept, OtaData, OtaAck, OtaComplete,
           OtaResult, OtaAbort} \<Longrightarrow> message_type_ok L t"
    and "c \<in> {LwwRegister, GCounter, PnCounter, OrSet} \<Longrightarrow> crdt_type_ok L c"
  using assms by (auto simp: lite_laws_def)

lemma lite_decode_encode:
  "lite_laws L \<Longrightarrow> message_type_ok L (msg_type m) \<Longrightarrow> lite_decode L (lite_encode L m) = Inr m"
  by (simp add: lite_decode_def lite_encode_def lite_lawsD(1) message_type_ok_def)

lemma lite_decode_canonical:
  "lite_laws L \<Longrightarrow> lite_decode L bs = Inr m \<Longrightarrow> message_type_ok L (msg_type m) \<and> bs = lite_encode L m"
proof -
  assume laws: "lite_laws L"
  have codes: "\<forall>b t. message_of_code L b = Some t \<longrightarrow> message_code L t = b"
    using lite_lawsD(2) [OF laws] by blast
  assume "lite_decode L bs = Inr m"
  then show ?thesis
    using codes by (auto simp: lite_decode_def lite_encode_def message_type_ok_def reader_eqs length_Suc_conv
      split: prod.splits option.splits)
qed

lemma lite_decode_not_panic: "lite_decode L bs \<noteq> Inl Panic"
  by (auto simp: lite_decode_def reader_eqs length_Suc_conv split: prod.splits option.splits)

lemma query_decode_encode:
  "query_ok L q \<Longrightarrow> query_decode L (query_encode L q @ r) = Inr (query_norm q)"
  by (cases "query_doc_id q")
    (auto simp: query_decode_def query_encode_def query_ok_def query_norm_def crdt_type_ok_def Let_def)

lemma query_decode_not_panic: "query_decode L bs \<noteq> Inl Panic"
  by (auto simp: query_decode_def reader_eqs length_Suc_conv split: prod.splits option.splits if_splits)

section \<open>Lemmas on payloads and documents\<close>

lemma read_many_fixed:
  assumes "\<And>s. k \<le> length s \<Longrightarrow> \<exists>x. rd s = Inr (x, drop k s)"
  shows "n * k \<le> length s \<Longrightarrow> \<exists>xs. read_many rd n s = Inr (xs, drop (n * k) s)"
proof (induction n arbitrary: s)
  case (Suc n)
  then obtain x where x: "rd s = Inr (x, drop k s)"
    using assms [of s] by auto
  moreover obtain xs where "read_many rd n (drop k s) = Inr (xs, drop (n * k) (drop k s))"
    using Suc.IH [of "drop k s"] Suc.prems by (auto simp: le_diff_conv2)
  ultimately show ?case
    by (simp add: add.commute)
qed simp

lemma fold_insert_fresh:
  assumes "distinct (map f xs)" "\<forall>x \<in> set xs. f x \<notin> fst ` set m"
  shows "fold (\<lambda>x. hm_insert (f x) (g x)) xs m = m @ map (\<lambda>x. (f x, g x)) xs"
  using assms
proof (induction xs arbitrary: m)
  case (Cons x xs)
  have fresh: "k \<notin> fst ` set m \<Longrightarrow> hm_insert k v m = m @ [(k, v)]" for k v m
    by (induction m) auto
  show ?case
    using Cons.prems by (simp add: fresh) (subst Cons.IH, auto intro: rev_image_eqI)
qed simp

lemma mset_eq_map:
  "mset ys = mset (map f xs) \<Longrightarrow> \<exists>zs. ys = map f zs \<and> mset zs = mset xs"
proof (induction ys arbitrary: xs)
  case (Cons y ys)
  then have "y \<in> set (map f xs)"
    by (metis list.set_intros(1) set_mset_mset)
  then obtain x where x: "x \<in> set xs" "y = f x" by auto
  then have "mset ys = mset (map f (remove1 x xs))"
    using Cons.prems by (simp add: image_mset_Diff) (metis add_mset_remove_trivial)
  from Cons.IH [OF this] obtain zs where "ys = map f zs" "mset zs = mset (remove1 x xs)" by blast
  then show ?case
    using x by (intro exI [of _ "x # zs"]) simp
qed simp

lemma hm_get_mset:
  assumes "hm_wf m" "mset m' = mset m"
  shows "hm_get m' = hm_get m"
proof -
  have "hm_wf m'"
    using assms by (metis hm_wf_def mset_map mset_eq_imp_distinct_iff)
  moreover have "set m' = set m"
    using assms(2) by (rule mset_eq_setD)
  ultimately show ?thesis
    using assms(1) by (simp add: hm_wf_def map_of_inject_set)
qed

lemma map_filter_map_Some: "(\<And>x. x \<in> set xs \<Longrightarrow> h (f x) = Some x) \<Longrightarrow> List.map_filter h (map f xs) = xs"
  by (induction xs) (simp_all add: List.map_filter_simps)

lemma json_lawsD:
  assumes "json_laws J"
  shows "as_str J (j_str J s) = Some s" "as_u64 J (j_u64 J n) = Some n" "as_array J (j_array J xs) = Some xs"
    and "hex_dec J (hex_enc J bs) = Some bs"
    and "hm_wf m \<Longrightarrow> \<exists>m'. as_object J (j_object J m) = Some m' \<and> mset m' = mset m"
  using assms by (simp_all add: json_laws_def)

lemma json_object_get:
  assumes "json_laws J" "hm_wf m"
  obtains m' where "as_object J (j_object J m) = Some m'" "hm_get m' = hm_get m"
  using json_lawsD(5) [OF assms] hm_get_mset [OF assms(2)] by blast

lemma json_object_entries:
  assumes "json_laws J" "distinct (map f xs)"
  obtains ys where "as_object J (j_object J (fold (\<lambda>x. hm_insert (f x) (g x)) xs [])) = Some (map (\<lambda>x. (f x, g x)) ys)"
    "mset ys = mset xs"
proof -
  let ?m = "map (\<lambda>x. (f x, g x)) xs"
  have "hm_wf ?m"
    using assms(2) by (simp add: hm_wf_def comp_def)
  then obtain m' where "as_object J (j_object J ?m) = Some m'" "mset m' = mset ?m"
    using json_lawsD(5) [OF assms(1)] by blast
  moreover from this obtain ys where "m' = map (\<lambda>x. (f x, g x)) ys" "mset ys = mset xs"
    using mset_eq_map by blast
  ultimately show thesis
    using assms(2) by (intro that [of ys]) (simp_all add: fold_insert_fresh)
qed

lemma sum_list_mset: "mset xs = mset ys \<Longrightarrow> sum_list (map f xs) = (sum_list (map f ys) :: 'a::comm_monoid_add)"
  by (metis mset_map sum_mset_sum_list)

section \<open>Counters and sets through a document\<close>

interpretation gcounter_entry: wire_codec "\<lambda>_. True" "\<lambda>(nid, n). le_bytes 4 (unat nid) @ le_bytes 8 (unat n)"
  id gcounter_entry_read
  by unfold_locales (auto simp: gcounter_entry_read_def)

interpretation pncounter_entry: wire_codec "\<lambda>_. True"
  "\<lambda>(nid, i, d). le_bytes 4 (unat nid) @ le_bytes 8 (unat i) @ le_bytes 8 (unat d)" id pncounter_entry_read
  by unfold_locales (auto simp: pncounter_entry_read_def)

interpretation orset_element: wire_codec "\<lambda>e. length (orset_value e) < 65536"
  "\<lambda>e. le_bytes 4 (unat (tag_node_id e)) @ le_bytes 4 (unat (tag_seq e))
     @ le_bytes 2 (unat (word_of_nat (length (orset_value e)) :: u16)) @ orset_value e" id orset_element_read
  by unfold_locales (simp add: orset_element_read_def)

lemma decode_gcounter_encoded:
  assumes "length es < 65536"
  shows "decode_gcounter (le_bytes 4 x @ le_bytes 2 (unat (word_of_nat (length es) :: u16))
     @ concat (map (\<lambda>(nid, n). le_bytes 4 (unat nid) @ le_bytes 8 (unat n)) es)) = Inr (es, sum_list (map snd es))"
proof -
  have "length (concat (map (\<lambda>(nid :: u32, n :: u64). le_bytes 4 (unat nid) @ le_bytes 8 (unat n)) es)) = length es * 12"
    by (induction es) auto
  then show ?thesis
    using assms gcounter_entry.read_many_enc [of es "[]"]
    by (simp add: decode_gcounter_def list_all_iff)
qed

lemma decode_pncounter_encoded:
  assumes "length es < 65536"
  shows "decode_pncounter (le_bytes 4 x @ le_bytes 2 (unat (word_of_nat (length es) :: u16))
     @ concat (map (\<lambda>(nid, i, d). le_bytes 4 (unat nid) @ le_bytes 8 (unat i) @ le_bytes 8 (unat d)) es))
   = Inr (es, sint (sum_list (map (\<lambda>(_, i, d). i - d) es)))"
proof -
  have "length (concat (map (\<lambda>(nid :: u32, i :: u64, d :: u64).
      le_bytes 4 (unat nid) @ le_bytes 8 (unat i) @ le_bytes 8 (unat d)) es)) = length es * 20"
    by (induction es) auto
  then show ?thesis
    using assms pncounter_entry.read_many_enc [of es "[]"]
    by (simp add: decode_pncounter_def list_all_iff)
qed

lemma decode_orset_encoded:
  assumes "length es < 65536" "\<forall>e \<in> set es. length (orset_value e) < 65536"
  shows "decode_orset (le_bytes 4 0 @ le_bytes 2 (unat (word_of_nat (length es) :: u16))
     @ concat (map (\<lambda>e. le_bytes 4 (unat (tag_node_id e)) @ le_bytes 4 (unat (tag_seq e))
         @ le_bytes 2 (unat (word_of_nat (length (orset_value e)) :: u16)) @ orset_value e) es)) = Inr (0, es)"
  using assms orset_element.read_many_enc [of es "[]"]
  by (simp add: decode_orset_def list_all_iff)

lemma decode_gcounter_total:
  "decode_gcounter bs = Inr (counts, tot) \<Longrightarrow> length counts < 65536 \<and> tot = sum_list (map snd counts)"
  by (auto simp: decode_gcounter_def reader_eqs split: prod.splits dest!: read_many_length)

lemma decode_pncounter_net:
  "decode_pncounter bs = Inr (es, net) \<Longrightarrow> length es < 65536 \<and> net = sint (sum_list (map (\<lambda>(_, i, d). i - d) es))"
  by (auto simp: decode_pncounter_def reader_eqs split: prod.splits dest!: read_many_length)

lemma read_many_all:
  "(\<And>s x s'. rd s = Inr (x, s') \<Longrightarrow> P x) \<Longrightarrow> read_many rd n s = Inr (xs, s') \<Longrightarrow> \<forall>x \<in> set xs. P x"
  by (induction n arbitrary: s xs) (fastforce simp: rbind_eq_Inr split: prod.splits)+

lemma orset_element_size: "orset_element_read s = Inr (e, s') \<Longrightarrow> length (orset_value e) < 65536"
  by (auto simp: orset_element_read_def rbind_eq_Inr slice_eq_Inr split: prod.splits)

lemma decode_orset_sizes:
  assumes "decode_orset bs = Inr (n, es)"
  shows "length es < 65536" "\<forall>e \<in> set es. length (orset_value e) < 65536"
proof -
  obtain nb r2 r3 where "length nb = 2" and read: "read_many orset_element_read (le_val nb) r2 = Inr (es, r3)"
    using assms unfolding decode_orset_def rbind_eq_Inr slice_eq_Inr split_paired_Ex prod.case by blast
  then have "le_val nb < 65536"
    by simp
  then show "length es < 65536"
    using read_many_length [OF read] by simp
  show "\<forall>e \<in> set es. length (orset_value e) < 65536"
    by (rule read_many_all [OF orset_element_size read])
qed

lemma gcounter_reencoded:
  assumes "json_laws J" "length counts < 65536" "distinct (map fst counts)"
    and "gcounter_to_fields J now node counts tot = Inr doc"
  obtains bs counts' where "encode_gcounter_from_doc J doc = Some bs" "mset counts' = mset counts"
    "decode_gcounter bs = Inr (counts', sum_list (map snd counts))"
proof -
  let ?f = "\<lambda>x :: u32 \<times> u64. u32_hex (fst x)" and ?g = "\<lambda>x :: u32 \<times> u64. j_u64 J (snd x)"
  have "distinct (map ?f counts)"
    using assms(3) by (simp add: distinct_map inj_on_def)
  then obtain ys where ys: "as_object J (j_object J (fold (\<lambda>x. hm_insert (?f x) (?g x)) counts [])) = Some (map (\<lambda>x. (?f x, ?g x)) ys)"
    "mset ys = mset counts"
    by (rule json_object_entries [OF assms(1)])
  let ?bs = "le_bytes 4 0 @ le_bytes 2 (unat (word_of_nat (length ys) :: u16))
     @ concat (map (\<lambda>(nid, n). le_bytes 4 (unat nid) @ le_bytes 8 (unat n)) ys)"
  have "hm_get doc ''node_counts'' = Some (j_object J (fold (\<lambda>x. hm_insert (?f x) (?g x)) counts []))"
    using assms(4) by (auto simp: gcounter_to_fields_def updated_at_def Let_def case_prod_beta' split: option.splits)
  moreover have "List.map_filter (gcounter_entry_from_json J) (map (\<lambda>x. (?f x, ?g x)) ys) = ys"
    by (rule map_filter_map_Some) (simp add: gcounter_entry_from_json_def json_lawsD [OF assms(1)])
  ultimately have "encode_gcounter_from_doc J doc = Some ?bs"
    using ys(1) by (simp add: encode_gcounter_from_doc_def)
  moreover have "decode_gcounter ?bs = Inr (ys, sum_list (map snd counts))"
    unfolding sum_list_mset [OF ys(2) [symmetric]]
    by (rule decode_gcounter_encoded) (metis assms(2) size_mset ys(2))
  ultimately show thesis
    using that ys(2) by blast
qed

lemma pncounter_entry_json:
  assumes "json_laws J"
  shows "pncounter_entry_from_json J (u32_hex nid, j_object J [(''increments'', j_u64 J i), (''decrements'', j_u64 J d)])
     = Some (nid, i, d)"
proof -
  let ?m = "[(''increments'', j_u64 J i), (''decrements'', j_u64 J d)]"
  have "hm_wf ?m" by (simp add: hm_wf_def)
  then obtain m' where "as_object J (j_object J ?m) = Some m'" "hm_get m' = hm_get ?m"
    using json_object_get [OF assms] by blast
  then show ?thesis
    by (simp add: pncounter_entry_from_json_def json_lawsD [OF assms])
qed

lemma pncounter_reencoded:
  assumes "json_laws J" "length es < 65536" "distinct (map fst es)"
    and "pncounter_to_fields J now node es net = Inr doc"
  obtains bs es' where "encode_pncounter_from_doc J doc = Some bs" "mset es' = mset es"
    "decode_pncounter bs = Inr (es', sint (sum_list (map (\<lambda>(_, i, d). i - d) es)))"
proof -
  let ?f = "\<lambda>x :: u32 \<times> u64 \<times> u64. u32_hex (fst x)"
  let ?g = "\<lambda>x :: u32 \<times> u64 \<times> u64.
     j_object J [(''increments'', j_u64 J (fst (snd x))), (''decrements'', j_u64 J (snd (snd x)))]"
  have "distinct (map ?f es)"
    using assms(3) by (simp add: distinct_map inj_on_def)
  then obtain ys where ys: "as_object J (j_object J (fold (\<lambda>x. hm_insert (?f x) (?g x)) es [])) = Some (map (\<lambda>x. (?f x, ?g x)) ys)"
    "mset ys = mset es"
    by (rule json_object_entries [OF assms(1)])
  let ?bs = "le_bytes 4 0 @ le_bytes 2 (unat (word_of_nat (length ys) :: u16))
     @ concat (map (\<lambda>(nid, i, d). le_bytes 4 (unat nid) @ le_bytes 8 (unat i) @ le_bytes 8 (unat d)) ys)"
  have "hm_get doc ''node_entries'' = Some (j_object J (fold (\<lambda>x. hm_insert (?f x) (?g x)) es []))"
    using assms(4) by (auto simp: pncounter_to_fields_def updated_at_def Let_def case_prod_beta' split: option.splits)
  moreover have "List.map_filter (pncounter_entry_from_json J) (map (\<lambda>x. (?f x, ?g x)) ys) = ys"
    by (rule map_filter_map_Some) (simp add: pncounter_entry_json [OF assms(1)])
  ultimately have "encode_pncounter_from_doc J doc = Some ?bs"
    using ys(1) by (simp add: encode_pncounter_from_doc_def)
  moreover have "decode_pncounter ?bs = Inr (ys, sint (sum_list (map (\<lambda>(_, i, d). i - d) es)))"
    unfolding sum_list_mset [OF ys(2) [symmetric]]
    by (rule decode_pncounter_encoded) (metis assms(2) size_mset ys(2))
  ultimately show thesis
    using that ys(2) by blast
qed

lemma orset_element_json:
  assumes "json_laws J"
  shows "orset_element_from_json J (j_object J [(''tag_node'', j_str J (u32_hex (tag_node_id e))),
     (''tag_seq'', j_u64 J (word_of_nat (unat (tag_seq e)))), (''value'', j_str J (hex_enc J (orset_value e)))]) = Some e"
proof -
  let ?m = "[(''tag_node'', j_str J (u32_hex (tag_node_id e))),
     (''tag_seq'', j_u64 J (word_of_nat (unat (tag_seq e)))), (''value'', j_str J (hex_enc J (orset_value e)))]"
  have "hm_wf ?m" by (simp add: hm_wf_def)
  then obtain m' where "as_object J (j_object J ?m) = Some m'" "hm_get m' = hm_get ?m"
    using json_object_get [OF assms] by blast
  moreover have "ucast (ucast (w :: u32) :: u64) = w" for w
    by (rule bit_word_eqI) (simp add: bit_ucast_iff)
  ultimately show ?thesis
    by (simp add: orset_element_from_json_def json_lawsD [OF assms])
qed

lemma orset_reencoded:
  assumes "json_laws J" "length es < 65536" "\<forall>e \<in> set es. length (orset_value e) < 65536"
    and "orset_to_fields J now node es = Inr doc"
  obtains bs where "encode_orset_from_doc J doc = Some bs" "decode_orset bs = Inr (0, es)"
proof -
  let ?j = "\<lambda>e. j_object J [(''tag_node'', j_str J (u32_hex (tag_node_id e))),
     (''tag_seq'', j_u64 J (word_of_nat (unat (tag_seq e)))), (''value'', j_str J (hex_enc J (orset_value e)))]"
  have "hm_get doc ''elements'' = Some (j_array J (map ?j es))"
    using assms(4) by (auto simp: orset_to_fields_def updated_at_def Let_def split: option.splits)
  moreover have "those (map (orset_element_from_json J) (map ?j es)) = Some es"
    unfolding map_map comp_def orset_element_json [OF assms(1)] by (rule those_map_Some)
  ultimately show thesis
    using assms by (intro that [OF _ decode_orset_encoded]) (simp_all add: encode_orset_from_doc_def json_lawsD)
qed

section \<open>Concrete libraries\<close>

definition sample_message_codes :: "(MessageType \<times> byte) list" where
  "sample_message_codes = [(Announce, 1), (Heartbeat, 2), (Data, 3), (Query, 4), (Ack, 5), (Leave, 6), (OtaOffer, 16),
     (OtaAccept, 17), (OtaData, 18), (OtaAck, 19), (OtaComplete, 20), (OtaResult, 21), (OtaAbort, 22)]"

definition sample_crdt_codes :: "(CrdtType \<times> byte) list" where
  "sample_crdt_codes = [(LwwRegister, 1), (GCounter, 2), (PnCounter, 3), (OrSet, 4)]"

definition sample_lite :: lite_lib where
  "sample_lite =
     \<lparr>lite_magic = [80, 69, 65, 84], lite_version = 1,
      message_code = (\<lambda>t. case map_of sample_message_codes t of Some b \<Rightarrow> b | None \<Rightarrow> 0),
      message_of_code = (\<lambda>b. map_of (map (\<lambda>(t, b). (b, t)) sample_message_codes) b),
      crdt_code = (\<lambda>t. case map_of sample_crdt_codes t of Some b \<Rightarrow> b | None \<Rightarrow> 0),
      crdt_of_code = (\<lambda>b. map_of (map (\<lambda>(t, b). (b, t)) sample_crdt_codes) b),
      caps_from_bits = id, caps_empty = 0, caps_default = 0\<rparr>"

lemma sample_lite_laws: "lite_laws sample_lite"
  by (auto simp: lite_laws_def sample_lite_def sample_message_codes_def sample_crdt_codes_def message_type_ok_def
      crdt_type_ok_def split: if_splits)

datatype sample_value = SStr string | SNum u64 | SInt int | SObj "(string \<times> sample_value) list" | SArr "sample_value list"

definition sample_json :: "sample_value json_lib" where
  "sample_json =
     \<lparr>j_str = SStr, j_u64 = SNum, j_i64 = SInt, j_object = SObj, j_array = SArr,
      as_str = (\<lambda>v. case v of SStr s \<Rightarrow> Some s | _ \<Rightarrow> None), as_u64 = (\<lambda>v. case v of SNum n \<Rightarrow> Some n | _ \<Rightarrow> None),
      as_object = (\<lambda>v. case v of SObj m \<Rightarrow> Some m | _ \<Rightarrow> None), as_array = (\<lambda>v. case v of SArr xs \<Rightarrow> Some xs | _ \<Rightarrow> None),
      to_vec = (\<lambda>_. Some []), hex_enc = hex_encode,
      hex_dec = (\<lambda>s. case hex_decode s of Inr bs \<Rightarrow> Some bs | Inl _ \<Rightarrow> None)\<rparr>"

lemma sample_json_laws: "json_laws sample_json"
  by (simp add: json_laws_def sample_json_def hex_decode_encode)

section \<open>Properties\<close>

text \<open>
  C27.  A Lite message is decoded from its own encoding, every accepted datagram
  is the encoding of the message read from it, and no datagram makes the decoder
  panic.  A query whose names fit a length byte is decoded from its encoding, with
  an empty document id read as none; no payload makes that decoder panic.
\<close>

theorem lite_message_codec:
  assumes "lite_laws L"
  shows "(message_type_ok L (msg_type m) \<longrightarrow> lite_decode L (lite_encode L m) = Inr m) \<and>
    (lite_decode L bs = Inr m' \<longrightarrow> message_type_ok L (msg_type m') \<and> bs = lite_encode L m') \<and>
    (query_ok L q \<longrightarrow> query_decode L (msg_payload (lite_query L node sq q)) = Inr (query_norm q)) \<and>
    lite_decode L bs \<noteq> Inl Panic \<and> query_decode L bs \<noteq> Inl Panic"
  using lite_decode_encode [OF assms] lite_decode_canonical [OF assms] query_decode_encode [of L q "[]"]
    lite_decode_not_panic query_decode_not_panic
  by (simp add: lite_query_def)

definition sample_query :: QueryRequest where
  "sample_query = \<lparr>query_crdt = GCounter, query_collection = ''beacons'', query_doc_id = Some ''a1''\<rparr>"

theorem lite_message_codec_witness:
  "lite_decode sample_lite (lite_encode sample_lite (lite_query sample_lite 7 1 sample_query))
     = Inr (lite_query sample_lite 7 1 sample_query) \<and>
   query_decode sample_lite (msg_payload (lite_query sample_lite 7 1 sample_query)) = Inr (query_norm sample_query)"
  using lite_message_codec [OF sample_lite_laws, where m = "lite_query sample_lite 7 1 sample_query"
      and q = sample_query and node = 7 and sq = 1]
    lite_lawsD(4,5) [OF sample_lite_laws]
  by (simp add: lite_query_def query_ok_def sample_query_def string_eval)

text \<open>
  C26.  A counter or set that a Lite node sent survives the document store: turned
  into document fields and encoded again for Lite nodes it decodes to the same
  entries, in some order for the counters whose nodes are distinct, in the same
  order for a set, and with the same total.
\<close>

theorem crdts_survive_documents:
  assumes "json_laws J"
  shows "(decode_gcounter bs = Inr (counts, tot) \<and> distinct (map fst counts) \<longrightarrow>
       (\<exists>doc bs' counts'. gcounter_to_fields J (Some ms) node counts tot = Inr doc \<and>
         encode_gcounter_from_doc J doc = Some bs' \<and> decode_gcounter bs' = Inr (counts', tot) \<and> mset counts' = mset counts)) \<and>
    (decode_pncounter bs = Inr (es, net) \<and> distinct (map fst es) \<longrightarrow>
       (\<exists>doc bs' es'. pncounter_to_fields J (Some ms) node es net = Inr doc \<and>
         encode_pncounter_from_doc J doc = Some bs' \<and> decode_pncounter bs' = Inr (es', net) \<and> mset es' = mset es)) \<and>
    (decode_orset bs = Inr (n, elems) \<longrightarrow>
       (\<exists>doc bs'. orset_to_fields J (Some ms) node elems = Inr doc \<and>
         encode_orset_from_doc J doc = Some bs' \<and> decode_orset bs' = Inr (0, elems)))"
proof (intro conjI impI; (elim conjE)?)
  assume dec: "decode_gcounter bs = Inr (counts, tot)" and "distinct (map fst counts)"
  moreover obtain doc where doc: "gcounter_to_fields J (Some ms) node counts tot = Inr doc"
    by (simp add: gcounter_to_fields_def updated_at_def Let_def)
  ultimately show "\<exists>doc bs' counts'. gcounter_to_fields J (Some ms) node counts tot = Inr doc \<and>
      encode_gcounter_from_doc J doc = Some bs' \<and> decode_gcounter bs' = Inr (counts', tot) \<and> mset counts' = mset counts"
    using gcounter_reencoded [OF assms _ _ doc] decode_gcounter_total [OF dec] by metis
next
  assume dec: "decode_pncounter bs = Inr (es, net)" and "distinct (map fst es)"
  moreover obtain doc where doc: "pncounter_to_fields J (Some ms) node es net = Inr doc"
    by (simp add: pncounter_to_fields_def updated_at_def Let_def)
  ultimately show "\<exists>doc bs' es'. pncounter_to_fields J (Some ms) node es net = Inr doc \<and>
      encode_pncounter_from_doc J doc = Some bs' \<and> decode_pncounter bs' = Inr (es', net) \<and> mset es' = mset es"
    using pncounter_reencoded [OF assms _ _ doc] decode_pncounter_net [OF dec] by metis
next
  assume dec: "decode_orset bs = Inr (n, elems)"
  obtain doc where doc: "orset_to_fields J (Some ms) node elems = Inr doc"
    by (simp add: orset_to_fields_def updated_at_def Let_def)
  then show "\<exists>doc bs'. orset_to_fields J (Some ms) node elems = Inr doc \<and>
      encode_orset_from_doc J doc = Some bs' \<and> decode_orset bs' = Inr (0, elems)"
    using orset_reencoded [OF assms decode_orset_sizes [OF dec] doc] by metis
qed

theorem crdts_survive_documents_witness:
  "\<exists>doc bs' counts'. gcounter_to_fields sample_json (Some 9) ''lite-00000001'' [(1, 5), (2, 6)] 11 = Inr doc \<and>
     encode_gcounter_from_doc sample_json doc = Some bs' \<and> decode_gcounter bs' = Inr (counts', 11) \<and>
     mset counts' = mset [(1, 5), (2, 6)]"
proof -
  obtain bs where "decode_gcounter bs = Inr ([(1, 5), (2, 6)], 11)"
    using decode_gcounter_encoded [of "[(1, 5), (2, 6)]" 0] by simp
  then show ?thesis
    using crdts_survive_documents [OF sample_json_laws, where counts = "[(1, 5), (2, 6)]" and tot = 11
        and ms = 9 and node = "''lite-00000001''"] by auto
qed

lemma crdt_decoders_not_panic:
  "decode_gcounter bs \<noteq> Inl Panic" "decode_pncounter bs \<noteq> Inl Panic" "decode_orset bs \<noteq> Inl Panic"
  "decode_lww_register bs \<noteq> Inl Panic"
proof -
  have g: "12 \<le> length s \<Longrightarrow> \<exists>x. gcounter_entry_read s = Inr (x, drop 12 s)" for s
    by (simp add: gcounter_entry_read_def slice_def)
  have p: "20 \<le> length s \<Longrightarrow> \<exists>x. pncounter_entry_read s = Inr (x, drop 20 s)" for s
    by (auto simp: pncounter_entry_read_def slice_def)
  show "decode_gcounter bs \<noteq> Inl Panic"
    using read_many_fixed [OF g] by (fastforce simp: decode_gcounter_def reader_eqs split: prod.splits)
  show "decode_pncounter bs \<noteq> Inl Panic"
    using read_many_fixed [OF p] by (fastforce simp: decode_pncounter_def reader_eqs split: prod.splits)
  have "orset_element_read s \<noteq> Inl Panic" for s
    by (auto simp: orset_element_read_def reader_eqs split: prod.splits)
  then show "decode_orset bs \<noteq> Inl Panic"
    by (auto simp: decode_orset_def reader_eqs read_many_not_panic split: prod.splits)
  show "decode_lww_register bs \<noteq> Inl Panic"
    by (auto simp: decode_lww_register_def reader_eqs split: prod.splits)
qed

end
