(* ===== verification/Lite_Transport.thy ===== *)
theory Lite_Transport
  imports Lite_Wire Transport_Types Keyed_State
begin

text \<open>
  The transport for Lite nodes, the middle part of \<^verbatim>\<open>src/transport/lite.rs\<close>
  (\<^verbatim>\<open>LiteMeshTransport\<close>) and the broadcast of documents (\<^verbatim>\<open>broadcast_document\<close>).

  The table of peers is the only shared state; a call reads the clock once.  The
  socket is a parameter: a \<open>lite_io\<close> record says what a send answers and which
  address a broadcast goes to.  The application's callbacks and the subscribers of
  events are outside: what the transport calls and emits is the list of effects a
  call returns, and a flag says whether a callback was set.  Subscribers are
  served without waiting and may lose events when they lag; the effects are what
  the transport emits.
\<close>

section \<open>Configuration and state\<close>

datatype LiteSyncMode = LiteLatestOnly | LiteDeltaSync | LiteReceiveOnly

record LiteTransportConfig =
  listen_port :: u16
  broadcast_port :: u16
  peer_timeout_secs :: u64
  enable_broadcast :: bool
  broadcast_interval_secs :: u64
  outbound_collections :: "string list"
  inbound_collections :: "string list"
  max_document_age_secs :: u64
  outbound_sync_mode :: LiteSyncMode

definition lite_config_default :: "u16 \<Rightarrow> LiteTransportConfig" where
  "lite_config_default port =
     \<lparr>listen_port = port, broadcast_port = port, peer_timeout_secs = 30, enable_broadcast = True,
      broadcast_interval_secs = 2, outbound_collections = [''beacons'', ''alerts''],
      inbound_collections = [''lite_sensors'', ''lite_events'', ''lite_status''],
      max_document_age_secs = 300, outbound_sync_mode = LiteLatestOnly\<rparr>"

record 'a LitePeerState =
  node_id_raw :: u32
  address :: 'a
  capabilities :: u16
  last_seen :: instant
  last_seq :: u32
  connected_at :: instant
  message_count :: u64

record 'a LiteMeshTransport =
  lite_config :: LiteTransportConfig
  lite_peers :: "(NodeId, 'a LitePeerState) hmap"
  lite_socket :: bool
  lite_running :: bool
  local_node_id :: u32
  lite_seq_num :: u32
  crdt_callback :: bool
  query_callback :: bool
  ota_callback :: bool

definition lite_transport_new :: "LiteTransportConfig \<Rightarrow> u32 \<Rightarrow> 'a LiteMeshTransport" where
  "lite_transport_new cfg node =
     \<lparr>lite_config = cfg, lite_peers = [], lite_socket = False, lite_running = False, local_node_id = node,
      lite_seq_num = 0, crdt_callback = False, query_callback = False, ota_callback = False\<rparr>"

record 'a lite_io =
  lite_bind :: "u16 \<Rightarrow> string + unit"
  lite_udp_send :: "byte list \<Rightarrow> 'a \<Rightarrow> string + nat"
  lite_broadcast_addr :: "u16 \<Rightarrow> 'a"

datatype lite_effect =
    Emit PeerEvent
  | CallCrdt string string CrdtType "byte list"
  | CallQuery QueryRequest
  | CallOta string MessageType "byte list"

section \<open>Sending\<close>

text \<open>Each send returns what was handed to the socket.\<close>

definition lite_broadcast ::
  "lite_lib \<Rightarrow> 'a lite_io \<Rightarrow> LiteMessage \<Rightarrow> 'a LiteMeshTransport
     \<Rightarrow> (TransportError, unit) result \<times> (byte list \<times> 'a) list" where
  "lite_broadcast L io m t =
     (if \<not> lite_socket t then (Inl (Err TransportNotStarted), [])
      else let bs = lite_encode L m; a = lite_broadcast_addr io (broadcast_port (lite_config t))
           in case lite_udp_send io bs a of
                Inl e \<Rightarrow> (Inl (Err (TransportOther e)), [])
              | Inr _ \<Rightarrow> (Inr (), [(bs, a)]))"

definition lite_send_bytes ::
  "'a lite_io \<Rightarrow> NodeId \<Rightarrow> byte list \<Rightarrow> 'a LiteMeshTransport
     \<Rightarrow> (TransportError, nat) result \<times> (byte list \<times> 'a) list" where
  "lite_send_bytes io peer bs t =
     (if \<not> lite_socket t then (Inl (Err TransportNotStarted), [])
      else case hm_get (lite_peers t) peer of
        None \<Rightarrow> (Inl (Err (TransportPeerNotFound peer)), [])
      | Some st \<Rightarrow>
          (case lite_udp_send io bs (address st) of
             Inl e \<Rightarrow> (Inl (Err (TransportOther e)), [])
           | Inr n \<Rightarrow> (Inr n, [(bs, address st)])))"

definition lite_send_to ::
  "lite_lib \<Rightarrow> 'a lite_io \<Rightarrow> NodeId \<Rightarrow> LiteMessage \<Rightarrow> 'a LiteMeshTransport
     \<Rightarrow> (TransportError, unit) result \<times> (byte list \<times> 'a) list" where
  "lite_send_to L io peer m t =
     (if \<not> lite_socket t then (Inl (Err TransportNotStarted), [])
      else case hm_get (lite_peers t) peer of
        None \<Rightarrow> (Inl (Err (TransportPeerNotFound peer)), [])
      | Some st \<Rightarrow>
          (case lite_udp_send io (lite_encode L m) (address st) of
             Inl e \<Rightarrow> (Inl (Err (TransportOther e)), [])
           | Inr _ \<Rightarrow> (Inr (), [(lite_encode L m, address st)])))"

section \<open>Receiving\<close>

definition caps_from_bytes :: "lite_lib \<Rightarrow> byte list \<Rightarrow> u16" where
  "caps_from_bytes L bs =
     (if 2 \<le> length bs then caps_from_bits L (word_of_nat (le_val (take 2 bs))) else caps_empty L)"

definition lite_node_id :: "u32 \<Rightarrow> NodeId" where
  "lite_node_id n = ''lite-'' @ u32_hex n"

text \<open>The peer's entry after a message: an update, or a new entry and whether it is new.\<close>

definition touch_peer :: "lite_lib \<Rightarrow> instant \<Rightarrow> 'a \<Rightarrow> LiteMessage \<Rightarrow> 'a LitePeerState option \<Rightarrow> bool \<times> 'a LitePeerState" where
  "touch_peer L now src m old =
     (let announces = msg_type m = Announce \<and> msg_payload m \<noteq> []
      in case old of
        Some st \<Rightarrow>
          (False, st\<lparr>last_seen := now, last_seq := msg_seq_num m, address := src, message_count := message_count st + 1,
                     capabilities := (if announces then caps_from_bytes L (msg_payload m) else capabilities st)\<rparr>)
      | None \<Rightarrow>
          (True, \<lparr>node_id_raw = msg_node_id m, address = src,
                  capabilities = (if announces then caps_from_bytes L (msg_payload m) else caps_default L),
                  last_seen = now, last_seq = msg_seq_num m, connected_at = now, message_count = 1\<rparr>))"

definition handle_message ::
  "lite_lib \<Rightarrow> instant \<Rightarrow> 'a \<Rightarrow> LiteMessage \<Rightarrow> 'a LiteMeshTransport \<Rightarrow> lite_effect list \<times> 'a LiteMeshTransport" where
  "handle_message L now src m t =
     (if msg_node_id m = local_node_id t then ([], t)
      else
        let peer = lite_node_id (msg_node_id m);
            (fresh, st) = touch_peer L now src m (hm_get (lite_peers t) peer);
            t1 = t\<lparr>lite_peers := hm_insert peer st (lite_peers t)\<rparr>;
            hello = (if fresh then [Emit (PeerConnected peer now)] else [])
        in case msg_type m of
          Data \<Rightarrow>
            (case msg_payload m of
               [] \<Rightarrow> (hello, t1)
             | b # bs \<Rightarrow>
                 (case crdt_of_code L b of
                    Some ct \<Rightarrow> (hello @ (if crdt_callback t then [CallCrdt ''lite_sensors'' peer ct bs] else []), t1)
                  | None \<Rightarrow> (hello, t1)))
        | Leave \<Rightarrow>
            (hello @ [Emit (PeerDisconnected peer RemoteClosed (now - connected_at st))],
             t1\<lparr>lite_peers := hm_remove peer (lite_peers t1)\<rparr>)
        | Query \<Rightarrow>
            (case query_decode L (msg_payload m) of
               Inr q \<Rightarrow> (hello @ (if query_callback t then [CallQuery q] else []), t1)
             | Inl _ \<Rightarrow> (hello, t1))
        | OtaAccept \<Rightarrow> (hello @ (if ota_callback t then [CallOta peer OtaAccept (msg_payload m)] else []), t1)
        | OtaAck \<Rightarrow> (hello @ (if ota_callback t then [CallOta peer OtaAck (msg_payload m)] else []), t1)
        | OtaResult \<Rightarrow> (hello @ (if ota_callback t then [CallOta peer OtaResult (msg_payload m)] else []), t1)
        | OtaAbort \<Rightarrow> (hello @ (if ota_callback t then [CallOta peer OtaAbort (msg_payload m)] else []), t1)
        | _ \<Rightarrow> (hello, t1))"

definition lite_peer_timeout :: "'a LiteMeshTransport \<Rightarrow> duration" where
  "lite_peer_timeout t = unat (peer_timeout_secs (lite_config t)) * 1000000000"

definition check_stale_peers :: "instant \<Rightarrow> 'a LiteMeshTransport \<Rightarrow> lite_effect list \<times> 'a LiteMeshTransport" where
  "check_stale_peers now t =
     (let stale = map (\<lambda>(p, st). (p, now - connected_at st))
                    (filter (\<lambda>(_, st). lite_peer_timeout t < now - last_seen st) (lite_peers t))
      in (map (\<lambda>(p, d). Emit (PeerDisconnected p Timeout d)) stale,
          t\<lparr>lite_peers := fold (\<lambda>(p, _). hm_remove p) stale (lite_peers t)\<rparr>))"

datatype 'a lite_packet = LiteDatagram 'a "byte list" | LiteRecvError | LiteRecvTimeout

text \<open>
  One turn of the receive loop at the time \<open>now\<close>; \<open>checked\<close> is the time of the last check
  for stale peers.  The buffer has 512 bytes; a longer datagram is cut.
\<close>

definition lite_turn ::
  "lite_lib \<Rightarrow> 'a lite_packet \<Rightarrow> instant \<Rightarrow> instant \<Rightarrow> 'a LiteMeshTransport
     \<Rightarrow> lite_effect list \<times> instant \<times> 'a LiteMeshTransport" where
  "lite_turn L pkt now checked t =
     (if \<not> lite_running t then ([], checked, t)
      else
        let (eff1, t1) = (case pkt of
              LiteDatagram src d \<Rightarrow>
                (case lite_decode L (take 512 d) of
                   Inr m \<Rightarrow> handle_message L now src m t
                 | Inl _ \<Rightarrow> ([], t))
            | _ \<Rightarrow> ([], t))
        in if 5000000000 < now - checked
           then let (eff2, t2) = check_stale_peers now t1 in (eff1 @ eff2, now, t2)
           else (eff1, checked, t1))"

definition lite_start :: "'a lite_io \<Rightarrow> 'a LiteMeshTransport \<Rightarrow> (TransportError, unit) result \<times> 'a LiteMeshTransport" where
  "lite_start io t =
     (case lite_bind io (listen_port (lite_config t)) of
        Inl e \<Rightarrow> (Inl (Err (TransportOther e)), t)
      | Inr _ \<Rightarrow> (Inr (), t\<lparr>lite_socket := True, lite_running := True\<rparr>))"

definition lite_stop :: "'a LiteMeshTransport \<Rightarrow> 'a LiteMeshTransport" where
  "lite_stop t = t\<lparr>lite_running := False, lite_socket := False\<rparr>"

text \<open>A virtual connection is the peer and the time it was first heard.\<close>

definition lite_connect :: "NodeId \<Rightarrow> 'a LiteMeshTransport \<Rightarrow> (TransportError, NodeId \<times> instant) result" where
  "lite_connect peer t =
     (case hm_get (lite_peers t) peer of
        Some st \<Rightarrow> Inr (peer, connected_at st)
      | None \<Rightarrow> Inl (Err (TransportPeerNotFound peer)))"

definition lite_disconnect ::
  "instant \<Rightarrow> NodeId \<Rightarrow> 'a LiteMeshTransport \<Rightarrow> (TransportError, unit) result \<times> lite_effect list \<times> 'a LiteMeshTransport" where
  "lite_disconnect now peer t =
     (case hm_get (lite_peers t) peer of
        Some st \<Rightarrow>
          (Inr (), [Emit (PeerDisconnected peer LocalClosed (now - connected_at st))],
           t\<lparr>lite_peers := hm_remove peer (lite_peers t)\<rparr>)
      | None \<Rightarrow> (Inl (Err (TransportPeerNotFound peer)), [], t))"

definition lite_is_alive :: "instant \<Rightarrow> 'a LitePeerState \<Rightarrow> bool" where
  "lite_is_alive now st \<longleftrightarrow> now - last_seen st < 30000000000"

definition lite_peer_health :: "instant \<Rightarrow> NodeId \<Rightarrow> 'a LiteMeshTransport \<Rightarrow> ConnectionHealth option" where
  "lite_peer_health now peer t =
     map_option (\<lambda>st.
       \<lparr>rtt_ms = 0, rtt_variance_ms = 0, packet_loss_percent = 0,
        health_state = (if now - last_seen st < 10000000000 then Healthy
                        else if now - last_seen st < 30000000000 then Degraded else Dead),
        last_activity = last_seen st\<rparr>) (hm_get (lite_peers t) peer)"

section \<open>Documents for Lite nodes\<close>

definition accepts_inbound :: "LiteTransportConfig \<Rightarrow> string \<Rightarrow> bool" where
  "accepts_inbound cfg coll \<longleftrightarrow> inbound_collections cfg = [] \<or> coll \<in> set (inbound_collections cfg)"

definition sends_outbound :: "LiteTransportConfig \<Rightarrow> string \<Rightarrow> bool" where
  "sends_outbound cfg coll \<longleftrightarrow> coll \<in> set (outbound_collections cfg)"

definition crdt_payload :: "'j json_lib \<Rightarrow> u64 option \<Rightarrow> u32 \<Rightarrow> 'j doc \<Rightarrow> (TransportError, CrdtType \<times> byte list) result" where
  "crdt_payload J now node flds =
     (let need = (\<lambda>ct why p. case p of None \<Rightarrow> Inl (Err (TransportOther why)) | Some bs \<Rightarrow> Inr (ct, bs))
      in if hm_contains flds ''node_entries'' then
           need PnCounter ''Failed to encode PnCounter'' (encode_pncounter_from_doc J flds)
         else if hm_contains flds ''elements'' then need OrSet ''Failed to encode OrSet'' (encode_orset_from_doc J flds)
         else if hm_contains flds ''node_counts'' then
           need GCounter ''Failed to encode GCounter'' (encode_gcounter_from_doc J flds)
         else need LwwRegister ''Failed to encode LWW'' (encode_lww_from_doc J now flds node))"

text \<open>The unicasts that follow the broadcast ignore their errors.\<close>

definition broadcast_document ::
  "lite_lib \<Rightarrow> 'j json_lib \<Rightarrow> 'a lite_io \<Rightarrow> u64 option \<Rightarrow> LiteTransportConfig \<Rightarrow> string \<Rightarrow> 'j doc \<Rightarrow> 'a LiteMeshTransport
     \<Rightarrow> (TransportError, unit) result \<times> (byte list \<times> 'a) list \<times> 'a LiteMeshTransport" where
  "broadcast_document L J io now cfg coll flds t =
     (if \<not> sends_outbound cfg coll then (Inr (), [], t)
      else case crdt_payload J now (local_node_id t) flds of
        Inl e \<Rightarrow> (Inl e, [], t)
      | Inr (ct, payload) \<Rightarrow>
          (let t1 = t\<lparr>lite_seq_num := lite_seq_num t + 1\<rparr>;
               m = lite_data L (local_node_id t) (lite_seq_num t1) ct payload;
               (res, sent) = lite_broadcast L io m t1
           in case res of
                Inl e \<Rightarrow> (Inl e, sent, t1)
              | Inr _ \<Rightarrow>
                  (Inr (), sent @ concat (map (\<lambda>p. snd (lite_send_to L io p m t1)) (map fst (lite_peers t1))), t1)))"

section \<open>Runs of the transport\<close>

datatype 'a lite_op = LiteTurn "'a lite_packet" instant | LiteDisconnect NodeId instant | LiteStart instant | LiteStop

text \<open>A successful start begins a receive loop, which counts its first check for stale peers from then.\<close>

primrec lite_step ::
  "lite_lib \<Rightarrow> 'a lite_io \<Rightarrow> 'a lite_op \<Rightarrow> instant \<times> 'a LiteMeshTransport \<Rightarrow> lite_effect list \<times> instant \<times> 'a LiteMeshTransport" where
  "lite_step L io (LiteTurn pkt now) s = lite_turn L pkt now (fst s) (snd s)"
| "lite_step L io (LiteDisconnect peer now) s = (case lite_disconnect now peer (snd s) of (_, eff, t) \<Rightarrow> (eff, fst s, t))"
| "lite_step L io (LiteStart now) s =
     (case lite_start io (snd s) of (Inr _, t) \<Rightarrow> ([], now, t) | (Inl _, t) \<Rightarrow> ([], fst s, t))"
| "lite_step L io LiteStop s = ([], fst s, lite_stop (snd s))"

definition events_in :: "lite_effect list \<Rightarrow> PeerEvent list" where
  "events_in effs = List.map_filter (\<lambda>e. case e of Emit ev \<Rightarrow> Some ev | _ \<Rightarrow> None) effs"

lemma events_in_simps [simp]:
  "events_in [] = []"
  "events_in (Emit ev # effs) = ev # events_in effs"
  "events_in (CallCrdt a b c d # effs) = events_in effs"
  "events_in (CallQuery q # effs) = events_in effs"
  "events_in (CallOta p m bs # effs) = events_in effs"
  "events_in (xs @ ys) = events_in xs @ events_in ys"
  by (simp_all add: events_in_def List.map_filter_simps map_filter_def)

lemma events_in_emits: "events_in (map (\<lambda>x. Emit (f x)) xs) = map f xs"
  by (induction xs) simp_all

text \<open>A peer is filed under the name made of its own number, and is never the transport itself.\<close>

definition lite_inv :: "'a LiteMeshTransport \<Rightarrow> bool" where
  "lite_inv t \<longleftrightarrow> hm_wf (lite_peers t) \<and>
     (\<forall>p st. hm_get (lite_peers t) p = Some st \<longrightarrow> p = lite_node_id (node_id_raw st) \<and> node_id_raw st \<noteq> local_node_id t)"

definition lite_follows :: "lite_effect list \<Rightarrow> 'a LiteMeshTransport \<Rightarrow> 'a LiteMeshTransport \<Rightarrow> bool" where
  "lite_follows eff t t' \<longleftrightarrow>
     follow (events_in eff) (dom (hm_get (lite_peers t))) = Some (dom (hm_get (lite_peers t'))) \<and> lite_inv t'"

lemma lite_inv_all:
  "lite_inv t \<Longrightarrow> hm_wf (lite_peers t) \<and>
     list_all (\<lambda>(p, st). p = lite_node_id (node_id_raw st) \<and> node_id_raw st \<noteq> local_node_id t) (lite_peers t)"
proof -
  assume inv: "lite_inv t"
  then have "hm_wf (lite_peers t)"
    by (simp add: lite_inv_def)
  then show ?thesis
    using inv by (auto simp: lite_inv_def list_all_iff simp flip: hm_get_in_set)
qed

lemma lite_follows_Nil: "lite_inv t \<Longrightarrow> lite_follows [] t t"
  by (simp add: lite_follows_def)

lemma lite_follows_trans:
  "lite_follows a t t1 \<Longrightarrow> lite_follows b t1 t2 \<Longrightarrow> lite_follows (a @ b) t t2"
  by (simp add: lite_follows_def follow_append)

lemma lite_node_id_inj: "lite_node_id a = lite_node_id b \<longleftrightarrow> a = b"
  by (simp add: lite_node_id_def)

lemma handle_message_cases:
  assumes "lite_inv t" "handle_message L now src m t = (eff, t')" "msg_node_id m \<noteq> local_node_id t"
  obtains fresh st where
    "touch_peer L now src m (hm_get (lite_peers t) (lite_node_id (msg_node_id m))) = (fresh, st)"
    "node_id_raw st = msg_node_id m"
    "events_in eff = (if fresh then [PeerConnected (lite_node_id (msg_node_id m)) now] else []) @
       (if msg_type m = Leave
        then [PeerDisconnected (lite_node_id (msg_node_id m)) RemoteClosed (now - connected_at st)] else [])"
    "lite_peers t' = (if msg_type m = Leave then hm_remove (lite_node_id (msg_node_id m)) else id)
       (hm_insert (lite_node_id (msg_node_id m)) st (lite_peers t))"
    "local_node_id t' = local_node_id t"
proof -
  obtain fresh st where tp: "touch_peer L now src m (hm_get (lite_peers t) (lite_node_id (msg_node_id m))) = (fresh, st)"
    by fastforce
  moreover have "node_id_raw x = msg_node_id m" if "hm_get (lite_peers t) (lite_node_id (msg_node_id m)) = Some x" for x
  proof -
    have "lite_node_id (msg_node_id m) = lite_node_id (node_id_raw x)"
      using assms(1) that unfolding lite_inv_def by blast
    then show ?thesis
      by (simp add: lite_node_id_inj)
  qed
  ultimately have "node_id_raw st = msg_node_id m"
    by (auto simp: touch_peer_def Let_def split: option.splits)
  moreover have "events_in (fst (handle_message L now src m t)) =
       (if fresh then [PeerConnected (lite_node_id (msg_node_id m)) now] else []) @
       (if msg_type m = Leave
        then [PeerDisconnected (lite_node_id (msg_node_id m)) RemoteClosed (now - connected_at st)] else [])"
    using assms(3) by (cases "msg_type m")
      (simp_all add: handle_message_def tp Let_def split: list.splits option.splits sum.splits)
  moreover have "lite_peers (snd (handle_message L now src m t)) =
       (if msg_type m = Leave then hm_remove (lite_node_id (msg_node_id m)) else id)
       (hm_insert (lite_node_id (msg_node_id m)) st (lite_peers t))"
    using assms(3) by (cases "msg_type m")
      (simp_all add: handle_message_def tp Let_def split: list.splits option.splits sum.splits)
  moreover have "local_node_id (snd (handle_message L now src m t)) = local_node_id t"
    using assms(3) by (cases "msg_type m")
      (simp_all add: handle_message_def tp Let_def split: list.splits option.splits sum.splits)
  ultimately show thesis
    using assms(2) by (intro that [OF tp]) simp_all
qed

lemma lite_inv_insert:
  "lite_inv t \<Longrightarrow> node_id_raw st = n \<Longrightarrow> n \<noteq> local_node_id t \<Longrightarrow>
   lite_peers t' = hm_insert (lite_node_id n) st (lite_peers t) \<Longrightarrow> local_node_id t' = local_node_id t \<Longrightarrow> lite_inv t'"
  by (simp add: lite_inv_def)

lemma lite_inv_smaller:
  "lite_inv t \<Longrightarrow> hm_wf (lite_peers t') \<Longrightarrow> local_node_id t' = local_node_id t \<Longrightarrow>
   (\<And>p st. hm_get (lite_peers t') p = Some st \<Longrightarrow> hm_get (lite_peers t) p = Some st) \<Longrightarrow> lite_inv t'"
  unfolding lite_inv_def by auto

lemma handle_message_follows:
  assumes "lite_inv t" "handle_message L now src m t = (eff, t')"
  shows "lite_follows eff t t'"
proof (cases "msg_node_id m = local_node_id t")
  case True
  then show ?thesis
    using assms by (auto simp: handle_message_def lite_follows_Nil)
next
  case False
  let ?p = "lite_node_id (msg_node_id m)"
  from handle_message_cases [OF assms False] obtain fresh st where
    tp: "touch_peer L now src m (hm_get (lite_peers t) ?p) = (fresh, st)" and raw: "node_id_raw st = msg_node_id m"
    and eff: "events_in eff = (if fresh then [PeerConnected ?p now] else []) @
       (if msg_type m = Leave then [PeerDisconnected ?p RemoteClosed (now - connected_at st)] else [])"
    and peers: "lite_peers t' = (if msg_type m = Leave then hm_remove ?p else id) (hm_insert ?p st (lite_peers t))"
    and node: "local_node_id t' = local_node_id t"
    by metis
  have fresh: "fresh \<longleftrightarrow> ?p \<notin> dom (hm_get (lite_peers t))"
    using tp by (auto simp: touch_peer_def Let_def split: option.splits)
  have dom_ins: "dom (hm_get (hm_insert ?p st (lite_peers t))) = insert ?p (dom (hm_get (lite_peers t)))"
    "dom (hm_get (hm_remove ?p (hm_insert ?p st (lite_peers t)))) = dom (hm_get (lite_peers t)) - {?p}"
    by (auto split: if_splits)
  have "follow (events_in eff) (dom (hm_get (lite_peers t))) = Some (dom (hm_get (lite_peers t')))"
    unfolding eff peers using fresh by (auto simp: dom_ins insert_absorb simp del: hm_get_insert hm_get_remove)
  moreover have "lite_inv t'"
  proof (cases "msg_type m = Leave")
    case True
    have "lite_inv (t\<lparr>lite_peers := hm_insert ?p st (lite_peers t)\<rparr>)"
      by (rule lite_inv_insert [OF assms(1) raw False]) simp_all
    then show ?thesis
      by (rule lite_inv_smaller) (use True peers node assms(1) in \<open>auto simp: lite_inv_def split: if_splits\<close>)
  next
    case notleave: False
    show ?thesis
      by (rule lite_inv_insert [OF assms(1) raw False _ node]) (use notleave peers in simp)
  qed
  ultimately show ?thesis
    by (simp add: lite_follows_def)
qed

lemma fold_remove_get:
  "hm_get (fold (\<lambda>(p, _). hm_remove p) xs m) k = (if k \<in> fst ` set xs then None else hm_get m k)"
  by (induction xs arbitrary: m) auto

lemma fold_remove_wf: "hm_wf m \<Longrightarrow> hm_wf (fold (\<lambda>(p, _). hm_remove p) xs m)"
  by (induction xs arbitrary: m) auto

lemma check_stale_follows:
  assumes "lite_inv t" "check_stale_peers now t = (eff, t')"
  shows "lite_follows eff t t'"
proof -
  let ?xs = "filter (\<lambda>(_, st). lite_peer_timeout t < now - last_seen st) (lite_peers t)"
  let ?stale = "map (\<lambda>(p, st). (p, now - connected_at st)) ?xs"
  have wf: "hm_wf (lite_peers t)"
    using assms(1) by (simp add: lite_inv_def)
  have peers: "lite_peers t' = fold (\<lambda>(p, _). hm_remove p) ?stale (lite_peers t)" "local_node_id t' = local_node_id t"
    and eff: "eff = map (\<lambda>(p, d). Emit (PeerDisconnected p Timeout d)) ?stale"
    using assms(2) by (auto simp: check_stale_peers_def Let_def)
  have "events_in eff = map (\<lambda>(p, d). PeerDisconnected p Timeout d) ?stale"
    unfolding eff by (simp add: events_in_emits case_prod_beta' comp_def)
  moreover have "distinct (map fst ?stale)"
    using wf by (simp add: hm_wf_def comp_def case_prod_beta' distinct_map_filter)
  moreover have "fst ` set ?stale \<subseteq> dom (hm_get (lite_peers t))"
    by (auto simp: dom_map_of_conv_image_fst image_image case_prod_beta')
  ultimately have "follow (events_in eff) (dom (hm_get (lite_peers t))) = Some (dom (hm_get (lite_peers t)) - fst ` set ?stale)"
    by (simp only: follow_disconnects)
  moreover have "dom (hm_get (lite_peers t')) = dom (hm_get (lite_peers t)) - fst ` set ?stale"
    unfolding peers dom_def fold_remove_get by (auto split: if_splits)
  moreover have "lite_inv t'"
    by (rule lite_inv_smaller [OF assms(1) _ peers(2)])
      (unfold peers fold_remove_get, auto simp: wf fold_remove_wf split: if_splits)
  ultimately show ?thesis
    by (simp add: lite_follows_def)
qed

lemma lite_turn_follows:
  assumes "lite_inv t" "lite_turn L pkt now checked t = (eff, checked', t')"
  shows "lite_follows eff t t'"
proof (cases "lite_running t")
  case True
  let ?r = "case pkt of
      LiteDatagram src d \<Rightarrow> (case lite_decode L (take 512 d) of Inr m \<Rightarrow> handle_message L now src m t | Inl _ \<Rightarrow> ([], t))
    | _ \<Rightarrow> ([], t)"
  obtain eff1 t1 where r: "?r = (eff1, t1)" by fastforce
  then have "lite_follows eff1 t t1"
    using assms(1) by (auto intro: handle_message_follows lite_follows_Nil split: lite_packet.splits sum.splits)
  moreover obtain eff2 t2 where c: "check_stale_peers now t1 = (eff2, t2)" by fastforce
  moreover from this calculation have "lite_follows eff2 t1 t2"
    using check_stale_follows by (auto simp: lite_follows_def)
  moreover have "eff = (if 5000000000 < now - checked then eff1 @ eff2 else eff1)"
    "t' = (if 5000000000 < now - checked then t2 else t1)"
    using assms(2) True unfolding lite_turn_def r by (auto simp: c split: if_splits)
  ultimately show ?thesis
    by (auto intro: lite_follows_trans)
qed (use assms in \<open>auto simp: lite_turn_def lite_follows_Nil\<close>)

lemma lite_step_follows:
  assumes "lite_inv (snd s)"
  shows "lite_follows (fst (lite_step L io op s)) (snd s) (snd (snd (lite_step L io op s)))"
proof (cases op)
  case (LiteTurn pkt now)
  then show ?thesis
    using lite_turn_follows [OF assms, of L pkt now "fst s"] by (cases "lite_turn L pkt now (fst s) (snd s)") auto
next
  case (LiteDisconnect peer now)
  have "hm_get (lite_peers (snd s)) peer = Some st \<Longrightarrow>
      dom (hm_get (hm_remove peer (lite_peers (snd s)))) = dom (hm_get (lite_peers (snd s))) - {peer}" for st
    by (auto split: if_splits)
  with LiteDisconnect assms show ?thesis
    by (auto simp: lite_disconnect_def lite_follows_def lite_inv_def simp del: hm_get_remove split: option.splits)
       (auto split: if_splits)
qed (use assms in \<open>auto simp: lite_follows_def lite_inv_def lite_start_def lite_stop_def split: sum.splits\<close>)

lemma lite_run_follows:
  "lite_inv (snd s) \<Longrightarrow>
   lite_follows (concat (outputs (lite_step L io) ops s)) (snd s) (snd (final (lite_step L io) ops s))"
proof (induction ops arbitrary: s)
  case (Cons op ops)
  have step: "lite_follows (fst (lite_step L io op s)) (snd s) (snd (snd (lite_step L io op s)))"
    using Cons.prems by (rule lite_step_follows)
  then have "lite_inv (snd (snd (lite_step L io op s)))"
    by (simp add: lite_follows_def)
  from lite_follows_trans [OF step Cons.IH [OF this]] show ?case
    by simp
qed (simp add: lite_follows_Nil)

text \<open>
  C24.  Whatever datagrams, timeouts and local disconnects a Lite transport goes
  through, a subscriber that adds a peer at each connect event and removes it at
  each disconnect event never sees an event out of turn and ends with exactly the
  peers of the table; each of these is filed under its own number and is not the
  node itself.
\<close>

theorem lite_events_follow_table:
  "let run = (now, lite_transport_new cfg node);
       t = snd (final (lite_step L io) ops run)
   in follow (events_in (concat (outputs (lite_step L io) ops run))) {} = Some (dom (hm_get (lite_peers t))) \<and>
      hm_wf (lite_peers t) \<and>
      list_all (\<lambda>(p, st). p = lite_node_id (node_id_raw st) \<and> node_id_raw st \<noteq> local_node_id t) (lite_peers t)"
proof -
  have "lite_inv (snd (now, lite_transport_new cfg node))"
    by (simp add: lite_inv_def lite_transport_new_def)
  from lite_run_follows [OF this, of L io ops] have
    "follow (events_in (concat (outputs (lite_step L io) ops (now, lite_transport_new cfg node)))) {}
       = Some (dom (hm_get (lite_peers (snd (final (lite_step L io) ops (now, lite_transport_new cfg node))))))"
    "lite_inv (snd (final (lite_step L io) ops (now, lite_transport_new cfg node)))"
    by (simp_all add: lite_follows_def lite_transport_new_def)
  then show ?thesis
    unfolding Let_def using lite_inv_all by blast
qed

section \<open>From a document to the callback of a receiver\<close>

lemma take_encode:
  "lite_laws L \<Longrightarrow> take 512 (lite_encode L m) = lite_encode L (m\<lparr>msg_payload := take 496 (msg_payload m)\<rparr>)"
  by (simp add: lite_encode_def lite_lawsD(1))

lemma handle_data:
  "msg_type m = Data \<Longrightarrow> msg_payload m = b # bs \<Longrightarrow> crdt_of_code L b = Some ct \<Longrightarrow> crdt_callback t \<Longrightarrow>
   msg_node_id m \<noteq> local_node_id t \<Longrightarrow>
   CallCrdt ''lite_sensors'' (lite_node_id (msg_node_id m)) ct bs \<in> set (fst (handle_message L now src m t))"
  by (auto simp: handle_message_def Let_def split: prod.splits)

lemma turn_receives:
  assumes "lite_laws L" "crdt_type_ok L ct" "lite_running rx" "crdt_callback rx" "node \<noteq> local_node_id rx"
  shows "CallCrdt ''lite_sensors'' (lite_node_id node) ct (take 495 payload)
     \<in> set (fst (lite_turn L (LiteDatagram src (lite_encode L (lite_data L node sq ct payload))) now checked rx))"
proof -
  let ?m = "(lite_data L node sq ct payload)\<lparr>msg_payload := take 496 (crdt_code L ct # payload)\<rparr>"
  have "lite_decode L (take 512 (lite_encode L (lite_data L node sq ct payload))) = Inr ?m"
    unfolding take_encode [OF assms(1)]
    by (subst lite_decode_encode [OF assms(1)]) (simp_all add: lite_data_def lite_lawsD(4) [OF assms(1)])
  moreover have "CallCrdt ''lite_sensors'' (lite_node_id node) ct (take 495 payload)
      \<in> set (fst (handle_message L now src ?m rx))"
    using handle_data [of ?m "crdt_code L ct" "take 495 payload" L ct rx now src] assms
    by (simp add: lite_data_def crdt_type_ok_def take_Cons')
  ultimately show ?thesis
    using assms(3) by (auto simp: lite_turn_def split: prod.splits)
qed

lemma lite_broadcast_sent: "lite_broadcast L io m t = (Inr u, sent) \<Longrightarrow> \<exists>a. sent = [(lite_encode L m, a)]"
  by (auto simp: lite_broadcast_def Let_def split: if_splits sum.splits)

lemma lite_send_to_sent: "(d, a) \<in> set (snd (lite_send_to L io p m t)) \<Longrightarrow> d = lite_encode L m"
  by (auto simp: lite_send_to_def split: if_splits sum.splits option.splits)

lemma crdt_payload_type: "lite_laws L \<Longrightarrow> crdt_payload J now node flds = Inr (ct, bs) \<Longrightarrow> crdt_type_ok L ct"
  by (auto simp: crdt_payload_def Let_def lite_lawsD(5) split: if_splits option.splits)

text \<open>
  C25.  When a document of an outbound collection was broadcast, it left at least
  once, and every datagram that left for it makes a running receiver on another
  node call its CRDT callback with the sender's name, the CRDT type, and the
  payload cut after 495 bytes.  The collection the callback is told is always
  \<^verbatim>\<open>lite_sensors\<close>.
\<close>

theorem lite_document_delivered:
  assumes "lite_laws L" "sends_outbound cfg coll"
    and "broadcast_document L J io ms cfg coll flds tx = (Inr (), sent, tx')"
    and "lite_running rx" "crdt_callback rx" "local_node_id tx \<noteq> local_node_id rx"
  shows "\<exists>ct payload. crdt_payload J ms (local_node_id tx) flds = Inr (ct, payload) \<and> sent \<noteq> [] \<and>
    (\<forall>(d, a) \<in> set sent. CallCrdt ''lite_sensors'' (lite_node_id (local_node_id tx)) ct (take 495 payload)
       \<in> set (fst (lite_turn L (LiteDatagram src d) now checked rx)))"
proof -
  obtain ct payload where p: "crdt_payload J ms (local_node_id tx) flds = Inr (ct, payload)"
    using assms(2,3) by (auto simp: broadcast_document_def split: sum.splits)
  let ?m = "lite_data L (local_node_id tx) (lite_seq_num tx + 1) ct payload"
  have "sent \<noteq> [] \<and> (\<forall>(d, a) \<in> set sent. d = lite_encode L ?m)"
    using assms(2,3) p
    by (auto simp: broadcast_document_def Let_def split: sum.splits prod.splits
        dest!: lite_broadcast_sent lite_send_to_sent)
  then show ?thesis
    using p turn_receives [OF assms(1) crdt_payload_type [OF assms(1) p] assms(4,5,6)] by fastforce
qed

definition sample_lite_io :: "nat lite_io" where
  "sample_lite_io = \<lparr>lite_bind = \<lambda>_. Inr (), lite_udp_send = \<lambda>bs _. Inr (length bs), lite_broadcast_addr = \<lambda>_. 0\<rparr>"

definition sample_lite_node :: "u32 \<Rightarrow> nat LiteMeshTransport" where
  "sample_lite_node n =
     (snd (lite_start sample_lite_io (lite_transport_new (lite_config_default 5555) n)))\<lparr>crdt_callback := True\<rparr>"

theorem lite_document_delivered_witness:
  "\<exists>ct payload sent tx'.
     broadcast_document sample_lite sample_json sample_lite_io (Some 7) (lite_config_default 5555) ''alerts'' [] (sample_lite_node 1)
       = (Inr (), sent, tx') \<and> sent \<noteq> [] \<and>
     (\<forall>(d, a) \<in> set sent. CallCrdt ''lite_sensors'' (lite_node_id 1) ct (take 495 payload)
       \<in> set (fst (lite_turn sample_lite (LiteDatagram 9 d) 0 0 (sample_lite_node 2))))"
proof -
  obtain sent tx' where sent: "broadcast_document sample_lite sample_json sample_lite_io (Some 7) (lite_config_default 5555)
      ''alerts'' [] (sample_lite_node 1) = (Inr (), sent, tx')"
    by (simp add: broadcast_document_def sends_outbound_def lite_config_default_def crdt_payload_def hm_contains_def
        encode_lww_from_doc_def sample_json_def Let_def lite_broadcast_def sample_lite_node_def lite_start_def
        sample_lite_io_def lite_transport_new_def)
  have node: "lite_running (sample_lite_node n)" "crdt_callback (sample_lite_node n)" "local_node_id (sample_lite_node n) = n" for n
    by (simp_all add: sample_lite_node_def lite_start_def sample_lite_io_def lite_transport_new_def)
  have "sends_outbound (lite_config_default 5555) ''alerts''"
    by (simp add: sends_outbound_def lite_config_default_def)
  from lite_document_delivered [OF sample_lite_laws this sent node(1,2), of 2 9 0 0] sent show ?thesis
    by (fastforce simp: node)
qed
end
