(* ===== verification/Lite_Ota.thy ===== *)
theory Lite_Ota
  imports Lite_Transport
begin

text \<open>
  Firmware delivery to Lite nodes, \<^verbatim>\<open>src/transport/lite_ota.rs\<close>: images and their chunks,
  one stop-and-wait session for each peer, the handlers of the peer's messages and
  the periodic tick.  The constants of the OTA protocol are of the crate
  \<^verbatim>\<open>peat_lite\<close> and are the fields of an \<open>ota_lib\<close> record.  Sends go through the transport
  of the theory Lite_Transport; each operation returns the datagrams it handed to
  the socket.  The reason of a failed session keeps the fixed part of its text.
\<close>

section \<open>Images\<close>

record ota_lib =
  OTA_CHUNK_DATA_SIZE :: nat
  OTA_FLAG_SIGNED :: u16
  OTA_ABORT_TOO_MANY_RETRIES :: u8
  OTA_RESULT_SUCCESS :: u8

definition CHUNK_TIMEOUT :: duration where
  "CHUNK_TIMEOUT = 500000000"

definition MAX_RETRIES_PER_CHUNK :: u32 where
  "MAX_RETRIES_PER_CHUNK = 5"

definition SESSION_TIMEOUT :: duration where
  "SESSION_TIMEOUT = 300000000000"

record FirmwareImage =
  fw_data :: "byte list"
  fw_sha256 :: "byte list"
  fw_version :: "byte list"
  fw_total_chunks :: u16
  fw_chunk_size :: u16
  fw_signature :: "byte list option"

definition firmware_new :: "crypto \<Rightarrow> ota_lib \<Rightarrow> byte list \<Rightarrow> string \<Rightarrow> FirmwareImage" where
  "firmware_new cr K bs ver =
     (let vb = take 15 (as_bytes ver)
      in \<lparr>fw_data = bs, fw_sha256 = sha256 cr bs, fw_version = vb @ replicate (16 - length vb) 0,
          fw_total_chunks =
            word_of_nat (length bs div OTA_CHUNK_DATA_SIZE K + (if length bs mod OTA_CHUNK_DATA_SIZE K = 0 then 0 else 1)),
          fw_chunk_size = word_of_nat (OTA_CHUNK_DATA_SIZE K), fw_signature = None\<rparr>)"

definition firmware_sign :: "crypto \<Rightarrow> DeviceKeypair \<Rightarrow> FirmwareImage \<Rightarrow> FirmwareImage" where
  "firmware_sign cr kp fw = fw\<lparr>fw_signature := Some (keypair_sign cr kp (fw_sha256 fw))\<rparr>"

definition firmware_chunk :: "FirmwareImage \<Rightarrow> u16 \<Rightarrow> byte list option" where
  "firmware_chunk fw k =
     (let start = unat k * unat (fw_chunk_size fw)
      in if length (fw_data fw) \<le> start then None
         else Some (take (unat (fw_chunk_size fw)) (drop start (fw_data fw))))"

section \<open>Sessions\<close>

datatype OtaSenderState =
    OfferedState instant u32
  | TransferringState u16 instant u32
  | WaitingResultState instant u32
  | CompleteState
  | FailedState string

record OtaSession =
  session_id :: u16
  ota_peer :: NodeId
  firmware :: FirmwareImage
  ota_state :: OtaSenderState
  started_at :: instant
  chunks_acked :: u16

definition progress_percent :: "OtaSession \<Rightarrow> u8" where
  "progress_percent ses =
     (if fw_total_chunks (firmware ses) = 0 then 0
      else word_of_nat (unat (chunks_acked ses) * 100 div unat (fw_total_chunks (firmware ses))))"

definition is_timed_out :: "instant \<Rightarrow> OtaSession \<Rightarrow> bool" where
  "is_timed_out now ses \<longleftrightarrow> SESSION_TIMEOUT < now - started_at ses"

record 'a OtaSender =
  ota_transport :: "'a LiteMeshTransport"
  sessions :: "(string, OtaSession) hmap"
  next_session_id :: u16
  signing_keypair :: "DeviceKeypair option"

definition ota_sender_new :: "'a LiteMeshTransport \<Rightarrow> DeviceKeypair option \<Rightarrow> 'a OtaSender" where
  "ota_sender_new t kp = \<lparr>ota_transport = t, sessions = [], next_session_id = 1, signing_keypair = kp\<rparr>"

definition offer_message :: "u32 \<Rightarrow> FirmwareImage \<Rightarrow> u16 \<Rightarrow> u16 \<Rightarrow> LiteMessage" where
  "offer_message node fw sid flags =
     ota_offer node (fw_version fw) (word_of_nat (length (fw_data fw))) (fw_total_chunks fw) (fw_chunk_size fw)
       (fw_sha256 fw) sid flags (fw_signature fw)"

definition offer_to_peer ::
  "lite_lib \<Rightarrow> ota_lib \<Rightarrow> crypto \<Rightarrow> 'a lite_io \<Rightarrow> instant \<Rightarrow> NodeId \<Rightarrow> FirmwareImage \<Rightarrow> 'a OtaSender
     \<Rightarrow> (string, u16) result \<times> (byte list \<times> 'a) list \<times> 'a OtaSender" where
  "offer_to_peer L K cr io now peer fw0 s =
     (let sid = next_session_id s;
          nxt = (if sid + 1 = 0 then 1 else sid + 1);
          s1 = s\<lparr>next_session_id := nxt\<rparr>;
          (fw, flags) = (case signing_keypair s of
                           Some kp \<Rightarrow> (firmware_sign cr kp fw0, OTA_FLAG_SIGNED K)
                         | None \<Rightarrow> (fw0, 0));
          (res, sent) = lite_send_to L io peer (offer_message (local_node_id (ota_transport s)) fw sid flags) (ota_transport s)
      in case res of
           Inl _ \<Rightarrow> (Inl (Err ''Failed to send OTA offer''), sent, s1)
         | Inr _ \<Rightarrow>
             (Inr sid, sent,
              s1\<lparr>sessions := hm_insert peer
                   \<lparr>session_id = sid, ota_peer = peer, firmware = fw, ota_state = OfferedState now 0, started_at = now,
                    chunks_acked = 0\<rparr> (sessions s1)\<rparr>))"

definition send_chunk :: "lite_lib \<Rightarrow> 'a lite_io \<Rightarrow> string \<Rightarrow> u16 \<Rightarrow> 'a OtaSender \<Rightarrow> (byte list \<times> 'a) list" where
  "send_chunk L io peer k s =
     (case hm_get (sessions s) peer of
        None \<Rightarrow> []
      | Some ses \<Rightarrow>
          (case firmware_chunk (firmware ses) k of
             None \<Rightarrow> []
           | Some bs \<Rightarrow>
               snd (lite_send_to L io peer (ota_data (local_node_id (ota_transport s)) (session_id ses) k bs) (ota_transport s))))"

definition send_complete :: "lite_lib \<Rightarrow> 'a lite_io \<Rightarrow> string \<Rightarrow> 'a OtaSender \<Rightarrow> (byte list \<times> 'a) list" where
  "send_complete L io peer s =
     (case hm_get (sessions s) peer of
        None \<Rightarrow> []
      | Some ses \<Rightarrow>
          snd (lite_send_to L io peer (ota_complete (local_node_id (ota_transport s)) (session_id ses)) (ota_transport s)))"

section \<open>Messages of the peer\<close>

definition le16 :: "byte list \<Rightarrow> u16" where
  "le16 bs = word_of_nat (le_val (take 2 bs))"

definition handle_accept ::
  "lite_lib \<Rightarrow> 'a lite_io \<Rightarrow> instant \<Rightarrow> string \<Rightarrow> byte list \<Rightarrow> 'a OtaSender \<Rightarrow> (byte list \<times> 'a) list \<times> 'a OtaSender" where
  "handle_accept L io now peer payload s =
     (if length payload < 4 then ([], s)
      else let sid = le16 payload; resume = le16 (drop 2 payload)
           in case hm_get (sessions s) peer of
                None \<Rightarrow> ([], s)
              | Some ses \<Rightarrow>
                  if session_id ses \<noteq> sid then ([], s)
                  else let s1 = s\<lparr>sessions := hm_insert peer
                             (ses\<lparr>chunks_acked := resume, ota_state := TransferringState resume now 0\<rparr>) (sessions s)\<rparr>
                       in (send_chunk L io peer resume s1, s1))"

text \<open>The sixteen-bit successor of the acknowledged chunk wraps around.\<close>

definition handle_ack ::
  "lite_lib \<Rightarrow> 'a lite_io \<Rightarrow> instant \<Rightarrow> string \<Rightarrow> byte list \<Rightarrow> 'a OtaSender \<Rightarrow> (byte list \<times> 'a) list \<times> 'a OtaSender" where
  "handle_ack L io now peer payload s =
     (if length payload < 4 then ([], s)
      else let sid = le16 payload; nxt = le16 (drop 2 payload) + 1
           in case hm_get (sessions s) peer of
                None \<Rightarrow> ([], s)
              | Some ses \<Rightarrow>
                  if session_id ses \<noteq> sid then ([], s)
                  else if fw_total_chunks (firmware ses) \<le> nxt then
                    let s1 = s\<lparr>sessions := hm_insert peer
                               (ses\<lparr>chunks_acked := nxt, ota_state := WaitingResultState now 0\<rparr>) (sessions s)\<rparr>
                    in (send_complete L io peer s1, s1)
                  else
                    let s1 = s\<lparr>sessions := hm_insert peer
                               (ses\<lparr>chunks_acked := nxt, ota_state := TransferringState nxt now 0\<rparr>) (sessions s)\<rparr>
                    in (send_chunk L io peer nxt s1, s1))"

definition result_reason :: "u8 \<Rightarrow> string" where
  "result_reason c =
     (if c = 1 then ''hash mismatch'' else if c = 2 then ''flash error'' else if c = 3 then ''invalid offer''
      else if c = 4 then ''signature invalid'' else if c = 5 then ''signature required'' else ''unknown'')"

definition handle_result :: "ota_lib \<Rightarrow> string \<Rightarrow> byte list \<Rightarrow> 'a OtaSender \<Rightarrow> 'a OtaSender" where
  "handle_result K peer payload s =
     (if length payload < 3 then s
      else case hm_get (sessions s) peer of
        None \<Rightarrow> s
      | Some ses \<Rightarrow>
          if session_id ses \<noteq> le16 payload then s
          else s\<lparr>sessions := hm_insert peer
                  (ses\<lparr>ota_state := (if payload ! 2 = OTA_RESULT_SUCCESS K then CompleteState
                                     else FailedState (result_reason (payload ! 2)))\<rparr>) (sessions s)\<rparr>)"

definition handle_abort :: "string \<Rightarrow> byte list \<Rightarrow> 'a OtaSender \<Rightarrow> 'a OtaSender" where
  "handle_abort peer payload s =
     (if length payload < 3 then s
      else case hm_get (sessions s) peer of
        None \<Rightarrow> s
      | Some ses \<Rightarrow>
          if session_id ses = le16 payload
          then s\<lparr>sessions := hm_insert peer (ses\<lparr>ota_state := FailedState ''peer aborted''\<rparr>) (sessions s)\<rparr>
          else s)"

section \<open>The tick\<close>

datatype TickAction = RetransmitOffer u16 u32 | RetransmitChunk u16 | RetransmitComplete | AbortSession u16

definition tick_session :: "instant \<Rightarrow> OtaSession \<Rightarrow> OtaSession \<times> TickAction option" where
  "tick_session now ses =
     (if is_timed_out now ses then
        (ses\<lparr>ota_state := FailedState ''session timeout''\<rparr>, Some (AbortSession (session_id ses)))
      else case ota_state ses of
        OfferedState sent retries \<Rightarrow>
          (if CHUNK_TIMEOUT < now - sent then
             (if MAX_RETRIES_PER_CHUNK \<le> retries then
                (ses\<lparr>ota_state := FailedState ''offer not accepted''\<rparr>, Some (AbortSession (session_id ses)))
              else (ses, Some (RetransmitOffer (session_id ses) (retries + 1))))
           else (ses, None))
      | TransferringState k sent retries \<Rightarrow>
          (if CHUNK_TIMEOUT < now - sent then
             (if MAX_RETRIES_PER_CHUNK \<le> retries then
                (ses\<lparr>ota_state := FailedState ''chunk retry limit''\<rparr>, Some (AbortSession (session_id ses)))
              else (ses\<lparr>ota_state := TransferringState k now (retries + 1)\<rparr>, Some (RetransmitChunk k)))
           else (ses, None))
      | WaitingResultState sent retries \<Rightarrow>
          (if CHUNK_TIMEOUT < now - sent then
             (if MAX_RETRIES_PER_CHUNK \<le> retries then
                (ses\<lparr>ota_state := FailedState ''no result received''\<rparr>, Some (AbortSession (session_id ses)))
              else (ses\<lparr>ota_state := WaitingResultState now (retries + 1)\<rparr>, Some RetransmitComplete))
           else (ses, None))
      | _ \<Rightarrow> (ses, None))"

definition tick_peer ::
  "lite_lib \<Rightarrow> ota_lib \<Rightarrow> 'a lite_io \<Rightarrow> instant \<Rightarrow> string \<Rightarrow> 'a OtaSender \<Rightarrow> (byte list \<times> 'a) list \<times> 'a OtaSender" where
  "tick_peer L K io now peer s =
     (case hm_get (sessions s) peer of
        None \<Rightarrow> ([], s)
      | Some ses0 \<Rightarrow>
          (let (ses, action) = tick_session now ses0;
               s1 = s\<lparr>sessions := hm_insert peer ses (sessions s)\<rparr>;
               t = ota_transport s
           in case action of
                None \<Rightarrow> ([], s1)
              | Some (RetransmitOffer sid retries) \<Rightarrow>
                  (let flags = (if fw_signature (firmware ses) \<noteq> None then OTA_FLAG_SIGNED K else 0);
                       m = offer_message (local_node_id t) (firmware ses) sid flags
                   in (snd (lite_send_to L io (ota_peer ses) m t),
                       s1\<lparr>sessions := hm_insert peer (ses\<lparr>ota_state := OfferedState now retries\<rparr>) (sessions s1)\<rparr>))
              | Some (RetransmitChunk k) \<Rightarrow> (send_chunk L io peer k s1, s1)
              | Some RetransmitComplete \<Rightarrow> (send_complete L io peer s1, s1)
              | Some (AbortSession sid) \<Rightarrow>
                  (snd (lite_send_to L io peer (ota_abort (local_node_id t) sid (OTA_ABORT_TOO_MANY_RETRIES K)) t), s1)))"

primrec tick_peers ::
  "lite_lib \<Rightarrow> ota_lib \<Rightarrow> 'a lite_io \<Rightarrow> instant \<Rightarrow> string list \<Rightarrow> 'a OtaSender \<Rightarrow> (byte list \<times> 'a) list \<times> 'a OtaSender" where
  "tick_peers L K io now [] s = ([], s)"
| "tick_peers L K io now (p # ps) s =
     (let (sent1, s1) = tick_peer L K io now p s; (sent2, s2) = tick_peers L K io now ps s1 in (sent1 @ sent2, s2))"

definition ota_tick ::
  "lite_lib \<Rightarrow> ota_lib \<Rightarrow> 'a lite_io \<Rightarrow> instant \<Rightarrow> 'a OtaSender \<Rightarrow> (byte list \<times> 'a) list \<times> 'a OtaSender" where
  "ota_tick L K io now s = tick_peers L K io now (map fst (sessions s)) s"

record OtaStatusInfo =
  status_session_id :: u16
  status_state :: string
  status_progress :: u8
  status_chunks_sent :: u16
  status_total_chunks :: u16
  status_elapsed_secs :: nat

definition ota_get_status :: "instant \<Rightarrow> string \<Rightarrow> 'a OtaSender \<Rightarrow> OtaStatusInfo option" where
  "ota_get_status now peer s =
     map_option (\<lambda>ses.
       \<lparr>status_session_id = session_id ses,
        status_state = (case ota_state ses of
            OfferedState _ _ \<Rightarrow> ''offered'' | TransferringState _ _ _ \<Rightarrow> ''transferring''
          | WaitingResultState _ _ \<Rightarrow> ''waiting_result'' | CompleteState \<Rightarrow> ''complete''
          | FailedState reason \<Rightarrow> ''failed: '' @ reason),
        status_progress = progress_percent ses, status_chunks_sent = chunks_acked ses,
        status_total_chunks = fw_total_chunks (firmware ses),
        status_elapsed_secs = (now - started_at ses) div 1000000000\<rparr>) (hm_get (sessions s) peer)"

section \<open>Runs of the sender\<close>

datatype ota_event =
    AcceptMsg string "byte list" instant
  | AckMsg string "byte list" instant
  | ResultMsg string "byte list"
  | AbortMsg string "byte list"
  | OtaTick instant

primrec ota_step ::
  "lite_lib \<Rightarrow> ota_lib \<Rightarrow> 'a lite_io \<Rightarrow> ota_event \<Rightarrow> 'a OtaSender \<Rightarrow> (byte list \<times> 'a) list \<times> 'a OtaSender" where
  "ota_step L K io (AcceptMsg p bs now) s = handle_accept L io now p bs s"
| "ota_step L K io (AckMsg p bs now) s = handle_ack L io now p bs s"
| "ota_step L K io (ResultMsg p bs) s = ([], handle_result K p bs s)"
| "ota_step L K io (AbortMsg p bs) s = ([], handle_abort p bs s)"
| "ota_step L K io (OtaTick now) s = ota_tick L K io now s"

text \<open>What a receiver of the datagrams reads as numbered chunks.\<close>

definition ota_chunks :: "lite_lib \<Rightarrow> (byte list \<times> 'a) list \<Rightarrow> (u16 \<times> byte list) list" where
  "ota_chunks L sent = List.map_filter (\<lambda>(d, _).
     case lite_decode L d of
       Inr m \<Rightarrow> if msg_type m = OtaData then Some (le16 (drop 2 (msg_payload m)), drop 6 (msg_payload m)) else None
     | Inl _ \<Rightarrow> None) sent"

text \<open>The peer is in the transport's table and the socket takes every datagram for it.\<close>

definition link_ok :: "'a lite_io \<Rightarrow> 'a LiteMeshTransport \<Rightarrow> NodeId \<Rightarrow> 'a \<Rightarrow> bool" where
  "link_ok io t peer a \<longleftrightarrow> lite_socket t \<and> map_option address (hm_get (lite_peers t) peer) = Some a \<and>
     (\<forall>d. \<exists>n. lite_udp_send io d a = Inr n)"

lemma link_send: "link_ok io t peer a \<Longrightarrow> lite_send_to L io peer m t = (Inr (), [(lite_encode L m, a)])"
  by (auto simp: link_ok_def lite_send_to_def split: sum.splits) (metis Inl_Inr_False)

lemma ota_chunks_append [simp]: "ota_chunks L (xs @ ys) = ota_chunks L xs @ ota_chunks L ys"
  by (simp add: ota_chunks_def map_filter_def)

lemma ota_chunks_Nil [simp]: "ota_chunks L [] = []"
  by (simp add: ota_chunks_def map_filter_def)

lemma ota_chunks_single:
  assumes "lite_laws L" "msg_type m \<in> {OtaOffer, OtaData, OtaComplete, OtaAbort}"
  shows "ota_chunks L [(lite_encode L m, a)] =
     (if msg_type m = OtaData then [(le16 (drop 2 (msg_payload m)), drop 6 (msg_payload m))] else [])"
proof -
  have "message_type_ok L (msg_type m)"
    using assms(2) lite_lawsD(4) [OF assms(1)] by auto
  from lite_decode_encode [OF assms(1) this] show ?thesis
    by (simp add: ota_chunks_def map_filter_def)
qed

lemma le16_le_bytes [simp]: "le16 (le_bytes 2 (unat w) @ bs) = w"
  by (simp add: le16_def)

lemma ota_chunks_data:
  "lite_laws L \<Longrightarrow> ota_chunks L [(lite_encode L (ota_data node sid k bs), a)] = [(k, bs)]"
  using ota_chunks_single [of L "ota_data node sid k bs" a] by (simp add: ota_data_def)

lemma ota_chunks_others:
  assumes "lite_laws L"
  shows "ota_chunks L [(lite_encode L (offer_message node fw sid flags), a)] = []"
    and "ota_chunks L [(lite_encode L (ota_complete node sid), a)] = []"
  using ota_chunks_single [OF assms, of "offer_message node fw sid flags" a]
    ota_chunks_single [OF assms, of "ota_complete node sid" a]
  by (simp_all add: offer_message_def ota_offer_def ota_complete_def)

section \<open>Chunks of an image\<close>

lemma concat_chunks: "concat (map (\<lambda>k. take c (drop (k * c) bs)) [0..<n]) = take (n * c) bs"
proof (induction n)
  case (Suc n)
  moreover have "take (Suc n * c) bs = take (n * c) bs @ take c (drop (n * c) bs)"
    by (metis add.commute mult_Suc take_add)
  ultimately show ?case
    by simp
qed simp

definition chunk_count :: "nat \<Rightarrow> nat \<Rightarrow> nat" where
  "chunk_count n c = n div c + (if n mod c = 0 then 0 else 1)"

lemma chunk_count_bounds:
  assumes "0 < c"
  shows "n \<le> chunk_count n c * c" "k < chunk_count n c \<longleftrightarrow> k * c < n"
proof -
  obtain q m where n: "n = q * c + m" "m < c" "n div c = q" "n mod c = m"
    using assms by (metis div_mult_mod_eq mod_less_divisor)
  show "n \<le> chunk_count n c * c"
    using n by (auto simp: chunk_count_def)
  show "k < chunk_count n c \<longleftrightarrow> k * c < n"
  proof (cases "k < q")
    case True
    then have "Suc k * c \<le> q * c"
      by (intro mult_le_mono1) simp
    then have "k * c < n"
      using n(1) assms by simp
    with True show ?thesis
      using n by (simp add: chunk_count_def)
  next
    case False
    then have "q * c \<le> k * c"
      by (intro mult_le_mono1) simp
    moreover have "q * c + c \<le> k * c" if "k \<noteq> q"
      using False that mult_le_mono1 [of "Suc q" k c] by simp
    ultimately have "k * c < n \<longleftrightarrow> k = q \<and> 0 < m"
      using n(1,2) by fastforce
    with False show ?thesis
      using n by (auto simp: chunk_count_def)
  qed
qed
lemma firmware_chunk_new:
  assumes "0 < OTA_CHUNK_DATA_SIZE K" "OTA_CHUNK_DATA_SIZE K < 65536" "fw_data fw = bs"
    and "fw_chunk_size fw = word_of_nat (OTA_CHUNK_DATA_SIZE K)" "unat k < chunk_count (length bs) (OTA_CHUNK_DATA_SIZE K)"
  shows "firmware_chunk fw k = Some (take (OTA_CHUNK_DATA_SIZE K) (drop (unat k * OTA_CHUNK_DATA_SIZE K) bs))"
  using assms chunk_count_bounds(2) [OF assms(1), of "unat k" "length bs"]
  by (simp add: firmware_chunk_def Let_def)

section \<open>Waiting for a reply\<close>

datatype ota_phase = PhOffered | PhSending u16 | PhWaiting

fun state_phase :: "OtaSenderState \<Rightarrow> (ota_phase \<times> nat) option" where
  "state_phase (OfferedState _ r) = Some (PhOffered, unat r)"
| "state_phase (TransferringState k _ r) = Some (PhSending k, unat r)"
| "state_phase (WaitingResultState _ r) = Some (PhWaiting, unat r)"
| "state_phase _ = None"

text \<open>A sender with the one session of a peer, in a phase and with a number of retransmissions.\<close>

definition in_phase ::
  "'a OtaSender \<Rightarrow> 'a LiteMeshTransport \<Rightarrow> string \<Rightarrow> u16 \<Rightarrow> FirmwareImage \<Rightarrow> instant \<Rightarrow> ota_phase \<Rightarrow> nat \<Rightarrow> bool" where
  "in_phase s t peer sid fw t0 ph r \<longleftrightarrow> ota_transport s = t \<and>
     (\<exists>ses. sessions s = [(peer, ses)] \<and> ota_peer ses = peer \<and> session_id ses = sid \<and> firmware ses = fw \<and>
       started_at ses = t0 \<and> state_phase (ota_state ses) = Some (ph, r))"

lemma in_phaseE:
  assumes "in_phase s t peer sid fw t0 ph r"
  obtains ses where "ota_transport s = t" "sessions s = [(peer, ses)]" "ota_peer ses = peer" "session_id ses = sid"
    "firmware ses = fw" "started_at ses = t0" "state_phase (ota_state ses) = Some (ph, r)"
  using assms by (auto simp: in_phase_def)

lemma retry_step: "unat (r :: u32) < 5 \<Longrightarrow> \<not> MAX_RETRIES_PER_CHUNK \<le> r \<and> unat (r + 1) = unat r + 1"
proof -
  assume r: "unat r < 5"
  then have "unat (r + 1) = unat r + 1"
    using unat_plus_if' [of r 1] by simp
  with r show ?thesis
    by (simp add: MAX_RETRIES_PER_CHUNK_def word_le_nat_alt)
qed

lemma tick_in_phase:
  assumes "lite_laws L" "in_phase s t peer sid fw t0 ph r" "r < 5" "now - t0 \<le> SESSION_TIMEOUT" "link_ok io t peer a"
    and "\<And>k. ph = PhSending k \<Longrightarrow> firmware_chunk fw k = Some (c k)"
  shows "\<exists>r' j. r' \<le> Suc r \<and> in_phase (snd (ota_tick L K io now s)) t peer sid fw t0 ph r' \<and>
    ota_chunks L (fst (ota_tick L K io now s)) = (case ph of PhSending k \<Rightarrow> replicate j (k, c k) | _ \<Rightarrow> [])"
proof -
  from assms(2) obtain ses where ses: "ota_transport s = t" "sessions s = [(peer, ses)]" "ota_peer ses = peer" "session_id ses = sid"
    "firmware ses = fw" "started_at ses = t0" "state_phase (ota_state ses) = Some (ph, r)"
    by (rule in_phaseE)
  have live: "\<not> is_timed_out now ses"
    using assms(4) ses(6) by (simp add: is_timed_out_def)
  have tick: "ota_tick L K io now s = tick_peer L K io now peer s"
    by (simp add: ota_tick_def ses(2))
  obtain sent q where st: "ota_state ses = OfferedState sent q \<and> ph = PhOffered \<and> unat q = r \<or>
      (\<exists>k. ota_state ses = TransferringState k sent q \<and> ph = PhSending k \<and> unat q = r) \<or>
      ota_state ses = WaitingResultState sent q \<and> ph = PhWaiting \<and> unat q = r"
    using ses(7) by (cases "ota_state ses") auto
  show ?thesis
  proof (cases "CHUNK_TIMEOUT < now - sent")
    case False
    then have "tick_session now ses = (ses, None)"
      using live st by (auto simp: tick_session_def)
    then have "ota_tick L K io now s = ([], s\<lparr>sessions := [(peer, ses)]\<rparr>)"
      unfolding tick by (simp add: tick_peer_def ses)
    then show ?thesis
      using ses by (intro exI [of _ r] exI [of _ 0]) (auto simp: in_phase_def split: ota_phase.splits)
  next
    case True
    have q: "\<not> MAX_RETRIES_PER_CHUNK \<le> q" "unat (q + 1) = Suc r"
      using retry_step [of q] st assms(3) by auto
    note sends = link_send [OF assms(5)] ota_chunks_data [OF assms(1)] ota_chunks_others [OF assms(1)]
    from st True q live show ?thesis
      unfolding tick
      by (elim disjE exE conjE; intro exI [of _ "Suc r"] exI [of _ 1])
        (auto simp: tick_session_def tick_peer_def in_phase_def send_chunk_def send_complete_def sends ses Let_def assms(6))
  qed
qed

lemma ticks_in_phase:
  assumes "lite_laws L" "link_ok io t peer a" "\<And>k. ph = PhSending k \<Longrightarrow> firmware_chunk fw k = Some (c k)"
  shows "in_phase s t peer sid fw t0 ph r \<Longrightarrow> r + length ts \<le> 5 \<Longrightarrow> \<forall>now \<in> set ts. now - t0 \<le> SESSION_TIMEOUT \<Longrightarrow>
    \<exists>r' j. in_phase (final (ota_step L K io) (map OtaTick ts) s) t peer sid fw t0 ph r' \<and>
      ota_chunks L (concat (outputs (ota_step L K io) (map OtaTick ts) s)) =
        (case ph of PhSending k \<Rightarrow> replicate j (k, c k) | _ \<Rightarrow> [])"
proof (induction ts arbitrary: s r)
  case Nil
  then show ?case
    by (intro exI [of _ r] exI [of _ 0]) (simp split: ota_phase.splits)
next
  case (Cons now ts)
  have "r < 5" "now - t0 \<le> SESSION_TIMEOUT"
    using Cons.prems by auto
  from tick_in_phase [OF assms(1) Cons.prems(1) this assms(2,3), of K] obtain r1 j1 where
    r1: "r1 \<le> Suc r" "in_phase (snd (ota_tick L K io now s)) t peer sid fw t0 ph r1"
    "ota_chunks L (fst (ota_tick L K io now s)) = (case ph of PhSending k \<Rightarrow> replicate j1 (k, c k) | _ \<Rightarrow> [])"
    by blast
  moreover have "r1 + length ts \<le> 5" "\<forall>now \<in> set ts. now - t0 \<le> SESSION_TIMEOUT"
    using r1(1) Cons.prems by auto
  ultimately obtain r2 j2 where
    "in_phase (final (ota_step L K io) (map OtaTick ts) (snd (ota_tick L K io now s))) t peer sid fw t0 ph r2"
    "ota_chunks L (concat (outputs (ota_step L K io) (map OtaTick ts) (snd (ota_tick L K io now s)))) =
        (case ph of PhSending k \<Rightarrow> replicate j2 (k, c k) | _ \<Rightarrow> [])"
    using Cons.IH by blast
  with r1(3) show ?case
    by (intro exI [of _ r2] exI [of _ "j1 + j2"]) (simp add: replicate_add split: ota_phase.splits)
qed

section \<open>Replies\<close>

definition ota_reply :: "u16 \<Rightarrow> nat \<Rightarrow> byte list" where
  "ota_reply sid k = le_bytes 2 (unat sid) @ le_bytes 2 k"

lemma ota_reply_parts [simp]:
  "k < 65536 \<Longrightarrow> le16 (drop 2 (ota_reply sid k)) = word_of_nat k" "le16 (ota_reply sid k) = sid"
  "length (ota_reply sid k) = 4"
  by (simp_all add: ota_reply_def le16_def)

lemma accept_in_phase:
  assumes "lite_laws L" "in_phase s t peer sid fw t0 ph r" "link_ok io t peer a" "k < 65536"
    and "firmware_chunk fw (word_of_nat k) = Some c"
  shows "in_phase (snd (handle_accept L io now peer (ota_reply sid k) s)) t peer sid fw t0 (PhSending (word_of_nat k)) 0 \<and>
    ota_chunks L (fst (handle_accept L io now peer (ota_reply sid k) s)) = [(word_of_nat k, c)]"
proof -
  from assms(2) obtain ses where "ota_transport s = t" "sessions s = [(peer, ses)]" "ota_peer ses = peer" "session_id ses = sid"
    "firmware ses = fw" "started_at ses = t0"
    by (rule in_phaseE)
  then show ?thesis
    using assms(4,5)
    by (simp add: handle_accept_def in_phase_def send_chunk_def link_send [OF assms(3)] ota_chunks_data [OF assms(1)] Let_def)
qed

lemma ack_in_phase:
  assumes "lite_laws L" "in_phase s t peer sid fw t0 ph r" "link_ok io t peer a" "Suc k < 65536"
    and "Suc k < unat (fw_total_chunks fw) \<Longrightarrow> firmware_chunk fw (word_of_nat (Suc k)) = Some c"
  shows "in_phase (snd (handle_ack L io now peer (ota_reply sid k) s)) t peer sid fw t0
      (if Suc k < unat (fw_total_chunks fw) then PhSending (word_of_nat (Suc k)) else PhWaiting) 0 \<and>
    ota_chunks L (fst (handle_ack L io now peer (ota_reply sid k) s)) =
      (if Suc k < unat (fw_total_chunks fw) then [(word_of_nat (Suc k), c)] else [])"
proof -
  from assms(2) obtain ses where ses: "ota_transport s = t" "sessions s = [(peer, ses)]" "ota_peer ses = peer" "session_id ses = sid"
    "firmware ses = fw" "started_at ses = t0"
    by (rule in_phaseE)
  have "word_of_nat k + 1 = (word_of_nat (Suc k) :: u16)"
    by simp
  moreover have "fw_total_chunks fw \<le> word_of_nat (Suc k) \<longleftrightarrow> \<not> Suc k < unat (fw_total_chunks fw)"
    using assms(4) unat_word16 [of "Suc k"] by (simp add: word_le_nat_alt not_less del: of_nat_Suc)
  ultimately show ?thesis
    using assms(4,5)
    by (auto simp: ses handle_ack_def in_phase_def send_chunk_def send_complete_def link_send [OF assms(3)]
        ota_chunks_data [OF assms(1)] ota_chunks_others [OF assms(1)] Let_def simp del: of_nat_Suc)
qed

lemma remdups_adj_repeat:
  "x \<noteq> y \<Longrightarrow> remdups_adj (x # replicate j x @ y # ys) = x # remdups_adj (y # ys)"
  "remdups_adj (x # replicate j x) = [x]"
  by (induction j) simp_all

text \<open>
  The acknowledgements of the chunks from \<open>k\<close> on, each after some ticks.  Together with
  the chunk sent before, the chunks sent are those of the image, in order, each
  repeated some times.
\<close>

definition ack_events :: "string \<Rightarrow> u16 \<Rightarrow> (nat \<Rightarrow> instant) \<Rightarrow> instant list list \<Rightarrow> nat \<Rightarrow> ota_event list" where
  "ack_events peer sid \<tau> wss k =
     concat (map (\<lambda>(ts, i). map OtaTick ts @ [AckMsg peer (ota_reply sid i) (\<tau> i)]) (zip wss [k..<k + length wss]))"

lemma ack_events_Cons:
  "ack_events peer sid \<tau> (ts # wss) k =
     map OtaTick ts @ AckMsg peer (ota_reply sid k) (\<tau> k) # ack_events peer sid \<tau> wss (Suc k)"
  by (simp add: ack_events_def upt_rec)

lemma acks_run:
  assumes "lite_laws L" "link_ok io t peer a" "n = unat (fw_total_chunks fw)"
    and "\<And>i. i < n \<Longrightarrow> firmware_chunk fw (word_of_nat i) = Some (c i)"
  shows "in_phase s t peer sid fw t0 (PhSending (word_of_nat k)) 0 \<Longrightarrow> wss \<noteq> [] \<Longrightarrow> k + length wss = n \<Longrightarrow>
    \<forall>ts \<in> set wss. length ts \<le> 5 \<and> (\<forall>now \<in> set ts. now - t0 \<le> SESSION_TIMEOUT) \<Longrightarrow>
    in_phase (final (ota_step L K io) (ack_events peer sid \<tau> wss k) s) t peer sid fw t0 PhWaiting 0 \<and>
    remdups_adj ((word_of_nat k, c k) # ota_chunks L (concat (outputs (ota_step L K io) (ack_events peer sid \<tau> wss k) s)))
      = map (\<lambda>i. (word_of_nat i, c i)) [k..<n]"
proof (induction wss arbitrary: s k)
  case (Cons ts wss)
  have n: "n < 65536"
    using assms(3) by simp
  then have k: "k < n" "Suc k < 65536" "unat (word_of_nat k :: u16) = k"
    using Cons.prems(3) by auto
  let ?s1 = "final (ota_step L K io) (map OtaTick ts) s"
  let ?out1 = "ota_chunks L (concat (outputs (ota_step L K io) (map OtaTick ts) s))"
  have "\<exists>r' j. in_phase ?s1 t peer sid fw t0 (PhSending (word_of_nat k)) r' \<and>
      ?out1 = (case PhSending (word_of_nat k) of PhSending w \<Rightarrow> replicate j (w, c (unat w)) | _ \<Rightarrow> [])"
    by (rule ticks_in_phase [OF assms(1,2) _ Cons.prems(1)]) (use Cons.prems assms(4) k in auto)
  then obtain r j where ticks: "in_phase ?s1 t peer sid fw t0 (PhSending (word_of_nat k)) r"
    "?out1 = replicate j (word_of_nat k, c k)"
    using k(3) by auto
  let ?step = "handle_ack L io (\<tau> k) peer (ota_reply sid k) ?s1"
  have ack: "in_phase (snd ?step) t peer sid fw t0 (if Suc k < n then PhSending (word_of_nat (Suc k)) else PhWaiting) 0"
    "ota_chunks L (fst ?step) = (if Suc k < n then [(word_of_nat (Suc k), c (Suc k))] else [])"
    using ack_in_phase [OF assms(1) ticks(1) assms(2) k(2), of "c (Suc k)" "\<tau> k"] assms(4) [of "Suc k"]
    unfolding assms(3) by blast+
  show ?case
  proof (cases "Suc k < n")
    case True
    then have "wss \<noteq> []" "Suc k + length wss = n"
      using Cons.prems(3) by auto
    then have IH: "in_phase (final (ota_step L K io) (ack_events peer sid \<tau> wss (Suc k)) (snd ?step)) t peer sid fw t0 PhWaiting 0"
      "remdups_adj ((word_of_nat (Suc k), c (Suc k)) #
         ota_chunks L (concat (outputs (ota_step L K io) (ack_events peer sid \<tau> wss (Suc k)) (snd ?step))))
       = map (\<lambda>i. (word_of_nat i, c i)) [Suc k..<n]"
      using Cons.IH [of "snd ?step" "Suc k"] ack(1) True Cons.prems(4) by (auto simp del: of_nat_Suc)
    moreover have "(word_of_nat k :: u16) \<noteq> word_of_nat (Suc k)"
      using k(2) by (metis n_not_Suc_n unat_word16 Suc_lessD)
    ultimately show ?thesis
      using True k(1) ack(2) ticks(2)
      by (simp add: ack_events_Cons remdups_adj_repeat upt_conv_Cons del: of_nat_Suc)
  next
    case False
    then have "wss = []" "n = Suc k"
      using Cons.prems(3) k(1) by auto
    then show ?thesis
      using ack ticks(2) False by (simp add: ack_events_Cons) (simp add: ack_events_def remdups_adj_repeat)
  qed
qed simp

section \<open>A whole transfer\<close>

lemma result_completes:
  assumes "in_phase s t peer sid fw t0 ph r"
  shows "map_option ota_state (hm_get (sessions (handle_result K peer (le_bytes 2 (unat sid) @ [OTA_RESULT_SUCCESS K]) s)) peer)
    = Some CompleteState"
proof -
  from assms obtain ses where "sessions s = [(peer, ses)]" "session_id ses = sid"
    by (rule in_phaseE)
  then show ?thesis
    by (simp add: handle_result_def le16_def nth_append)
qed

lemma offer_in_phase:
  assumes "link_ok io t peer a"
    and "offer_to_peer L K cr io t0 peer (firmware_new cr K bs ver) (ota_sender_new t kp) = (res, sent, s)"
  obtains fw where "res = Inr 1" "in_phase s t peer 1 fw t0 PhOffered 0" "fw_data fw = bs"
    "fw_chunk_size fw = word_of_nat (OTA_CHUNK_DATA_SIZE K)"
    "fw_total_chunks fw = word_of_nat (chunk_count (length bs) (OTA_CHUNK_DATA_SIZE K))"
proof -
  obtain fw flags where fw: "(fw, flags) = (case kp of
      Some kp \<Rightarrow> (firmware_sign cr kp (firmware_new cr K bs ver), OTA_FLAG_SIGNED K) | None \<Rightarrow> (firmware_new cr K bs ver, 0))"
    by (metis surj_pair)
  then have "res = Inr 1" "in_phase s t peer 1 fw t0 PhOffered 0"
    using assms(2) link_send [OF assms(1)]
    by (auto simp: offer_to_peer_def ota_sender_new_def in_phase_def Let_def split: option.splits)
  then show thesis
    using fw by (intro that [of fw]) (auto simp: firmware_sign_def firmware_new_def chunk_count_def Let_def split: option.splits)
qed

definition short_waits :: "instant \<Rightarrow> instant list list \<Rightarrow> bool" where
  "short_waits t0 wss \<longleftrightarrow>
     list_all (\<lambda>ts. length ts \<le> 5 \<and> list_all (\<lambda>now. now - t0 \<le> SESSION_TIMEOUT) ts) wss"

text \<open>The events of a transfer: an accept, an acknowledgement of each chunk, the result, each after some ticks.\<close>

definition transfer_events ::
  "ota_lib \<Rightarrow> string \<Rightarrow> u16 \<Rightarrow> instant \<Rightarrow> (nat \<Rightarrow> instant) \<Rightarrow> instant list \<Rightarrow> instant list list \<Rightarrow> instant list \<Rightarrow> ota_event list" where
  "transfer_events K peer sid t1 \<tau> w0 wss w1 =
     map OtaTick w0 @ [AcceptMsg peer (ota_reply sid 0) t1] @ ack_events peer sid \<tau> wss 0
     @ map OtaTick w1 @ [ResultMsg peer (le_bytes 2 (unat sid) @ [OTA_RESULT_SUCCESS K])]"

text \<open>
  C21.  A firmware image of at most 65535 chunks, offered to a peer that accepts it,
  acknowledges its chunks in order and reports success, with at most five ticks
  while it answers and within five minutes, ends with the session complete; what
  the peer was sent, repetitions dropped, are the chunks in order, and together
  they are the image.
\<close>

theorem ota_transfer_delivers:
  assumes "lite_laws L" "link_ok io t peer a" "bs \<noteq> []"
    and "0 < OTA_CHUNK_DATA_SIZE K" "OTA_CHUNK_DATA_SIZE K < 65536"
    and "length wss = chunk_count (length bs) (OTA_CHUNK_DATA_SIZE K)" "length wss < 65536"
    and "short_waits t0 (w0 # w1 # wss)"
  shows "case offer_to_peer L K cr io t0 peer (firmware_new cr K bs ver) (ota_sender_new t kp) of
    (res, _, s) \<Rightarrow> \<exists>sid. res = Inr sid \<and>
      (let evs = transfer_events K peer sid t1 \<tau> w0 wss w1;
           s' = final (ota_step L K io) evs s;
           chunks = remdups_adj (ota_chunks L (concat (outputs (ota_step L K io) evs s)))
       in map_option ota_state (hm_get (sessions s') peer) = Some CompleteState \<and>
          map fst chunks = map word_of_nat [0..<length wss] \<and> concat (map snd chunks) = bs)"
proof -
  obtain res sent s where offer: "offer_to_peer L K cr io t0 peer (firmware_new cr K bs ver) (ota_sender_new t kp) = (res, sent, s)"
    using prod_cases3 by blast
  from offer_in_phase [OF assms(2) offer] obtain fw where res: "res = Inr 1" and offered: "in_phase s t peer 1 fw t0 PhOffered 0"
    and fw: "fw_data fw = bs" "fw_chunk_size fw = word_of_nat (OTA_CHUNK_DATA_SIZE K)"
      "fw_total_chunks fw = word_of_nat (chunk_count (length bs) (OTA_CHUNK_DATA_SIZE K))"
    by metis
  let ?step = "ota_step L K io" and ?c = "OTA_CHUNK_DATA_SIZE K" and ?n = "length wss"
  let ?chunk = "\<lambda>k. take ?c (drop (k * ?c) bs)"
  have n: "unat (fw_total_chunks fw) = ?n" "0 < ?n"
    using assms(3,6,7) fw(3) chunk_count_bounds(2) [OF assms(4), of 0 "length bs"] by auto
  have chunk: "firmware_chunk fw (word_of_nat k) = Some (?chunk k)" if "k < ?n" for k
    using firmware_chunk_new [OF assms(4,5) fw(1,2), of "word_of_nat k"] that assms(6,7) by simp
  have waits: "length ts \<le> 5" "\<forall>now \<in> set ts. now - t0 \<le> SESSION_TIMEOUT" if "ts \<in> set (w0 # w1 # wss)" for ts
    using assms(8) that by (auto simp: short_waits_def list_all_iff)
  let ?s1 = "final ?step (map OtaTick w0) s"
  obtain r1 where s1: "in_phase ?s1 t peer 1 fw t0 PhOffered r1"
    "ota_chunks L (concat (outputs ?step (map OtaTick w0) s)) = []"
    using ticks_in_phase [OF assms(1,2) _ offered, of _ w0 K] waits [of w0] by auto
  let ?acc = "handle_accept L io t1 peer (ota_reply 1 0) ?s1"
  have s2: "in_phase (snd ?acc) t peer 1 fw t0 (PhSending (word_of_nat 0)) 0"
    "ota_chunks L (fst ?acc) = [(word_of_nat 0, ?chunk 0)]"
    using accept_in_phase [OF assms(1) s1(1) assms(2) _ chunk [OF n(2)]] by auto
  let ?s3 = "final ?step (ack_events peer 1 \<tau> wss 0) (snd ?acc)"
  have s3: "in_phase ?s3 t peer 1 fw t0 PhWaiting 0"
    "remdups_adj ((word_of_nat 0, ?chunk 0) # ota_chunks L (concat (outputs ?step (ack_events peer 1 \<tau> wss 0) (snd ?acc))))
       = map (\<lambda>i. (word_of_nat i, ?chunk i)) [0..<?n]"
    using acks_run [OF assms(1,2) n(1) [symmetric] chunk s2(1), of wss K \<tau>] n(2) waits by auto
  let ?s4 = "final ?step (map OtaTick w1) ?s3"
  obtain r4 where s4: "in_phase ?s4 t peer 1 fw t0 PhWaiting r4"
    "ota_chunks L (concat (outputs ?step (map OtaTick w1) ?s3)) = []"
    using ticks_in_phase [OF assms(1,2) _ s3(1), of _ w1 K] waits [of w1] by auto
  have "take (?n * ?c) bs = bs"
    using chunk_count_bounds(1) [OF assms(4), of "length bs"] assms(6) by simp
  then have all: "concat (map ?chunk [0..<?n]) = bs"
    by (simp add: concat_chunks)
  let ?evs = "transfer_events K peer 1 t1 \<tau> w0 wss w1"
  have "final ?step ?evs s = handle_result K peer (le_bytes 2 (unat (1 :: u16)) @ [OTA_RESULT_SUCCESS K]) ?s4"
    by (simp add: transfer_events_def del: unat_1)
  then have fin: "map_option ota_state (hm_get (sessions (final ?step ?evs s)) peer) = Some CompleteState"
    using result_completes [OF s4(1)] by (simp only:)
  have "ota_chunks L (concat (outputs ?step ?evs s)) =
      (word_of_nat 0, ?chunk 0) # ota_chunks L (concat (outputs ?step (ack_events peer 1 \<tau> wss 0) (snd ?acc)))"
    using s1(2) s2(2) s4(2) by (simp add: transfer_events_def)
  then have "remdups_adj (ota_chunks L (concat (outputs ?step ?evs s))) = map (\<lambda>i. (word_of_nat i, ?chunk i)) [0..<?n]"
    using s3(2) by (simp only:)
  then show ?thesis
    unfolding offer prod.case using res fin all by (simp add: Let_def comp_def)
qed

definition sample_ota :: ota_lib where
  "sample_ota = \<lparr>OTA_CHUNK_DATA_SIZE = 2, OTA_FLAG_SIGNED = 1, OTA_ABORT_TOO_MANY_RETRIES = 1, OTA_RESULT_SUCCESS = 0\<rparr>"

definition sample_ota_transport :: "nat LiteMeshTransport" where
  "sample_ota_transport = snd (handle_message sample_lite 0 7 (lite_ack 9 0) (sample_lite_node 1))"

lemma sample_link: "link_ok sample_lite_io sample_ota_transport (lite_node_id 9) 7"
  by (simp add: link_ok_def sample_ota_transport_def handle_message_def lite_ack_def sample_lite_node_def lite_start_def
      sample_lite_io_def lite_transport_new_def touch_peer_def Let_def)

lemma chunk_size_sample: "OTA_CHUNK_DATA_SIZE sample_ota = 2"
  by (simp add: sample_ota_def)

theorem ota_transfer_delivers_witness:
  "\<exists>s. map_option ota_state (hm_get (sessions s) (lite_node_id 9)) = Some CompleteState \<and>
     (\<exists>s0 sent. offer_to_peer sample_lite sample_ota sample_crypto sample_lite_io 0 (lite_node_id 9)
         (firmware_new sample_crypto sample_ota [1, 2, 3] ''1.0'') (ota_sender_new sample_ota_transport None) = (Inr 1, sent, s0) \<and>
       s = final (ota_step sample_lite sample_ota sample_lite_io)
         (transfer_events sample_ota (lite_node_id 9) 1 5 (\<lambda>k. 10 + k) [] [[], []] []) s0)"
proof -
  obtain res sent s0 where offer: "offer_to_peer sample_lite sample_ota sample_crypto sample_lite_io 0 (lite_node_id 9)
      (firmware_new sample_crypto sample_ota [1, 2, 3] ''1.0'') (ota_sender_new sample_ota_transport None) = (res, sent, s0)"
    using prod_cases3 by blast
  then have "res = Inr 1"
    using offer_in_phase [OF sample_link offer] by metis
  moreover have "length [[], [] :: instant list] = chunk_count (length [1, 2, 3 :: byte]) (OTA_CHUNK_DATA_SIZE sample_ota)"
    by (simp add: chunk_count_def sample_ota_def)
  ultimately show ?thesis
    using ota_transfer_delivers [OF sample_lite_laws sample_link, where bs = "[1, 2, 3]" and K = sample_ota and wss = "[[], []]"
        and ?t0.0 = 0 and ?w0.0 = "[]" and ?w1.0 = "[]" and cr = sample_crypto and ver = "''1.0''" and kp = None and ?t1.0 = 5
        and \<tau> = "\<lambda>k. 10 + k"] offer
    by (auto simp: Let_def chunk_size_sample short_waits_def)
qed

section \<open>What a tick does to a session\<close>

definition ticked :: "instant \<Rightarrow> OtaSession \<Rightarrow> OtaSession" where
  "ticked now ses =
     (case tick_session now ses of
        (ses', Some (RetransmitOffer _ q)) \<Rightarrow> ses'\<lparr>ota_state := OfferedState now q\<rparr>
      | (ses', _) \<Rightarrow> ses')"

lemma tick_peer_session:
  "hm_get (sessions (snd (tick_peer L K io now p s))) x =
     (if x = p then map_option (ticked now) (hm_get (sessions s) p) else hm_get (sessions s) x)"
  by (auto simp: tick_peer_def ticked_def Let_def split: option.splits prod.splits TickAction.splits)

lemma snd_tick_peers:
  "snd (tick_peers L K io now (p # ps) s) = snd (tick_peers L K io now ps (snd (tick_peer L K io now p s)))"
  by (simp split: prod.splits)

lemma tick_peers_session:
  "distinct ps \<Longrightarrow> hm_get (sessions (snd (tick_peers L K io now ps s))) x =
     (if x \<in> set ps then map_option (ticked now) (hm_get (sessions s) x) else hm_get (sessions s) x)"
  by (induction ps arbitrary: s)
    (auto simp: tick_peer_session snd_tick_peers simp del: tick_peers.simps(2))

lemma ota_tick_session:
  assumes "hm_wf (sessions s)"
  shows "hm_get (sessions (snd (ota_tick L K io now s))) x = map_option (ticked now) (hm_get (sessions s) x)"
proof -
  have "x \<notin> set (map fst (sessions s)) \<Longrightarrow> hm_get (sessions s) x = None"
    by (simp add: map_of_eq_None_iff)
  then show ?thesis
    using assms unfolding ota_tick_def hm_wf_def by (auto simp: tick_peers_session)
qed

lemma tick_peer_wf: "hm_wf (sessions s) \<Longrightarrow> hm_wf (sessions (snd (tick_peer L K io now p s)))"
  by (auto simp: tick_peer_def Let_def split: option.splits prod.splits TickAction.splits)

lemma ota_tick_wf: "hm_wf (sessions s) \<Longrightarrow> hm_wf (sessions (snd (ota_tick L K io now s)))"
proof -
  have "hm_wf (sessions s) \<Longrightarrow> hm_wf (sessions (snd (tick_peers L K io now ps s)))" for ps
    by (induction ps arbitrary: s) (simp_all add: snd_tick_peers tick_peer_wf del: tick_peers.simps(2))
  then show "hm_wf (sessions s) \<Longrightarrow> hm_wf (sessions (snd (ota_tick L K io now s)))"
    by (simp add: ota_tick_def)
qed

lemma ota_ticks_session:
  "hm_wf (sessions s) \<Longrightarrow>
   hm_get (sessions (final (ota_step L K io) (map OtaTick ts) s)) x = map_option (fold ticked ts) (hm_get (sessions s) x)"
proof (induction ts arbitrary: s)
  case Nil
  then show ?case by (simp add: option.map_id0 [unfolded id_def])
next
  case (Cons now ts)
  then show ?case
    using Cons.IH [OF ota_tick_wf [OF Cons.prems]] by (simp add: ota_tick_session option.map_comp comp_def)
qed

fun last_sent :: "OtaSenderState \<Rightarrow> instant" where
  "last_sent (OfferedState at _) = at"
| "last_sent (TransferringState _ at _) = at"
| "last_sent (WaitingResultState at _) = at"
| "last_sent _ = 0"

text \<open>Ticks each more than the chunk timeout after the one before.\<close>

fun spaced :: "instant \<Rightarrow> instant list \<Rightarrow> bool" where
  "spaced prev [] \<longleftrightarrow> True"
| "spaced prev (now # ts) \<longleftrightarrow> CHUNK_TIMEOUT < now - prev \<and> spaced now ts"

definition failed :: "OtaSession \<Rightarrow> bool" where
  "failed ses \<longleftrightarrow> (\<exists>reason. ota_state ses = FailedState reason)"

lemma ticked_failed: "failed ses \<Longrightarrow> failed (ticked now ses)"
  by (auto simp: failed_def ticked_def tick_session_def)

lemma ticks_failed: "failed ses \<Longrightarrow> failed (fold ticked ts ses)"
  by (induction ts arbitrary: ses) (simp_all add: ticked_failed)

lemma ticked_unanswered:
  assumes "state_phase (ota_state ses) = Some (ph, r)" "CHUNK_TIMEOUT < now - last_sent (ota_state ses)"
  shows "failed (ticked now ses) \<or> r < 5 \<and> state_phase (ota_state (ticked now ses)) = Some (ph, Suc r)
    \<and> last_sent (ota_state (ticked now ses)) = now"
proof (cases "is_timed_out now ses")
  case True
  then show ?thesis
    by (simp add: ticked_def tick_session_def failed_def)
next
  case False
  have retries: "\<not> MAX_RETRIES_PER_CHUNK \<le> q \<Longrightarrow> unat q < 5 \<and> unat (q + 1) = Suc (unat q)" for q
    using retry_step [of q] by (simp add: MAX_RETRIES_PER_CHUNK_def word_le_nat_alt)
  show ?thesis
    using assms False by (cases "ota_state ses") (auto simp: ticked_def tick_session_def failed_def dest: retries)
qed

lemma unanswered_fails:
  "state_phase (ota_state ses) = Some (ph, r) \<Longrightarrow> spaced (last_sent (ota_state ses)) ts \<Longrightarrow> 6 \<le> r + length ts \<Longrightarrow> r \<le> 5 \<Longrightarrow>
   failed (fold ticked ts ses)"
proof (induction ts arbitrary: ses r)
  case (Cons now ts)
  from ticked_unanswered [OF Cons.prems(1), of now] consider "failed (ticked now ses)"
    | "r < 5" "state_phase (ota_state (ticked now ses)) = Some (ph, Suc r)" "last_sent (ota_state (ticked now ses)) = now"
    using Cons.prems(2) by auto
  then show ?case
  proof cases
    case 1
    then show ?thesis by (simp add: ticks_failed)
  next
    case 2
    then show ?thesis
      using Cons.IH [OF 2(2)] Cons.prems by simp
  qed
qed simp

text \<open>
  A session whose peer falls silent does not wait for ever: whatever it waits
  for, after six ticks more than half a second apart it has failed, whatever the
  other sessions of the sender do.
\<close>

lemma ota_silent_peer_fails:
  assumes "hm_wf (sessions s)" "hm_get (sessions s) peer = Some ses"
    and "state_phase (ota_state ses) = Some (ph, r)" "r \<le> 5"
    and "spaced (last_sent (ota_state ses)) ts" "length ts = 6"
  shows "\<exists>ses' reason. hm_get (sessions (final (ota_step L K io) (map OtaTick ts) s)) peer = Some ses' \<and>
    ota_state ses' = FailedState reason"
  using unanswered_fails [OF assms(3,5) _ assms(4)] assms(6)
  by (simp add: ota_ticks_session [OF assms(1)] assms(2) failed_def)

definition sample_session :: "OtaSenderState \<Rightarrow> OtaSession" where
  "sample_session st = \<lparr>session_id = 1, ota_peer = lite_node_id 9, firmware = firmware_new sample_crypto sample_ota [1, 2, 3] ''1.0'',
     ota_state = st, started_at = 0, chunks_acked = 0\<rparr>"

definition sample_sender :: "OtaSenderState \<Rightarrow> nat OtaSender" where
  "sample_sender st = (ota_sender_new sample_ota_transport None)\<lparr>sessions := [(lite_node_id 9, sample_session st)]\<rparr>"


text \<open>
  A finished update does not stay finished: at every tick more than five
  minutes after the offer the session of a complete update is marked as failed
  and the peer is sent an abort.
\<close>

lemma ota_completed_update_aborted:
  assumes "sessions s = [(peer, ses)]" "ota_state ses = CompleteState" "link_ok io (ota_transport s) peer a"
    and "SESSION_TIMEOUT < now - started_at ses"
  shows "fst (ota_tick L K io now s) =
      [(lite_encode L (ota_abort (local_node_id (ota_transport s)) (session_id ses) (OTA_ABORT_TOO_MANY_RETRIES K)), a)] \<and>
    map_option ota_state (hm_get (sessions (snd (ota_tick L K io now s))) peer) = Some (FailedState ''session timeout'')"
  using assms by (simp add: ota_tick_def tick_peer_def tick_session_def is_timed_out_def link_send)


text \<open>A late acknowledgement reopens a session that is complete or has failed.\<close>

lemma late_ack_reopens:
  assumes "hm_get (sessions s) peer = Some ses" "session_id ses = sid" "Suc k = unat (fw_total_chunks (firmware ses))" "Suc k < 65536"
  shows "map_option ota_state (hm_get (sessions (snd (handle_ack L io now peer (ota_reply sid k) s))) peer)
    = Some (WaitingResultState now 0)"
proof -
  have "fw_total_chunks (firmware ses) \<le> word_of_nat k + 1"
    using assms(3,4) unat_word16 [of "Suc k"] by (metis add.commute of_nat_Suc order_refl word_le_nat_alt)
  moreover have "k < 65536"
    using assms(4) by simp
  ultimately show ?thesis
    using assms(1,2) by (simp add: handle_ack_def Let_def)
qed

end
