(* ===== verification/Floats.thy ===== *)
theory Floats
  imports Prelude Complex_Main "HOL-Library.Log_Nat" "HOL-Library.Multiset"
begin

text \<open>
  The binary floating-point numbers \<^verbatim>\<open>f32\<close> and \<^verbatim>\<open>f64\<close> of the language, as far as the
  code computes with them.  A finite number is the rational it stands for; every
  operation rounds the exact result to the nearest number of the format, ties to
  even, with gradual underflow and overflow to infinity.  Zero has no sign: no code
  below divides by a zero that could be negative.
\<close>

section \<open>Rounding\<close>

definition round_even :: "rat \<Rightarrow> int" where
  "round_even q =
     (let n = \<lfloor>q\<rfloor>; r = q - of_int n
      in if r < 1 / 2 then n else if 1 / 2 < r then n + 1 else if even n then n else n + 1)"

text \<open>The exponent of a positive number, from the lengths of its numerator and denominator.\<close>

definition exponent :: "rat \<Rightarrow> int" where
  "exponent q =
     (let (a, b) = quotient_of q; k = bitlen a - bitlen b
      in if 2 powi k * of_int b \<le> (of_int a :: rat) then k else k - 1)"

datatype format = F32 | F64

fun precision :: "format \<Rightarrow> int" where
  "precision F32 = 24"
| "precision F64 = 53"

fun emin :: "format \<Rightarrow> int" where
  "emin F32 = -126"
| "emin F64 = -1022"

fun emax :: "format \<Rightarrow> int" where
  "emax F32 = 127"
| "emax F64 = 1023"

definition spacing :: "format \<Rightarrow> rat \<Rightarrow> rat" where
  "spacing f q = 2 powi (max (exponent \<bar>q\<bar>) (emin f) - (precision f - 1))"

definition rounded :: "format \<Rightarrow> rat \<Rightarrow> rat" where
  "rounded f q = (if q = 0 then 0 else of_int (round_even (q / spacing f q)) * spacing f q)"

section \<open>Numbers and operations\<close>

datatype float = Fin rat | PosInf | NegInf | NaN

definition fround :: "format \<Rightarrow> rat \<Rightarrow> float" where
  "fround f q =
     (let r = rounded f q
      in if 2 powi (emax f + 1) \<le> r then PosInf else if r \<le> - (2 powi (emax f + 1)) then NegInf else Fin r)"

definition f32 :: "rat \<Rightarrow> float" where
  "f32 q = fround F32 q"

definition f64 :: "rat \<Rightarrow> float" where
  "f64 q = fround F64 q"

definition of_usize :: "format \<Rightarrow> u64 \<Rightarrow> float" where
  "of_usize f n = fround f (of_nat (unat n))"

definition sgn_inf :: "bool \<Rightarrow> float" where
  "sgn_inf neg = (if neg then NegInf else PosInf)"

definition fadd :: "format \<Rightarrow> float \<Rightarrow> float \<Rightarrow> float" where
  "fadd f x y =
     (case (x, y) of
        (Fin a, Fin b) \<Rightarrow> fround f (a + b)
      | _ \<Rightarrow> if x = NaN \<or> y = NaN \<or> x = PosInf \<and> y = NegInf \<or> x = NegInf \<and> y = PosInf then NaN
            else if x = PosInf \<or> y = PosInf then PosInf else NegInf)"

fun negative :: "float \<Rightarrow> bool" where
  "negative (Fin a) = (a < 0)"
| "negative NegInf = True"
| "negative x = False"

definition fneg :: "float \<Rightarrow> float" where
  "fneg x = (case x of Fin a \<Rightarrow> Fin (- a) | PosInf \<Rightarrow> NegInf | NegInf \<Rightarrow> PosInf | NaN \<Rightarrow> NaN)"

definition fsub :: "format \<Rightarrow> float \<Rightarrow> float \<Rightarrow> float" where
  "fsub f x y = fadd f x (fneg y)"

definition fmul :: "format \<Rightarrow> float \<Rightarrow> float \<Rightarrow> float" where
  "fmul f x y =
     (case (x, y) of
        (Fin a, Fin b) \<Rightarrow> fround f (a * b)
      | _ \<Rightarrow> if x = NaN \<or> y = NaN \<or> x = Fin 0 \<or> y = Fin 0 then NaN else sgn_inf (negative x \<noteq> negative y))"

definition fdiv :: "format \<Rightarrow> float \<Rightarrow> float \<Rightarrow> float" where
  "fdiv f x y =
     (case (x, y) of
        (Fin a, Fin b) \<Rightarrow> if b = 0 then (if a = 0 then NaN else sgn_inf (a < 0)) else fround f (a / b)
      | (NaN, _) \<Rightarrow> NaN
      | (_, NaN) \<Rightarrow> NaN
      | (Fin _, _) \<Rightarrow> Fin 0
      | (_, Fin b) \<Rightarrow> sgn_inf (negative x \<noteq> (b < 0))
      | _ \<Rightarrow> NaN)"

fun flt :: "float \<Rightarrow> float \<Rightarrow> bool" where
  "flt (Fin a) (Fin b) = (a < b)"
| "flt NegInf (Fin b) = True"
| "flt NegInf PosInf = True"
| "flt (Fin a) PosInf = True"
| "flt x y = False"

definition feq :: "float \<Rightarrow> float \<Rightarrow> bool" where
  "feq x y \<longleftrightarrow> x = y \<and> x \<noteq> NaN"

definition fle :: "float \<Rightarrow> float \<Rightarrow> bool" where
  "fle x y \<longleftrightarrow> flt x y \<or> feq x y"

definition fmin :: "float \<Rightarrow> float \<Rightarrow> float" where
  "fmin x y = (if x = NaN then y else if y = NaN then x else if flt y x then y else x)"

definition fmax :: "float \<Rightarrow> float \<Rightarrow> float" where
  "fmax x y = (if x = NaN then y else if y = NaN then x else if flt x y then y else x)"

definition fclamp :: "float \<Rightarrow> float \<Rightarrow> float \<Rightarrow> float" where
  "fclamp lo hi x = (if flt x lo then lo else if flt hi x then hi else x)"

text \<open>Rounding to an integer takes halves away from zero.\<close>

definition fabs :: "float \<Rightarrow> float" where
  "fabs x = (if negative x then fneg x else x)"

definition fround_int :: "float \<Rightarrow> float" where
  "fround_int x =
     (case x of
        Fin a \<Rightarrow> Fin (of_int (if a < 0 then - \<lfloor>1 / 2 - a\<rfloor> else \<lfloor>a + 1 / 2\<rfloor>))
      | _ \<Rightarrow> x)"

text \<open>Durations in seconds.  A duration made from a number is rounded to the nearest nanosecond.\<close>

definition as_secs_f64 :: "duration \<Rightarrow> float" where
  "as_secs_f64 d = fadd F64 (of_usize F64 (word_of_nat (d div 10 ^ 9)))
     (fdiv F64 (of_usize F64 (word_of_nat (d mod 10 ^ 9))) (f64 1000000000))"

definition from_secs_f64 :: "float \<Rightarrow> 'e failure + duration" where
  "from_secs_f64 x =
     (case x of
        Fin a \<Rightarrow>
          if 0 \<le> a \<and> round_even (a * 10 ^ 9) < 2 ^ 64 * 10 ^ 9 then Inr (nat (round_even (a * 10 ^ 9)))
          else Inl Panic
      | _ \<Rightarrow> Inl Panic)"

text \<open>The cast to an unsigned integer cuts the fraction and saturates; NaN becomes 0.\<close>

fun to_u64 :: "float \<Rightarrow> u64" where
  "to_u64 (Fin a) = word_of_nat (min (nat \<lfloor>a\<rfloor>) (2 ^ 64 - 1))"
| "to_u64 PosInf = -1"
| "to_u64 x = 0"

fun to_u8 :: "float \<Rightarrow> u8" where
  "to_u8 (Fin a) = word_of_nat (min (nat \<lfloor>a\<rfloor>) (2 ^ 8 - 1))"
| "to_u8 PosInf = -1"
| "to_u8 x = 0"

fun to_u32 :: "float \<Rightarrow> u32" where
  "to_u32 (Fin a) = word_of_nat (min (nat \<lfloor>a\<rfloor>) (2 ^ 32 - 1))"
| "to_u32 PosInf = -1"
| "to_u32 x = 0"

text \<open>
  A stable sort with the greatest keys first, as \<^verbatim>\<open>sort_by\<close> with the two arguments of
  \<^verbatim>\<open>partial_cmp\<close> exchanged and incomparable keys taken as equal.
\<close>

fun insert_desc :: "('a \<Rightarrow> float) \<Rightarrow> 'a \<Rightarrow> 'a list \<Rightarrow> 'a list" where
  "insert_desc k x [] = [x]"
| "insert_desc k x (y # ys) = (if flt (k x) (k y) then y # insert_desc k x ys else x # y # ys)"

definition sort_desc :: "('a \<Rightarrow> float) \<Rightarrow> 'a list \<Rightarrow> 'a list" where
  "sort_desc k xs = foldr (insert_desc k) xs []"

section \<open>Rounding is monotone\<close>

lemma round_even_bounds:
  "of_int (round_even q) - 1 / 2 \<le> q \<and> q \<le> of_int (round_even q) + 1 / 2"
proof -
  have "of_int \<lfloor>q\<rfloor> \<le> q" "q < of_int \<lfloor>q\<rfloor> + 1"
    by linarith+
  then show ?thesis
    by (simp add: round_even_def Let_def) linarith
qed

lemma round_even_int [simp]: "round_even (of_int n) = n"
  by (simp add: round_even_def)

lemma round_even_mono: "x \<le> y \<Longrightarrow> round_even x \<le> round_even y"
proof -
  assume xy: "x \<le> y"
  then have fl: "\<lfloor>x\<rfloor> \<le> \<lfloor>y\<rfloor>"
    by (rule floor_mono)
  have le: "round_even x \<le> \<lfloor>x\<rfloor> + 1" and ge: "\<lfloor>y\<rfloor> \<le> round_even y"
    by (simp_all add: round_even_def Let_def)
  show ?thesis
  proof (cases "\<lfloor>x\<rfloor> = \<lfloor>y\<rfloor>")
    case True
    then show ?thesis
      using xy by (auto simp: round_even_def Let_def)
  next
    case False
    then show ?thesis
      using fl le ge by linarith
  qed
qed

lemma round_even_minus: "round_even (- q) = - round_even q"
proof (cases "q = of_int \<lfloor>q\<rfloor>")
  case True
  then have "round_even q = \<lfloor>q\<rfloor>" "round_even (- q) = - \<lfloor>q\<rfloor>"
    using round_even_int [of "\<lfloor>q\<rfloor>"] round_even_int [of "- \<lfloor>q\<rfloor>"] by (metis, metis of_int_minus)
  then show ?thesis
    by simp
next
  case False
  then have "\<lfloor>- q\<rfloor> = - \<lfloor>q\<rfloor> - 1"
    by (simp add: floor_minus ceiling_altdef)
  then show ?thesis
    by (auto simp: round_even_def Let_def)
qed

lemma bitlen_power:
  "0 < a \<Longrightarrow> 2 powi (bitlen a - 1) \<le> (of_int a :: rat) \<and> (of_int a :: rat) < 2 powi bitlen a"
proof -
  assume a: "0 < a"
  have len: "0 < bitlen a"
    using a bitlen_bounds [of a] bitlen_nonneg [of a] by (cases "bitlen a = 0") auto
  have "2 ^ nat (bitlen a - 1) \<le> a \<and> a < 2 ^ nat (bitlen a)"
    using bitlen_bounds [of a] a by simp
  then have "(of_int (2 ^ nat (bitlen a - 1)) :: rat) \<le> of_int a \<and> (of_int a :: rat) < of_int (2 ^ nat (bitlen a))"
    by (simp only: of_int_le_iff of_int_less_iff)
  then show ?thesis
    using len by (simp add: power_int_def)
qed

lemma exponent_bounds:
  assumes "0 < q"
  shows "2 powi exponent q \<le> q \<and> q < 2 powi (exponent q + 1)"
proof -
  obtain a b where ab: "quotient_of q = (a, b)"
    by (cases "quotient_of q")
  have b: "0 < b"
    using ab by (rule quotient_of_denom_pos)
  have q: "q = of_int a / of_int b"
    using ab by (rule quotient_of_div)
  have a: "0 < a"
    using assms b by (simp add: q zero_less_divide_iff)
  define k where "k = bitlen a - bitlen b"
  have A: "2 powi (bitlen a - 1) \<le> (of_int a :: rat)" "(of_int a :: rat) < 2 powi bitlen a"
    and B: "2 powi (bitlen b - 1) \<le> (of_int b :: rat)" "(of_int b :: rat) < 2 powi bitlen b"
    using bitlen_power [OF a] bitlen_power [OF b] by simp_all
  have up: "of_int a < 2 powi (k + 1) * (of_int b :: rat)"
  proof -
    have "2 powi bitlen a = 2 powi (k + 1) * (2 powi (bitlen b - 1) :: rat)"
      by (simp add: k_def flip: power_int_add)
    also have "\<dots> \<le> 2 powi (k + 1) * of_int b"
      using B(1) by (simp add: mult_left_mono)
    finally show ?thesis
      using A(2) by simp
  qed
  have lo: "2 powi (k - 1) * (of_int b :: rat) \<le> of_int a"
  proof -
    have "2 powi (k - 1) * of_int b \<le> 2 powi (k - 1) * (2 powi bitlen b :: rat)"
      using B(2) by (simp add: mult_left_mono)
    also have "\<dots> = 2 powi (bitlen a - 1)"
      by (simp add: k_def flip: power_int_add)
    finally show ?thesis
      using A(1) by simp
  qed
  have ex: "exponent q = (if 2 powi k * of_int b \<le> (of_int a :: rat) then k else k - 1)"
    by (simp add: exponent_def ab k_def Let_def)
  show ?thesis
  proof (cases "2 powi k * of_int b \<le> (of_int a :: rat)")
    case True
    then have "exponent q = k"
      by (simp add: ex)
    then show ?thesis
      using True up b unfolding q by (simp add: le_divide_eq divide_less_eq)
  next
    case False
    then have "exponent q = k - 1"
      by (simp add: ex)
    then show ?thesis
      using False lo b unfolding q by (simp add: le_divide_eq divide_less_eq)
  qed
qed

lemma exponent_mono:
  assumes "0 < x" "x \<le> y"
  shows "exponent x \<le> exponent y"
proof (rule ccontr)
  assume "\<not> exponent x \<le> exponent y"
  then have "(2 :: rat) powi (exponent y + 1) \<le> 2 powi exponent x"
    by (intro power_int_increasing) simp_all
  then show False
    using exponent_bounds [of x] exponent_bounds [of y] assms by linarith
qed

lemma spacing_pos [simp]: "0 < spacing f q"
  by (simp add: spacing_def)

lemma spacing_nonzero [simp]: "spacing f q \<noteq> 0"
  using spacing_pos [of f q] by linarith

lemma spacing_minus [simp]: "spacing f (- q) = spacing f q"
  by (simp add: spacing_def)

lemma rounded_minus: "rounded f (- q) = - rounded f q"
  by (simp add: rounded_def round_even_minus)

lemma rounded_zero [simp]: "rounded f 0 = 0"
  by (simp add: rounded_def)

lemma rounded_nonneg:
  assumes "0 \<le> q"
  shows "0 \<le> rounded f q"
proof -
  have "round_even 0 \<le> round_even (q / spacing f q)"
    using assms spacing_pos [of f q] by (intro round_even_mono) (simp add: zero_le_divide_iff less_imp_le)
  moreover have "round_even 0 = 0"
    using round_even_int [of 0] by simp
  ultimately show ?thesis
    using spacing_pos [of f q] by (simp add: rounded_def less_imp_le)
qed

lemma precision_pos: "0 < precision f"
  by (cases f) simp_all

lemma rounded_mono_pos:
  assumes "0 < x" "x \<le> y"
  shows "rounded f x \<le> rounded f y"
proof (cases "spacing f x = spacing f y")
  case True
  have "round_even (x / spacing f y) \<le> round_even (y / spacing f y)"
    using assms spacing_pos [of f y] by (intro round_even_mono) (simp add: divide_right_mono less_imp_le)
  then show ?thesis
    using assms True by (simp add: rounded_def mult_right_mono)
next
  case False
  define p where "p = precision f"
  have p: "0 < p"
    by (simp add: p_def precision_pos)
  define ex where "ex = max (exponent x) (emin f)"
  define ey where "ey = max (exponent y) (emin f)"
  have sx: "spacing f x = 2 powi (ex - (p - 1))" and sy: "spacing f y = 2 powi (ey - (p - 1))"
    using assms by (simp_all add: spacing_def ex_def ey_def p_def)
  have "exponent x \<le> exponent y"
    using assms by (rule exponent_mono)
  then have lt: "ex < ey" "ey = exponent y"
    using False by (auto simp: sx sy ex_def ey_def max_def split: if_splits intro: le_neq_trans)
  have two: "(of_int (2 ^ nat p) :: rat) = 2 powi p" "(of_int (2 ^ nat (p - 1)) :: rat) = 2 powi (p - 1)"
    using p by (simp_all add: power_int_def)
  have "x < 2 powi (ex + 1)"
  proof -
    have "x < 2 powi (exponent x + 1)"
      using exponent_bounds assms(1) by simp
    also have "\<dots> \<le> 2 powi (ex + 1)"
      by (intro power_int_increasing) (simp_all add: ex_def)
    finally show ?thesis .
  qed
  also have "(2 :: rat) powi (ex + 1) = 2 powi p * spacing f x"
    by (simp add: sx flip: power_int_add)
  finally have "x / spacing f x \<le> of_int (2 ^ nat p)"
    unfolding two by (simp add: divide_le_eq)
  then have "round_even (x / spacing f x) \<le> 2 ^ nat p"
    using round_even_mono round_even_int by metis
  then have "(of_int (round_even (x / spacing f x)) :: rat) \<le> 2 powi p"
    unfolding two(1) [symmetric] by (simp only: of_int_le_iff)
  then have a: "rounded f x \<le> 2 powi (ex + 1)"
    using assms by (simp add: rounded_def \<open>2 powi (ex + 1) = 2 powi p * spacing f x\<close> mult_right_mono)
  have "2 powi (p - 1) * spacing f y \<le> y"
    using exponent_bounds [of y] assms by (simp add: sy lt(2) flip: power_int_add)
  then have "of_int (2 ^ nat (p - 1)) \<le> y / spacing f y"
    unfolding two by (simp add: le_divide_eq)
  then have "2 ^ nat (p - 1) \<le> round_even (y / spacing f y)"
    using round_even_mono round_even_int by metis
  then have "2 powi (p - 1) \<le> (of_int (round_even (y / spacing f y)) :: rat)"
    unfolding two(2) [symmetric] by (simp only: of_int_le_iff)
  then have "2 powi (p - 1) * spacing f y \<le> rounded f y"
    using assms by (simp add: rounded_def mult_right_mono)
  then have b: "2 powi ey \<le> rounded f y"
    by (simp add: sy flip: power_int_add)
  have "(2 :: rat) powi (ex + 1) \<le> 2 powi ey"
    using lt(1) by (intro power_int_increasing) simp_all
  then show ?thesis
    using a b by linarith
qed

lemma rounded_mono: "x \<le> y \<Longrightarrow> rounded f x \<le> rounded f y"
proof -
  assume xy: "x \<le> y"
  consider "0 < x" | "x \<le> 0" "0 \<le> y" | "y < 0"
    by linarith
  then show ?thesis
  proof cases
    case 1
    then show ?thesis
      using xy by (rule rounded_mono_pos)
  next
    case 2
    have "0 \<le> rounded f (- x)"
      using 2 by (intro rounded_nonneg) simp
    then show ?thesis
      using rounded_nonneg [OF 2(2), of f] by (simp add: rounded_minus)
  next
    case 3
    have "rounded f (- y) \<le> rounded f (- x)"
      using xy 3 by (intro rounded_mono_pos) simp_all
    then show ?thesis
      by (simp add: rounded_minus)
  qed
qed

lemma rounded_exact:
  assumes "q = of_int m * 2 powi e" "\<bar>m\<bar> < 2 ^ nat (precision f)" "emin f - (precision f - 1) \<le> e"
  shows "rounded f q = q"
proof (cases "m = 0")
  case True
  then show ?thesis
    using assms(1) by simp
next
  case False
  define s where "s = max (exponent \<bar>q\<bar>) (emin f) - (precision f - 1)"
  have sp: "spacing f q = 2 powi s"
    by (simp add: spacing_def s_def)
  have q: "\<bar>q\<bar> = of_int \<bar>m\<bar> * 2 powi e" "0 < \<bar>q\<bar>"
    using False by (simp_all add: assms(1) abs_mult)
  have "(of_int \<bar>m\<bar> :: rat) < of_int (2 ^ nat (precision f))"
    using assms(2) by (simp only: of_int_less_iff)
  then have "\<bar>q\<bar> < 2 powi precision f * 2 powi e"
    using precision_pos [of f] by (simp add: q(1) power_int_def)
  also have "(2 :: rat) powi precision f * 2 powi e = 2 powi (precision f + e)"
    by (simp add: power_int_add)
  finally have "(2 :: rat) powi exponent \<bar>q\<bar> < 2 powi (precision f + e)"
    using exponent_bounds [OF q(2)] by linarith
  then have "exponent \<bar>q\<bar> < precision f + e"
    using power_int_increasing [of "precision f + e" "exponent \<bar>q\<bar>" "2 :: rat"] by fastforce
  then have se: "s \<le> e"
    using assms(3) by (simp add: s_def)
  then have "q / spacing f q = of_int m * 2 powi (e - s)"
    unfolding sp by (simp add: assms(1) power_int_diff)
  also have "\<dots> = of_int (m * 2 ^ nat (e - s))"
    using se by (simp add: power_int_def)
  finally have "of_int (round_even (q / spacing f q)) = q / spacing f q"
    by (simp only: round_even_int)
  then show ?thesis
    by (simp add: rounded_def)
qed

lemma rounded_int: "\<bar>n\<bar> < 2 ^ nat (precision f) \<Longrightarrow> rounded f (of_int n) = of_int n"
  by (rule rounded_exact [where m = n and e = 0]) (cases f; simp)+

section \<open>Bounds of computed values\<close>

lemma rounded_error: "\<bar>rounded f q - q\<bar> * 2 \<le> spacing f q"
proof (cases "q = 0")
  case False
  have "\<bar>of_int (round_even (q / spacing f q)) - q / spacing f q\<bar> \<le> 1 / 2"
    using round_even_bounds [of "q / spacing f q"] by linarith
  then have "\<bar>of_int (round_even (q / spacing f q)) - q / spacing f q\<bar> * spacing f q \<le> 1 / 2 * spacing f q"
    by (rule mult_right_mono) (simp add: less_imp_le)
  also have "\<bar>of_int (round_even (q / spacing f q)) - q / spacing f q\<bar> * spacing f q =
      \<bar>(of_int (round_even (q / spacing f q)) - q / spacing f q) * spacing f q\<bar>"
    by (simp add: abs_mult abs_of_pos)
  also have "(of_int (round_even (q / spacing f q)) - q / spacing f q) * spacing f q = rounded f q - q"
    using False by (simp add: rounded_def left_diff_distrib)
  finally show ?thesis
    by simp
qed (simp add: less_imp_le)

lemma rounded_bounds: "q - spacing f q / 2 \<le> rounded f q \<and> rounded f q \<le> q + spacing f q / 2"
proof -
  have "\<bar>rounded f q - q\<bar> \<le> spacing f q / 2"
    using rounded_error [of f q] by simp
  then have "rounded f q - q \<le> spacing f q / 2" "- (rounded f q - q) \<le> spacing f q / 2"
    by (simp_all only: abs_le_iff)
  then show ?thesis
    by linarith
qed

lemma spacing_le:
  assumes "0 < q" "q < 2 powi k" "emin f < k"
  shows "spacing f q \<le> 2 powi (k - precision f)"
proof -
  have "(2 :: rat) powi exponent q < 2 powi k"
    using exponent_bounds [OF assms(1)] assms(2) by linarith
  then have "exponent q < k"
    using power_int_increasing [of k "exponent q" "2 :: rat"] by fastforce
  then show ?thesis
    unfolding spacing_def using assms by (intro power_int_increasing) simp_all
qed

lemma spacing_le_self:
  assumes "1 \<le> q"
  shows "spacing f q \<le> q"
proof -
  have q: "0 < q"
    using assms by linarith
  have "(1 :: rat) < 2 powi (exponent q + 1)"
    using exponent_bounds [OF q] assms by linarith
  then have "0 \<le> exponent q"
    using power_int_increasing [of "exponent q + 1" 0 "2 :: rat"] by fastforce
  then have "spacing f q \<le> 2 powi exponent q"
    unfolding spacing_def using q precision_pos [of f] by (intro power_int_increasing) (cases f; simp)+
  then show ?thesis
    using exponent_bounds [OF q] by linarith
qed

text \<open>A value that lies between two integers a double represents.\<close>

definition between :: "int \<Rightarrow> int \<Rightarrow> float \<Rightarrow> bool" where
  "between lo hi v \<longleftrightarrow> (\<exists>z. v = Fin z \<and> of_int lo \<le> z \<and> z \<le> of_int hi)"

lemma fround_between:
  assumes "of_int lo \<le> q" "q \<le> of_int hi" "0 \<le> lo" "hi < 2 ^ 53"
  shows "between lo hi (fround F64 q)"
proof -
  have "lo \<le> hi"
    using assms(1,2) of_int_le_iff order_trans by blast
  then have "rounded F64 (of_int lo) = of_int lo" "rounded F64 (of_int hi) = of_int hi"
    using assms(3,4) by (simp_all add: rounded_int)
  then have r: "of_int lo \<le> rounded F64 q" "rounded F64 q \<le> of_int hi"
    using rounded_mono [OF assms(1), of F64] rounded_mono [OF assms(2), of F64] by simp_all
  have "(of_int hi :: rat) < of_int (2 ^ 53)"
    using assms(4) by (simp only: of_int_less_iff)
  also have "(of_int (2 ^ 53) :: rat) \<le> 2 powi 1024"
    using power_increasing [of 53 1024 "2 :: rat"] by (simp add: power_int_def)
  finally have "rounded F64 q < 2 powi 1024"
    using r(2) by linarith
  moreover have "- (2 powi 1024) < rounded F64 q"
    using r(1) assms(3) zero_less_power_int [of "2 :: rat" 1024] of_int_0_le_iff [of lo, where ?'a = rat] by linarith
  ultimately show ?thesis
    using r by (simp add: fround_def between_def)
qed

lemma between_add:
  assumes "between a b x" "between c d y" "0 \<le> a" "0 \<le> c" "b + d < 2 ^ 53"
  shows "between (a + c) (b + d) (fadd F64 x y)"
proof -
  obtain p q where "x = Fin p" "y = Fin q" "of_int a \<le> p" "p \<le> of_int b" "of_int c \<le> q" "q \<le> of_int d"
    using assms(1,2) by (auto simp: between_def)
  then show ?thesis
    using assms(3-5) by (simp add: fadd_def) (intro fround_between; simp add: add_mono)
qed

lemma between_mul:
  assumes "between a b x" "0 \<le> a" "0 \<le> k" "b * k < 2 ^ 53"
  shows "between (a * k) (b * k) (fmul F64 x (Fin (of_int k)))"
proof -
  obtain p where "x = Fin p" "of_int a \<le> p" "p \<le> of_int b"
    using assms(1) by (auto simp: between_def)
  then show ?thesis
    using assms(2-4) by (simp add: fmul_def) (intro fround_between; simp add: mult_right_mono)
qed

lemma f64_int: "\<bar>n\<bar> < 2 ^ 53 \<Longrightarrow> f64 (of_int n) = Fin (of_int n)"
proof -
  assume n: "\<bar>n\<bar> < 2 ^ 53"
  have r: "rounded F64 (of_int n) = of_int n"
    using n by (simp add: rounded_int)
  have "\<bar>of_int n :: rat\<bar> < of_int (2 ^ 53)"
    using n by (metis of_int_abs of_int_less_iff)
  also have "(of_int (2 ^ 53) :: rat) \<le> 2 powi 1024"
    using power_increasing [of 53 1024 "2 :: rat"] by (simp add: power_int_def)
  finally show ?thesis
    by (auto simp: f64_def fround_def r abs_less_iff)
qed


lemma fround_strict:
  assumes "0 < u" "u + 1 \<le> v" "v \<le> 2 ^ 43"
  shows "flt (fround F64 u) (fround F64 v)"
proof -
  have pos: "0 < v" "u < 2 powi 44" "v < 2 powi 44"
    using assms by (simp_all add: power_int_def)
  have s: "spacing F64 u \<le> 1 / 2" "spacing F64 v \<le> 1 / 2"
    using spacing_le [of u 44 F64] spacing_le [of v 44 F64] assms(1) pos
    by (simp_all add: power_int_def power_divide)
  have lt: "rounded F64 u < rounded F64 v"
    using rounded_bounds [of u F64] rounded_bounds [of v F64] s assms(2) by linarith
  have "v + 1 \<le> (2 :: rat) powi 1024"
    using power_increasing [of 44 1024 "2 :: rat"] assms(3) by (simp add: power_int_def)
  then have "rounded F64 v < 2 powi 1024"
    using rounded_bounds [of v F64] s(2) by linarith
  moreover have "- (2 powi 1024) < rounded F64 u"
    using rounded_nonneg [of u F64] assms(1) zero_less_power_int [of "2 :: rat" 1024] by linarith
  ultimately show ?thesis
    using lt by (simp add: fround_def)
qed

lemma fround_nonneg: "0 \<le> q \<Longrightarrow> fround f q = PosInf \<or> (\<exists>z. fround f q = Fin z \<and> 0 \<le> z)"
  using rounded_nonneg [of q f] zero_less_power_int [of "2 :: rat" "emax f + 1"]
  by (auto simp: fround_def Let_def)

lemma of_usize_fin: "\<exists>z. of_usize f n = Fin z \<and> 0 \<le> z \<and> (n \<noteq> 0 \<longrightarrow> 1 \<le> z)"
proof -
  have "(of_nat (unat n) :: rat) \<le> of_nat (2 ^ 64)"
    by (simp only: of_nat_le_iff) (simp add: less_imp_le)
  then have "rounded f (of_nat (unat n)) \<le> rounded f (2 ^ 64)"
    by (intro rounded_mono) simp
  moreover have r64: "rounded f (2 ^ 64) = 2 ^ 64"
    by (rule rounded_exact [where m = 1 and e = 64]) (cases f; simp add: power_int_def)+
  moreover have "(2 :: rat) ^ 64 < 2 powi (emax f + 1)"
    by (cases f) (simp_all add: power_int_def)
  ultimately have hi: "rounded f (of_nat (unat n)) < 2 powi (emax f + 1)"
    by linarith
  have lo: "0 \<le> rounded f (of_nat (unat n))"
    by (rule rounded_nonneg) (rule of_nat_0_le_iff)
  have "n \<noteq> 0 \<Longrightarrow> 1 \<le> unat n"
    by (simp add: Suc_leI unat_gt_0)
  then have "n \<noteq> 0 \<Longrightarrow> rounded f 1 \<le> rounded f (of_nat (unat n))"
    using of_nat_mono [of 1 "unat n", where ?'a = rat] by (intro rounded_mono) simp
  moreover have "rounded f 1 = 1"
    by (rule rounded_exact [where m = 1 and e = 0]) (cases f; simp)+
  ultimately have one: "n \<noteq> 0 \<longrightarrow> 1 \<le> rounded f (of_nat (unat n))"
    by simp
  have "- (2 powi (emax f + 1)) < rounded f (of_nat (unat n))"
    using lo zero_less_power_int [of "2 :: rat" "emax f + 1"] by linarith
  then show ?thesis
    using hi lo one by (auto simp: of_usize_def fround_def)
qed

text \<open>A quotient of non-negative values cut at one.\<close>

lemma unit_factor:
  assumes "x = Fin a" "0 \<le> a" "y = Fin b" "0 \<le> b"
  shows "between 0 1 (fmin (fdiv F64 x y) (f64 1))"
proof -
  have one: "f64 1 = Fin 1"
    using f64_int [of 1] by simp
  show ?thesis
  proof (cases "b = 0")
    case True
    then show ?thesis
      using assms by (simp add: one fdiv_def fmin_def sgn_inf_def between_def)
  next
    case False
    then have "0 \<le> a / b"
      using assms by simp
    from fround_nonneg [OF this, of F64] show ?thesis
      using assms False by (auto simp: one fdiv_def fmin_def between_def)
  qed
qed

lemma f64_nat: "k < 2 ^ 53 \<Longrightarrow> fround F64 (of_nat k) = Fin (of_nat k)"
  using f64_int [of "int k"] by (simp add: f64_def)

lemma of_usize_exact: "unat n < 2 ^ 53 \<Longrightarrow> of_usize F64 n = Fin (of_nat (unat n))"
  unfolding of_usize_def by (rule f64_nat)

lemma as_secs_f64_whole: "k < 2 ^ 53 \<Longrightarrow> as_secs_f64 (k * 10 ^ 9) = Fin (of_nat k)"
proof -
  assume k: "k < 2 ^ 53"
  have "of_usize F64 (word_of_nat k) = Fin (of_nat k)"
    using k of_usize_exact [of "word_of_nat k"] by (simp add: unsigned_of_nat take_bit_nat_eq_self)
  moreover have "of_usize F64 0 = Fin 0" "f64 1000000000 = Fin 1000000000"
    using of_usize_exact [of 0] f64_int [of 1000000000] by simp_all
  ultimately show ?thesis
    using f64_nat [OF k] f64_int [of 0] by (simp add: as_secs_f64_def fdiv_def fadd_def f64_def)
qed

text \<open>Rounding moves a number below a power of two by at most half its spacing.\<close>

lemma fround_near:
  assumes "0 \<le> q" "q < 2 powi k" "-1022 < k" "k \<le> 1000"
  shows "\<exists>z. fround F64 q = Fin z \<and> 0 \<le> z \<and> \<bar>z - q\<bar> \<le> 2 powi (k - 54)"
proof (cases "q = 0")
  case False
  have s: "spacing F64 q \<le> 2 powi (k - 53)"
    using spacing_le [of q k F64] assms False by simp
  have half: "(2 :: rat) powi (k - 53) / 2 = 2 powi (k - 54)"
    using power_int_diff [of "2 :: rat" "k - 53" 1] by simp
  have near: "\<bar>rounded F64 q - q\<bar> \<le> 2 powi (k - 54)"
    using rounded_bounds [of q F64] s half by linarith
  have "(2 :: rat) powi (k - 54) \<le> 2 powi 1000" "(2 :: rat) powi k \<le> 2 powi 1000"
    using assms(4) by (intro power_int_increasing; simp)+
  moreover have "(2 :: rat) powi 1000 + 2 powi 1000 < 2 powi 1024"
    by simp
  ultimately have "rounded F64 q < 2 powi 1024"
    using near assms(2) by linarith
  then have "fround F64 q = Fin (rounded F64 q)"
    using rounded_nonneg [OF assms(1), of F64] zero_less_power_int [of "2 :: rat" 1024] by (simp add: fround_def Let_def)
  then show ?thesis
    using near rounded_nonneg [OF assms(1), of F64] by simp
qed (auto simp: fround_def)

lemma round_even_within:
  assumes "of_int a - 1 / 2 < q" "q < of_int b + 1 / 2"
  shows "a \<le> round_even q \<and> round_even q \<le> b"
  using round_even_bounds [of q] assms by linarith

section \<open>Numbers of the format\<close>

text \<open>The numbers that \<^verbatim>\<open>f64\<close> represents, up to the largest exponent.\<close>

definition dyadic :: "rat \<Rightarrow> bool" where
  "dyadic z \<longleftrightarrow> (\<exists>m e. z = of_int m * 2 powi e \<and> \<bar>m\<bar> < 2 ^ 53 \<and> -1074 \<le> e)"

lemma dyadic_exact: "dyadic z \<Longrightarrow> rounded F64 z = z"
  unfolding dyadic_def using rounded_exact [of z _ _ F64] by auto

lemma dyadic_nat: "k < 2 ^ 53 \<Longrightarrow> dyadic (of_nat k)"
  unfolding dyadic_def by (intro exI [of _ "int k"] exI [of _ 0]) simp

lemma dyadic_rounded: "dyadic (rounded F64 q)"
proof (cases "q = 0")
  case True
  then show ?thesis
    using dyadic_nat [of 0] by simp
next
  case False
  define e where "e = max (exponent \<bar>q\<bar>) (-1022) - 52"
  define r where "r = round_even (q / spacing F64 q)"
  have s: "spacing F64 q = 2 powi e"
    by (simp add: spacing_def e_def)
  have "\<bar>q\<bar> < 2 powi (exponent \<bar>q\<bar> + 1)"
    using exponent_bounds [of "\<bar>q\<bar>"] False by simp
  also have "\<dots> \<le> 2 powi (e + 53)"
    by (intro power_int_increasing) (auto simp: e_def)
  also have "\<dots> = 2 powi e * of_int (2 ^ 53)"
    using power_int_add [of "2 :: rat" e 53] by simp
  finally have "q / 2 powi e \<le> of_int (2 ^ 53)" "of_int (- (2 ^ 53)) \<le> q / 2 powi e"
    by (simp_all add: divide_le_eq le_divide_eq mult.commute)
  then have rb: "r \<le> 2 ^ 53" "- (2 ^ 53) \<le> r"
    using round_even_mono round_even_int unfolding r_def s by metis+
  have inside: "\<bar>r\<bar> < 2 ^ 53" if "r \<noteq> 2 ^ 53" "r \<noteq> - (2 ^ 53)"
  proof -
    have "r < 2 ^ 53" "- (2 ^ 53) < r"
      using rb that by (metis order_less_le, metis order_less_le)
    then show ?thesis
      by (simp only: abs_less_iff minus_less_iff simp_thms)
  qed
  have halved: "\<exists>m d. of_int r * 2 powi e = (of_int m * 2 powi d :: rat) \<and> \<bar>m\<bar> < 2 ^ 53 \<and> -1074 \<le> d"
    if "r = 2 * h" "\<bar>h\<bar> < 2 ^ 53" for h
  proof (intro exI conjI)
    show "of_int r * 2 powi e = (of_int h * 2 powi (e + 1) :: rat)"
      using power_int_add [of "2 :: rat" e 1] by (simp add: that(1))
    show "-1074 \<le> e + 1"
      by (simp add: e_def)
  qed (rule that(2))
  have "\<exists>m d. of_int r * 2 powi e = (of_int m * 2 powi d :: rat) \<and> \<bar>m\<bar> < 2 ^ 53 \<and> -1074 \<le> d"
  proof (cases "r = 2 ^ 53 \<or> r = - (2 ^ 53)")
    case True
    then have "r = 2 * 2 ^ 52 \<or> r = 2 * - (2 ^ 52)"
      by (elim disjE) simp_all
    moreover have "\<bar>2 ^ 52 :: int\<bar> < 2 ^ 53" "\<bar>- (2 ^ 52) :: int\<bar> < 2 ^ 53"
      by simp_all
    ultimately show ?thesis
      using halved by blast
  next
    case False
    then have "\<bar>r\<bar> < 2 ^ 53"
      using inside by blast
    then show ?thesis
      by (intro exI [of _ r] exI [of _ e]) (simp add: e_def)
  qed
  then show ?thesis
    using False unfolding dyadic_def rounded_def r_def s by simp
qed

text \<open>Subtracting a whole number from a larger number below \<open>2 ^ 53\<close> is exact.\<close>

lemma dyadic_diff:
  assumes "dyadic z" "of_nat k \<le> z" "z < 2 ^ 53"
  shows "dyadic (z - of_nat k)"
proof -
  obtain m e where z: "z = of_int m * 2 powi e" and m: "\<bar>m\<bar> < 2 ^ 53" and e: "-1074 \<le> e"
    using assms(1) by (auto simp: dyadic_def)
  show ?thesis
  proof (cases "0 \<le> e")
    case True
    then have "z = of_int (m * 2 ^ nat e)"
      by (simp add: z power_int_def)
    then have d: "z - of_nat k = of_int (m * 2 ^ nat e - int k)" (is "_ = of_int ?i")
      by simp
    have "(of_int ?i :: rat) < of_int (2 ^ 53)" "(0 :: rat) \<le> of_int ?i"
      using assms(2,3) of_nat_0_le_iff [of k, where 'a = rat] unfolding d [symmetric] by simp_all
    then have "?i < 2 ^ 53" "0 \<le> ?i"
      by (simp_all only: of_int_less_iff of_int_0_le_iff)
    then show ?thesis
      unfolding d dyadic_def by (intro exI [of _ ?i] exI [of _ 0]) simp
  next
    case False
    define i where "i = m - int k * 2 ^ nat (- e)"
    have "(2 :: rat) ^ nat (- e) * 2 powi e = 1"
      using False power_mult_distrib [of "2 :: rat" "1 / 2" "nat (- e)"] by (simp add: power_int_def power_inverse)
    then have d: "z - of_nat k = of_int i * 2 powi e"
      by (simp add: z i_def algebra_simps)
    have "(0 :: rat) \<le> of_int i * 2 powi e"
      using assms(2) unfolding d [symmetric] by simp
    moreover have "of_int i * 2 powi e < (0 :: rat)" if "i < 0"
      by (rule mult_neg_pos) (use that in simp_all)
    ultimately have "0 \<le> i"
      by (meson not_le)
    moreover have "i \<le> m"
      by (simp add: i_def)
    ultimately show ?thesis
      unfolding d dyadic_def using m e by (intro exI [of _ i] exI [of _ e]) auto
  qed
qed

section \<open>Sorting\<close>

lemma mset_insert_desc: "mset (insert_desc k x xs) = add_mset x (mset xs)"
  by (induction xs) auto

lemma mset_sort_desc [simp]: "mset (sort_desc k xs) = mset xs"
  unfolding sort_desc_def by (induction xs) (simp_all add: mset_insert_desc)

lemma set_sort_desc [simp]: "set (sort_desc k xs) = set xs"
  by (rule mset_eq_setD) simp

lemma set_insert_desc [simp]: "set (insert_desc k x xs) = insert x (set xs)"
  by (induction xs) auto

lemma flt_trans: "flt a b \<Longrightarrow> flt b c \<Longrightarrow> flt a c"
  by (cases a; cases b; cases c) auto

lemma not_flt_trans: "\<not> flt a b \<Longrightarrow> \<not> flt b c \<Longrightarrow> b \<noteq> NaN \<Longrightarrow> \<not> flt a c"
  by (cases a; cases b; cases c) auto

lemma sorted_insert_desc:
  assumes "sorted_wrt (\<lambda>a b. \<not> flt (k a) (k b)) xs" "\<forall>y\<in>set (x # xs). k y \<noteq> NaN"
  shows "sorted_wrt (\<lambda>a b. \<not> flt (k a) (k b)) (insert_desc k x xs)"
  using assms
proof (induction xs)
  case (Cons y ys)
  have lt: "flt (k x) (k y) \<Longrightarrow> \<not> flt (k y) (k x)"
    by (cases "k x"; cases "k y") auto
  show ?case
    using Cons lt not_flt_trans [of "k x" "k y"] by auto
qed simp

lemma sorted_sort_desc:
  "\<forall>y\<in>set xs. k y \<noteq> NaN \<Longrightarrow> sorted_wrt (\<lambda>a b. \<not> flt (k a) (k b)) (sort_desc k xs)"
proof (induction xs)
  case (Cons x xs)
  have "set (sort_desc k xs) = set xs"
    by simp
  then show ?case
    using Cons sorted_insert_desc [of k "sort_desc k xs" x] by (simp add: sort_desc_def)
qed (simp add: sort_desc_def)


end
