(* ===== verification/Retention.thy ===== *)
theory Retention
  imports Floats Ttl_Manager
begin

text \<open>
  How long documents are kept: the retention policies of
  \<^verbatim>\<open>src/qos/retention.rs\<close> and their combination with a time to live in
  \<^verbatim>\<open>src/qos/lifecycle.rs\<close>.  Ages are seconds as \<^verbatim>\<open>u64\<close>, storage pressure is an
  \<^verbatim>\<open>f32\<close>.
\<close>

section \<open>Retention policies\<close>

record RetentionPolicy =
  rp_class :: QoSClass
  min_retain_seconds :: u64
  max_retain_seconds :: u64
  eviction_priority :: u8
  compression_eligible :: bool

fun retention_for_class :: "QoSClass \<Rightarrow> RetentionPolicy" where
  "retention_for_class Critical = \<lparr>rp_class = Critical, min_retain_seconds = 7 * 24 * 3600,
     max_retain_seconds = -1, eviction_priority = 5, compression_eligible = False\<rparr>"
| "retention_for_class High = \<lparr>rp_class = High, min_retain_seconds = 24 * 3600,
     max_retain_seconds = 7 * 24 * 3600, eviction_priority = 4, compression_eligible = True\<rparr>"
| "retention_for_class Normal = \<lparr>rp_class = Normal, min_retain_seconds = 3600,
     max_retain_seconds = 24 * 3600, eviction_priority = 3, compression_eligible = True\<rparr>"
| "retention_for_class Low = \<lparr>rp_class = Low, min_retain_seconds = 300,
     max_retain_seconds = 3600, eviction_priority = 2, compression_eligible = True\<rparr>"
| "retention_for_class Bulk = \<lparr>rp_class = Bulk, min_retain_seconds = 60,
     max_retain_seconds = 300, eviction_priority = 1, compression_eligible = True\<rparr>"

definition as_secs :: "duration \<Rightarrow> u64" where
  "as_secs d = word_of_nat (d div 10 ^ 9)"

definition retention_custom :: "QoSClass \<Rightarrow> duration \<Rightarrow> duration \<Rightarrow> u8 \<Rightarrow> bool \<Rightarrow> RetentionPolicy" where
  "retention_custom c min_retain max_retain priority compress =
     \<lparr>rp_class = c, min_retain_seconds = as_secs min_retain, max_retain_seconds = as_secs max_retain,
      eviction_priority = max 1 (min 5 priority), compression_eligible = compress\<rparr>"

definition retention_should_retain :: "RetentionPolicy \<Rightarrow> u64 \<Rightarrow> float \<Rightarrow> bool" where
  "retention_should_retain rp age pressure =
     (if age < min_retain_seconds rp then True
      else if max_retain_seconds rp < age then False
      else case rp_class rp of
        Critical \<Rightarrow> True
      | High \<Rightarrow> flt pressure (f32 (95 / 100))
      | Normal \<Rightarrow> flt pressure (f32 (85 / 100))
      | Low \<Rightarrow> flt pressure (f32 (75 / 100))
      | Bulk \<Rightarrow> flt pressure (f32 (65 / 100)))"

definition retention_should_evict :: "RetentionPolicy \<Rightarrow> u64 \<Rightarrow> float \<Rightarrow> bool" where
  "retention_should_evict rp age pressure \<longleftrightarrow> \<not> retention_should_retain rp age pressure"

definition min_retain_duration :: "RetentionPolicy \<Rightarrow> duration" where
  "min_retain_duration rp = from_secs (unat (min_retain_seconds rp))"

definition retention_is_infinite :: "RetentionPolicy \<Rightarrow> bool" where
  "retention_is_infinite rp \<longleftrightarrow> max_retain_seconds rp = -1"

definition max_retain_duration :: "RetentionPolicy \<Rightarrow> duration option" where
  "max_retain_duration rp =
     (if max_retain_seconds rp = -1 then None else Some (from_secs (unat (max_retain_seconds rp))))"

definition should_compress :: "RetentionPolicy \<Rightarrow> float \<Rightarrow> bool" where
  "should_compress rp pressure \<longleftrightarrow> compression_eligible rp \<and> flt (f32 (7 / 10)) pressure"

record RetentionPolicies =
  policies :: "RetentionPolicy list"

definition policies_default_tactical :: RetentionPolicies where
  "policies_default_tactical = \<lparr>policies = map retention_for_class [Critical, High, Normal, Low, Bulk]\<rparr>"

definition policies_storage_constrained :: RetentionPolicies where
  "policies_storage_constrained = \<lparr>policies =
     [retention_for_class Critical,
      retention_custom High (from_secs (12 * 3600)) (from_secs (3 * 24 * 3600)) 4 True,
      retention_custom Normal (from_secs (30 * 60)) (from_secs (12 * 3600)) 3 True,
      retention_custom Low (from_secs 120) (from_secs (30 * 60)) 2 True,
      retention_custom Bulk (from_secs 30) (from_secs 120) 1 True]\<rparr>"

definition policies_get :: "RetentionPolicies \<Rightarrow> QoSClass \<Rightarrow> RetentionPolicy" where
  "policies_get rps c = policies rps ! (unat (as_u8 c) - 1)"

definition by_eviction_priority :: "RetentionPolicies \<Rightarrow> RetentionPolicy list" where
  "by_eviction_priority rps = sort_key eviction_priority (policies rps)"

definition eviction_candidates :: "RetentionPolicies \<Rightarrow> float \<Rightarrow> QoSClass list" where
  "eviction_candidates rps pressure =
     filter (\<lambda>c. let rp = policies_get rps c;
                     age = (if flt (f32 (9 / 10)) pressure then min_retain_seconds rp + 1
                            else max_retain_seconds rp div 2)
                 in retention_should_evict rp age pressure)
       [Bulk, Low, Normal, High]"

section \<open>Lifecycle policies\<close>

record LifecyclePolicy =
  lc_qos_policy :: QoSPolicy
  lc_ttl_seconds :: "u64 option"
  soft_delete_after_seconds :: "u64 option"
  use_soft_delete :: bool

fun class_policy :: "QoSClass \<Rightarrow> QoSPolicy" where
  "class_policy Critical = qos_policy_critical"
| "class_policy High = qos_policy_high"
| "class_policy Normal = qos_policy_default"
| "class_policy Low = qos_policy_low"
| "class_policy Bulk = qos_policy_bulk"

definition lifecycle_for_class :: "QoSClass \<Rightarrow> LifecyclePolicy" where
  "lifecycle_for_class c =
     (let (ttl, soft_after, soft) =
        (case c of
           Critical \<Rightarrow> (None, None, False)
         | High \<Rightarrow> (Some (7 * 24 * 3600), Some (24 * 3600), False)
         | Normal \<Rightarrow> (Some (24 * 3600), Some 3600, False)
         | Low \<Rightarrow> (Some 3600, Some 300, True)
         | Bulk \<Rightarrow> (Some 300, Some 60, True))
      in \<lparr>lc_qos_policy = class_policy c, lc_ttl_seconds = ttl,
          soft_delete_after_seconds = soft_after, use_soft_delete = soft\<rparr>)"

definition from_qos_and_ttl :: "QoSPolicy \<Rightarrow> TtlConfig \<Rightarrow> LifecyclePolicy" where
  "from_qos_and_ttl qp cfg =
     (let soft = base_class qp \<in> {Low, Bulk}
      in \<lparr>lc_qos_policy = qp, lc_ttl_seconds = ttl_seconds qp,
          soft_delete_after_seconds = (if soft then Some (as_secs (position_ttl cfg)) else None),
          use_soft_delete = soft\<rparr>)"

definition lifecycle_custom :: "QoSPolicy \<Rightarrow> duration option \<Rightarrow> duration option \<Rightarrow> bool \<Rightarrow> LifecyclePolicy" where
  "lifecycle_custom qp ttl soft_after soft =
     \<lparr>lc_qos_policy = qp, lc_ttl_seconds = map_option as_secs ttl,
      soft_delete_after_seconds = map_option as_secs soft_after, use_soft_delete = soft\<rparr>"

definition lifecycle_should_evict :: "LifecyclePolicy \<Rightarrow> u64 \<Rightarrow> float \<Rightarrow> bool" where
  "lifecycle_should_evict lp age pressure =
     (let c = base_class (lc_qos_policy lp)
      in if c = Critical then False
         else if (case lc_ttl_seconds lp of Some ttl \<Rightarrow> ttl < age | None \<Rightarrow> False) then True
         else
           let threshold = (case c of
                 Critical \<Rightarrow> Fin ((2 ^ 24 - 1) * 2 ^ 104)
               | High \<Rightarrow> f32 (95 / 100)
               | Normal \<Rightarrow> f32 (85 / 100)
               | Low \<Rightarrow> f32 (75 / 100)
               | Bulk \<Rightarrow> f32 (65 / 100))
           in flt threshold pressure \<and> min_retain_seconds (retention_for_class c) \<le> age)"

definition should_soft_delete :: "LifecyclePolicy \<Rightarrow> u64 \<Rightarrow> bool" where
  "should_soft_delete lp age =
     (use_soft_delete lp \<and>
      (case soft_delete_after_seconds lp of Some threshold \<Rightarrow> threshold < age | None \<Rightarrow> False))"

definition lifecycle_should_retain :: "LifecyclePolicy \<Rightarrow> u64 \<Rightarrow> float \<Rightarrow> bool" where
  "lifecycle_should_retain lp age pressure \<longleftrightarrow> \<not> lifecycle_should_evict lp age pressure"

definition lifecycle_is_infinite :: "LifecyclePolicy \<Rightarrow> bool" where
  "lifecycle_is_infinite lp \<longleftrightarrow> base_class (lc_qos_policy lp) = Critical \<or> lc_ttl_seconds lp = None"

record LifecyclePolicies =
  contact_report :: LifecyclePolicy
  media :: LifecyclePolicy
  health_status :: LifecyclePolicy
  position :: LifecyclePolicy
  bulk :: LifecyclePolicy

definition lifecycles_default_tactical :: LifecyclePolicies where
  "lifecycles_default_tactical =
     \<lparr>contact_report = lifecycle_for_class Critical, media = lifecycle_for_class High,
      health_status = lifecycle_for_class Normal, position = lifecycle_for_class Low,
      bulk = lifecycle_for_class Bulk\<rparr>"

definition lifecycles_from_ttl_config :: "TtlConfig \<Rightarrow> LifecyclePolicies" where
  "lifecycles_from_ttl_config cfg =
     \<lparr>contact_report = lifecycle_custom qos_policy_critical None None False,
      media = lifecycle_custom qos_policy_high (Some (from_secs (7 * 24 * 3600))) (Some (from_secs (24 * 3600))) False,
      health_status = lifecycle_custom qos_policy_default (Some (from_secs (24 * 3600))) (Some (from_secs 3600)) False,
      position = lifecycle_custom qos_policy_low (Some (position_ttl cfg))
        (Some (from_secs (unat (as_secs (position_ttl cfg) div 2)))) True,
      bulk = lifecycle_custom qos_policy_bulk (Some (from_secs 300)) (Some (from_secs 60)) True\<rparr>"

fun lifecycles_get :: "LifecyclePolicies \<Rightarrow> QoSClass \<Rightarrow> LifecyclePolicy" where
  "lifecycles_get lps Critical = contact_report lps"
| "lifecycles_get lps High = media lps"
| "lifecycles_get lps Normal = health_status lps"
| "lifecycles_get lps Low = position lps"
| "lifecycles_get lps Bulk = bulk lps"

datatype LifecycleDecision = DecideRetain | DecideSoftDelete | DecideEvict | DecideTtlExpired

definition removes_data :: "LifecycleDecision \<Rightarrow> bool" where
  "removes_data d \<longleftrightarrow> d \<in> {DecideEvict, DecideTtlExpired}"

definition make_lifecycle_decision :: "LifecyclePolicy \<Rightarrow> u64 \<Rightarrow> float \<Rightarrow> LifecycleDecision" where
  "make_lifecycle_decision lp age pressure =
     (if (case lc_ttl_seconds lp of Some ttl \<Rightarrow> ttl < age | None \<Rightarrow> False)
         \<and> base_class (lc_qos_policy lp) \<noteq> Critical then DecideTtlExpired
      else if should_soft_delete lp age then DecideSoftDelete
      else if lifecycle_should_evict lp age pressure then DecideEvict
      else DecideRetain)"

section \<open>The two decisions agree\<close>

fun pressure_limit :: "QoSClass \<Rightarrow> float option" where
  "pressure_limit Critical = None"
| "pressure_limit High = Some (f32 (95 / 100))"
| "pressure_limit Normal = Some (f32 (85 / 100))"
| "pressure_limit Low = Some (f32 (75 / 100))"
| "pressure_limit Bulk = Some (f32 (65 / 100))"

lemma flt_total: "a \<noteq> NaN \<Longrightarrow> b \<noteq> NaN \<Longrightarrow> \<not> flt a b \<longleftrightarrow> flt b a \<or> a = b"
  by (cases a; cases b) auto

lemma fround_not_NaN [simp]: "fround f q \<noteq> NaN" "NaN \<noteq> fround f q"
  by (auto simp: fround_def Let_def)

lemma f32_not_NaN [simp]: "f32 q \<noteq> NaN"
  by (simp add: f32_def)

lemma flt_irrefl [simp]: "\<not> flt a a"
  by (cases a) auto

lemma pressure_limit_not_NaN: "pressure_limit c = Some t \<Longrightarrow> t \<noteq> NaN"
  by (cases c) auto

text \<open>Both decisions as one rule over the limits of a class.\<close>

lemma retention_rule:
  "retention_should_evict (retention_for_class c) age pressure \<longleftrightarrow>
     (\<exists>t. pressure_limit c = Some t \<and> min_retain_seconds (retention_for_class c) \<le> age \<and>
          (max_retain_seconds (retention_for_class c) < age \<or> \<not> flt pressure t))"
  by (cases c) (auto simp: retention_should_evict_def retention_should_retain_def not_less)

lemma lifecycle_rule:
  "lifecycle_should_evict (lifecycle_for_class c) age pressure \<longleftrightarrow>
     (\<exists>t. pressure_limit c = Some t \<and>
          (max_retain_seconds (retention_for_class c) < age \<or>
           flt t pressure \<and> min_retain_seconds (retention_for_class c) \<le> age))"
  by (cases c) (auto simp: lifecycle_should_evict_def lifecycle_for_class_def qos_policy_critical_def
      qos_policy_high_def qos_policy_default_def qos_policy_low_def qos_policy_bulk_def)

lemma class_limits:
  "min_retain_seconds (retention_for_class c) < max_retain_seconds (retention_for_class c)"
  by (cases c) simp_all

lemma evictions_compared:
  "lifecycle_should_evict (lifecycle_for_class c) age pressure \<longleftrightarrow>
     retention_should_evict (retention_for_class c) age pressure \<and>
     \<not> ((pressure_limit c = Some pressure \<or> pressure = NaN) \<and> age \<le> max_retain_seconds (retention_for_class c))"
proof (cases "pressure_limit c")
  case (Some t)
  have "pressure \<noteq> NaN \<Longrightarrow> \<not> flt pressure t \<longleftrightarrow> flt t pressure \<or> pressure = t"
    using pressure_limit_not_NaN [OF Some] by (intro flt_total)
  then show ?thesis
    using class_limits [of c] Some
    by (cases "pressure = NaN") (auto simp: retention_rule lifecycle_rule not_less)
qed (simp add: retention_rule lifecycle_rule)

lemma decision_of_class:
  "make_lifecycle_decision (lifecycle_for_class c) age pressure =
     (case pressure_limit c of
        None \<Rightarrow> DecideRetain
      | Some t \<Rightarrow>
          if max_retain_seconds (retention_for_class c) < age then DecideTtlExpired
          else if c \<in> {Low, Bulk} \<and> min_retain_seconds (retention_for_class c) < age then DecideSoftDelete
          else if flt t pressure \<and> min_retain_seconds (retention_for_class c) \<le> age then DecideEvict
          else DecideRetain)"
  by (cases c) (auto simp: make_lifecycle_decision_def should_soft_delete_def lifecycle_should_evict_def
      lifecycle_for_class_def qos_policy_critical_def qos_policy_high_def qos_policy_default_def
      qos_policy_low_def qos_policy_bulk_def)

text \<open>
  C31.  For each QoS class and every age, the retention policy and the lifecycle policy
  agree on whether a document may be evicted, except where the storage pressure equals
  the limit of the class or is no number: there a document between its minimal and its
  maximal age is evicted by the retention policy and kept by the lifecycle policy.  The
  lifecycle decision itself, over the limits of the retention policy: critical documents
  are retained; beyond the maximal age a document has expired; above the minimal age
  documents of the classes Low and Bulk are soft-deleted, whatever the pressure; any other
  document that has reached its minimal age is evicted when the pressure exceeds the limit
  of its class; everything else is retained.
\<close>

theorem lifecycle_matches_retention:
  "(lifecycle_should_evict (lifecycle_for_class c) age pressure \<longleftrightarrow>
      retention_should_evict (retention_for_class c) age pressure \<and>
      \<not> ((pressure_limit c = Some pressure \<or> pressure = NaN) \<and> age \<le> max_retain_seconds (retention_for_class c))) \<and>
   make_lifecycle_decision (lifecycle_for_class c) age pressure =
     (case pressure_limit c of
        None \<Rightarrow> DecideRetain
      | Some t \<Rightarrow>
          if max_retain_seconds (retention_for_class c) < age then DecideTtlExpired
          else if c \<in> {Low, Bulk} \<and> min_retain_seconds (retention_for_class c) < age then DecideSoftDelete
          else if flt t pressure \<and> min_retain_seconds (retention_for_class c) \<le> age then DecideEvict
          else DecideRetain)"
  using evictions_compared decision_of_class by (rule conjI)

theorem lifecycle_matches_retention_witness:
  "retention_should_evict (retention_for_class Normal) 4000 (f32 (85 / 100)) \<and>
   \<not> lifecycle_should_evict (lifecycle_for_class Normal) 4000 (f32 (85 / 100)) \<and>
   make_lifecycle_decision (lifecycle_for_class Low) 301 (f32 (85 / 100)) = DecideSoftDelete"
  using lifecycle_matches_retention [of Normal 4000 "f32 (85 / 100)"]
    lifecycle_matches_retention [of Low 301 "f32 (85 / 100)"]
  by (simp add: retention_should_evict_def retention_should_retain_def)

end
