(* ===== verification/Qos_Storage.thy ===== *)
theory Qos_Storage
  imports Retention
begin

text \<open>
  The storage manager of \<^verbatim>\<open>src/qos/storage.rs\<close>: which documents are kept, how many bytes they
  take, and which ones to evict.  Sizes and counters of bytes are \<^verbatim>\<open>usize\<close> words of 64 bits.
  \<open>now\<close> is the clock in whole seconds, zero before the epoch; one reading serves a whole
  operation, where the source reads the clock again for each document.
\<close>

section \<open>Documents\<close>

record StoredDocument =
  sd_doc_id :: string
  sd_qos_class :: QoSClass
  sd_size_bytes :: u64
  stored_at :: u64
  last_accessed :: u64
  sd_protected :: bool
  sd_compressed :: bool

definition saturating_sub :: "u64 \<Rightarrow> u64 \<Rightarrow> u64" where
  "saturating_sub a b = (if b \<le> a then a - b else 0)"

definition stored_document_new :: "u64 \<Rightarrow> string \<Rightarrow> QoSClass \<Rightarrow> u64 \<Rightarrow> StoredDocument" where
  "stored_document_new now d c n =
     \<lparr>sd_doc_id = d, sd_qos_class = c, sd_size_bytes = n, stored_at = now, last_accessed = now,
      sd_protected = False, sd_compressed = False\<rparr>"

definition with_age :: "u64 \<Rightarrow> u64 \<Rightarrow> StoredDocument \<Rightarrow> StoredDocument" where
  "with_age now age doc = doc\<lparr>stored_at := saturating_sub now age, last_accessed := saturating_sub now age\<rparr>"

definition age_seconds :: "u64 \<Rightarrow> StoredDocument \<Rightarrow> u64" where
  "age_seconds now doc = saturating_sub now (stored_at doc)"

definition idle_seconds :: "u64 \<Rightarrow> StoredDocument \<Rightarrow> u64" where
  "idle_seconds now doc = saturating_sub now (last_accessed doc)"

definition doc_touch :: "u64 \<Rightarrow> StoredDocument \<Rightarrow> StoredDocument" where
  "doc_touch now doc = doc\<lparr>last_accessed := now\<rparr>"

record EvictionCandidate =
  ca_doc_id :: string
  ca_qos_class :: QoSClass
  ca_age_seconds :: u64
  ca_size_bytes :: u64
  eviction_score :: float

section \<open>The manager\<close>

record QoSAwareStorage =
  max_storage_bytes :: u64
  current_storage_bytes :: u64
  retention_policies :: RetentionPolicies
  documents :: "(string, StoredDocument) hmap"
  eviction_threshold :: float

definition qos_storage_new :: "u64 \<Rightarrow> QoSAwareStorage" where
  "qos_storage_new n =
     \<lparr>max_storage_bytes = n, current_storage_bytes = 0, retention_policies = policies_default_tactical,
      documents = [], eviction_threshold = f32 (9 / 10)\<rparr>"

definition with_retention_policies :: "RetentionPolicies \<Rightarrow> QoSAwareStorage \<Rightarrow> QoSAwareStorage" where
  "with_retention_policies rps st = st\<lparr>retention_policies := rps\<rparr>"

definition with_eviction_threshold :: "float \<Rightarrow> QoSAwareStorage \<Rightarrow> QoSAwareStorage" where
  "with_eviction_threshold t st = st\<lparr>eviction_threshold := fclamp (f32 (5 / 10)) (f32 (99 / 100)) t\<rparr>"

definition register_document :: "StoredDocument \<Rightarrow> QoSAwareStorage \<Rightarrow> QoSAwareStorage" where
  "register_document doc st =
     (let st1 = (case hm_get (documents st) (sd_doc_id doc) of
                   Some old \<Rightarrow> st\<lparr>current_storage_bytes := current_storage_bytes st - sd_size_bytes old\<rparr>
                 | None \<Rightarrow> st)
      in st1\<lparr>documents := hm_insert (sd_doc_id doc) doc (documents st1),
             current_storage_bytes := current_storage_bytes st1 + sd_size_bytes doc\<rparr>)"

definition unregister_document :: "string \<Rightarrow> QoSAwareStorage \<Rightarrow> StoredDocument option \<times> QoSAwareStorage" where
  "unregister_document d st =
     (case hm_get (documents st) d of
        Some doc \<Rightarrow> (Some doc, st\<lparr>documents := hm_remove d (documents st),
                                 current_storage_bytes := current_storage_bytes st - sd_size_bytes doc\<rparr>)
      | None \<Rightarrow> (None, st))"

text \<open>The operations that change the entry of one document in place.\<close>

definition modify_document ::
  "(StoredDocument \<Rightarrow> StoredDocument) \<Rightarrow> string \<Rightarrow> QoSAwareStorage \<Rightarrow> bool \<times> QoSAwareStorage" where
  "modify_document f d st =
     (case hm_get (documents st) d of
        Some doc \<Rightarrow> (True, st\<lparr>documents := hm_insert d (f doc) (documents st)\<rparr>)
      | None \<Rightarrow> (False, st))"

definition touch_document :: "u64 \<Rightarrow> string \<Rightarrow> QoSAwareStorage \<Rightarrow> QoSAwareStorage" where
  "touch_document now d st = snd (modify_document (doc_touch now) d st)"

definition storage_mark_protected :: "string \<Rightarrow> QoSAwareStorage \<Rightarrow> bool \<times> QoSAwareStorage" where
  "storage_mark_protected d st = modify_document (\<lambda>doc. doc\<lparr>sd_protected := True\<rparr>) d st"

definition storage_unmark_protected :: "string \<Rightarrow> QoSAwareStorage \<Rightarrow> bool \<times> QoSAwareStorage" where
  "storage_unmark_protected d st = modify_document (\<lambda>doc. doc\<lparr>sd_protected := False\<rparr>) d st"

definition update_compressed :: "string \<Rightarrow> u64 \<Rightarrow> QoSAwareStorage \<Rightarrow> u64 option \<times> QoSAwareStorage" where
  "update_compressed d new_size st =
     (case hm_get (documents st) d of
        Some doc \<Rightarrow>
          (let diff = saturating_sub (sd_size_bytes doc) new_size
           in (Some diff,
               st\<lparr>documents := hm_insert d (doc\<lparr>sd_size_bytes := new_size, sd_compressed := True\<rparr>) (documents st),
                  current_storage_bytes := current_storage_bytes st - diff\<rparr>))
      | None \<Rightarrow> (None, st))"

definition storage_pressure :: "QoSAwareStorage \<Rightarrow> float" where
  "storage_pressure st =
     (if max_storage_bytes st = 0 then Fin 0
      else fdiv F32 (of_usize F32 (current_storage_bytes st)) (of_usize F32 (max_storage_bytes st)))"

definition storage_should_evict :: "QoSAwareStorage \<Rightarrow> bool" where
  "storage_should_evict st \<longleftrightarrow> fle (eviction_threshold st) (storage_pressure st)"

definition evictable :: "u64 \<Rightarrow> QoSAwareStorage \<Rightarrow> StoredDocument \<Rightarrow> bool" where
  "evictable now st doc \<longleftrightarrow>
     sd_qos_class doc \<noteq> Critical \<and> \<not> sd_protected doc \<and>
     retention_should_evict (policies_get (retention_policies st) (sd_qos_class doc))
       (age_seconds now doc) (storage_pressure st)"

definition calculate_eviction_score :: "u64 \<Rightarrow> QoSAwareStorage \<Rightarrow> StoredDocument \<Rightarrow> float \<Rightarrow> float" where
  "calculate_eviction_score now st doc pressure =
     (let rp = policies_get (retention_policies st) (sd_qos_class doc);
          class_score = fround F64 (of_nat (unat (6 - eviction_priority rp)));
          age_factor = (if max_retain_seconds rp = -1 then Fin 0
                        else fmin (fdiv F64 (of_usize F64 (age_seconds now doc))
                                            (of_usize F64 (max_retain_seconds rp))) (f64 1));
          idle_factor = fmin (fdiv F64 (of_usize F64 (idle_seconds now doc)) (f64 3600)) (f64 1);
          size_factor = fmin (fdiv F64 (of_usize F64 (sd_size_bytes doc)) (f64 1000000)) (f64 1)
      in fadd F64 (fadd F64 (fadd F64 (fadd F64 (fmul F64 class_score (f64 10))
           (fmul F64 age_factor (f64 5))) (fmul F64 idle_factor (f64 3)))
           (fmul F64 size_factor (f64 1))) (fmul F64 pressure (f64 2)))"

definition candidate_of :: "u64 \<Rightarrow> QoSAwareStorage \<Rightarrow> StoredDocument \<Rightarrow> EvictionCandidate" where
  "candidate_of now st doc =
     \<lparr>ca_doc_id = sd_doc_id doc, ca_qos_class = sd_qos_class doc, ca_age_seconds = age_seconds now doc,
      ca_size_bytes = sd_size_bytes doc,
      eviction_score = calculate_eviction_score now st doc (storage_pressure st)\<rparr>"

text \<open>The loop that selects candidates until they free enough bytes.\<close>

fun select_candidates :: "u64 \<Rightarrow> u64 \<Rightarrow> EvictionCandidate list \<Rightarrow> EvictionCandidate list" where
  "select_candidates needed total_bytes [] = []"
| "select_candidates needed total_bytes (c # cs) =
     c # (let t = total_bytes + ca_size_bytes c in if needed \<le> t then [] else select_candidates needed t cs)"

definition get_eviction_candidates :: "u64 \<Rightarrow> u64 \<Rightarrow> QoSAwareStorage \<Rightarrow> EvictionCandidate list" where
  "get_eviction_candidates now bytes_needed st =
     select_candidates bytes_needed 0
       (sort_desc eviction_score (map (candidate_of now st) (filter (evictable now st) (map snd (documents st)))))"

definition get_compression_candidates :: "QoSAwareStorage \<Rightarrow> string list" where
  "get_compression_candidates st =
     map sd_doc_id (filter (\<lambda>doc. sd_qos_class doc \<noteq> Critical \<and> \<not> sd_protected doc \<and> \<not> sd_compressed doc \<and>
         should_compress (policies_get (retention_policies st) (sd_qos_class doc)) (storage_pressure st))
       (map snd (documents st)))"

definition document_count :: "QoSAwareStorage \<Rightarrow> nat" where
  "document_count st = length (documents st)"

definition storage_contains :: "QoSAwareStorage \<Rightarrow> string \<Rightarrow> bool" where
  "storage_contains st d = hm_contains (documents st) d"

definition get_document :: "QoSAwareStorage \<Rightarrow> string \<Rightarrow> StoredDocument option" where
  "get_document st d = hm_get (documents st) d"

definition storage_available_bytes :: "QoSAwareStorage \<Rightarrow> u64" where
  "storage_available_bytes st = saturating_sub (max_storage_bytes st) (current_storage_bytes st)"

section \<open>Metrics\<close>

record ClassStorageMetrics =
  cm_doc_count :: nat
  cm_total_bytes :: u64
  avg_age_seconds :: u64
  oldest_doc_age :: u64
  protected_count :: nat
  compressed_count :: nat

definition class_metrics_default :: ClassStorageMetrics where
  "class_metrics_default = \<lparr>cm_doc_count = 0, cm_total_bytes = 0, avg_age_seconds = 0, oldest_doc_age = 0,
     protected_count = 0, compressed_count = 0\<rparr>"

record StorageMetrics =
  sm_max_bytes :: u64
  sm_used_bytes :: u64
  utilization :: float
  sm_by_class :: "(QoSClass, ClassStorageMetrics) hmap"
  recent_evictions :: nat
  recent_bytes_freed :: u64

definition metrics_available_bytes :: "StorageMetrics \<Rightarrow> u64" where
  "metrics_available_bytes m = saturating_sub (sm_max_bytes m) (sm_used_bytes m)"

definition under_pressure :: "StorageMetrics \<Rightarrow> bool" where
  "under_pressure m \<longleftrightarrow> flt (f32 (8 / 10)) (utilization m)"

definition metrics_is_critical :: "StorageMetrics \<Rightarrow> bool" where
  "metrics_is_critical m \<longleftrightarrow> flt (f32 (95 / 100)) (utilization m)"

definition count_document :: "u64 \<Rightarrow> StoredDocument \<Rightarrow> ClassStorageMetrics \<Rightarrow> ClassStorageMetrics" where
  "count_document now doc e =
     e\<lparr>cm_doc_count := cm_doc_count e + 1, cm_total_bytes := cm_total_bytes e + sd_size_bytes doc,
       oldest_doc_age := max (oldest_doc_age e) (age_seconds now doc),
       protected_count := protected_count e + (if sd_protected doc then 1 else 0),
       compressed_count := compressed_count e + (if sd_compressed doc then 1 else 0)\<rparr>"

definition storage_metrics :: "u64 \<Rightarrow> QoSAwareStorage \<Rightarrow> StorageMetrics" where
  "storage_metrics now st =
     (let ds = map snd (documents st);
          counted = fold (\<lambda>doc m. let c = sd_qos_class doc
                                in hm_insert c (count_document now doc (hm_get_or class_metrics_default m c)) m) ds [];
          averaged = map (\<lambda>(c, e). (c, if 0 < cm_doc_count e
              then e\<lparr>avg_age_seconds := sum_list (map (age_seconds now) (filter (\<lambda>d. sd_qos_class d = c) ds))
                                        div word_of_nat (cm_doc_count e)\<rparr> else e)) counted
      in \<lparr>sm_max_bytes = max_storage_bytes st, sm_used_bytes = current_storage_bytes st,
          utilization = storage_pressure st, sm_by_class = averaged,
          recent_evictions = 0, recent_bytes_freed = 0\<rparr>)"

section \<open>Accounting\<close>

definition total_size :: "(string, StoredDocument) hmap \<Rightarrow> u64" where
  "total_size m = sum_list (map (sd_size_bytes \<circ> snd) m)"

text \<open>The counter is the sum of the sizes, and every document is stored under its identifier.\<close>

definition storage_inv :: "QoSAwareStorage \<Rightarrow> bool" where
  "storage_inv st \<longleftrightarrow>
     hm_wf (documents st) \<and> current_storage_bytes st = total_size (documents st) \<and>
     list_all (\<lambda>(d, doc). sd_doc_id doc = d) (documents st)"

lemma total_size_insert:
  "hm_wf m \<Longrightarrow> total_size (hm_insert d doc m) =
     total_size m + sd_size_bytes doc - (case hm_get m d of Some old \<Rightarrow> sd_size_bytes old | None \<Rightarrow> 0)"
  by (induction m) (auto simp: total_size_def hm_wf_def algebra_simps split: option.splits)

lemma total_size_remove:
  "hm_wf m \<Longrightarrow> hm_get m d = Some doc \<Longrightarrow> total_size (hm_remove d m) = total_size m - sd_size_bytes doc"
proof (induction m)
  case (Cons a m)
  show ?case
  proof (cases "fst a = d")
    case True
    then have "hm_remove d (a # m) = m"
      using Cons.prems by (cases a) (auto simp: hm_wf_def AList.delete_idem)
    then show ?thesis
      using Cons.prems True by (cases a) (auto simp: total_size_def)
  next
    case False
    then show ?thesis
      using Cons by (cases a) (auto simp: total_size_def hm_wf_def)
  qed
qed simp

lemma ids_insert:
  "list_all (\<lambda>(d, doc). sd_doc_id doc = d) m \<Longrightarrow> sd_doc_id doc = d \<Longrightarrow>
     list_all (\<lambda>(d, doc). sd_doc_id doc = d) (hm_insert d doc m)"
  by (induction m) auto

lemma ids_remove:
  "list_all (\<lambda>(d, doc). sd_doc_id doc = d) m \<Longrightarrow> list_all (\<lambda>(d, doc). sd_doc_id doc = d) (hm_remove d' m)"
  by (induction m) auto

lemma storage_inv_id: "storage_inv st \<Longrightarrow> hm_get (documents st) d = Some doc \<Longrightarrow> sd_doc_id doc = d"
  by (auto simp: storage_inv_def list_all_iff dest: map_of_SomeD)

lemma storage_inv_new [simp]: "storage_inv (qos_storage_new n)"
  by (simp add: storage_inv_def qos_storage_new_def total_size_def)

lemma storage_inv_register [simp]: "storage_inv st \<Longrightarrow> storage_inv (register_document doc st)"
  by (auto simp: storage_inv_def register_document_def total_size_insert ids_insert split: option.splits)

lemma register_document_fields [simp]:
  "documents (register_document doc st) = hm_insert (sd_doc_id doc) doc (documents st)"
  "eviction_threshold (register_document doc st) = eviction_threshold st"
  by (simp_all add: register_document_def Let_def split: option.splits)

lemma storage_inv_unregister [simp]: "storage_inv st \<Longrightarrow> storage_inv (snd (unregister_document d st))"
  by (auto simp: storage_inv_def unregister_document_def total_size_remove ids_remove split: option.splits)

lemma storage_inv_modify:
  "storage_inv st \<Longrightarrow> (\<And>doc. sd_doc_id (f doc) = sd_doc_id doc \<and> sd_size_bytes (f doc) = sd_size_bytes doc) \<Longrightarrow>
     storage_inv (snd (modify_document f d st))"
  using storage_inv_id [of st d]
  by (auto simp: storage_inv_def modify_document_def total_size_insert ids_insert split: option.splits)

lemma storage_inv_protect [simp]:
  "storage_inv st \<Longrightarrow> storage_inv (snd (storage_mark_protected d st))"
  "storage_inv st \<Longrightarrow> storage_inv (snd (storage_unmark_protected d st))"
  "storage_inv st \<Longrightarrow> storage_inv (touch_document now d st)"
  unfolding storage_mark_protected_def storage_unmark_protected_def touch_document_def doc_touch_def
  by (intro storage_inv_modify; simp)+

lemma storage_inv_compressed:
  assumes "storage_inv st" "hm_get (documents st) d = Some doc" "n \<le> sd_size_bytes doc"
  shows "storage_inv (snd (update_compressed d n st))"
  using assms storage_inv_id [OF assms(1,2)]
  by (simp add: storage_inv_def update_compressed_def total_size_insert ids_insert saturating_sub_def Let_def)

text \<open>
  A document that grows is not accounted for: the new size is stored, the counter stays.
\<close>

lemma growth_not_accounted:
  assumes "storage_inv st" "hm_get (documents st) d = Some doc" "sd_size_bytes doc < n"
  shows "current_storage_bytes (snd (update_compressed d n st)) = current_storage_bytes st \<and>
    total_size (documents (snd (update_compressed d n st))) = total_size (documents st) + (n - sd_size_bytes doc)"
  using assms
  by (auto simp: storage_inv_def update_compressed_def total_size_insert saturating_sub_def Let_def not_le [symmetric])


section \<open>The order of candidates\<close>

lemma f64_numeral [simp]:
  "f64 1 = Fin 1" "f64 2 = Fin 2" "f64 3 = Fin 3" "f64 5 = Fin 5" "f64 10 = Fin 10" "f64 3600 = Fin 3600"
  "f64 1000000 = Fin 1000000"
  using f64_int [of 1] f64_int [of 2] f64_int [of 3] f64_int [of 5] f64_int [of 10] f64_int [of 3600]
    f64_int [of 1000000] by simp_all

lemma usize_factor: "0 \<le> b \<Longrightarrow> between 0 1 (fmin (fdiv F64 (of_usize F64 n) (Fin b)) (Fin 1))"
proof -
  assume b: "0 \<le> b"
  obtain a where "of_usize F64 n = Fin a" "0 \<le> a"
    using of_usize_fin by blast
  then show ?thesis
    using unit_factor [of _ a "Fin b" b] b by simp
qed

lemma as_u8_range: "1 \<le> uint (as_u8 c) \<and> uint (as_u8 c) \<le> 5"
  by (cases c) simp_all

lemma default_policy:
  "policies_get policies_default_tactical c = retention_for_class c"
  by (cases c) (simp_all add: policies_get_def policies_default_tactical_def)

lemma class_score: "fround F64 (of_nat (unat (6 - eviction_priority (retention_for_class c)))) = Fin (of_nat (unat (as_u8 c)))"
  using f64_int [of 1] f64_int [of 2] f64_int [of 3] f64_int [of 4] f64_int [of 5]
  by (cases c) (simp_all add: f64_def)

text \<open>The class contributes ten points for each step, the other factors nine at most.\<close>

lemma score_parts:
  assumes "retention_policies st = policies_default_tactical"
  shows "\<exists>S. calculate_eviction_score now st doc pressure = fadd F64 S (fmul F64 pressure (Fin 2)) \<and>
    between (10 * uint (as_u8 (sd_qos_class doc))) (10 * uint (as_u8 (sd_qos_class doc)) + 9) S"
proof -
  let ?c = "sd_qos_class doc"
  let ?n = "uint (as_u8 ?c)"
  have n: "0 \<le> ?n" "?n \<le> 5"
    by (cases ?c; simp)+
  define age where "age = (if max_retain_seconds (retention_for_class ?c) = -1 then Fin 0
      else fmin (fdiv F64 (of_usize F64 (age_seconds now doc))
                          (of_usize F64 (max_retain_seconds (retention_for_class ?c)))) (Fin 1))"
  define idle where "idle = fmin (fdiv F64 (of_usize F64 (idle_seconds now doc)) (Fin 3600)) (Fin 1)"
  define size where "size = fmin (fdiv F64 (of_usize F64 (sd_size_bytes doc)) (Fin 1000000)) (Fin 1)"
  obtain m where m: "of_usize F64 (max_retain_seconds (retention_for_class ?c)) = Fin m" "0 \<le> m"
    using of_usize_fin by blast
  have age: "between 0 1 age"
    using usize_factor [OF m(2)] by (simp add: age_def m(1) between_def)
  have idle: "between 0 1 idle" and size: "between 0 1 size"
    unfolding idle_def size_def by (simp_all add: usize_factor)
  have c: "between ?n ?n (Fin (of_nat (unat (as_u8 ?c))))"
    by (cases ?c) (simp_all add: between_def)
  have s0: "between (?n * 10) (?n * 10) (fmul F64 (Fin (of_nat (unat (as_u8 ?c)))) (Fin 10))"
    using between_mul [OF c, of 10] n by simp
  have f: "between 0 5 (fmul F64 age (Fin 5))" "between 0 3 (fmul F64 idle (Fin 3))" "between 0 1 (fmul F64 size (Fin 1))"
    using between_mul [OF age, of 5] between_mul [OF idle, of 3] between_mul [OF size, of 1] by simp_all
  note s1 = between_add [OF s0 f(1), simplified]
  note s2 = between_add [OF s1 f(2), simplified]
  have "between (10 * ?n) (10 * ?n + 9)
      (fadd F64 (fadd F64 (fadd F64 (fmul F64 (Fin (of_nat (unat (as_u8 ?c)))) (Fin 10))
         (fmul F64 age (Fin 5))) (fmul F64 idle (Fin 3))) (fmul F64 size (Fin 1)))"
    using between_add [OF s2 f(3)] n by (simp add: mult.commute add.commute)
  then show ?thesis
    unfolding calculate_eviction_score_def assms default_policy class_score Let_def age_def idle_def size_def
    by auto
qed

lemma usize_approx: "n \<noteq> 0 \<Longrightarrow> \<exists>z. of_usize F32 n = Fin z \<and> of_nat (unat n) / 2 \<le> z \<and> z \<le> 2 * of_nat (unat n)"
proof -
  assume n: "n \<noteq> 0"
  obtain z where z: "of_usize F32 n = Fin z"
    using of_usize_fin by blast
  then have r: "z = rounded F32 (of_nat (unat n))"
    by (auto simp: of_usize_def fround_def Let_def split: if_splits)
  have "1 \<le> unat n"
    using n by (simp add: Suc_leI unat_gt_0)
  then have "spacing F32 (of_nat (unat n)) \<le> of_nat (unat n)"
    using of_nat_mono [of 1 "unat n", where ?'a = rat] by (intro spacing_le_self) simp
  then have "of_nat (unat n) / 2 \<le> z \<and> z \<le> 2 * of_nat (unat n)"
    using rounded_bounds [of "of_nat (unat n)" F32] r of_nat_0_le_iff [of "unat n", where ?'a = rat] by linarith
  then show ?thesis
    using z by blast
qed

lemma pressure_bound:
  assumes "unat (current_storage_bytes st) \<le> 2 ^ 38 * unat (max_storage_bytes st)"
  shows "\<exists>p. storage_pressure st = Fin p \<and> 0 \<le> p \<and> p \<le> 2 ^ 40"
proof (cases "max_storage_bytes st = 0 \<or> current_storage_bytes st = 0")
  case True
  have "of_usize F32 0 = Fin 0"
    by (simp add: of_usize_def fround_def)
  then show ?thesis
    using True of_usize_fin [of F32 "max_storage_bytes st"] by (auto simp: storage_pressure_def fdiv_def fround_def)
next
  case False
  obtain a b where a: "of_usize F32 (current_storage_bytes st) = Fin a"
      "of_nat (unat (current_storage_bytes st)) / 2 \<le> a" "a \<le> 2 * of_nat (unat (current_storage_bytes st))"
    and b: "of_usize F32 (max_storage_bytes st) = Fin b"
      "of_nat (unat (max_storage_bytes st)) / 2 \<le> b" "b \<le> 2 * of_nat (unat (max_storage_bytes st))"
    using usize_approx False by (metis (no_types))
  have "(of_nat (unat (current_storage_bytes st)) :: rat) \<le> of_nat (2 ^ 38 * unat (max_storage_bytes st))"
    using assms by (simp only: of_nat_le_iff)
  then have c: "(of_nat (unat (current_storage_bytes st)) :: rat) \<le> 2 ^ 38 * of_nat (unat (max_storage_bytes st))"
    by (simp only: of_nat_mult of_nat_power of_nat_numeral)
  have m: "(0 :: rat) < of_nat (unat (max_storage_bytes st))"
    using False by (simp only: of_nat_0_less_iff) (simp add: unat_gt_0)
  have pos: "0 < b" "0 \<le> a"
    using b(2) m a(2) of_nat_0_le_iff [of "unat (current_storage_bytes st)", where ?'a = rat] by linarith+
  have "a \<le> 2 ^ 40 * b"
    using a(3) b(2) c by simp
  then have q: "a / b \<le> 2 ^ 40" "0 \<le> a / b"
    using pos by (simp_all add: divide_le_eq)
  have "rounded F32 (2 ^ 40) = 2 ^ 40"
    by (rule rounded_exact [where m = 1 and e = 40]) (simp_all add: power_int_def)
  then have r: "rounded F32 (a / b) \<le> 2 ^ 40" "0 \<le> rounded F32 (a / b)"
    using rounded_mono [OF q(1), of F32] rounded_nonneg [OF q(2), of F32] by simp_all
  moreover have "(2 :: rat) ^ 40 < 2 powi 128"
    by (simp add: power_int_def)
  ultimately have "fround F32 (a / b) = Fin (rounded F32 (a / b))"
    by (simp add: fround_def)
  then show ?thesis
    using False r a(1) b(1) pos by (simp add: storage_pressure_def fdiv_def)
qed

lemma fin_mul_two:
  assumes "0 \<le> p" "p \<le> 2 ^ 40"
  shows "\<exists>q. fmul F64 (Fin p) (Fin 2) = Fin q \<and> 0 \<le> q \<and> q \<le> 2 ^ 41"
proof -
  have "between 0 (2 ^ 40) (Fin p)"
    using assms by (simp add: between_def)
  from between_mul [OF this, of 2] show ?thesis
    by (simp add: between_def)
qed

lemma lower_class_scores_more:
  assumes "retention_policies st = policies_default_tactical"
    and "unat (current_storage_bytes st) \<le> 2 ^ 38 * unat (max_storage_bytes st)"
    and "as_u8 (sd_qos_class x) < as_u8 (sd_qos_class y)"
  shows "flt (calculate_eviction_score now st x (storage_pressure st)) (calculate_eviction_score now st y (storage_pressure st))"
proof -
  obtain p where p: "storage_pressure st = Fin p" "0 \<le> p" "p \<le> 2 ^ 40"
    using pressure_bound [OF assms(2)] by blast
  obtain q where q: "fmul F64 (Fin p) (Fin 2) = Fin q" "0 \<le> q" "q \<le> 2 ^ 41"
    using fin_mul_two [OF p(2,3)] by blast
  let ?n = "uint (as_u8 (sd_qos_class x))" and ?m = "uint (as_u8 (sd_qos_class y))"
  obtain a where a: "calculate_eviction_score now st x (Fin p) = fadd F64 (Fin a) (Fin q)"
      "of_int (10 * ?n) \<le> a" "a \<le> of_int (10 * ?n + 9)"
    using score_parts [OF assms(1), of now x "Fin p"] by (auto simp: q(1) between_def)
  obtain b where b: "calculate_eviction_score now st y (Fin p) = fadd F64 (Fin b) (Fin q)"
      "of_int (10 * ?m) \<le> b" "b \<le> of_int (10 * ?m + 9)"
    using score_parts [OF assms(1), of now y "Fin p"] by (auto simp: q(1) between_def)
  have nm: "?n + 1 \<le> ?m" "1 \<le> ?n" "?m \<le> 5"
    using assms(3) as_u8_range [of "sd_qos_class x"] as_u8_range [of "sd_qos_class y"]
    by (simp_all add: word_less_def)
  then have "10 * ?n + 9 + 1 \<le> 10 * ?m" "10 \<le> 10 * ?n" "10 * ?m + 9 \<le> 59"
    by linarith+
  then have "(of_int (10 * ?n + 9 + 1) :: rat) \<le> of_int (10 * ?m)" "(of_int 10 :: rat) \<le> of_int (10 * ?n)"
      "(of_int (10 * ?m + 9) :: rat) \<le> of_int 59"
    by (simp_all only: of_int_le_iff)
  then have "a + 1 \<le> b" "10 \<le> a" "b \<le> 59"
    using a(2,3) b(2,3) by simp_all
  then have "flt (fround F64 (a + q)) (fround F64 (b + q))"
    using q(2,3) by (intro fround_strict) simp_all
  then show ?thesis
    by (simp add: p(1) a(1) b(1) fadd_def)
qed


text \<open>The selection is a prefix that stops once enough bytes are found.\<close>

lemma select_candidates_prefix:
  "\<exists>rest. cs = select_candidates n t cs @ rest"
  by (induction cs arbitrary: t) (auto simp: Let_def)

lemma select_candidates_enough:
  assumes "unat t + sum_list (map (unat \<circ> ca_size_bytes) cs) < 2 ^ 64"
  shows "select_candidates n t cs = cs \<or>
    unat n \<le> unat t + sum_list (map (unat \<circ> ca_size_bytes) (select_candidates n t cs))"
  using assms
proof (induction cs arbitrary: t)
  case (Cons c cs)
  let ?t = "t + ca_size_bytes c"
  have t: "unat ?t = unat t + unat (ca_size_bytes c)"
    using Cons.prems by (subst unat_add_lem [THEN iffD1]) simp_all
  show ?case
  proof (cases "n \<le> ?t")
    case True
    then show ?thesis
      using t by (simp add: word_le_nat_alt)
  next
    case False
    then show ?thesis
      using Cons.IH [of ?t] Cons.prems t by (auto simp: Let_def add.assoc)
  qed
qed simp

definition all_candidates :: "u64 \<Rightarrow> QoSAwareStorage \<Rightarrow> EvictionCandidate list" where
  "all_candidates now st = map (candidate_of now st) (filter (evictable now st) (map snd (documents st)))"

lemma score_not_NaN:
  assumes "retention_policies st = policies_default_tactical"
    and "unat (current_storage_bytes st) \<le> 2 ^ 38 * unat (max_storage_bytes st)"
  shows "calculate_eviction_score now st x (storage_pressure st) \<noteq> NaN"
proof -
  obtain p where p: "storage_pressure st = Fin p" "0 \<le> p" "p \<le> 2 ^ 40"
    using pressure_bound [OF assms(2)] by blast
  obtain q where "fmul F64 (Fin p) (Fin 2) = Fin q"
    using fin_mul_two [OF p(2,3)] by blast
  then show ?thesis
    using score_parts [OF assms(1), of now x "Fin p"] by (auto simp: p(1) between_def fadd_def)
qed

text \<open>
  C29.  With the default policies, and while the storage is less than \<open>2 ^ 38\<close> times over
  its capacity, the candidates for eviction are listed with the lowest priority first:
  every bulk document before every low one, and so on, whatever the age, the idle time
  and the size of the documents.  A candidate is a stored document that is neither
  critical nor protected and that its retention policy lets go.  The candidates free
  the bytes that are asked for, or all documents that may be evicted are among them.
\<close>

theorem candidates_lowest_class_first:
  assumes "retention_policies st = policies_default_tactical" "storage_inv st"
    and "unat (current_storage_bytes st) \<le> 2 ^ 38 * unat (max_storage_bytes st)"
    and "sum_list (map (unat \<circ> sd_size_bytes \<circ> snd) (documents st)) < 2 ^ 64"
  shows "sorted_wrt (\<lambda>a b. as_u8 (ca_qos_class b) \<le> as_u8 (ca_qos_class a)) (get_eviction_candidates now n st) \<and>
    list_all (\<lambda>c. \<exists>doc. hm_get (documents st) (ca_doc_id c) = Some doc \<and> c = candidate_of now st doc \<and>
       evictable now st doc) (get_eviction_candidates now n st) \<and>
    (unat n \<le> sum_list (map (unat \<circ> ca_size_bytes) (get_eviction_candidates now n st)) \<or>
     set (get_eviction_candidates now n st) =
       {candidate_of now st doc | doc d. hm_get (documents st) d = Some doc \<and> evictable now st doc})"
proof -
  let ?all = "all_candidates now st"
  let ?srt = "sort_desc eviction_score ?all"
  have get: "get_eviction_candidates now n st = select_candidates n 0 ?srt"
    by (simp add: get_eviction_candidates_def all_candidates_def)
  obtain rest where rest: "?srt = get_eviction_candidates now n st @ rest"
    using select_candidates_prefix get by metis
  have wf: "hm_wf (documents st)"
    using assms(2) by (simp add: storage_inv_def)
  have in_all: "c \<in> set ?all \<longleftrightarrow> (\<exists>d doc. hm_get (documents st) d = Some doc \<and> evictable now st doc \<and> c = candidate_of now st doc)" for c
    by (force simp: all_candidates_def hm_get_in_set [OF wf])
  have "sorted_wrt (\<lambda>a b. \<not> flt (eviction_score a) (eviction_score b)) ?srt"
    by (rule sorted_sort_desc) (auto simp: all_candidates_def candidate_of_def score_not_NaN [OF assms(1,3)])
  moreover have "as_u8 (ca_qos_class b) \<le> as_u8 (ca_qos_class a)"
    if "a \<in> set ?srt" "b \<in> set ?srt" "\<not> flt (eviction_score a) (eviction_score b)" for a b
    using that lower_class_scores_more [OF assms(1,3), of _ _ now]
    by (auto simp: all_candidates_def candidate_of_def not_less [symmetric])
  ultimately have "sorted_wrt (\<lambda>a b. as_u8 (ca_qos_class b) \<le> as_u8 (ca_qos_class a)) ?srt"
    using sorted_wrt_mono_rel by (metis (mono_tags, lifting))
  then have 1: "sorted_wrt (\<lambda>a b. as_u8 (ca_qos_class b) \<le> as_u8 (ca_qos_class a)) (get_eviction_candidates now n st)"
    unfolding rest by (simp add: sorted_wrt_append)
  have sub: "set (get_eviction_candidates now n st) \<subseteq> set ?all"
    using rest set_sort_desc [of eviction_score ?all] by (metis set_append sup_ge1)
  have 2: "list_all (\<lambda>c. \<exists>doc. hm_get (documents st) (ca_doc_id c) = Some doc \<and> c = candidate_of now st doc \<and>
       evictable now st doc) (get_eviction_candidates now n st)"
    unfolding list_all_iff
  proof
    fix c
    assume "c \<in> set (get_eviction_candidates now n st)"
    then obtain d doc where d: "hm_get (documents st) d = Some doc" "evictable now st doc" "c = candidate_of now st doc"
      using sub in_all [of c] by auto
    then have "ca_doc_id c = d"
      using storage_inv_id [OF assms(2) d(1)] by (simp add: candidate_of_def)
    then show "\<exists>doc. hm_get (documents st) (ca_doc_id c) = Some doc \<and> c = candidate_of now st doc \<and> evictable now st doc"
      using d by blast
  qed
  have sizes: "sum_list (map (unat \<circ> ca_size_bytes) ?srt) \<le> sum_list (map (unat \<circ> sd_size_bytes \<circ> snd) (documents st))"
  proof -
    have "sum_list (map (unat \<circ> ca_size_bytes) ?srt) = sum_list (map (unat \<circ> ca_size_bytes) ?all)"
      by (metis mset_map mset_sort_desc sum_mset_sum_list)
    also have "\<dots> = sum_list (map (unat \<circ> sd_size_bytes) (filter (evictable now st) (map snd (documents st))))"
      by (simp add: all_candidates_def candidate_of_def comp_def)
    also have "\<dots> \<le> sum_list (map (unat \<circ> sd_size_bytes) (map snd (documents st)))"
      by (rule sum_list_filter_le_nat)
    finally show ?thesis
      by (simp add: comp_assoc)
  qed
  have "get_eviction_candidates now n st = ?srt \<or>
      unat n \<le> sum_list (map (unat \<circ> ca_size_bytes) (get_eviction_candidates now n st))"
    using select_candidates_enough [of 0 ?srt n] sizes assms(4) by (simp add: get)
  moreover have "set ?srt = {candidate_of now st doc | doc d. hm_get (documents st) d = Some doc \<and> evictable now st doc}"
    unfolding set_sort_desc set_eq_iff mem_Collect_eq in_all by blast
  ultimately show ?thesis
    using 1 2 by metis
qed

definition sample_storage :: QoSAwareStorage where
  "sample_storage =
     register_document (stored_document_new 1000 ''beacons:b1'' Normal 300)
       (register_document (stored_document_new 4000 ''logs:l1'' Bulk 200)
         (register_document (stored_document_new 0 ''commands:c1'' Critical 450) (qos_storage_new 1000)))"

theorem candidates_lowest_class_first_witness:
  "sorted_wrt (\<lambda>a b. as_u8 (ca_qos_class b) \<le> as_u8 (ca_qos_class a)) (get_eviction_candidates 5000 400 sample_storage)"
  using candidates_lowest_class_first [of sample_storage 5000 400]
  by (simp add: sample_storage_def register_document_def qos_storage_new_def stored_document_new_def storage_inv_def
      total_size_def hm_wf_def)


end
