(* ===== verification/Eviction.thy ===== *)
theory Eviction
  imports Qos_Storage Keyed_State
begin

text \<open>
  Evicting documents: the audit log (\<^verbatim>\<open>src/qos/audit.rs\<close>), the controller that runs eviction
  cycles (\<^verbatim>\<open>src/qos/eviction.rs\<close>) and the service that runs it on the document store
  (\<^verbatim>\<open>src/qos/eviction_service.rs\<close>).

  The two callbacks of the controller act on a world of their own, which the cycle
  passes through.  Of the clock a cycle reads the seconds of the day once, the time of
  its audit entries once, and the milliseconds it has run before each candidate and at
  its end.  A reason in the log keeps the arguments of its text.
\<close>

section \<open>Audit log\<close>

datatype AuditAction =
  Evicted | Compressed | MarkedProtected | UnmarkedProtected | FailedEviction | TtlExpiredAction
| SoftDeleted | CleanupCompleted

datatype audit_reason =
  ReasonText string
| ReasonCompressed u64 u64 u32
| ReasonTtl u64
| ReasonCleanup nat u64 u64
| ReasonPressure u64 float

record AuditEntry =
  timestamp :: int
  ae_action :: AuditAction
  ae_doc_id :: string
  ae_qos_class :: QoSClass
  ae_size_bytes :: "u64 option"
  ae_reason :: audit_reason
  metadata :: "string option"

definition audit_entry_new :: "int \<Rightarrow> AuditAction \<Rightarrow> string \<Rightarrow> QoSClass \<Rightarrow> audit_reason \<Rightarrow> AuditEntry" where
  "audit_entry_new utc action d c why =
     \<lparr>timestamp = utc, ae_action = action, ae_doc_id = d, ae_qos_class = c, ae_size_bytes = None,
      ae_reason = why, metadata = None\<rparr>"

definition with_size :: "u64 \<Rightarrow> AuditEntry \<Rightarrow> AuditEntry" where
  "with_size n e = e\<lparr>ae_size_bytes := Some n\<rparr>"

definition with_metadata :: "string \<Rightarrow> AuditEntry \<Rightarrow> AuditEntry" where
  "with_metadata m e = e\<lparr>metadata := Some m\<rparr>"

definition entry_compression :: "int \<Rightarrow> string \<Rightarrow> QoSClass \<Rightarrow> u64 \<Rightarrow> u64 \<Rightarrow> AuditEntry" where
  "entry_compression utc d c original compressed =
     (let savings = (if 0 < original
            then to_u32 (fmul F64 (fdiv F64 (of_usize F64 (original - compressed)) (of_usize F64 original)) (f64 100))
            else 0)
      in with_size compressed (audit_entry_new utc Compressed d c (ReasonCompressed original compressed savings)))"

definition entry_ttl_expired :: "int \<Rightarrow> string \<Rightarrow> QoSClass \<Rightarrow> u64 \<Rightarrow> AuditEntry" where
  "entry_ttl_expired utc d c age = audit_entry_new utc TtlExpiredAction d c (ReasonTtl age)"

definition entry_cleanup_completed :: "int \<Rightarrow> nat \<Rightarrow> u64 \<Rightarrow> u64 \<Rightarrow> AuditEntry" where
  "entry_cleanup_completed utc docs_evicted bytes_freed duration_ms =
     with_size bytes_freed (audit_entry_new utc CleanupCompleted ''system'' Normal
       (ReasonCleanup docs_evicted bytes_freed duration_ms))"

record EvictionAuditLog =
  log_entries :: "AuditEntry list"
  log_max_entries :: nat

definition audit_log_new :: "nat \<Rightarrow> EvictionAuditLog" where
  "audit_log_new n = \<lparr>log_entries = [], log_max_entries = n\<rparr>"

definition audit_record :: "AuditEntry \<Rightarrow> EvictionAuditLog \<Rightarrow> EvictionAuditLog" where
  "audit_record e lg =
     (let es = (if log_max_entries lg \<le> length (log_entries lg) then tl (log_entries lg) else log_entries lg)
      in lg\<lparr>log_entries := es @ [e]\<rparr>)"

definition record_eviction :: "int \<Rightarrow> string \<Rightarrow> QoSClass \<Rightarrow> u64 \<Rightarrow> audit_reason \<Rightarrow> EvictionAuditLog \<Rightarrow> EvictionAuditLog" where
  "record_eviction utc d c n why = audit_record (with_size n (audit_entry_new utc Evicted d c why))"

definition record_compression :: "int \<Rightarrow> string \<Rightarrow> QoSClass \<Rightarrow> u64 \<Rightarrow> u64 \<Rightarrow> EvictionAuditLog \<Rightarrow> EvictionAuditLog" where
  "record_compression utc d c original compressed = audit_record (entry_compression utc d c original compressed)"

definition record_protection :: "int \<Rightarrow> string \<Rightarrow> QoSClass \<Rightarrow> audit_reason \<Rightarrow> EvictionAuditLog \<Rightarrow> EvictionAuditLog" where
  "record_protection utc d c why = audit_record (audit_entry_new utc MarkedProtected d c why)"

definition record_failure :: "int \<Rightarrow> string \<Rightarrow> QoSClass \<Rightarrow> audit_reason \<Rightarrow> EvictionAuditLog \<Rightarrow> EvictionAuditLog" where
  "record_failure utc d c err = audit_record (audit_entry_new utc FailedEviction d c err)"

definition get_in_range :: "int \<Rightarrow> int \<Rightarrow> EvictionAuditLog \<Rightarrow> AuditEntry list" where
  "get_in_range start stop lg = filter (\<lambda>e. start \<le> timestamp e \<and> timestamp e \<le> stop) (log_entries lg)"

definition get_by_class :: "QoSClass \<Rightarrow> EvictionAuditLog \<Rightarrow> AuditEntry list" where
  "get_by_class c lg = filter (\<lambda>e. ae_qos_class e = c) (log_entries lg)"

definition get_by_action :: "AuditAction \<Rightarrow> EvictionAuditLog \<Rightarrow> AuditEntry list" where
  "get_by_action a lg = filter (\<lambda>e. ae_action e = a) (log_entries lg)"

definition get_recent :: "nat \<Rightarrow> EvictionAuditLog \<Rightarrow> AuditEntry list" where
  "get_recent n lg = rev (take n (rev (log_entries lg)))"

definition audit_clear :: "EvictionAuditLog \<Rightarrow> EvictionAuditLog" where
  "audit_clear lg = lg\<lparr>log_entries := []\<rparr>"

record AuditSummary =
  total_entries :: nat
  total_evictions :: nat
  bytes_evicted :: u64
  total_compressions :: nat
  failed_evictions :: nat
  evictions_by_class :: "(QoSClass, nat) hmap"

definition summarize :: "AuditEntry \<Rightarrow> AuditSummary \<Rightarrow> AuditSummary" where
  "summarize e sm =
     (let s1 = sm\<lparr>total_entries := total_entries sm + 1\<rparr>
      in case ae_action e of
           Evicted \<Rightarrow>
             s1\<lparr>total_evictions := total_evictions s1 + 1,
                bytes_evicted := bytes_evicted s1 + (case ae_size_bytes e of Some n \<Rightarrow> n | None \<Rightarrow> 0),
                evictions_by_class := hm_insert (ae_qos_class e)
                  (hm_get_or 0 (evictions_by_class s1) (ae_qos_class e) + 1) (evictions_by_class s1)\<rparr>
         | Compressed \<Rightarrow> s1\<lparr>total_compressions := total_compressions s1 + 1\<rparr>
         | FailedEviction \<Rightarrow> s1\<lparr>failed_evictions := failed_evictions s1 + 1\<rparr>
         | _ \<Rightarrow> s1)"

definition audit_summary :: "EvictionAuditLog \<Rightarrow> AuditSummary" where
  "audit_summary lg = fold summarize (log_entries lg)
     \<lparr>total_entries = 0, total_evictions = 0, bytes_evicted = 0, total_compressions = 0, failed_evictions = 0,
      evictions_by_class = []\<rparr>"

definition evictions_for_class :: "AuditSummary \<Rightarrow> QoSClass \<Rightarrow> nat" where
  "evictions_for_class sm c = hm_get_or 0 (evictions_by_class sm) c"

section \<open>The controller\<close>

record EvictionResult =
  docs_evicted :: nat
  bytes_freed :: u64
  er_by_class :: "(QoSClass, nat) hmap"
  compressions :: nat
  compression_savings :: u64
  failures :: nat
  duration_ms :: u64
  pressure_before :: float
  pressure_after :: float

definition eviction_result_default :: EvictionResult where
  "eviction_result_default = \<lparr>docs_evicted = 0, bytes_freed = 0, er_by_class = [], compressions = 0,
     compression_savings = 0, failures = 0, duration_ms = 0, pressure_before = Fin 0, pressure_after = Fin 0\<rparr>"

definition er_is_success :: "EvictionResult \<Rightarrow> bool" where
  "er_is_success r \<longleftrightarrow> 0 < docs_evicted r \<or> 0 < compression_savings r"

definition freed_target :: "EvictionResult \<Rightarrow> u64 \<Rightarrow> bool" where
  "freed_target r target \<longleftrightarrow> target \<le> bytes_freed r + compression_savings r"

record EvictionConfig =
  cfg_eviction_threshold :: float
  target_pressure :: float
  compress_before_eviction :: bool
  max_evictions_per_cycle :: nat
  max_cycle_duration_ms :: u64

definition eviction_config_default :: EvictionConfig where
  "eviction_config_default = \<lparr>cfg_eviction_threshold = f32 (9 / 10), target_pressure = f32 (7 / 10),
     compress_before_eviction = True, max_evictions_per_cycle = 1000, max_cycle_duration_ms = 5000\<rparr>"

definition eviction_config_aggressive :: EvictionConfig where
  "eviction_config_aggressive = \<lparr>cfg_eviction_threshold = f32 (75 / 100), target_pressure = f32 (5 / 10),
     compress_before_eviction = True, max_evictions_per_cycle = 2000, max_cycle_duration_ms = 10000\<rparr>"

definition eviction_config_conservative :: EvictionConfig where
  "eviction_config_conservative = \<lparr>cfg_eviction_threshold = f32 (95 / 100), target_pressure = f32 (85 / 100),
     compress_before_eviction = True, max_evictions_per_cycle = 500, max_cycle_duration_ms = 3000\<rparr>"

record 'w EvictionController =
  ec_storage :: QoSAwareStorage
  ec_audit_log :: EvictionAuditLog
  ec_config :: EvictionConfig
  eviction_callback :: "(string \<Rightarrow> 'w \<Rightarrow> (string + unit) \<times> 'w) option"
  compression_callback :: "(string \<Rightarrow> 'w \<Rightarrow> (string + u64) \<times> 'w) option"
  protected_docs :: "string set"
  recent_stats :: "EvictionResult list"

definition controller_new :: "QoSAwareStorage \<Rightarrow> EvictionAuditLog \<Rightarrow> 'w EvictionController" where
  "controller_new st lg = \<lparr>ec_storage = st, ec_audit_log = lg, ec_config = eviction_config_default,
     eviction_callback = None, compression_callback = None, protected_docs = {}, recent_stats = []\<rparr>"

definition set_eviction_callback ::
  "(string \<Rightarrow> 'w \<Rightarrow> (string + unit) \<times> 'w) \<Rightarrow> 'w EvictionController \<Rightarrow> 'w EvictionController" where
  "set_eviction_callback cb ec = ec\<lparr>eviction_callback := Some cb\<rparr>"

definition set_compression_callback ::
  "(string \<Rightarrow> 'w \<Rightarrow> (string + u64) \<times> 'w) \<Rightarrow> 'w EvictionController \<Rightarrow> 'w EvictionController" where
  "set_compression_callback cb ec = ec\<lparr>compression_callback := Some cb\<rparr>"

record clock =
  clk_secs :: u64
  clk_utc :: int
  clk_elapsed :: "nat \<Rightarrow> u64"
  clk_total :: u64

text \<open>The state a cycle works on: its result so far, the world and the controller.\<close>

type_synonym 'w cycle = "EvictionResult \<times> 'w \<times> 'w EvictionController"

definition compress_one ::
  "clock \<Rightarrow> (string \<Rightarrow> 'w \<Rightarrow> (string + u64) \<times> 'w) \<Rightarrow> string \<Rightarrow> u64 \<times> 'w cycle \<Rightarrow> u64 \<times> 'w cycle" where
  "compress_one clk cb d = (\<lambda>(total_savings, r, w, ec).
     case get_document (ec_storage ec) d of
       None \<Rightarrow> (total_savings, r, w, ec)
     | Some doc \<Rightarrow>
         (let original = sd_size_bytes doc; (answer, w1) = cb d w
          in case answer of
               Inr new_size \<Rightarrow>
                 if new_size < original then
                   let savings = original - new_size
                   in (total_savings + savings,
                       r\<lparr>compressions := compressions r + 1, compression_savings := compression_savings r + savings\<rparr>,
                       w1,
                       ec\<lparr>ec_storage := snd (update_compressed d new_size (ec_storage ec)),
                          ec_audit_log := record_compression (clk_utc clk) d (sd_qos_class doc) original new_size
                                            (ec_audit_log ec)\<rparr>)
                 else (total_savings, r, w1, ec)
             | Inl e \<Rightarrow>
                 (total_savings, r, w1,
                  ec\<lparr>ec_audit_log := record_failure (clk_utc clk) d (sd_qos_class doc)
                                       (ReasonText (''Compression failed: '' @ e)) (ec_audit_log ec)\<rparr>)))"

definition compress_eligible_documents :: "clock \<Rightarrow> 'w cycle \<Rightarrow> u64 \<times> 'w cycle" where
  "compress_eligible_documents clk = (\<lambda>(r, w, ec).
     case compression_callback ec of
       None \<Rightarrow> (0, r, w, ec)
     | Some cb \<Rightarrow> fold (compress_one clk cb) (get_compression_candidates (ec_storage ec)) (0, r, w, ec))"

definition evict_document ::
  "clock \<Rightarrow> EvictionCandidate \<Rightarrow> 'w \<times> 'w EvictionController \<Rightarrow> (string + u64) \<times> 'w \<times> 'w EvictionController" where
  "evict_document clk c = (\<lambda>(w, ec).
     case eviction_callback ec of
       None \<Rightarrow> (Inl ''No eviction callback set'', w, ec)
     | Some cb \<Rightarrow>
         (let (answer, w1) = cb (ca_doc_id c) w
          in case answer of
               Inl e \<Rightarrow> (Inl e, w1, ec)
             | Inr _ \<Rightarrow>
                 (case unregister_document (ca_doc_id c) (ec_storage ec) of
                    (Some doc, st) \<Rightarrow>
                      (Inr (sd_size_bytes doc), w1,
                       ec\<lparr>ec_storage := st,
                          ec_audit_log := record_eviction (clk_utc clk) (ca_doc_id c) (ca_qos_class c) (sd_size_bytes doc)
                            (ReasonPressure (ca_age_seconds c) (eviction_score c)) (ec_audit_log ec)\<rparr>)
                  | (None, st) \<Rightarrow> (Inr (ca_size_bytes c), w1, ec\<lparr>ec_storage := st\<rparr>))))"

text \<open>The loop over the candidates; \<open>i\<close> counts the readings of the elapsed time.\<close>

fun evict_loop :: "clock \<Rightarrow> u64 \<Rightarrow> nat \<Rightarrow> EvictionCandidate list \<Rightarrow> 'w cycle \<Rightarrow> 'w cycle" where
  "evict_loop clk needed i [] (r, w, ec) = (r, w, ec)"
| "evict_loop clk needed i (c # cs) (r, w, ec) =
     (if max_cycle_duration_ms (ec_config ec) < clk_elapsed clk i then (r, w, ec)
      else if max_evictions_per_cycle (ec_config ec) \<le> docs_evicted r then (r, w, ec)
      else if ca_doc_id c \<in> protected_docs ec then evict_loop clk needed (Suc i) cs (r, w, ec)
      else case evict_document clk c (w, ec) of
        (Inr bytes, w1, ec1) \<Rightarrow>
          (let r1 = r\<lparr>docs_evicted := docs_evicted r + 1, bytes_freed := bytes_freed r + bytes,
                      er_by_class := hm_insert (ca_qos_class c)
                        (hm_get_or 0 (er_by_class r) (ca_qos_class c) + 1) (er_by_class r)\<rparr>
           in if needed \<le> bytes_freed r1 + compression_savings r1 then (r1, w1, ec1)
              else evict_loop clk needed (Suc i) cs (r1, w1, ec1))
      | (Inl e, w1, ec1) \<Rightarrow>
          evict_loop clk needed (Suc i) cs
            (r\<lparr>failures := failures r + 1\<rparr>, w1,
             ec1\<lparr>ec_audit_log := record_failure (clk_utc clk) (ca_doc_id c) (ca_qos_class c) (ReasonText e)
                                   (ec_audit_log ec1)\<rparr>))"

definition record_cycle_completion :: "clock \<Rightarrow> EvictionResult \<Rightarrow> 'w EvictionController \<Rightarrow> 'w EvictionController" where
  "record_cycle_completion clk r ec =
     ec\<lparr>ec_audit_log := audit_record (entry_cleanup_completed (clk_utc clk) (docs_evicted r)
          (bytes_freed r + compression_savings r) (duration_ms r)) (ec_audit_log ec)\<rparr>"

definition bytes_to_free :: "u64 option \<Rightarrow> 'w EvictionController \<Rightarrow> u64" where
  "bytes_to_free target ec =
     (case target of
        Some n \<Rightarrow> n
      | None \<Rightarrow> saturating_sub (current_storage_bytes (ec_storage ec))
          (to_u64 (fmul F32 (of_usize F32 (max_storage_bytes (ec_storage ec))) (target_pressure (ec_config ec)))))"

definition finish_result :: "clock \<Rightarrow> EvictionResult \<Rightarrow> 'w EvictionController \<Rightarrow> EvictionResult" where
  "finish_result clk r ec = r\<lparr>pressure_after := storage_pressure (ec_storage ec), duration_ms := clk_total clk\<rparr>"

definition push_stats :: "EvictionResult \<Rightarrow> EvictionResult list \<Rightarrow> EvictionResult list" where
  "push_stats r stats = (if 10 \<le> length stats then tl stats else stats) @ [r]"

definition execute_eviction_cycle :: "clock \<Rightarrow> u64 option \<Rightarrow> 'w \<Rightarrow> 'w EvictionController \<Rightarrow> 'w cycle" where
  "execute_eviction_cycle clk target w ec =
     (let r0 = eviction_result_default\<lparr>pressure_before := storage_pressure (ec_storage ec)\<rparr>;
          needed = bytes_to_free target ec
      in if needed = 0 then (finish_result clk r0 ec, w, ec)
         else
           let (saved, r1, w1, ec1) =
                 (if compress_before_eviction (ec_config ec) then compress_eligible_documents clk (r0, w, ec)
                  else (0, r0, w, ec))
           in if compress_before_eviction (ec_config ec) \<and> needed \<le> saved then
                let r = finish_result clk r1 ec1 in (r, w1, record_cycle_completion clk r ec1)
              else
                let candidates = get_eviction_candidates (clk_secs clk)
                      (saturating_sub needed (compression_savings r1)) (ec_storage ec1);
                    (r2, w2, ec2) = evict_loop clk needed 0 candidates (r1, w1, ec1);
                    r = finish_result clk r2 ec2;
                    ec3 = record_cycle_completion clk r ec2
                in (r, w2, ec3\<lparr>recent_stats := push_stats r (recent_stats ec3)\<rparr>))"

definition run_eviction_cycle :: "clock \<Rightarrow> 'w \<Rightarrow> 'w EvictionController \<Rightarrow> EvictionResult option \<times> 'w \<times> 'w EvictionController" where
  "run_eviction_cycle clk w ec =
     (if flt (storage_pressure (ec_storage ec)) (cfg_eviction_threshold (ec_config ec)) then (None, w, ec)
      else let (r, w', ec') = execute_eviction_cycle clk None w ec in (Some r, w', ec'))"

definition force_eviction :: "clock \<Rightarrow> u64 \<Rightarrow> 'w \<Rightarrow> 'w EvictionController \<Rightarrow> 'w cycle" where
  "force_eviction clk n w ec = execute_eviction_cycle clk (Some n) w ec"

definition controller_mark_protected :: "int \<Rightarrow> string \<Rightarrow> 'w EvictionController \<Rightarrow> 'w EvictionController" where
  "controller_mark_protected utc d ec =
     (let ec1 = ec\<lparr>protected_docs := insert d (protected_docs ec),
                   ec_storage := snd (storage_mark_protected d (ec_storage ec))\<rparr>
      in case get_document (ec_storage ec1) d of
           Some doc \<Rightarrow> ec1\<lparr>ec_audit_log := record_protection utc d (sd_qos_class doc)
                             (ReasonText ''Operator override'') (ec_audit_log ec1)\<rparr>
         | None \<Rightarrow> ec1)"

definition controller_unmark_protected :: "int \<Rightarrow> string \<Rightarrow> 'w EvictionController \<Rightarrow> 'w EvictionController" where
  "controller_unmark_protected utc d ec =
     (let ec1 = ec\<lparr>protected_docs := protected_docs ec - {d},
                   ec_storage := snd (storage_unmark_protected d (ec_storage ec))\<rparr>
      in case get_document (ec_storage ec1) d of
           Some doc \<Rightarrow> ec1\<lparr>ec_audit_log := audit_record (audit_entry_new utc UnmarkedProtected d (sd_qos_class doc)
                             (ReasonText ''Operator override removed'')) (ec_audit_log ec1)\<rparr>
         | None \<Rightarrow> ec1)"

definition needs_eviction :: "'w EvictionController \<Rightarrow> bool" where
  "needs_eviction ec \<longleftrightarrow> fle (cfg_eviction_threshold (ec_config ec)) (storage_pressure (ec_storage ec))"

section \<open>The service\<close>

text \<open>
  The callback deletes from the document store; \<open>display\<close> is the text of a store error.  The
  service holds the controller, whose storage and store it shares.
\<close>

definition delete_callback ::
  "('t, 'c, 'd, 'e) store_env \<Rightarrow> ('e \<Rightarrow> string) \<Rightarrow> string \<Rightarrow> ('t, 'c) AutomergeStore
     \<Rightarrow> (string + unit) \<times> ('t, 'c) AutomergeStore" where
  "delete_callback env display d s =
     (case store_delete env s d of
        Inr s' \<Rightarrow> (Inr (), s')
      | Inl e \<Rightarrow> (Inl (''Failed to delete '' @ d @ '': '' @ display e), s))"

definition eviction_service_new ::
  "('t, 'c, 'd, 'e) store_env \<Rightarrow> ('e \<Rightarrow> string) \<Rightarrow> u64 \<Rightarrow> EvictionConfig \<Rightarrow> ('t, 'c) AutomergeStore EvictionController" where
  "eviction_service_new env display n cfg =
     set_eviction_callback (delete_callback env display)
       ((controller_new (qos_storage_new n) (audit_log_new 1000))\<lparr>ec_config := cfg\<rparr>)"

definition service_register :: "u64 \<Rightarrow> string \<Rightarrow> u64 \<Rightarrow> 'w EvictionController \<Rightarrow> 'w EvictionController" where
  "service_register now key n sv =
     sv\<lparr>ec_storage := register_document
          (stored_document_new now key (qos_for_collection (takeWhile (\<lambda>c. c \<noteq> CHR '':'') key)) n) (ec_storage sv)\<rparr>"

definition service_unregister :: "string \<Rightarrow> 'w EvictionController \<Rightarrow> 'w EvictionController" where
  "service_unregister key sv = sv\<lparr>ec_storage := snd (unregister_document key (ec_storage sv))\<rparr>"

text \<open>One turn of the periodic task.\<close>

definition service_round :: "clock \<Rightarrow> 'w \<times> 'w EvictionController \<Rightarrow> 'w \<times> 'w EvictionController" where
  "service_round clk = (\<lambda>(w, sv).
     if storage_should_evict (ec_storage sv) then snd (run_eviction_cycle clk w sv) else (w, sv))"

section \<open>What a cycle changes\<close>

text \<open>
  A property of the storage that every operation of a cycle keeps; the cycle then keeps
  it, whatever the callbacks answer.
\<close>

lemma evict_document_frame:
  assumes "evict_document clk c (w, ec) = (a, w1, ec1)"
  shows "ec_config ec1 = ec_config ec \<and> eviction_callback ec1 = eviction_callback ec \<and>
    compression_callback ec1 = compression_callback ec \<and> protected_docs ec1 = protected_docs ec \<and>
    recent_stats ec1 = recent_stats ec \<and>
    (ec_storage ec1 = ec_storage ec \<or> ec_storage ec1 = snd (unregister_document (ca_doc_id c) (ec_storage ec)))"
  using assms by (auto simp: evict_document_def split: option.splits prod.splits sum.splits)

lemma evict_loop_frame:
  assumes "evict_loop clk needed i cs (r, w, ec) = (r', w', ec')"
  shows "ec_config ec' = ec_config ec \<and> eviction_callback ec' = eviction_callback ec \<and>
    compression_callback ec' = compression_callback ec \<and> protected_docs ec' = protected_docs ec"
  using assms
proof (induction cs arbitrary: i r w ec)
  case (Cons c cs)
  obtain a w1 ec1 where e: "evict_document clk c (w, ec) = (a, w1, ec1)"
    by (cases "evict_document clk c (w, ec)") auto
  show ?case
    using Cons.prems evict_document_frame [OF e] Cons.IH
    by (auto simp: e Let_def split: if_splits sum.splits dest!: Cons.IH)
qed simp

lemma evict_loop_keeps:
  assumes "evict_loop clk needed i cs (r, w, ec) = (r', w', ec')" "P (ec_storage ec)"
    and "\<And>st d. P st \<Longrightarrow> P (snd (unregister_document d st))"
  shows "P (ec_storage ec')"
  using assms(1,2)
proof (induction cs arbitrary: i r w ec)
  case (Cons c cs)
  obtain a w1 ec1 where e: "evict_document clk c (w, ec) = (a, w1, ec1)"
    by (cases "evict_document clk c (w, ec)") auto
  have "P (ec_storage ec1)"
    using evict_document_frame [OF e] Cons.prems(2) assms(3) by auto
  then show ?case
    using Cons.prems Cons.IH by (auto simp: e Let_def split: if_splits sum.splits)
qed simp

lemma compress_one_keeps:
  assumes "compress_one clk cb d (t, r, w, ec) = (t', r', w', ec')" "P (ec_storage ec)"
    and "\<And>st d n doc. P st \<Longrightarrow> hm_get (documents st) d = Some doc \<Longrightarrow> n < sd_size_bytes doc \<Longrightarrow> P (snd (update_compressed d n st))"
  shows "P (ec_storage ec') \<and> ec_config ec' = ec_config ec \<and> eviction_callback ec' = eviction_callback ec \<and>
    compression_callback ec' = compression_callback ec \<and> protected_docs ec' = protected_docs ec"
  using assms by (auto simp: compress_one_def get_document_def Let_def split: option.splits prod.splits sum.splits if_splits)

lemma compress_fold_keeps:
  assumes "fold (compress_one clk cb) ds (t, r, w, ec) = (t', r', w', ec')" "P (ec_storage ec)"
    and "\<And>st d n doc. P st \<Longrightarrow> hm_get (documents st) d = Some doc \<Longrightarrow> n < sd_size_bytes doc \<Longrightarrow> P (snd (update_compressed d n st))"
  shows "P (ec_storage ec') \<and> ec_config ec' = ec_config ec \<and> eviction_callback ec' = eviction_callback ec \<and>
    compression_callback ec' = compression_callback ec \<and> protected_docs ec' = protected_docs ec"
  using assms(1,2)
proof (induction ds arbitrary: t r w ec)
  case (Cons d ds)
  obtain t1 r1 w1 ec1 where e: "compress_one clk cb d (t, r, w, ec) = (t1, r1, w1, ec1)"
    by (cases "compress_one clk cb d (t, r, w, ec)") auto
  show ?case
    using compress_one_keeps [OF e Cons.prems(2) assms(3)] Cons.IH [of t1 r1 w1 ec1] Cons.prems e by auto
qed simp

lemma cycle_keeps:
  assumes "execute_eviction_cycle clk target w ec = (r', w', ec')" "P (ec_storage ec)"
    and "\<And>st d. P st \<Longrightarrow> P (snd (unregister_document d st))"
    and "\<And>st d n doc. P st \<Longrightarrow> hm_get (documents st) d = Some doc \<Longrightarrow> n < sd_size_bytes doc \<Longrightarrow> P (snd (update_compressed d n st))"
  shows "P (ec_storage ec') \<and> eviction_callback ec' = eviction_callback ec \<and>
    compression_callback ec' = compression_callback ec \<and> protected_docs ec' = protected_docs ec"
proof -
  define r0 where "r0 = eviction_result_default\<lparr>pressure_before := storage_pressure (ec_storage ec)\<rparr>"
  obtain t r1 w1 ec1 where z: "(if compress_before_eviction (ec_config ec) then compress_eligible_documents clk (r0, w, ec)
      else (0, r0, w, ec)) = (t, r1, w1, ec1)"
    by (metis prod_cases4)
  have k1: "P (ec_storage ec1) \<and> eviction_callback ec1 = eviction_callback ec \<and>
      compression_callback ec1 = compression_callback ec \<and> protected_docs ec1 = protected_docs ec"
    using z assms(2) compress_fold_keeps [where P = P, OF _ assms(2) assms(4)]
    by (fastforce simp: compress_eligible_documents_def split: if_splits option.splits)
  obtain r2 w2 ec2 where l: "evict_loop clk (bytes_to_free target ec) 0
      (get_eviction_candidates (clk_secs clk) (saturating_sub (bytes_to_free target ec) (compression_savings r1)) (ec_storage ec1))
      (r1, w1, ec1) = (r2, w2, ec2)"
    by (metis prod_cases3)
  have "P (ec_storage ec2) \<and> eviction_callback ec2 = eviction_callback ec \<and>
      compression_callback ec2 = compression_callback ec \<and> protected_docs ec2 = protected_docs ec"
    using evict_loop_keeps [where P = P, OF l _ assms(3)] evict_loop_frame [OF l] k1 by auto
  moreover have "ec' = ec \<or> (\<exists>r. ec' = record_cycle_completion clk r ec1) \<or>
      (\<exists>r st. ec' = (record_cycle_completion clk r ec2)\<lparr>recent_stats := st\<rparr>)"
    using assms(1) unfolding execute_eviction_cycle_def r0_def [symmetric] Let_def z prod.case l
    by (simp split: if_splits) metis+
  ultimately show ?thesis
    using k1 assms(2) by (elim disjE exE) (simp_all add: record_cycle_completion_def)
qed


section \<open>Callbacks that act on one document\<close>

text \<open>
  What the controller relies on: evicting one document leaves what is held of the others.
\<close>

locale local_callback =
  fixes cb :: "string \<Rightarrow> 'w \<Rightarrow> (string + unit) \<times> 'w"
    and view :: "'w \<Rightarrow> string \<Rightarrow> 'v"
    and good :: "'w \<Rightarrow> bool"
  assumes cb_good: "good w \<Longrightarrow> good (snd (cb d w))"
    and cb_local: "good w \<Longrightarrow> d' \<noteq> d \<Longrightarrow> view (snd (cb d w)) d' = view w d'"
begin

lemma evict_document_touches:
  assumes "evict_document clk c (w, ec) = (a, w1, ec1)" "eviction_callback ec = Some cb" "good w"
  shows "good w1 \<and> (d \<noteq> ca_doc_id c \<longrightarrow> view w1 d = view w d)"
  using assms cb_good [OF assms(3), of "ca_doc_id c"] cb_local [OF assms(3), of d "ca_doc_id c"]
  by (auto simp: evict_document_def split: option.splits prod.splits sum.splits)

lemma evict_loop_touches:
  assumes "evict_loop clk needed i cs (r, w, ec) = (r', w', ec')" "eviction_callback ec = Some cb" "good w"
  shows "good w' \<and> (view w' d \<noteq> view w d \<longrightarrow> d \<in> ca_doc_id ` set cs \<and> d \<notin> protected_docs ec)"
  using assms
proof (induction cs arbitrary: i r w ec)
  case (Cons c cs)
  show ?case
  proof (cases "max_cycle_duration_ms (ec_config ec) < clk_elapsed clk i \<or>
      max_evictions_per_cycle (ec_config ec) \<le> docs_evicted r")
    case True
    then have "w' = w"
      using Cons.prems(1) by (cases "max_cycle_duration_ms (ec_config ec) < clk_elapsed clk i") auto
    then show ?thesis
      using Cons.prems(3) by simp
  next
    case go: False
    show ?thesis
    proof (cases "ca_doc_id c \<in> protected_docs ec")
      case True
      then show ?thesis
        using go Cons.prems Cons.IH [of "Suc i" r w ec] by auto
    next
      case False
      obtain a w1 ec1 where e: "evict_document clk c (w, ec) = (a, w1, ec1)"
        by (cases "evict_document clk c (w, ec)") auto
      have t: "good w1" "d \<noteq> ca_doc_id c \<Longrightarrow> view w1 d = view w d"
        using evict_document_touches [OF e Cons.prems(2,3)] by auto
      have f: "eviction_callback ec1 = Some cb" "protected_docs ec1 = protected_docs ec"
        using evict_document_frame [OF e] Cons.prems(2) by auto
      consider "w' = w1" | i' r1 ec2 where "evict_loop clk needed i' cs (r1, w1, ec2) = (r', w', ec')"
          "eviction_callback ec2 = Some cb" "protected_docs ec2 = protected_docs ec"
        using Cons.prems(1) go False f by (auto simp: e Let_def split: sum.splits if_splits)
      then show ?thesis
      proof cases
        case 1
        then show ?thesis
          using t False by auto
      next
        case 2
        then show ?thesis
          using Cons.IH [OF 2(1,2) t(1)] t(2) False by (cases "d = ca_doc_id c") auto
      qed
    qed
  qed
qed simp

text \<open>Without compression a cycle touches only candidates that no operator protects.\<close>

lemma cycle_touches:
  assumes "execute_eviction_cycle clk target w ec = (r', w', ec')" "eviction_callback ec = Some cb" "good w"
    and "compression_callback ec = None" "storage_inv (ec_storage ec)"
  shows "good w' \<and> (view w' d \<noteq> view w d \<longrightarrow> d \<notin> protected_docs ec \<and>
    (\<exists>doc. hm_get (documents (ec_storage ec)) d = Some doc \<and> evictable (clk_secs clk) (ec_storage ec) doc))"
proof -
  define r0 where "r0 = eviction_result_default\<lparr>pressure_before := storage_pressure (ec_storage ec)\<rparr>"
  have z: "(if compress_before_eviction (ec_config ec) then compress_eligible_documents clk (r0, w, ec)
      else (0, r0, w, ec)) = (0, r0, w, ec)"
    using assms(4) by (simp add: compress_eligible_documents_def)
  let ?cs = "get_eviction_candidates (clk_secs clk) (saturating_sub (bytes_to_free target ec) (compression_savings r0)) (ec_storage ec)"
  obtain r2 w2 ec2 where l: "evict_loop clk (bytes_to_free target ec) 0 ?cs (r0, w, ec) = (r2, w2, ec2)"
    by (metis prod_cases3)
  have "w' = w \<or> w' = w2"
    using assms(1) unfolding execute_eviction_cycle_def r0_def [symmetric] Let_def z prod.case l
    by (auto split: if_splits)
  moreover have "\<exists>doc. hm_get (documents (ec_storage ec)) d = Some doc \<and> evictable (clk_secs clk) (ec_storage ec) doc"
    if din: "d \<in> ca_doc_id ` set ?cs"
  proof -
    have "set ?cs \<subseteq> set (all_candidates (clk_secs clk) (ec_storage ec))"
      using select_candidates_prefix set_sort_desc
      by (metis all_candidates_def get_eviction_candidates_def set_append sup_ge1)
    then obtain c where "c \<in> set (all_candidates (clk_secs clk) (ec_storage ec))" "d = ca_doc_id c"
      using din by blast
    then obtain k doc where "(k, doc) \<in> set (documents (ec_storage ec))" "evictable (clk_secs clk) (ec_storage ec) doc"
        "d = sd_doc_id doc"
      by (auto simp: all_candidates_def candidate_of_def)
    then show ?thesis
      using assms(5) storage_inv_id [OF assms(5)] by (auto simp: storage_inv_def simp flip: hm_get_in_set)
  qed
  ultimately show ?thesis
    using evict_loop_touches [OF l assms(2,3)] assms(3) by blast
qed

end

sublocale automerge_env \<subseteq> evicting: local_callback "delete_callback env display" docs store_inv for display
proof
  fix w :: "('t, 'c) AutomergeStore" and d d' :: string
  assume "store_inv w"
  then show "store_inv (snd (delete_callback env display d w))"
    and "d' \<noteq> d \<Longrightarrow> docs (snd (delete_callback env display d w)) d' = docs w d'"
    using store_delete_law [of w d] by (auto simp: delete_callback_def split: sum.splits)
qed

section \<open>The service on the store\<close>

datatype service_op = RegisterOp u64 string u64 | UnregisterOp string | RoundOp clock

fun service_step :: "service_op \<Rightarrow> 'w \<times> 'w EvictionController \<Rightarrow> 'w \<times> 'w EvictionController" where
  "service_step (RegisterOp now key n) (w, sv) = (w, service_register now key n sv)"
| "service_step (UnregisterOp key) (w, sv) = (w, service_unregister key sv)"
| "service_step (RoundOp clk) (w, sv) = service_round clk (w, sv)"

definition collection_class :: "string \<Rightarrow> QoSClass" where
  "collection_class key = qos_for_collection (takeWhile (\<lambda>c. c \<noteq> CHR '':'') key)"

text \<open>Every tracked document has the class of its collection.\<close>

definition classes_ok :: "QoSAwareStorage \<Rightarrow> bool" where
  "classes_ok st \<longleftrightarrow> storage_inv st \<and> (\<forall>d doc. hm_get (documents st) d = Some doc \<longrightarrow> sd_qos_class doc = collection_class d)
     \<and> eviction_threshold st = f32 (9 / 10)"

lemma classes_ok_new: "classes_ok (qos_storage_new n)"
  by (simp add: classes_ok_def) (simp add: qos_storage_new_def)

lemma classes_ok_unregister: "classes_ok st \<Longrightarrow> classes_ok (snd (unregister_document d st))"
  using storage_inv_unregister [of st d] by (auto simp: classes_ok_def unregister_document_def split: option.splits)

lemma classes_ok_compressed:
  "classes_ok st \<Longrightarrow> hm_get (documents st) d = Some doc \<Longrightarrow> n < sd_size_bytes doc \<Longrightarrow> classes_ok (snd (update_compressed d n st))"
  using storage_inv_compressed [of st d doc n] by (auto simp: classes_ok_def update_compressed_def Let_def)

lemma classes_ok_register:
  "classes_ok st \<Longrightarrow> classes_ok (register_document (stored_document_new now key (collection_class key) n) st)"
  by (auto simp: classes_ok_def stored_document_new_def)

lemma service_step_ok:
  assumes "service_step oper (w, sv) = (w', sv')" "classes_ok (ec_storage sv)"
  shows "classes_ok (ec_storage sv') \<and> eviction_callback sv' = eviction_callback sv \<and>
    compression_callback sv' = compression_callback sv \<and> protected_docs sv' = protected_docs sv"
proof (cases oper)
  case (RegisterOp now key n)
  then show ?thesis
    using assms classes_ok_register by (auto simp: service_register_def collection_class_def [symmetric])
next
  case (UnregisterOp key)
  then show ?thesis
    using assms classes_ok_unregister by (auto simp: service_unregister_def)
next
  case (RoundOp clk)
  obtain r w1 sv1 where e: "execute_eviction_cycle clk None w sv = (r, w1, sv1)"
    by (metis prod_cases3)
  have "sv' = sv \<or> sv' = sv1"
    using assms(1) RoundOp by (auto simp: service_round_def run_eviction_cycle_def e split: if_splits)
  then show ?thesis
    using cycle_keeps [where P = classes_ok, OF e assms(2) classes_ok_unregister classes_ok_compressed] assms(2) by auto
qed


context automerge_env
begin

definition service_inv :: "('e \<Rightarrow> string) \<Rightarrow> ('t, 'c) AutomergeStore \<times> ('t, 'c) AutomergeStore EvictionController \<Rightarrow> bool" where
  "service_inv display = (\<lambda>(s, sv). store_inv s \<and> classes_ok (ec_storage sv) \<and>
     eviction_callback sv = Some (delete_callback env display) \<and> compression_callback sv = None)"

lemma service_round_touches:
  assumes "service_inv display (s, sv)"
  shows "store_inv (fst (service_round clk (s, sv))) \<and>
    (docs (fst (service_round clk (s, sv))) k \<noteq> docs s k \<longrightarrow>
      fle (f32 (9 / 10)) (storage_pressure (ec_storage sv)) \<and>
      (\<exists>doc. hm_get (documents (ec_storage sv)) k = Some doc \<and> sd_qos_class doc = collection_class k \<and>
         evictable (clk_secs clk) (ec_storage sv) doc))"
proof -
  obtain r s1 sv1 where e: "execute_eviction_cycle clk None s sv = (r, s1, sv1)"
    by (metis prod_cases3)
  have i: "store_inv s" "classes_ok (ec_storage sv)" "eviction_callback sv = Some (delete_callback env display)"
      "compression_callback sv = None" "storage_inv (ec_storage sv)"
    using assms by (simp_all add: service_inv_def classes_ok_def)
  note t = evicting.cycle_touches [OF e i(3,1,4,5), of k]
  have "fst (service_round clk (s, sv)) = s \<or> storage_should_evict (ec_storage sv) \<and> fst (service_round clk (s, sv)) = s1"
    by (auto simp: service_round_def run_eviction_cycle_def e)
  then show ?thesis
    using t i(1,2) by (auto simp: storage_should_evict_def classes_ok_def)
qed

lemma service_inv_step:
  assumes "service_inv display (s, sv)"
  shows "service_inv display (service_step oper (s, sv))"
proof -
  obtain s' sv' where e: "service_step oper (s, sv) = (s', sv')"
    by (cases "service_step oper (s, sv)")
  have "store_inv s'"
  proof (cases oper)
    case (RoundOp clk)
    then show ?thesis
      using service_round_touches [OF assms, of clk undefined] e by simp
  qed (use e assms in \<open>auto simp: service_inv_def\<close>)
  then show ?thesis
    using service_step_ok [OF e] assms by (simp add: e service_inv_def)
qed

lemma service_run:
  assumes "service_inv display (s, sv)" "fold service_step ops (s, sv) = (s1, sv1)"
  shows "service_inv display (s1, sv1) \<and> (collection_class k = Critical \<longrightarrow> docs s1 k = docs s k)"
  using assms
proof (induction ops arbitrary: s sv)
  case (Cons oper ops)
  obtain s' sv' where e: "service_step oper (s, sv) = (s', sv')"
    by (cases "service_step oper (s, sv)")
  have i: "service_inv display (s', sv')"
    using service_inv_step [OF Cons.prems(1), of oper] e by simp
  have "collection_class k = Critical \<Longrightarrow> docs s' k = docs s k"
  proof (cases oper)
    case (RoundOp clk)
    then show "collection_class k = Critical \<Longrightarrow> ?thesis"
      using service_round_touches [OF Cons.prems(1), of clk k] e by (auto simp: evictable_def)
  qed (use e in auto)
  then show ?case
    using Cons.IH [OF i] Cons.prems(2) e by auto
qed simp

end

text \<open>
  C28.  The eviction service on a document store.  After any sequence of documents
  registered, documents unregistered and turns of the periodic task, the counter of
  bytes is the sum of the sizes of the tracked documents, and every document of a
  critical collection is in the store as it was.  A turn of the task changes a document
  of the store only if the document is tracked, of a class that is not critical, not
  protected and past what its retention policy keeps, and only while the storage is
  nine tenths full, whatever threshold the service was configured with.
\<close>

theorem eviction_service_spares:
  assumes env: "automerge_env env cont cached" and inv: "automerge_env.store_inv env cont cached s"
    and run: "fold service_step ops (s, eviction_service_new env display n cfg) = (s1, sv1)"
  shows "current_storage_bytes (ec_storage sv1) = total_size (documents (ec_storage sv1)) \<and>
    (collection_class k = Critical \<longrightarrow>
       automerge_env.docs env cont cached s1 k = automerge_env.docs env cont cached s k) \<and>
    (automerge_env.docs env cont cached (fst (service_round clk (s1, sv1))) k \<noteq>
       automerge_env.docs env cont cached s1 k \<longrightarrow>
       fle (f32 (9 / 10)) (storage_pressure (ec_storage sv1)) \<and>
       (\<exists>doc. hm_get (documents (ec_storage sv1)) k = Some doc \<and> sd_qos_class doc = collection_class k \<and>
          evictable (clk_secs clk) (ec_storage sv1) doc))"
proof -
  have "automerge_env.service_inv env cont cached display (s, eviction_service_new env display n cfg)"
    using inv classes_ok_new [of n]
    by (simp add: automerge_env.service_inv_def [OF env] eviction_service_new_def set_eviction_callback_def controller_new_def)
  from automerge_env.service_run [OF env this run, of k]
  have i: "automerge_env.service_inv env cont cached display (s1, sv1)"
    and c: "collection_class k = Critical \<longrightarrow> automerge_env.docs env cont cached s1 k = automerge_env.docs env cont cached s k"
    by simp_all
  have "current_storage_bytes (ec_storage sv1) = total_size (documents (ec_storage sv1))"
    using i by (simp add: automerge_env.service_inv_def [OF env] classes_ok_def storage_inv_def)
  then show ?thesis
    using automerge_env.service_round_touches [OF env i, of clk k] c by blast
qed

theorem eviction_service_spares_witness:
  "ref.docs (fst (fold service_step
     [RegisterOp 0 ''commands:c1'' 40, RegisterOp 0 ''nodes:d1'' 60,
      RoundOp \<lparr>clk_secs = 1000000, clk_utc = 0, clk_elapsed = (\<lambda>_. 0), clk_total = 0\<rparr>]
     (reference_deleted, eviction_service_new reference_env id 100 eviction_config_aggressive))) ''commands:c1'' =
   ref.docs reference_deleted ''commands:c1''"
proof -
  let ?ops = "[RegisterOp 0 ''commands:c1'' 40, RegisterOp 0 ''nodes:d1'' 60,
      RoundOp \<lparr>clk_secs = 1000000, clk_utc = 0, clk_elapsed = (\<lambda>_. 0), clk_total = 0\<rparr>]"
  obtain s1 sv1 where r: "fold service_step ?ops (reference_deleted, eviction_service_new reference_env id 100 eviction_config_aggressive) = (s1, sv1)"
    by (cases "fold service_step ?ops (reference_deleted, eviction_service_new reference_env id 100 eviction_config_aggressive)")
  have "collection_class ''commands:c1'' = Critical"
    by (simp add: collection_class_def qos_for_collection_def)
  then show ?thesis
    using eviction_service_spares [OF ref.automerge_env_axioms reference_deleted_inv r, of "''commands:c1''"] r by simp
qed


section \<open>A cycle frees what it can\<close>

definition ids_of :: "EvictionCandidate list \<Rightarrow> string list" where
  "ids_of cs = map ca_doc_id cs"

text \<open>Each candidate is a tracked document of the size it says.\<close>

definition tracked :: "QoSAwareStorage \<Rightarrow> EvictionCandidate list \<Rightarrow> bool" where
  "tracked st cs \<longleftrightarrow> distinct (ids_of cs) \<and>
     list_all (\<lambda>c. map_option sd_size_bytes (hm_get (documents st) (ca_doc_id c)) = Some (ca_size_bytes c)) cs"

lemma evict_document_succeeds:
  assumes "eviction_callback ec = Some cb" "\<And>d w. fst (cb d w) = Inr ()" "tracked (ec_storage ec) (c # cs)"
  shows "\<exists>w1 ec1. evict_document clk c (w, ec) = (Inr (ca_size_bytes c), w1, ec1) \<and> w1 = snd (cb (ca_doc_id c) w) \<and>
    ec_storage ec1 = snd (unregister_document (ca_doc_id c) (ec_storage ec)) \<and> tracked (ec_storage ec1) cs \<and>
    ec_config ec1 = ec_config ec \<and> eviction_callback ec1 = Some cb \<and> protected_docs ec1 = protected_docs ec"
proof -
  obtain w1 where w1: "cb (ca_doc_id c) w = (Inr (), w1)"
    using assms(2) [of "ca_doc_id c" w] by (cases "cb (ca_doc_id c) w") auto
  obtain doc where doc: "hm_get (documents (ec_storage ec)) (ca_doc_id c) = Some doc" "sd_size_bytes doc = ca_size_bytes c"
    using assms(3) by (auto simp: tracked_def)
  have "tracked (snd (unregister_document (ca_doc_id c) (ec_storage ec))) cs"
    using assms(3) doc by (auto simp: tracked_def unregister_document_def ids_of_def list_all_iff) (metis imageI)
  then show ?thesis
    using assms(1) w1 doc by (simp add: evict_document_def unregister_document_def)
qed

lemma evict_loop_succeeds:
  assumes "eviction_callback ec = Some cb" "\<And>d w. fst (cb d w) = Inr ()" "protected_docs ec = {}"
    and "\<And>i. clk_elapsed clk i \<le> max_cycle_duration_ms (ec_config ec)"
    and "docs_evicted r + length cs \<le> max_evictions_per_cycle (ec_config ec)"
    and "tracked (ec_storage ec) cs" "compression_savings r = 0"
    and "evict_loop clk needed i (select_candidates needed (bytes_freed r) cs) (r, w, ec) = (r', w', ec')"
  shows "bytes_freed r' = bytes_freed r + sum_list (map ca_size_bytes (select_candidates needed (bytes_freed r) cs)) \<and>
    documents (ec_storage ec') =
      fold hm_remove (ids_of (select_candidates needed (bytes_freed r) cs)) (documents (ec_storage ec)) \<and>
    current_storage_bytes (ec_storage ec') =
      current_storage_bytes (ec_storage ec) - sum_list (map ca_size_bytes (select_candidates needed (bytes_freed r) cs)) \<and>
    failures r' = failures r \<and>
    docs_evicted r' = docs_evicted r + length (select_candidates needed (bytes_freed r) cs) \<and>
    w' = fold (\<lambda>d w. snd (cb d w)) (ids_of (select_candidates needed (bytes_freed r) cs)) w"
  using assms
proof (induction cs arbitrary: i r w ec)
  case (Cons c cs)
  obtain w1 ec1 where e: "evict_document clk c (w, ec) = (Inr (ca_size_bytes c), w1, ec1)"
      "w1 = snd (cb (ca_doc_id c) w)" "ec_storage ec1 = snd (unregister_document (ca_doc_id c) (ec_storage ec))" "tracked (ec_storage ec1) cs"
      "ec_config ec1 = ec_config ec" "eviction_callback ec1 = Some cb" "protected_docs ec1 = protected_docs ec"
    using evict_document_succeeds [OF Cons.prems(1,2,6), of clk w] by blast
  let ?t = "bytes_freed r + ca_size_bytes c"
  define r1 where "r1 = r\<lparr>docs_evicted := docs_evicted r + 1, bytes_freed := ?t,
     er_by_class := hm_insert (ca_qos_class c) (hm_get_or 0 (er_by_class r) (ca_qos_class c) + 1) (er_by_class r)\<rparr>"
  obtain doc where doc: "hm_get (documents (ec_storage ec)) (ca_doc_id c) = Some doc" "sd_size_bytes doc = ca_size_bytes c"
    using Cons.prems(6) by (auto simp: tracked_def)
  have st: "documents (ec_storage ec1) = hm_remove (ca_doc_id c) (documents (ec_storage ec))"
      "current_storage_bytes (ec_storage ec1) = current_storage_bytes (ec_storage ec) - ca_size_bytes c"
    using doc by (simp_all add: e(3) unregister_document_def)
  have "\<not> max_cycle_duration_ms (ec_config ec) < clk_elapsed clk i"
    using Cons.prems(4) [of i] by simp
  then have step: "evict_loop clk needed i (c # xs) (r, w, ec) =
      (if needed \<le> ?t then (r1, w1, ec1) else evict_loop clk needed (Suc i) xs (r1, w1, ec1))" for xs
    using Cons.prems(3,5,7) by (simp add: e(1) r1_def Let_def)
  have r1: "bytes_freed r1 = ?t" "compression_savings r1 = 0" "failures r1 = failures r" "docs_evicted r1 = docs_evicted r + 1"
    using Cons.prems(7) by (simp_all add: r1_def)
  show ?case
  proof (cases "needed \<le> ?t")
    case True
    then have sel: "select_candidates needed (bytes_freed r) (c # cs) = [c]"
      by (simp add: Let_def)
    have "(r1, w1, ec1) = (r', w', ec')"
      using Cons.prems(8) True by (simp only: sel step if_True)
    then show ?thesis
      unfolding sel using r1 st e(2) by (auto simp: ids_of_def)
  next
    case False
    then have sel: "select_candidates needed (bytes_freed r) (c # cs) = c # select_candidates needed (bytes_freed r1) cs"
      by (simp add: Let_def r1)
    have "evict_loop clk needed (Suc i) (select_candidates needed (bytes_freed r1) cs) (r1, w1, ec1) = (r', w', ec')"
      using Cons.prems(8) False by (simp only: sel step if_False)
    from Cons.IH [OF e(6) Cons.prems(2) _ _ _ e(4) r1(2) this]
    show ?thesis
      using False Cons.prems(3,4,5) r1 st e(2,5,7) by (simp add: ids_of_def Let_def algebra_simps)
  qed
qed (auto simp: ids_of_def)

lemma hm_get_fold_remove: "hm_get (fold hm_remove ds m) d = (if d \<in> set ds then None else hm_get m d)"
  by (induction ds arbitrary: m) auto

lemma tracked_candidates:
  assumes "storage_inv st"
  shows "tracked st (sort_desc eviction_score (all_candidates now st))"
proof -
  have wf: "hm_wf (documents st)"
    using assms by (simp add: storage_inv_def)
  have "map sd_doc_id (map snd (documents st)) = map fst (documents st)"
    using assms by (auto simp: storage_inv_def list_all_iff)
  then have "distinct (map sd_doc_id (filter (evictable now st) (map snd (documents st))))"
    using wf by (metis distinct_map_filter hm_wf_def)
  then have "distinct (ids_of (all_candidates now st))"
    by (simp add: ids_of_def all_candidates_def candidate_of_def comp_def)
  then have "distinct (ids_of (sort_desc eviction_score (all_candidates now st)))"
    by (metis ids_of_def mset_eq_imp_distinct_iff mset_map mset_sort_desc)
  moreover have "map_option sd_size_bytes (hm_get (documents st) (ca_doc_id c)) = Some (ca_size_bytes c)"
    if c: "c \<in> set (all_candidates now st)" for c
  proof -
    obtain k doc where "(k, doc) \<in> set (documents st)" "c = candidate_of now st doc"
      using c by (auto simp: all_candidates_def)
    then have "hm_get (documents st) k = Some doc" "c = candidate_of now st doc"
      using wf by (simp_all add: hm_get_in_set)
    then show ?thesis
      using storage_inv_id [OF assms] by (simp add: candidate_of_def)
  qed
  ultimately show ?thesis
    by (simp add: tracked_def list_all_iff)
qed


text \<open>
  C30.  A forced eviction of \<open>n\<close> bytes whose deletions succeed, within the limits on time and
  number, and with nothing to compress and nothing protected by the operator, frees \<open>n\<close>
  bytes, or it evicts every document that may be evicted.  Exactly the selected
  candidates are evicted: each is deleted through the callback, once and in order, and
  leaves the storage, and no other document is touched.  The counters of the result and
  of the storage agree.
\<close>

theorem forced_eviction_frees:
  assumes "storage_inv (ec_storage ec)" "0 < n" "compression_callback ec = None" "protected_docs ec = {}"
    and "eviction_callback ec = Some cb" "\<And>d w. fst (cb d w) = Inr ()"
    and "\<And>i. clk_elapsed clk i \<le> max_cycle_duration_ms (ec_config ec)"
    and "length (documents (ec_storage ec)) \<le> max_evictions_per_cycle (ec_config ec)"
    and "sum_list (map (unat \<circ> sd_size_bytes \<circ> snd) (documents (ec_storage ec))) < 2 ^ 64"
    and run: "force_eviction clk n w ec = (r, w', ec')"
  shows "hm_get (documents (ec_storage ec')) d =
      (if d \<in> set (ids_of (get_eviction_candidates (clk_secs clk) n (ec_storage ec))) then None
       else hm_get (documents (ec_storage ec)) d) \<and>
    w' = fold (\<lambda>d w. snd (cb d w)) (ids_of (get_eviction_candidates (clk_secs clk) n (ec_storage ec))) w \<and>
    docs_evicted r = length (get_eviction_candidates (clk_secs clk) n (ec_storage ec)) \<and>
    current_storage_bytes (ec_storage ec') = current_storage_bytes (ec_storage ec) - bytes_freed r \<and>
    failures r = 0 \<and>
    (n \<le> bytes_freed r \<or>
     (\<forall>doc. hm_get (documents (ec_storage ec')) d = Some doc \<longrightarrow> \<not> evictable (clk_secs clk) (ec_storage ec) doc))"
proof -
  let ?st = "ec_storage ec" and ?now = "clk_secs clk"
  let ?srt = "sort_desc eviction_score (all_candidates ?now ?st)"
  let ?sel = "get_eviction_candidates ?now n ?st"
  define r0 where "r0 = eviction_result_default\<lparr>pressure_before := storage_pressure ?st\<rparr>"
  have r0: "bytes_freed r0 = 0" "compression_savings r0 = 0" "docs_evicted r0 = 0" "failures r0 = 0"
    by (simp_all add: r0_def eviction_result_default_def)
  have sel: "?sel = select_candidates n (bytes_freed r0) ?srt"
    by (simp add: get_eviction_candidates_def all_candidates_def r0)
  have z: "(if compress_before_eviction (ec_config ec) then compress_eligible_documents clk (r0, w, ec)
      else (0, r0, w, ec)) = (0, r0, w, ec)"
    using assms(3) by (simp add: compress_eligible_documents_def)
  obtain r2 w2 ec2 where l: "evict_loop clk n 0 ?sel (r0, w, ec) = (r2, w2, ec2)"
    by (metis prod_cases3)
  have n0: "\<not> n \<le> 0" "n \<noteq> 0" "saturating_sub n 0 = n"
    using assms(2) by (auto simp: saturating_sub_def not_le)
  have fin: "r = finish_result clk r2 ec2" "ec_storage ec' = ec_storage ec2" "w' = w2"
    using run n0 unfolding force_eviction_def execute_eviction_cycle_def r0_def [symmetric] Let_def z prod.case
    by (auto simp: bytes_to_free_def r0 l record_cycle_completion_def)
  have len: "docs_evicted r0 + length ?srt \<le> max_evictions_per_cycle (ec_config ec)"
    using assms(8) order_trans [OF length_filter_le [of "evictable ?now ?st" "map snd (documents ?st)"]]
    by (simp add: r0 mset_eq_length [OF mset_sort_desc] all_candidates_def del: filter_map)
  note res = evict_loop_succeeds [OF assms(5,6,4,7) len tracked_candidates [OF assms(1)] r0(2) l [unfolded sel], folded sel]
  have docs: "hm_get (documents (ec_storage ec')) d =
      (if d \<in> set (ids_of ?sel) then None else hm_get (documents ?st) d)" for d
    using res by (simp add: fin hm_get_fold_remove)
  have bytes: "bytes_freed r = sum_list (map ca_size_bytes ?sel)"
    using res by (simp add: fin finish_result_def r0)
  have "sum_list (map (unat \<circ> ca_size_bytes) ?srt) = sum_list (map (unat \<circ> ca_size_bytes) (all_candidates ?now ?st))"
    by (metis mset_map mset_sort_desc sum_mset_sum_list)
  also have "\<dots> = sum_list (map (unat \<circ> sd_size_bytes) (filter (evictable ?now ?st) (map snd (documents ?st))))"
    by (simp add: all_candidates_def candidate_of_def comp_def)
  also have "\<dots> \<le> sum_list (map (unat \<circ> sd_size_bytes) (map snd (documents ?st)))"
    by (rule sum_list_filter_le_nat)
  finally have fits: "sum_list (map (unat \<circ> ca_size_bytes) ?srt) < 2 ^ 64"
    using assms(9) by (simp add: comp_assoc)
  have "n \<le> bytes_freed r \<or>
     (\<forall>doc. hm_get (documents (ec_storage ec')) d = Some doc \<longrightarrow> \<not> evictable ?now ?st doc)"
  proof (cases "?sel = ?srt")
    case True
    have "d \<in> set (ids_of ?sel)" if "hm_get (documents ?st) d = Some doc" "evictable ?now ?st doc" for doc
      using that storage_inv_id [OF assms(1)] assms(1)
      by (force simp: True ids_of_def all_candidates_def candidate_of_def storage_inv_def hm_get_in_set)
    then show ?thesis
      using docs [of d] by (auto split: if_splits)
  next
    case False
    obtain rest where "?srt = ?sel @ rest"
      using select_candidates_prefix sel by metis
    then have "sum_list (map (unat \<circ> ca_size_bytes) ?sel) < 2 ^ 64"
      using fits by simp
    then have "unat (bytes_freed r) = sum_list (map (unat \<circ> ca_size_bytes) ?sel)"
      using unat_sum_list [of "map ca_size_bytes ?sel"] by (simp add: bytes)
    then show ?thesis
      using select_candidates_enough [of 0 ?srt n] fits False by (simp add: sel r0 word_le_nat_alt)
  qed
  then show ?thesis
    using docs [of d] res bytes by (simp add: fin finish_result_def r0)
qed

definition sample_controller :: "string list EvictionController" where
  "sample_controller = set_eviction_callback (\<lambda>d w. (Inr (), d # w)) (controller_new sample_storage (audit_log_new 10))"

theorem forced_eviction_frees_witness:
  "\<exists>r w ec. force_eviction \<lparr>clk_secs = 90000, clk_utc = 0, clk_elapsed = (\<lambda>_. 0), clk_total = 0\<rparr> 400 [] sample_controller
      = (r, w, ec) \<and> failures r = 0 \<and> docs_evicted r = length w \<and>
    current_storage_bytes (ec_storage ec) = current_storage_bytes sample_storage - bytes_freed r"
proof -
  let ?clk = "\<lparr>clk_secs = 90000, clk_utc = 0, clk_elapsed = (\<lambda>_. 0 :: u64), clk_total = 0\<rparr>"
  obtain r w ec where run: "force_eviction ?clk 400 [] sample_controller = (r, w, ec)"
    by (metis prod_cases3)
  have s: "ec_storage sample_controller = sample_storage" "compression_callback sample_controller = None"
      "protected_docs sample_controller = {}" "eviction_callback sample_controller = Some (\<lambda>d w. (Inr (), d # w))"
      "ec_config sample_controller = eviction_config_default"
    by (simp_all add: sample_controller_def set_eviction_callback_def controller_new_def)
  have d: "length (documents sample_storage) = 3"
      "sum_list (map (unat \<circ> sd_size_bytes \<circ> snd) (documents sample_storage)) = 950" "storage_inv sample_storage"
    by (simp_all add: sample_storage_def stored_document_new_def qos_storage_new_def)
      (simp add: register_document_def storage_inv_def total_size_def hm_wf_def)
  show ?thesis
    using forced_eviction_frees [of sample_controller 400 _ ?clk, OF _ _ s(2-4) _ _ _ _ run] run
    by (simp add: s d eviction_config_default_def rev_conv_fold [symmetric] ids_of_def)
qed


text \<open>
  Registering a document again clears the flag of the storage, not the protection of the
  controller: the document can be selected as a candidate, and the cycle skips it without
  looking for another one.
\<close>

lemma reregistered_document_selected:
  "hm_get (documents (register_document (stored_document_new now d c n) (ec_storage (controller_mark_protected utc d ec)))) d
     = Some (stored_document_new now d c n) \<and>
   \<not> sd_protected (stored_document_new now d c n) \<and> d \<in> protected_docs (controller_mark_protected utc d ec)"
  by (simp add: stored_document_new_def controller_mark_protected_def Let_def split: option.splits)

lemma protected_candidates_block_cycle:
  assumes "compression_callback ec = None" "force_eviction clk n w ec = (r, w', ec')"
    and "set (ids_of (get_eviction_candidates (clk_secs clk) n (ec_storage ec))) \<subseteq> protected_docs ec"
  shows "docs_evicted r = 0 \<and> w' = w \<and> ec_storage ec' = ec_storage ec"
proof -
  have skip: "set (ids_of cs) \<subseteq> protected_docs ec \<Longrightarrow> evict_loop clk n i cs (r, w, ec) = (r, w, ec)" for cs i r
    by (induction cs arbitrary: i) (simp_all add: ids_of_def)
  show ?thesis
    using assms skip [of "get_eviction_candidates (clk_secs clk) n (ec_storage ec)"]
    by (auto simp: force_eviction_def execute_eviction_cycle_def bytes_to_free_def compress_eligible_documents_def
        eviction_result_default_def finish_result_def record_cycle_completion_def saturating_sub_def Let_def
        split: if_splits)
qed

end
