(* ===== verification/Preemption.thy ===== *)
theory Preemption
  imports Policies Floats
begin

text \<open>
  Transfers that give way to more urgent ones, \<^verbatim>\<open>src/qos/preemption.rs\<close>.  A transfer is
  shared with the task that carries it out; what that task does to it (\<^verbatim>\<open>record_sent\<close>) is
  an operation on its entry.  Identifiers are drawn by \<^verbatim>\<open>Uuid::new_v4\<close> and are arguments, of
  any type.  \<open>now\<close> is the reading of the clock; counters are \<^verbatim>\<open>usize\<close> words.
\<close>

section \<open>Transfers\<close>

record 'i ActiveTransfer =
  tr_id :: 'i
  tr_class :: QoSClass
  bytes_total :: u64
  bytes_sent :: u64
  can_pause :: bool
  is_paused :: bool
  tr_started_at :: instant
  paused_at :: "instant option"

definition transfer_new :: "'i \<Rightarrow> instant \<Rightarrow> QoSClass \<Rightarrow> u64 \<Rightarrow> bool \<Rightarrow> 'i ActiveTransfer" where
  "transfer_new uid now c n pausable =
     \<lparr>tr_id = uid, tr_class = c, bytes_total = n, bytes_sent = 0, can_pause = pausable, is_paused = False,
      tr_started_at = now, paused_at = None\<rparr>"

definition progress :: "'i ActiveTransfer \<Rightarrow> float" where
  "progress t = (if bytes_total t = 0 then f64 1
     else fdiv F64 (of_usize F64 (bytes_sent t)) (of_usize F64 (bytes_total t)))"

definition bytes_remaining :: "'i ActiveTransfer \<Rightarrow> u64" where
  "bytes_remaining t = (if bytes_sent t \<le> bytes_total t then bytes_total t - bytes_sent t else 0)"

definition transfer_record_sent :: "u64 \<Rightarrow> 'i ActiveTransfer \<Rightarrow> 'i ActiveTransfer" where
  "transfer_record_sent n t = t\<lparr>bytes_sent := bytes_sent t + n\<rparr>"

definition is_complete :: "'i ActiveTransfer \<Rightarrow> bool" where
  "is_complete t \<longleftrightarrow> bytes_total t \<le> bytes_sent t"

definition can_be_preempted_by :: "'i ActiveTransfer \<Rightarrow> QoSClass \<Rightarrow> bool" where
  "can_be_preempted_by t c \<longleftrightarrow> can_pause t \<and> can_preempt c (tr_class t)"

definition transfer_pause :: "instant \<Rightarrow> 'i ActiveTransfer \<Rightarrow> 'i ActiveTransfer" where
  "transfer_pause now t =
     (if can_pause t \<and> \<not> is_paused t then t\<lparr>is_paused := True, paused_at := Some now\<rparr> else t)"

definition transfer_resume :: "'i ActiveTransfer \<Rightarrow> 'i ActiveTransfer" where
  "transfer_resume t = t\<lparr>is_paused := False, paused_at := None\<rparr>"

definition paused_duration :: "instant \<Rightarrow> 'i ActiveTransfer \<Rightarrow> duration option" where
  "paused_duration now t = (if is_paused t then map_option (\<lambda>p. now - p) (paused_at t) else None)"

section \<open>The controller\<close>

record 'i PreemptionController =
  active_transfers :: "('i, 'i ActiveTransfer) hmap"
  preemption_count :: u64
  paused_count :: u64

definition preemption_new :: "'i PreemptionController" where
  "preemption_new = \<lparr>active_transfers = [], preemption_count = 0, paused_count = 0\<rparr>"

definition register_transfer :: "'i \<Rightarrow> instant \<Rightarrow> QoSClass \<Rightarrow> u64 \<Rightarrow> bool \<Rightarrow> 'i PreemptionController \<Rightarrow> 'i PreemptionController" where
  "register_transfer uid now c n pausable pc =
     pc\<lparr>active_transfers := hm_insert uid (transfer_new uid now c n pausable) (active_transfers pc)\<rparr>"

definition unregister_transfer :: "'i \<Rightarrow> 'i PreemptionController \<Rightarrow> 'i PreemptionController" where
  "unregister_transfer uid pc =
     (case hm_get (active_transfers pc) uid of
        None \<Rightarrow> pc
      | Some t \<Rightarrow>
          pc\<lparr>active_transfers := hm_remove uid (active_transfers pc),
             paused_count := (if is_paused t then paused_count pc - 1 else paused_count pc)\<rparr>)"

definition send_on_transfer :: "'i \<Rightarrow> u64 \<Rightarrow> 'i PreemptionController \<Rightarrow> 'i PreemptionController" where
  "send_on_transfer uid n pc =
     (case hm_get (active_transfers pc) uid of
        None \<Rightarrow> pc
      | Some t \<Rightarrow> pc\<lparr>active_transfers := hm_insert uid (transfer_record_sent n t) (active_transfers pc)\<rparr>)"

definition should_preempt :: "QoSClass \<Rightarrow> 'i PreemptionController \<Rightarrow> bool" where
  "should_preempt c pc =
     (c \<in> {Critical, High} \<and> list_ex (\<lambda>(_, t). can_be_preempted_by t c \<and> \<not> is_paused t) (active_transfers pc))"

definition pause_transfers_below :: "instant \<Rightarrow> QoSClass \<Rightarrow> 'i PreemptionController \<Rightarrow> 'i list \<times> 'i PreemptionController" where
  "pause_transfers_below now c pc =
     (let paused = map (tr_id \<circ> snd) (filter (\<lambda>(_, t). can_be_preempted_by t c) (active_transfers pc))
      in (paused,
          pc\<lparr>active_transfers := map (\<lambda>(i, t). (i, if can_be_preempted_by t c then transfer_pause now t else t))
               (active_transfers pc),
             paused_count := paused_count pc + word_of_nat (length paused),
             preemption_count := (if paused = [] then preemption_count pc else preemption_count pc + 1)\<rparr>))"

definition resume_one :: "'i \<Rightarrow> 'i PreemptionController \<Rightarrow> 'i PreemptionController" where
  "resume_one uid pc =
     (case hm_get (active_transfers pc) uid of
        None \<Rightarrow> pc
      | Some t \<Rightarrow>
          if is_paused t
          then pc\<lparr>active_transfers := hm_insert uid (transfer_resume t) (active_transfers pc),
                  paused_count := paused_count pc - 1\<rparr>
          else pc)"

definition resume_transfers :: "'i list \<Rightarrow> 'i PreemptionController \<Rightarrow> 'i PreemptionController" where
  "resume_transfers ids pc = fold resume_one ids pc"

definition resume_all :: "'i PreemptionController \<Rightarrow> 'i PreemptionController" where
  "resume_all pc =
     pc\<lparr>active_transfers := map (\<lambda>(i, t). (i, if is_paused t then transfer_resume t else t)) (active_transfers pc),
        paused_count := 0\<rparr>"

definition transfers_by_class :: "QoSClass \<Rightarrow> 'i PreemptionController \<Rightarrow> 'i ActiveTransfer list" where
  "transfers_by_class c pc = filter (\<lambda>t. tr_class t = c) (map snd (active_transfers pc))"

definition preemptable_transfers :: "QoSClass \<Rightarrow> 'i PreemptionController \<Rightarrow> 'i ActiveTransfer list" where
  "preemptable_transfers c pc = filter (\<lambda>t. can_be_preempted_by t c) (map snd (active_transfers pc))"

definition bandwidth_used_below :: "QoSClass \<Rightarrow> 'i PreemptionController \<Rightarrow> u64" where
  "bandwidth_used_below c pc =
     sum_list (map bytes_remaining (filter (\<lambda>t. can_preempt c (tr_class t) \<and> \<not> is_paused t) (map snd (active_transfers pc))))"

definition cleanup_completed :: "'i PreemptionController \<Rightarrow> nat \<times> 'i PreemptionController" where
  "cleanup_completed pc =
     (let kept = hm_retain (\<lambda>_ t. \<not> is_complete t) (active_transfers pc)
      in (length (active_transfers pc) - length kept, pc\<lparr>active_transfers := kept\<rparr>))"

record PreemptionStats =
  st_active_transfers :: nat
  st_paused_transfers :: u64
  st_preemption_events :: u64
  st_transfers_by_class :: "(QoSClass, nat) hmap"

definition preemption_stats :: "'i PreemptionController \<Rightarrow> PreemptionStats" where
  "preemption_stats pc =
     \<lparr>st_active_transfers = length (active_transfers pc), st_paused_transfers = paused_count pc,
      st_preemption_events = preemption_count pc,
      st_transfers_by_class = fold (\<lambda>t m. hm_insert (tr_class t) (hm_get_or 0 m (tr_class t) + 1) m)
        (map snd (active_transfers pc)) (fold (\<lambda>c. hm_insert c 0) all_by_priority [])\<rparr>"

section \<open>The count of paused transfers\<close>

definition paused_number :: "'i PreemptionController \<Rightarrow> nat" where
  "paused_number pc = length (filter (\<lambda>(_, t). is_paused t) (active_transfers pc))"

definition transfers_ok :: "'i PreemptionController \<Rightarrow> bool" where
  "transfers_ok pc \<longleftrightarrow> hm_wf (active_transfers pc) \<and> list_all (\<lambda>(i, t). tr_id t = i) (active_transfers pc)"

datatype 'i preempt_op =
  RegisterTransfer 'i instant QoSClass u64 bool
| UnregisterTransfer 'i
| SendOn 'i u64
| PauseBelow instant QoSClass
| ResumeThese "'i list"
| ResumeAll
| CleanupDone

fun preempt_step :: "'i preempt_op \<Rightarrow> 'i PreemptionController \<Rightarrow> 'i PreemptionController" where
  "preempt_step (RegisterTransfer uid now c n p) pc =
     (if hm_contains (active_transfers pc) uid then pc else register_transfer uid now c n p pc)"
| "preempt_step (UnregisterTransfer uid) pc = unregister_transfer uid pc"
| "preempt_step (SendOn uid n) pc = send_on_transfer uid n pc"
| "preempt_step (PauseBelow now c) pc = snd (pause_transfers_below now c pc)"
| "preempt_step (ResumeThese ids) pc = resume_transfers ids pc"
| "preempt_step ResumeAll pc = resume_all pc"
| "preempt_step CleanupDone pc = snd (cleanup_completed pc)"

text \<open>
  How far a step moves the count away from the number of paused transfers: transfers that
  were paused before are counted again, paused ones that are cleaned up are never
  discounted, and resuming all starts over.
\<close>

fun drift_step :: "'i preempt_op \<Rightarrow> 'i PreemptionController \<Rightarrow> nat \<Rightarrow> nat" where
  "drift_step (PauseBelow now c) pc n =
     n + length (filter (\<lambda>(_, t). can_be_preempted_by t c \<and> is_paused t) (active_transfers pc))"
| "drift_step CleanupDone pc n = n + length (filter (\<lambda>(_, t). is_complete t \<and> is_paused t) (active_transfers pc))"
| "drift_step ResumeAll pc n = 0"
| "drift_step _ pc n = n"

fun drift :: "'i preempt_op list \<Rightarrow> 'i PreemptionController \<Rightarrow> nat \<Rightarrow> nat" where
  "drift [] pc n = n"
| "drift (oper # ops) pc n = drift ops (preempt_step oper pc) (drift_step oper pc n)"

lemma paused_insert:
  "hm_wf m \<Longrightarrow> length (filter (\<lambda>(_, t). is_paused t) (hm_insert i t m)) +
     (case hm_get m i of Some t0 \<Rightarrow> if is_paused t0 then 1 else 0 | None \<Rightarrow> 0) =
   length (filter (\<lambda>(_, t). is_paused t) m) + (if is_paused t then 1 else 0)"
  by (induction m) (auto simp: hm_wf_def split: option.splits)

lemma paused_remove:
  assumes "hm_wf m" "hm_get m i = Some t"
  shows "length (filter (\<lambda>(_, t). is_paused t) (hm_remove i m)) + (if is_paused t then 1 else 0) =
    length (filter (\<lambda>(_, t). is_paused t) m)"
  using assms
proof (induction m)
  case (Cons a m)
  show ?case
  proof (cases "fst a = i")
    case True
    then have "hm_remove i (a # m) = m"
      using Cons.prems by (cases a) (auto simp: hm_wf_def AList.delete_idem)
    then show ?thesis
      using Cons.prems True by (cases a) auto
  next
    case False
    then show ?thesis
      using Cons by (cases a) (auto simp: hm_wf_def)
  qed
qed simp

lemma list_all_insert_id:
  "list_all (\<lambda>(i, t). tr_id t = i) m \<Longrightarrow> tr_id t = i \<Longrightarrow> list_all (\<lambda>(i, t). tr_id t = i) (hm_insert i t m)"
  by (induction m) auto

lemma list_all_remove_id:
  "list_all (\<lambda>(i, t). tr_id t = i) m \<Longrightarrow> list_all (\<lambda>(i, t). tr_id t = i) (hm_remove i' m)"
  by (induction m) auto

lemma transfers_ok_id: "transfers_ok pc \<Longrightarrow> hm_get (active_transfers pc) i = Some t \<Longrightarrow> tr_id t = i"
  by (auto simp: transfers_ok_def list_all_iff dest: map_of_SomeD)

definition counted :: "'i PreemptionController \<Rightarrow> nat \<Rightarrow> bool" where
  "counted pc n \<longleftrightarrow> transfers_ok pc \<and> paused_count pc = word_of_nat (paused_number pc + n)"

lemma counted_resume_one: "counted pc n \<Longrightarrow> counted (resume_one i pc) n"
proof -
  assume c: "counted pc n"
  show ?thesis
  proof (cases "\<exists>t. hm_get (active_transfers pc) i = Some t \<and> is_paused t")
    case True
    then obtain t where t: "hm_get (active_transfers pc) i = Some t" "is_paused t"
      by blast
    have wf: "hm_wf (active_transfers pc)"
      using c by (simp add: counted_def transfers_ok_def)
    have "Suc (paused_number (resume_one i pc)) = paused_number pc"
      using paused_insert [OF wf, of i "transfer_resume t"] t
      by (simp add: paused_number_def resume_one_def transfer_resume_def)
    moreover have "transfers_ok (resume_one i pc)"
      using c t transfers_ok_id [of pc i t]
      by (auto simp: counted_def transfers_ok_def resume_one_def transfer_resume_def intro!: list_all_insert_id)
    moreover have "paused_count (resume_one i pc) = paused_count pc - 1"
      using t by (simp add: resume_one_def)
    ultimately show ?thesis
      using c by (auto simp: counted_def simp flip: \<open>Suc (paused_number (resume_one i pc)) = paused_number pc\<close>)
  next
    case False
    then show ?thesis
      using c by (auto simp: resume_one_def split: option.splits)
  qed
qed

lemma counted_resume: "counted pc n \<Longrightarrow> counted (fold resume_one ids pc) n"
  by (induction ids arbitrary: pc) (simp_all add: counted_resume_one)

lemma paused_after_pause:
  "length (filter (\<lambda>(_, t). is_paused t) (map (\<lambda>(i, t). (i, if can_be_preempted_by t c then transfer_pause now t else t)) m))
     + length (filter (\<lambda>(_, t). can_be_preempted_by t c \<and> is_paused t) m) =
   length (filter (\<lambda>(_, t). is_paused t) m) + length (filter (\<lambda>(_, t). can_be_preempted_by t c) m)"
  by (induction m) (auto simp: transfer_pause_def can_be_preempted_by_def split: if_splits)

lemma paused_after_cleanup:
  "length (filter (\<lambda>(_, t). is_paused t) (hm_retain (\<lambda>_ t. \<not> is_complete t) m))
     + length (filter (\<lambda>(_, t). is_complete t \<and> is_paused t) m) = length (filter (\<lambda>(_, t). is_paused t) m)"
  by (induction m) (auto simp: hm_retain_def)

lemma transfers_ok_map:
  "transfers_ok pc \<Longrightarrow> (\<And>t. tr_id (f t) = tr_id t) \<Longrightarrow>
     transfers_ok (pc\<lparr>active_transfers := map (\<lambda>(i, t). (i, f t)) (active_transfers pc)\<rparr>)"
  by (auto simp: transfers_ok_def hm_wf_def list_all_iff comp_def case_prod_beta)

lemma counted_step:
  assumes "counted pc n"
  shows "counted (preempt_step oper pc) (drift_step oper pc n)"
proof -
  have ok: "transfers_ok pc" and wf: "hm_wf (active_transfers pc)"
    using assms by (simp_all add: counted_def transfers_ok_def)
  show ?thesis
  proof (cases oper)
    case (RegisterTransfer uid now c k p)
    then show ?thesis
      using assms paused_insert [OF wf, of uid "transfer_new uid now c k p"]
      by (auto simp: counted_def transfers_ok_def register_transfer_def transfer_new_def paused_number_def hm_contains_def
          split: option.splits intro!: list_all_insert_id)
  next
    case (UnregisterTransfer uid)
    show ?thesis
    proof (cases "hm_get (active_transfers pc) uid")
      case None
      then show ?thesis
        using assms UnregisterTransfer by (simp add: unregister_transfer_def)
    next
      case (Some t)
      then have "paused_number pc = paused_number (unregister_transfer uid pc) + (if is_paused t then 1 else 0)"
        using paused_remove [OF wf Some] by (simp add: unregister_transfer_def paused_number_def)
      moreover have "paused_count (unregister_transfer uid pc) = paused_count pc - (if is_paused t then 1 else 0)"
        using Some by (simp add: unregister_transfer_def)
      moreover have "transfers_ok (unregister_transfer uid pc)"
        using ok Some list_all_remove_id by (auto simp: transfers_ok_def unregister_transfer_def)
      ultimately show ?thesis
        using assms UnregisterTransfer by (simp add: counted_def)
    qed
  next
    case (SendOn uid k)
    show ?thesis
    proof (cases "hm_get (active_transfers pc) uid")
      case None
      then show ?thesis
        using assms SendOn by (simp add: send_on_transfer_def)
    next
      case (Some t)
      then show ?thesis
        using assms SendOn paused_insert [OF wf, of uid "transfer_record_sent k t"] transfers_ok_id [OF ok Some]
        by (auto simp: counted_def transfers_ok_def send_on_transfer_def transfer_record_sent_def paused_number_def
            split: if_splits intro!: list_all_insert_id)
    qed
  next
    case (PauseBelow now c)
    let ?f = "\<lambda>t. if can_be_preempted_by t c then transfer_pause now t else t"
    have "transfers_ok (pc\<lparr>active_transfers := map (\<lambda>(i, t). (i, ?f t)) (active_transfers pc)\<rparr>)"
      using ok by (rule transfers_ok_map) (simp add: transfer_pause_def)
    then have "transfers_ok (preempt_step oper pc)"
      by (simp add: PauseBelow pause_transfers_below_def transfers_ok_def Let_def)
    moreover have "paused_number (preempt_step oper pc) + drift_step oper pc n =
        paused_number pc + n + length (filter (\<lambda>(_, t). can_be_preempted_by t c) (active_transfers pc))"
      using paused_after_pause [of c now "active_transfers pc"]
      by (simp add: PauseBelow paused_number_def pause_transfers_below_def Let_def)
    ultimately show ?thesis
      using assms by (simp add: counted_def) (simp add: PauseBelow pause_transfers_below_def Let_def)
  next
    case (ResumeThese ids)
    then show ?thesis
      using assms counted_resume by (simp add: resume_transfers_def)
  next
    case ResumeAll
    have "transfers_ok (pc\<lparr>active_transfers := map (\<lambda>(i, t). (i, if is_paused t then transfer_resume t else t)) (active_transfers pc)\<rparr>)"
      using ok by (rule transfers_ok_map) (simp add: transfer_resume_def)
    moreover have "paused_number (resume_all pc) = 0"
      by (auto simp: paused_number_def resume_all_def filter_empty_conv transfer_resume_def split: if_splits)
    ultimately show ?thesis
      by (simp add: ResumeAll counted_def) (simp add: transfers_ok_def resume_all_def)
  next
    case CleanupDone
    have "list_all (\<lambda>(i, t). tr_id t = i) (hm_retain (\<lambda>_ t. \<not> is_complete t) (active_transfers pc))"
      using ok by (auto simp: transfers_ok_def list_all_iff hm_retain_def)
    then have "transfers_ok (preempt_step oper pc)"
      using wf by (simp add: CleanupDone transfers_ok_def cleanup_completed_def Let_def)
    moreover have "paused_number (preempt_step oper pc) + drift_step oper pc n = paused_number pc + n"
      using paused_after_cleanup [of "active_transfers pc"]
      by (simp add: CleanupDone paused_number_def cleanup_completed_def Let_def)
    moreover have "paused_count (preempt_step oper pc) = paused_count pc"
      by (simp add: CleanupDone cleanup_completed_def Let_def)
    ultimately show ?thesis
      using assms by (simp only: counted_def)
  qed
qed


lemma counted_run: "counted pc n \<Longrightarrow> counted (fold preempt_step ops pc) (drift ops pc n)"
  by (induction ops arbitrary: pc n) (simp_all add: counted_step)

lemma counted_new: "counted preemption_new 0"
  by (simp add: counted_def preemption_new_def transfers_ok_def paused_number_def)

text \<open>
  C32.  The count of paused transfers.  After any sequence of operations on a controller
  whose transfers have fresh identifiers, the count is the number of paused transfers
  plus what piled up since all were last resumed: one for each time a transfer that was
  paused already was paused again, and one for each paused transfer that was cleaned up
  as complete.
\<close>

theorem paused_count_drifts:
  "paused_count (fold preempt_step ops preemption_new) =
     word_of_nat (paused_number (fold preempt_step ops preemption_new) + drift ops preemption_new 0)"
  using counted_run [OF counted_new, of ops] by (simp add: counted_def)

section \<open>Pausing and resuming\<close>

lemma hm_get_map: "hm_get (map (\<lambda>(i, t). (i, f t)) m) i = map_option f (hm_get m i)"
  by (induction m) auto

lemma paused_stays: "is_paused t \<Longrightarrow> transfer_pause now t = t"
  by (simp add: transfer_pause_def)

lemma pause_lookup:
  "hm_get (active_transfers (snd (pause_transfers_below now c pc))) i =
     map_option (\<lambda>t. if can_be_preempted_by t c then transfer_pause now t else t) (hm_get (active_transfers pc) i)"
  by (simp add: pause_transfers_below_def Let_def hm_get_map)

lemma pause_ids:
  assumes "transfers_ok pc"
  shows "i \<in> set (fst (pause_transfers_below now c pc)) \<longleftrightarrow>
    (\<exists>t. hm_get (active_transfers pc) i = Some t \<and> can_be_preempted_by t c)"
proof -
  have wf: "hm_wf (active_transfers pc)"
    using assms by (simp add: transfers_ok_def)
  have "i \<in> set (fst (pause_transfers_below now c pc)) \<longleftrightarrow>
      (\<exists>t. (i, t) \<in> set (active_transfers pc) \<and> can_be_preempted_by t c)"
    using assms by (force simp: pause_transfers_below_def transfers_ok_def list_all_iff Let_def)
  then show ?thesis
    by (simp add: hm_get_in_set [OF wf])
qed

lemma resume_lookup:
  "hm_get (active_transfers (resume_transfers ids pc)) i =
     map_option (\<lambda>t. if i \<in> set ids \<and> is_paused t then transfer_resume t else t) (hm_get (active_transfers pc) i)"
  unfolding resume_transfers_def
proof (induction ids arbitrary: pc)
  case Nil
  then show ?case
    by (simp add: option.map_ident)
next
  case (Cons j ids)
  have "hm_get (active_transfers (resume_one j pc)) i =
      map_option (\<lambda>t. if i = j \<and> is_paused t then transfer_resume t else t) (hm_get (active_transfers pc) i)"
    by (cases "hm_get (active_transfers pc) i") (auto simp: resume_one_def split: option.splits)
  then show ?case
    using Cons.IH [of "resume_one j pc"]
    by (cases "hm_get (active_transfers pc) i") (auto simp: transfer_resume_def)
qed

text \<open>
  C33.  Preemption.  Pausing for a class pauses exactly the running transfers of lower
  classes that can be paused, so that the class has nothing left to preempt, and
  resuming the returned transfers leaves each transfer of the controller running that
  the pause stopped.  The pauses do not nest: a transfer stopped for a first class is
  returned again by a pause for a second class below it, and runs as soon as the second
  one resumes, whether the first one has finished or not.
\<close>

theorem pauses_do_not_nest:
  assumes "transfers_ok pc" "pause_transfers_below now c pc = (ids, pc1)"
    and "pause_transfers_below now' c' pc1 = (ids', pc2)"
  shows "\<not> should_preempt c pc1 \<and>
    (hm_get (active_transfers pc) i = Some t \<longrightarrow>
       map_option is_paused (hm_get (active_transfers pc1) i) = Some (is_paused t \<or> can_be_preempted_by t c) \<and>
       (can_be_preempted_by t c \<longrightarrow>
          map_option is_paused (hm_get (active_transfers (resume_transfers ids pc1)) i) = Some False) \<and>
       (can_be_preempted_by t c \<and> can_be_preempted_by t c' \<longrightarrow>
          map_option is_paused (hm_get (active_transfers (resume_transfers ids' pc2)) i) = Some False))"
proof -
  have p1: "pc1 = snd (pause_transfers_below now c pc)" "ids = fst (pause_transfers_below now c pc)"
    and p2: "pc2 = snd (pause_transfers_below now' c' pc1)" "ids' = fst (pause_transfers_below now' c' pc1)"
    using assms(2,3) by simp_all
  have ok1: "transfers_ok pc1"
    using transfers_ok_map [OF assms(1), of "\<lambda>t. if can_be_preempted_by t c then transfer_pause now t else t"]
    by (simp add: p1 pause_transfers_below_def transfers_ok_def transfer_pause_def Let_def)
  have "\<not> should_preempt c pc1"
    by (auto simp: p1 pause_transfers_below_def should_preempt_def list_ex_iff transfer_pause_def can_be_preempted_by_def
        Let_def split: if_splits)
  then show ?thesis
    using pause_ids [OF assms(1), of i now c] pause_ids [OF ok1, of i now' c']
    by (auto simp: p1 p2 pause_lookup resume_lookup transfer_pause_def transfer_resume_def can_be_preempted_by_def)
qed

definition sample_transfers :: "nat PreemptionController" where
  "sample_transfers = register_transfer 1 0 Low 1000 True (register_transfer 2 0 High 500 True preemption_new)"

theorem pauses_do_not_nest_witness:
  "map_option is_paused (hm_get (active_transfers (resume_transfers (fst (pause_transfers_below 6 High
      (snd (pause_transfers_below 5 Critical sample_transfers))))
      (snd (pause_transfers_below 6 High (snd (pause_transfers_below 5 Critical sample_transfers)))))) 1) = Some False"
proof -
  let ?t = "transfer_new (1 :: nat) 0 Low 1000 True"
  obtain ids pc1 where 1: "pause_transfers_below 5 Critical sample_transfers = (ids, pc1)"
    by (cases "pause_transfers_below 5 Critical sample_transfers")
  obtain ids' pc2 where 2: "pause_transfers_below 6 High pc1 = (ids', pc2)"
    by (cases "pause_transfers_below 6 High pc1")
  have "transfers_ok sample_transfers" "hm_get (active_transfers sample_transfers) 1 = Some ?t"
      "can_be_preempted_by ?t Critical" "can_be_preempted_by ?t High"
    by (simp_all add: sample_transfers_def register_transfer_def preemption_new_def transfers_ok_def transfer_new_def
        hm_wf_def can_be_preempted_by_def can_preempt_def)
  then show ?thesis
    using pauses_do_not_nest [OF _ 1 2, of 1 ?t] 1 2 by simp
qed


end
