(* ===== verification/Bandwidth.thy ===== *)
theory Bandwidth
  imports Policies Floats
begin

text \<open>
  Bandwidth quotas of \<^verbatim>\<open>src/qos/bandwidth.rs\<close>: a bucket of tokens for the link and a quota for
  each class.  Tokens are \<^verbatim>\<open>f64\<close> numbers of bits.  Where the source reads the clock twice in
  one call, both readings are arguments.  A permit is the size and class it was given for;
  dropping it is an operation of its own.  Sizes are \<^verbatim>\<open>usize\<close> of a 64-bit machine.
\<close>

section \<open>Token bucket\<close>

record BwTokenBucket =
  bw_tokens :: float
  bw_capacity :: float
  refill_rate :: float
  bw_last_refill :: instant

definition bw_bucket_new :: "instant \<Rightarrow> u64 \<Rightarrow> BwTokenBucket" where
  "bw_bucket_new now n =
     \<lparr>bw_tokens = of_usize F64 n, bw_capacity = of_usize F64 n, refill_rate = of_usize F64 n, bw_last_refill = now\<rparr>"

definition bw_refill :: "instant \<Rightarrow> instant \<Rightarrow> BwTokenBucket \<Rightarrow> BwTokenBucket" where
  "bw_refill now now' b =
     (let elapsed = as_secs_f64 (now - bw_last_refill b)
      in if flt (f64 0) elapsed
         then b\<lparr>bw_tokens := fmin (fadd F64 (bw_tokens b) (fmul F64 elapsed (refill_rate b))) (bw_capacity b),
                bw_last_refill := now'\<rparr>
         else b)"

definition bw_try_consume :: "instant \<Rightarrow> instant \<Rightarrow> u64 \<Rightarrow> BwTokenBucket \<Rightarrow> bool \<times> BwTokenBucket" where
  "bw_try_consume now now' bits b =
     (let b1 = bw_refill now now' b; n = of_usize F64 bits
      in if fle n (bw_tokens b1) then (True, b1\<lparr>bw_tokens := fsub F64 (bw_tokens b1) n\<rparr>) else (False, b1))"

definition bw_available :: "instant \<Rightarrow> instant \<Rightarrow> BwTokenBucket \<Rightarrow> u64 \<times> BwTokenBucket" where
  "bw_available now now' b = (let b1 = bw_refill now now' b in (to_u64 (bw_tokens b1), b1))"

section \<open>Quotas\<close>

record BandwidthQuota =
  min_guaranteed_bps :: u64
  max_burst_bps :: u64
  preemption_enabled :: bool
  current_usage_bps :: u64
  bytes_consumed :: u64
  window_start :: instant

definition quota_new :: "instant \<Rightarrow> u64 \<Rightarrow> u64 \<Rightarrow> bool \<Rightarrow> BandwidthQuota" where
  "quota_new now lo hi pre =
     \<lparr>min_guaranteed_bps = lo, max_burst_bps = hi, preemption_enabled = pre, current_usage_bps = 0,
      bytes_consumed = 0, window_start = now\<rparr>"

definition record_usage :: "instant \<Rightarrow> instant \<Rightarrow> u64 \<Rightarrow> BandwidthQuota \<Rightarrow> BandwidthQuota" where
  "record_usage now now' bytes q =
     (let consumed = bytes_consumed q + bytes; elapsed = now - window_start q
      in if from_secs 1 \<le> elapsed
         then q\<lparr>bytes_consumed := bytes, current_usage_bps := consumed * 8, window_start := now'\<rparr>
         else
           let elapsed_secs = fmax (as_secs_f64 elapsed) (f64 (1 / 1000))
           in q\<lparr>bytes_consumed := consumed,
                current_usage_bps := to_u64 (fdiv F64 (of_usize F64 (consumed * 8)) elapsed_secs)\<rparr>)"

definition quota_can_transmit :: "BandwidthQuota \<Rightarrow> u64 \<Rightarrow> bool" where
  "quota_can_transmit q size_bytes \<longleftrightarrow> current_usage_bps q + size_bytes * 8 \<le> max_burst_bps q"

definition within_guaranteed :: "BandwidthQuota \<Rightarrow> bool" where
  "within_guaranteed q \<longleftrightarrow> current_usage_bps q < min_guaranteed_bps q"

definition quota_utilization :: "BandwidthQuota \<Rightarrow> float" where
  "quota_utilization q = fdiv F64 (of_usize F64 (current_usage_bps q)) (of_usize F64 (min_guaranteed_bps q))"

section \<open>Allocation\<close>

record BandwidthAllocation =
  total_bandwidth_bps :: u64
  quotas :: "(QoSClass, BandwidthQuota) hmap"
  bucket :: BwTokenBucket
  active_permits :: u64

record BandwidthPermit =
  permit_size :: u64
  permit_class :: QoSClass

definition allocation_new :: "instant \<Rightarrow> u64 \<Rightarrow> BandwidthAllocation" where
  "allocation_new now n =
     \<lparr>total_bandwidth_bps = n,
      quotas =
        [(Critical, quota_new now (n * 20 div 100) (n * 80 div 100) True),
         (High, quota_new now (n * 30 div 100) (n * 60 div 100) True),
         (Normal, quota_new now (n * 20 div 100) (n * 40 div 100) False),
         (Low, quota_new now (n * 15 div 100) (n * 30 div 100) False),
         (Bulk, quota_new now (n * 5 div 100) (n * 20 div 100) False)],
      bucket = bw_bucket_new now n, active_permits = 0\<rparr>"

definition alloc_can_transmit :: "QoSClass \<Rightarrow> u64 \<Rightarrow> BandwidthAllocation \<Rightarrow> bool" where
  "alloc_can_transmit c size_bytes al =
     (case hm_get (quotas al) c of Some q \<Rightarrow> quota_can_transmit q size_bytes | None \<Rightarrow> False)"

text \<open>\<open>locked\<close> says that another task holds the bucket, so that \<^verbatim>\<open>try_write\<close> fails.\<close>

definition acquire :: "instant \<Rightarrow> instant \<Rightarrow> bool \<Rightarrow> QoSClass \<Rightarrow> u64 \<Rightarrow> BandwidthAllocation
    \<Rightarrow> BandwidthPermit option \<times> BandwidthAllocation" where
  "acquire now now' locked c size_bytes al =
     (case hm_get (quotas al) c of
        None \<Rightarrow> (None, al)
      | Some q \<Rightarrow>
          if \<not> quota_can_transmit q size_bytes then (None, al)
          else
            let (ok, b) = (if locked then (True, bucket al) else bw_try_consume now now' (size_bytes * 8) (bucket al));
                al1 = al\<lparr>bucket := b\<rparr>
            in if ok then (Some \<lparr>permit_size = size_bytes, permit_class = c\<rparr>, al1\<lparr>active_permits := active_permits al1 + 1\<rparr>)
               else (None, al1))"

definition acquire_async :: "instant \<Rightarrow> instant \<Rightarrow> QoSClass \<Rightarrow> u64 \<Rightarrow> BandwidthAllocation
    \<Rightarrow> BandwidthPermit option \<times> BandwidthAllocation" where
  "acquire_async now now' c size_bytes al =
     (case hm_get (quotas al) c of
        None \<Rightarrow> (None, al)
      | Some q \<Rightarrow>
          if \<not> quota_can_transmit q size_bytes then (None, al)
          else
            let al1 = al\<lparr>quotas := hm_insert c (record_usage now now' size_bytes q) (quotas al)\<rparr>;
                (ok, b) = bw_try_consume now now' (size_bytes * 8) (bucket al1);
                al2 = al1\<lparr>bucket := b\<rparr>
            in if ok then (Some \<lparr>permit_size = size_bytes, permit_class = c\<rparr>, al2\<lparr>active_permits := active_permits al2 + 1\<rparr>)
               else (None, al2))"

definition drop_permit :: "BandwidthAllocation \<Rightarrow> BandwidthAllocation" where
  "drop_permit al = al\<lparr>active_permits := active_permits al - 1\<rparr>"

definition preempt_lower :: "QoSClass \<Rightarrow> BandwidthAllocation \<Rightarrow> bool" where
  "preempt_lower c al =
     (case hm_get (quotas al) c of
        Some q \<Rightarrow> preemption_enabled q \<and>
          list_ex (\<lambda>(other, oq). can_preempt c other \<and> 0 < current_usage_bps oq) (quotas al)
      | None \<Rightarrow> False)"

definition class_utilization :: "QoSClass \<Rightarrow> BandwidthAllocation \<Rightarrow> float" where
  "class_utilization c al = (case hm_get (quotas al) c of Some q \<Rightarrow> quota_utilization q | None \<Rightarrow> f64 0)"

definition total_utilization :: "BandwidthAllocation \<Rightarrow> float" where
  "total_utilization al = fsub F64 (f64 1) (fdiv F64 (bw_tokens (bucket al)) (bw_capacity (bucket al)))"

definition all_utilizations :: "BandwidthAllocation \<Rightarrow> (QoSClass, float) hmap" where
  "all_utilizations al = map (\<lambda>(c, q). (c, quota_utilization q)) (quotas al)"

section \<open>Configuration\<close>

record QuotaConfig =
  min_guaranteed_percent :: u8
  max_burst_percent :: u8
  qc_preemption_enabled :: bool

record BandwidthConfig =
  bc_total_bandwidth_bps :: u64
  bc_quotas :: "(QoSClass, QuotaConfig) hmap"

definition bandwidth_config_tactical :: BandwidthConfig where
  "bandwidth_config_tactical =
     \<lparr>bc_total_bandwidth_bps = 1000000,
      bc_quotas =
        [(Critical, \<lparr>min_guaranteed_percent = 20, max_burst_percent = 80, qc_preemption_enabled = True\<rparr>),
         (High, \<lparr>min_guaranteed_percent = 30, max_burst_percent = 60, qc_preemption_enabled = True\<rparr>),
         (Normal, \<lparr>min_guaranteed_percent = 20, max_burst_percent = 40, qc_preemption_enabled = False\<rparr>),
         (Low, \<lparr>min_guaranteed_percent = 15, max_burst_percent = 30, qc_preemption_enabled = False\<rparr>),
         (Bulk, \<lparr>min_guaranteed_percent = 5, max_burst_percent = 20, qc_preemption_enabled = False\<rparr>)]\<rparr>"

definition config_build :: "instant \<Rightarrow> BandwidthConfig \<Rightarrow> BandwidthAllocation" where
  "config_build now cfg =
     \<lparr>total_bandwidth_bps = bc_total_bandwidth_bps cfg,
      quotas = map (\<lambda>(c, q). (c, quota_new now
          (bc_total_bandwidth_bps cfg * ucast (min_guaranteed_percent q) div 100)
          (bc_total_bandwidth_bps cfg * ucast (max_burst_percent q) div 100) (qc_preemption_enabled q))) (bc_quotas cfg),
      bucket = bw_bucket_new now (bc_total_bandwidth_bps cfg), active_permits = 0\<rparr>"

definition config_validate :: "BandwidthConfig \<Rightarrow> string + unit" where
  "config_validate cfg =
     (let qs = map snd (bc_quotas cfg);
          check = (\<lambda>q. if max_burst_percent q < min_guaranteed_percent q then Some ''Max burst must be >= min guaranteed''
                       else if 100 < max_burst_percent q then Some ''Max burst cannot exceed 100%'' else None)
      in if 100 < sum_list (map min_guaranteed_percent qs) then Inl ''Total guaranteed bandwidth exceeds 100%''
         else case List.map_filter check qs of e # _ \<Rightarrow> Inl e | [] \<Rightarrow> Inr ())"

section \<open>The bucket\<close>

text \<open>
  The tokens of the bucket of a link of \<open>c\<close> bits per second: a number of the format between
  nothing and the capacity.
\<close>

definition tokens_ok :: "nat \<Rightarrow> float \<Rightarrow> bool" where
  "tokens_ok c t \<longleftrightarrow> (\<exists>z. t = Fin z \<and> 0 \<le> z \<and> z \<le> of_nat c \<and> dyadic z)"

definition bucket_ok :: "nat \<Rightarrow> BwTokenBucket \<Rightarrow> bool" where
  "bucket_ok c b \<longleftrightarrow> tokens_ok c (bw_tokens b) \<and> bw_capacity b = Fin (of_nat c)"

lemma bucket_ok_new:
  assumes "unat n < 2 ^ 53"
  shows "bucket_ok (unat n) (bw_bucket_new now n)"
proof -
  have "(0 :: rat) \<le> of_nat (unat n)"
    by (rule of_nat_0_le_iff)
  then show ?thesis
    using assms dyadic_nat [of "unat n"]
    unfolding bucket_ok_def tokens_ok_def bw_bucket_new_def by (simp only: of_usize_exact simp_thms BwTokenBucket.select_convs) blast
qed

lemma tokens_ok_min:
  assumes "c < 2 ^ 53" "v = PosInf \<or> v = NaN \<or> (\<exists>q. 0 \<le> q \<and> v = fround F64 q)"
  shows "tokens_ok c (fmin v (Fin (of_nat c)))"
proof -
  have cap: "tokens_ok c (Fin (of_nat c))"
    using dyadic_nat [OF assms(1)] by (simp add: tokens_ok_def)
  show ?thesis
  proof (cases "\<exists>z. v = Fin z \<and> z \<le> of_nat c")
    case True
    then obtain z where v: "v = Fin z" "z \<le> of_nat c"
      by blast
    then obtain q where "0 \<le> q" "fround F64 q = Fin z"
      using assms(2) by (metis float.distinct(1,5))
    note z = v this
    then have "z = rounded F64 q"
      by (auto simp: fround_def Let_def split: if_splits)
    then show ?thesis
      using z dyadic_rounded [of q] rounded_nonneg [of q F64] by (simp add: fmin_def tokens_ok_def)
  next
    case False
    then have "fmin v (Fin (of_nat c)) = Fin (of_nat c)"
      using assms(2) fround_nonneg [of _ F64] by (cases v) (auto simp: fmin_def dest: fround_nonneg [of _ F64])
    then show ?thesis
      using cap by simp
  qed
qed

text \<open>Adding a non-negative amount to a non-negative number gives such a number, infinity or no number.\<close>

lemma fmul_nonneg:
  assumes "flt (f64 0) x" "0 \<le> r"
  shows "fmul F64 x (Fin r) = PosInf \<or> fmul F64 x (Fin r) = NaN \<or> (\<exists>w. fmul F64 x (Fin r) = Fin w \<and> 0 \<le> w)"
proof -
  have zero: "f64 0 = Fin 0"
    using f64_int [of 0] by simp
  show ?thesis
  proof (cases x)
    case (Fin a)
    then have "0 \<le> a * r"
      using assms zero by simp
    then show ?thesis
      using fround_nonneg [of "a * r" F64] Fin by (auto simp: fmul_def)
  qed (use assms zero in \<open>auto simp: fmul_def sgn_inf_def\<close>)
qed

lemma bw_refill_ok:
  assumes "bucket_ok c b" "c < 2 ^ 53" "refill_rate b = Fin (of_nat c)"
  shows "bucket_ok c (bw_refill now now' b)"
proof (cases "flt (f64 0) (as_secs_f64 (now - bw_last_refill b))")
  case True
  let ?x = "fmul F64 (as_secs_f64 (now - bw_last_refill b)) (refill_rate b)"
  obtain z where z: "bw_tokens b = Fin z" "0 \<le> z"
    using assms(1) by (auto simp: bucket_ok_def tokens_ok_def)
  have "?x = PosInf \<or> ?x = NaN \<or> (\<exists>w. ?x = Fin w \<and> 0 \<le> w)"
    unfolding assms(3) by (rule fmul_nonneg [OF True]) simp
  then have "tokens_ok c (fmin (fadd F64 (bw_tokens b) ?x) (Fin (of_nat c)))"
    using z by (intro tokens_ok_min assms(2)) (auto simp: fadd_def dest: add_nonneg_nonneg [of z])
  then show ?thesis
    using True assms(1) by (simp add: bw_refill_def bucket_ok_def)
qed (use assms in \<open>simp add: bw_refill_def\<close>)

text \<open>A second refill at the same instant changes nothing.\<close>

lemma as_secs_f64_0: "as_secs_f64 0 = Fin 0"
  using f64_int [of 0] f64_int [of 1000000000]
  by (simp add: as_secs_f64_def of_usize_exact fdiv_def fadd_def f64_def)

lemma bw_refill_settled:
  assumes "b1 = bw_refill now now b"
  shows "bw_refill now now (b1\<lparr>bw_tokens := t\<rparr>) = b1\<lparr>bw_tokens := t\<rparr>"
  using assms f64_int [of 0] by (cases "flt (f64 0) (as_secs_f64 (now - bw_last_refill b))")
    (simp_all add: bw_refill_def as_secs_f64_0)

lemma bw_refill_keeps [simp]:
  "bw_capacity (bw_refill now now' b) = bw_capacity b" "refill_rate (bw_refill now now' b) = refill_rate b"
  by (simp_all add: bw_refill_def Let_def)

text \<open>Taking tokens is exact: a whole number of bits, no more than there are.\<close>

lemma of_usize_large:
  assumes "2 ^ 53 \<le> unat n"
  shows "\<exists>z. of_usize F64 n = Fin z \<and> 2 ^ 53 \<le> z"
proof -
  obtain z where z: "of_usize F64 n = Fin z"
    using of_usize_fin by blast
  then have "z = rounded F64 (of_nat (unat n))"
    by (auto simp: of_usize_def fround_def Let_def split: if_splits)
  moreover have "rounded F64 (2 ^ 53) \<le> rounded F64 (of_nat (unat n))"
    using assms(1) of_nat_mono [of "2 ^ 53" "unat n", where ?'a = rat] by (intro rounded_mono) simp
  moreover have "rounded F64 (2 ^ 53) = 2 ^ 53"
    by (rule rounded_exact [where m = 1 and e = 53]) (simp_all add: power_int_def)
  ultimately show ?thesis
    using z by simp
qed

lemma take_tokens:
  assumes "dyadic z" "z < 2 ^ 53" "0 \<le> z" "fle (of_usize F64 n) (Fin z)"
  shows "of_nat (unat n) \<le> z \<and> fsub F64 (Fin z) (of_usize F64 n) = Fin (z - of_nat (unat n)) \<and>
    dyadic (z - of_nat (unat n))"
proof -
  have "unat n < 2 ^ 53"
  proof (rule ccontr)
    assume "\<not> unat n < 2 ^ 53"
    then obtain y where "of_usize F64 n = Fin y" "2 ^ 53 \<le> y"
      using of_usize_large [of n] by auto
    then show False
      using assms(2,4) by (auto simp: fle_def feq_def)
  qed
  note n = of_usize_exact [OF this]
  define k where "k = unat n"
  have le: "of_nat k \<le> z"
    using assms(4) unfolding n k_def by (auto simp: fle_def feq_def)
  have d: "dyadic (z - of_nat k)"
    using dyadic_diff [OF assms(1) le assms(2)] .
  have "z - of_nat k < 2 ^ 53"
    using assms(2) of_nat_0_le_iff [of k, where 'a = rat] by linarith
  also have "\<dots> < (2 :: rat) powi 1024"
    by (simp add: power_int_def power_strict_increasing)
  finally have "fround F64 (z - of_nat k) = Fin (z - of_nat k)"
    using dyadic_exact [OF d] le zero_less_power_int [of "2 :: rat" 1024] by (auto simp: fround_def Let_def)
  then show ?thesis
    using le d unfolding n k_def by (simp add: fsub_def fneg_def fadd_def)
qed

section \<open>A burst\<close>

text \<open>The calls on an allocation, with any clock readings and any contention.\<close>

datatype bandwidth_op =
  AcquireOp instant instant bool QoSClass u64
| AcquireAsyncOp instant instant QoSClass u64
| DropOp
| AvailableOp instant instant

fun bandwidth_step :: "bandwidth_op \<Rightarrow> BandwidthAllocation \<Rightarrow> BandwidthAllocation" where
  "bandwidth_step (AcquireOp now now' locked c n) al = snd (acquire now now' locked c n al)"
| "bandwidth_step (AcquireAsyncOp now now' c n) al = snd (acquire_async now now' c n al)"
| "bandwidth_step DropOp al = drop_permit al"
| "bandwidth_step (AvailableOp now now') al = al\<lparr>bucket := snd (bw_available now now' (bucket al))\<rparr>"

definition link_ok :: "nat \<Rightarrow> BwTokenBucket \<Rightarrow> bool" where
  "link_ok c b \<longleftrightarrow> c < 2 ^ 53 \<and> bucket_ok c b \<and> refill_rate b = Fin (of_nat c)"

lemma link_ok_refill: "link_ok c b \<Longrightarrow> link_ok c (bw_refill now now' b)"
  by (simp add: link_ok_def bw_refill_ok)

lemma link_ok_take:
  assumes "link_ok c b" "fle (of_usize F64 n) (bw_tokens b)"
  shows "\<exists>z. bw_tokens b = Fin z \<and> of_nat (unat n) \<le> z \<and>
    fsub F64 (bw_tokens b) (of_usize F64 n) = Fin (z - of_nat (unat n)) \<and>
    link_ok c (b\<lparr>bw_tokens := Fin (z - of_nat (unat n))\<rparr>)"
proof -
  obtain z where z: "bw_tokens b = Fin z" "0 \<le> z" "z \<le> of_nat c" "dyadic z" "c < 2 ^ 53"
    using assms(1) by (auto simp: link_ok_def bucket_ok_def tokens_ok_def)
  have "(of_nat c :: rat) < of_nat (2 ^ 53)"
    using z(5) by (simp only: of_nat_less_iff)
  then have "z < 2 ^ 53"
    using z(3) by simp
  note t = take_tokens [OF z(4) this z(2) assms(2) [unfolded z(1)]]
  define k where "k = unat n"
  have "0 \<le> z - of_nat k" "z - of_nat k \<le> of_nat c"
    using t z(3) of_nat_0_le_iff [of k, where 'a = rat] unfolding k_def by linarith+
  then have "link_ok c (b\<lparr>bw_tokens := Fin (z - of_nat k)\<rparr>)"
    using assms(1) t unfolding k_def by (simp add: link_ok_def bucket_ok_def tokens_ok_def)
  then show ?thesis
    using z(1) t unfolding k_def by simp
qed

lemma link_ok_consume: "link_ok c b \<Longrightarrow> link_ok c (snd (bw_try_consume now now' bits b))"
  using link_ok_refill [of c b now now'] link_ok_take [of c "bw_refill now now' b" bits]
  by (auto simp: bw_try_consume_def Let_def)

lemma bandwidth_step_ok:
  assumes "link_ok c (bucket al)"
  shows "link_ok c (bucket (bandwidth_step op al))"
  using assms link_ok_consume [OF assms] link_ok_refill [OF assms]
  by (cases op)
    (auto simp: acquire_def acquire_async_def drop_permit_def bw_available_def Let_def case_prod_beta split: option.splits)

lemma bandwidth_run_ok: "link_ok c (bucket al) \<Longrightarrow> link_ok c (bucket (fold bandwidth_step ops al))"
  by (induction ops arbitrary: al) (simp_all add: bandwidth_step_ok)

lemma allocation_new_ok: "unat n < 2 ^ 53 \<Longrightarrow> link_ok (unat n) (bucket (allocation_new now n))"
  using bucket_ok_new [of n now] of_usize_exact [of n]
  by (simp add: link_ok_def allocation_new_def bw_bucket_new_def)

text \<open>Permits asked for one after the other, at one instant and without contention.\<close>

fun acquire_all :: "instant \<Rightarrow> (QoSClass \<times> u64) list \<Rightarrow> BandwidthAllocation \<Rightarrow> BandwidthPermit list \<times> BandwidthAllocation" where
  "acquire_all now [] al = ([], al)"
| "acquire_all now ((c, n) # reqs) al =
     (let (p, al1) = acquire now now False c n al; (ps, al2) = acquire_all now reqs al1
      in (case p of Some x \<Rightarrow> x # ps | None \<Rightarrow> ps, al2))"

text \<open>The bits a permit allows to send; the code computes them modulo \<open>2 ^ 64\<close>.\<close>

definition permit_bits :: "BandwidthPermit \<Rightarrow> nat" where
  "permit_bits p = 8 * unat (permit_size p)"

lemma eight_times: "unat n < 2 ^ 61 \<Longrightarrow> unat (n * 8 :: u64) = 8 * unat n"
  by (simp add: unat_word_ariths)

text \<open>The tokens at hand at an instant.\<close>

definition at_hand :: "instant \<Rightarrow> BwTokenBucket \<Rightarrow> rat" where
  "at_hand now b = (case bw_tokens (bw_refill now now b) of Fin z \<Rightarrow> z | _ \<Rightarrow> 0)"

lemma at_hand_le: "link_ok c b \<Longrightarrow> at_hand now b \<le> of_nat c \<and> 0 \<le> at_hand now b"
  using link_ok_refill [of c b now now] by (auto simp: at_hand_def link_ok_def bucket_ok_def tokens_ok_def)

lemma consume_at_hand:
  assumes "link_ok c b" "bw_try_consume now now bits b = (ok, b1)"
  shows "link_ok c b1 \<and> at_hand now b1 = at_hand now b - (if ok then of_nat (unat bits) else 0)"
proof -
  let ?r = "bw_refill now now b"
  have keep: "bw_refill now now ?r = ?r"
    using bw_refill_settled [OF refl, where now = now and b = b and t = "bw_tokens ?r"] by simp
  show ?thesis
  proof (cases "fle (of_usize F64 bits) (bw_tokens ?r)")
    case True
    then obtain z where "bw_tokens ?r = Fin z" "link_ok c (?r\<lparr>bw_tokens := Fin (z - of_nat (unat bits))\<rparr>)"
        "b1 = ?r\<lparr>bw_tokens := Fin (z - of_nat (unat bits))\<rparr>" "ok"
      using link_ok_take [OF link_ok_refill [OF assms(1)] True] assms(2) by (auto simp: bw_try_consume_def Let_def)
    then show ?thesis
      by (simp add: at_hand_def bw_refill_settled [OF refl])
  next
    case False
    then have "b1 = ?r" "\<not> ok"
      using assms(2) by (auto simp: bw_try_consume_def Let_def)
    then show ?thesis
      using link_ok_refill [OF assms(1)] keep by (simp add: at_hand_def)
  qed
qed

lemma acquire_at_hand:
  assumes "link_ok k (bucket al)" "unat n < 2 ^ 61" "acquire now now False c n al = (p, al1)"
  shows "quotas al1 = quotas al \<and> link_ok k (bucket al1) \<and>
    (case p of
       None \<Rightarrow> at_hand now (bucket al1) = at_hand now (bucket al)
     | Some x \<Rightarrow> at_hand now (bucket al1) = at_hand now (bucket al) - of_nat (permit_bits x) \<and>
         (\<exists>q. hm_get (quotas al) (permit_class x) = Some q \<and> current_usage_bps q + permit_size x * 8 \<le> max_burst_bps q))"
proof (cases "case hm_get (quotas al) c of Some q \<Rightarrow> quota_can_transmit q n | None \<Rightarrow> False")
  case True
  then obtain q where q: "hm_get (quotas al) c = Some q" "quota_can_transmit q n"
    by (auto split: option.splits)
  obtain ok b where t: "bw_try_consume now now (n * 8) (bucket al) = (ok, b)"
    by (cases "bw_try_consume now now (n * 8) (bucket al)")
  have "p = (if ok then Some \<lparr>permit_size = n, permit_class = c\<rparr> else None)" "quotas al1 = quotas al" "bucket al1 = b"
    using assms(3) q t by (auto simp: acquire_def Let_def split: if_splits)
  then show ?thesis
    using consume_at_hand [OF assms(1) t] q
    by (auto simp: permit_bits_def eight_times [OF assms(2)] quota_can_transmit_def)
qed (use assms in \<open>auto simp: acquire_def split: option.splits\<close>)

lemma acquire_all_at_hand:
  assumes "link_ok k (bucket al)" "\<forall>(c, n) \<in> set reqs. unat n < 2 ^ 61" "acquire_all now reqs al = (ps, al1)"
  shows "quotas al1 = quotas al \<and> link_ok k (bucket al1) \<and>
    of_nat (sum_list (map permit_bits ps)) = at_hand now (bucket al) - at_hand now (bucket al1) \<and>
    list_all (\<lambda>p. \<exists>q. hm_get (quotas al) (permit_class p) = Some q \<and>
       current_usage_bps q + permit_size p * 8 \<le> max_burst_bps q) ps"
  using assms
proof (induction reqs arbitrary: al ps al1)
  case (Cons r reqs)
  obtain c n where r: "r = (c, n)"
    by (cases r)
  obtain p al2 where a: "acquire now now False c n al = (p, al2)"
    by (cases "acquire now now False c n al")
  obtain qs al3 where b: "acquire_all now reqs al2 = (qs, al3)"
    by (cases "acquire_all now reqs al2")
  have f: "quotas al2 = quotas al \<and> link_ok k (bucket al2) \<and>
    (case p of
       None \<Rightarrow> at_hand now (bucket al2) = at_hand now (bucket al)
     | Some x \<Rightarrow> at_hand now (bucket al2) = at_hand now (bucket al) - of_nat (permit_bits x) \<and>
         (\<exists>q. hm_get (quotas al) (permit_class x) = Some q \<and> current_usage_bps q + permit_size x * 8 \<le> max_burst_bps q))"
    using acquire_at_hand [OF Cons.prems(1) _ a] Cons.prems(2) r by simp
  have "link_ok k (bucket al2)" "\<forall>(c, n) \<in> set reqs. unat n < 2 ^ 61"
    using f Cons.prems(2) by simp_all
  note g = Cons.IH [OF this b]
  have "(ps, al1) = (case p of Some x \<Rightarrow> x # qs | None \<Rightarrow> qs, al3)"
    using Cons.prems(3) by (simp add: r a b)
  then show ?case
    using f g by (cases p) auto
qed simp

text \<open>
  C34.  A burst of permits on a link of less than \<open>2 ^ 53\<close> bits per second, after any history:
  permits acquired in either way, with any clock readings and any contention, permits
  dropped and the available bandwidth asked for.  However many permits of less than
  \<open>2 ^ 61\<close> bytes are then asked for at one instant, in any order and of any classes, while no
  other task holds the lock of the bucket, those that are granted allow no more bits than
  the link carries in a second, however long it was idle before.  Each is within the burst
  limit of its class, on top of the usage recorded for the class, which the burst does not
  change: this way of acquiring records no usage, so a class can take the whole link in
  messages of its burst limit.
\<close>

theorem burst_within_capacity:
  assumes "unat n < 2 ^ 53" "al0 = fold bandwidth_step ops (allocation_new t0 n)"
    and "\<forall>(c, m) \<in> set reqs. unat m < 2 ^ 61" "acquire_all now reqs al0 = (ps, al)"
  shows "sum_list (map permit_bits ps) \<le> unat n \<and>
    list_all (\<lambda>p. \<exists>q. hm_get (quotas al0) (permit_class p) = Some q \<and>
       current_usage_bps q + permit_size p * 8 \<le> max_burst_bps q) ps \<and>
    quotas al = quotas al0"
proof -
  have ok: "link_ok (unat n) (bucket al0)"
    unfolding assms(2) by (rule bandwidth_run_ok [OF allocation_new_ok [OF assms(1)]])
  note f = acquire_all_at_hand [OF ok assms(3,4)]
  have "(of_nat (sum_list (map permit_bits ps)) :: rat) \<le> of_nat (unat n)"
    using f at_hand_le [OF ok, of now] at_hand_le [of "unat n" "bucket al" now] by linarith
  then have "sum_list (map permit_bits ps) \<le> unat n"
    by (simp only: of_nat_le_iff)
  then show ?thesis
    using f by blast
qed

theorem burst_within_capacity_witness:
  "let al0 = fold bandwidth_step [AcquireAsyncOp 8 9 Bulk 100, DropOp] (allocation_new 7 1000000)
   in sum_list (map permit_bits (fst (acquire_all (90 * 10 ^ 9) (replicate 6 (Bulk, 25000)) al0))) \<le> 1000000"
proof -
  let ?al0 = "fold bandwidth_step [AcquireAsyncOp 8 9 Bulk 100, DropOp] (allocation_new 7 1000000)"
  obtain ps al where r: "acquire_all (90 * 10 ^ 9) (replicate 6 (Bulk, 25000)) ?al0 = (ps, al)"
    by (cases "acquire_all (90 * 10 ^ 9) (replicate 6 (Bulk, 25000)) ?al0")
  have "unat (1000000 :: u64) < 2 ^ 53" "\<forall>(c, m) \<in> set (replicate 6 (Bulk, 25000 :: u64)). unat m < 2 ^ 61"
    by simp_all
  then have "sum_list (map permit_bits ps) \<le> unat (1000000 :: u64)"
    using burst_within_capacity [OF _ refl _ r] by blast
  then show ?thesis
    by (simp only: Let_def r fst_conv) simp
qed

text \<open>A permit for \<open>2 ^ 61\<close> bytes is free: their bits are zero modulo \<open>2 ^ 64\<close>, for the quota and for the bucket.\<close>

lemma huge_permit_free:
  assumes "link_ok k (bucket al)" "hm_get (quotas al) c = Some q" "current_usage_bps q \<le> max_burst_bps q"
  shows "\<exists>al1. acquire now now False c (2 ^ 61) al = (Some \<lparr>permit_size = 2 ^ 61, permit_class = c\<rparr>, al1) \<and>
    at_hand now (bucket al1) = at_hand now (bucket al)"
proof -
  have zero: "(2 ^ 61 * 8 :: u64) = 0"
    by simp
  obtain z where z: "bw_tokens (bw_refill now now (bucket al)) = Fin z" "0 \<le> z"
    using link_ok_refill [OF assms(1)] by (auto simp: link_ok_def bucket_ok_def tokens_ok_def)
  have "of_usize F64 (0 :: u64) = Fin 0"
    using of_usize_exact [of 0] by simp
  then have "fle (of_usize F64 (0 :: u64)) (Fin z)"
    using z(2) by (auto simp: fle_def feq_def)
  then obtain b where b: "bw_try_consume now now 0 (bucket al) = (True, b)"
    using z(1) by (simp add: bw_try_consume_def Let_def)
  then have "at_hand now b = at_hand now (bucket al)"
    using consume_at_hand [OF assms(1) b] by simp
  then show ?thesis
    using assms(2,3) b unfolding acquire_def quota_can_transmit_def zero by (simp add: Let_def)
qed

text \<open>Five messages of the burst limit of Bulk, a fifth of the link each, fill the link.\<close>

lemma consume_grants:
  assumes "link_ok k b" "of_nat (unat bits) \<le> at_hand now b"
  shows "fst (bw_try_consume now now bits b)"
proof -
  obtain z where z: "bw_tokens (bw_refill now now b) = Fin z"
    using link_ok_refill [OF assms(1)] by (auto simp: link_ok_def bucket_ok_def tokens_ok_def)
  have "unat bits < 2 ^ 53"
  proof -
    have "(of_nat (unat bits) :: rat) \<le> of_nat k"
      using assms(2) at_hand_le [OF assms(1), of now] by linarith
    then have "unat bits \<le> k"
      by (simp only: of_nat_le_iff)
    then show ?thesis
      using assms(1) by (simp add: link_ok_def)
  qed
  then have "fle (of_usize F64 bits) (Fin z)"
    using assms(2) z of_usize_exact [of bits] by (auto simp: at_hand_def fle_def feq_def)
  then show ?thesis
    using z by (simp add: bw_try_consume_def Let_def)
qed

lemma bulk_fills_link:
  assumes "link_ok k (bucket al)" "of_nat (m * 200000) \<le> at_hand now (bucket al)"
    and "hm_get (quotas al) Bulk = Some q" "quota_can_transmit q 25000"
  shows "fst (acquire_all now (replicate m (Bulk, 25000)) al) = replicate m \<lparr>permit_size = 25000, permit_class = Bulk\<rparr>"
  using assms
proof (induction m arbitrary: al)
  case (Suc m)
  let ?p = "\<lparr>permit_size = 25000, permit_class = Bulk\<rparr>"
  have bits: "unat (25000 * 8 :: u64) = 200000"
    by simp
  have "fst (bw_try_consume now now (25000 * 8) (bucket al))"
    by (rule consume_grants [OF Suc.prems(1)]) (use Suc.prems(2) in \<open>simp add: bits [simplified]\<close>)
  then have "fst (acquire now now False Bulk 25000 al) = Some ?p"
    using Suc.prems(3,4) by (simp add: acquire_def Let_def case_prod_beta)
  then obtain al1 where a: "acquire now now False Bulk 25000 al = (Some ?p, al1)"
    by (cases "acquire now now False Bulk 25000 al") simp
  have "fst (acquire_all now (replicate m (Bulk, 25000)) al1) = replicate m ?p"
    using acquire_at_hand [OF Suc.prems(1) _ a] Suc.prems(2-4) by (intro Suc.IH) (simp_all add: permit_bits_def)
  then show ?case
    by (simp add: a case_prod_beta)
qed simp

lemma guarantees_wrap:
  "config_validate \<lparr>bc_total_bandwidth_bps = 1000000,
     bc_quotas = map (\<lambda>c. (c, \<lparr>min_guaranteed_percent = 100, max_burst_percent = 100, qc_preemption_enabled = False\<rparr>))
       [Critical, High, Normal]\<rparr> = Inr ()"
  by (simp add: config_validate_def List.map_filter_def)


end
