(* ===== verification/Health.thy ===== *)
theory Health
  imports Floats Transport_Types
begin

text \<open>
  Connection health, \<^verbatim>\<open>src/transport/health.rs\<close>, and the backoff of reconnections,
  \<^verbatim>\<open>src/transport/reconnection.rs\<close>.  The clock is read once per operation and once more
  for every peer a loop visits; the readings are arguments.  Events about degraded
  connections are part of the result.  Round-trip times and delays are \<^verbatim>\<open>f64\<close>.
\<close>

section \<open>Health of one peer\<close>

record HeartbeatConfig =
  hb_interval :: duration
  suspect_threshold :: u32
  dead_threshold :: u32
  degraded_rtt_threshold_ms :: u32
  degraded_loss_threshold_percent :: u8
  hb_enabled :: bool

definition heartbeat_default :: HeartbeatConfig where
  "heartbeat_default = \<lparr>hb_interval = 5 * 10 ^ 9, suspect_threshold = 2, dead_threshold = 4,
     degraded_rtt_threshold_ms = 1000, degraded_loss_threshold_percent = 10, hb_enabled = True\<rparr>"

definition heartbeat_disabled :: HeartbeatConfig where
  "heartbeat_disabled = heartbeat_default\<lparr>hb_enabled := False\<rparr>"

definition heartbeat_aggressive :: HeartbeatConfig where
  "heartbeat_aggressive = \<lparr>hb_interval = 2 * 10 ^ 9, suspect_threshold = 2, dead_threshold = 3,
     degraded_rtt_threshold_ms = 500, degraded_loss_threshold_percent = 5, hb_enabled = True\<rparr>"

definition heartbeat_relaxed :: HeartbeatConfig where
  "heartbeat_relaxed = \<lparr>hb_interval = 15 * 10 ^ 9, suspect_threshold = 3, dead_threshold = 6,
     degraded_rtt_threshold_ms = 2000, degraded_loss_threshold_percent = 20, hb_enabled = True\<rparr>"

record PeerHealthState =
  last_response :: instant
  missed_heartbeats :: u32
  smoothed_rtt_ms :: float
  ph_rtt_variance_ms :: float
  pings_sent :: u64
  pongs_received :: u64
  conn_state :: ConnectionState
  monitoring_started :: instant
  pending_ping :: "(instant \<times> u64) option"
  next_seq :: u64

definition peer_health_new :: "instant \<Rightarrow> PeerHealthState" where
  "peer_health_new now = \<lparr>last_response = now, missed_heartbeats = 0, smoothed_rtt_ms = f64 0,
     ph_rtt_variance_ms = f64 0, pings_sent = 0, pongs_received = 0, conn_state = Healthy,
     monitoring_started = now, pending_ping = None, next_seq = 0\<rparr>"

definition loss_percent :: "PeerHealthState \<Rightarrow> u8" where
  "loss_percent s =
     (if pings_sent s = 0 then 0
      else
        let loss_ratio = fsub F64 (f64 1) (fdiv F64 (of_usize F64 (pongs_received s)) (of_usize F64 (pings_sent s)))
        in to_u8 (fmin (fround_int (fmul F64 loss_ratio (f64 100))) (f64 100)))"

definition to_connection_health :: "PeerHealthState \<Rightarrow> ConnectionHealth" where
  "to_connection_health s = \<lparr>rtt_ms = to_u32 (fround_int (smoothed_rtt_ms s)),
     rtt_variance_ms = to_u32 (fround_int (ph_rtt_variance_ms s)),
     packet_loss_percent = loss_percent s, health_state = conn_state s, last_activity = last_response s\<rparr>"

definition update_rtt :: "float \<Rightarrow> PeerHealthState \<Rightarrow> PeerHealthState" where
  "update_rtt sample s =
     (if feq (smoothed_rtt_ms s) (f64 0)
      then s\<lparr>smoothed_rtt_ms := sample, ph_rtt_variance_ms := fdiv F64 sample (f64 2)\<rparr>
      else
        let alpha = f64 (1 / 8); beta = f64 (1 / 4);
            diff = fabs (fsub F64 sample (smoothed_rtt_ms s))
        in s\<lparr>ph_rtt_variance_ms :=
               fadd F64 (fmul F64 (fsub F64 (f64 1) beta) (ph_rtt_variance_ms s)) (fmul F64 beta diff),
             smoothed_rtt_ms :=
               fadd F64 (fmul F64 (fsub F64 (f64 1) alpha) (smoothed_rtt_ms s)) (fmul F64 alpha sample)\<rparr>)"

section \<open>The monitor\<close>

record HealthMonitor =
  hm_config :: HeartbeatConfig
  health :: "(NodeId, PeerHealthState) hmap"

definition monitor_new :: "HeartbeatConfig \<Rightarrow> HealthMonitor" where
  "monitor_new cfg = \<lparr>hm_config = cfg, health = []\<rparr>"

definition start_monitoring :: "instant \<Rightarrow> NodeId \<Rightarrow> HealthMonitor \<Rightarrow> HealthMonitor" where
  "start_monitoring now p m =
     (if \<not> hb_enabled (hm_config m) then m
      else case hm_get (health m) p of
        Some _ \<Rightarrow> m
      | None \<Rightarrow> m\<lparr>health := hm_insert p (peer_health_new now) (health m)\<rparr>)"

definition stop_monitoring :: "NodeId \<Rightarrow> HealthMonitor \<Rightarrow> HealthMonitor" where
  "stop_monitoring p m = m\<lparr>health := hm_remove p (health m)\<rparr>"

definition get_health :: "NodeId \<Rightarrow> HealthMonitor \<Rightarrow> ConnectionHealth option" where
  "get_health p m = map_option to_connection_health (hm_get (health m) p)"

definition unhealthy_peers :: "HealthMonitor \<Rightarrow> NodeId list" where
  "unhealthy_peers m = map fst (filter (\<lambda>(_, s). conn_state s \<noteq> Healthy) (health m))"

definition dead_peers :: "HealthMonitor \<Rightarrow> NodeId list" where
  "dead_peers m = map fst (filter (\<lambda>(_, s). conn_state s = Dead) (health m))"

text \<open>Peers to ping: \<open>now\<close> is the reading of the operation, \<open>later\<close> that of the entry.\<close>

definition needs_ping :: "HeartbeatConfig \<Rightarrow> instant \<Rightarrow> instant \<Rightarrow> PeerHealthState \<Rightarrow> bool" where
  "needs_ping cfg now later s \<longleftrightarrow>
     conn_state s \<noteq> Dead \<and>
     (case pending_ping s of
        Some (sent_at, _) \<Rightarrow> hb_interval cfg * 2 < later - sent_at
      | None \<Rightarrow> hb_interval cfg \<le> now - last_response s)"

definition peers_needing_ping :: "instant \<Rightarrow> (NodeId \<Rightarrow> instant) \<Rightarrow> HealthMonitor \<Rightarrow> NodeId list" where
  "peers_needing_ping now later m =
     (if \<not> hb_enabled (hm_config m) then []
      else map fst (filter (\<lambda>(p, s). needs_ping (hm_config m) now (later p) s) (health m)))"

definition record_ping_sent :: "instant \<Rightarrow> NodeId \<Rightarrow> HealthMonitor \<Rightarrow> u64 option \<times> HealthMonitor" where
  "record_ping_sent now p m =
     (case hm_get (health m) p of
        Some s \<Rightarrow>
          (Some (next_seq s),
           m\<lparr>health := hm_insert p (s\<lparr>next_seq := next_seq s + 1, pings_sent := pings_sent s + 1,
               pending_ping := Some (now, next_seq s)\<rparr>) (health m)\<rparr>)
      | None \<Rightarrow> (None, m))"

definition evaluate_state :: "HeartbeatConfig \<Rightarrow> PeerHealthState \<Rightarrow> ConnectionState" where
  "evaluate_state cfg s =
     (if dead_threshold cfg \<le> missed_heartbeats s then Dead
      else if suspect_threshold cfg \<le> missed_heartbeats s then Suspect
      else if flt (fround F64 (of_nat (unat (degraded_rtt_threshold_ms cfg)))) (smoothed_rtt_ms s) then Degraded
      else if degraded_loss_threshold_percent cfg < loss_percent s then Degraded
      else Healthy)"

definition take_pong :: "HeartbeatConfig \<Rightarrow> instant \<Rightarrow> instant \<Rightarrow> u64 \<Rightarrow> instant \<times> u64 \<Rightarrow> PeerHealthState \<Rightarrow> PeerHealthState" where
  "take_pong cfg now now' seq = (\<lambda>(sent_at, expected_seq) s.
     let s1 = s\<lparr>pending_ping := None\<rparr>
     in if seq = expected_seq
        then let u = update_rtt (fmul F64 (as_secs_f64 (now - sent_at)) (f64 1000)) s1;
                 v = u\<lparr>pongs_received := pongs_received u + 1, last_response := now', missed_heartbeats := 0\<rparr>
             in v\<lparr>conn_state := evaluate_state cfg v\<rparr>
        else s1)"

definition record_pong_received ::
  "instant \<Rightarrow> instant \<Rightarrow> NodeId \<Rightarrow> u64 \<Rightarrow> HealthMonitor \<Rightarrow> HealthMonitor" where
  "record_pong_received now now' p seq m =
     (case hm_get (health m) p of
        None \<Rightarrow> m
      | Some s \<Rightarrow>
          (case pending_ping s of
             None \<Rightarrow> m
           | Some x \<Rightarrow> m\<lparr>health := hm_insert p (take_pong (hm_config m) now now' seq x s) (health m)\<rparr>))"

text \<open>The body of the loop over all peers, and what it reports.\<close>

definition check_timeout :: "HeartbeatConfig \<Rightarrow> instant \<Rightarrow> PeerHealthState \<Rightarrow> PeerHealthState" where
  "check_timeout cfg now s =
     (let s1 = (case pending_ping s of
                  Some (sent_at, _) \<Rightarrow>
                    if hb_interval cfg \<le> now - sent_at
                    then s\<lparr>missed_heartbeats := missed_heartbeats s + 1, pending_ping := None\<rparr> else s
                | None \<Rightarrow> s)
      in s1\<lparr>conn_state := evaluate_state cfg s1\<rparr>)"

definition became :: "ConnectionState \<Rightarrow> PeerHealthState \<Rightarrow> PeerHealthState \<Rightarrow> bool" where
  "became c s s' \<longleftrightarrow> conn_state s' = c \<and> conn_state s \<noteq> c"

definition health_check_timeouts ::
  "(NodeId \<Rightarrow> instant) \<Rightarrow> HealthMonitor \<Rightarrow> NodeId list \<times> PeerEvent list \<times> HealthMonitor" where
  "health_check_timeouts clk m =
     (if \<not> hb_enabled (hm_config m) then ([], [], m)
      else
        let checked = map (\<lambda>(p, s). (p, s, check_timeout (hm_config m) (clk p) s)) (health m)
        in (map fst (filter (\<lambda>(_, s, s'). became Dead s s') checked),
            map (\<lambda>(p, _, s'). PeerDegraded p (to_connection_health s'))
              (filter (\<lambda>(_, s, s'). became Degraded s s') checked),
            m\<lparr>health := map (\<lambda>(p, _, s'). (p, s')) checked\<rparr>))"

definition monitored_peer_count :: "HealthMonitor \<Rightarrow> nat" where
  "monitored_peer_count m = length (health m)"

definition monitor_clear :: "HealthMonitor \<Rightarrow> HealthMonitor" where
  "monitor_clear m = m\<lparr>health := []\<rparr>"

text \<open>
  The senders that subscribed: an event is offered to each, and one whose receiver is
  gone is dropped.  What a channel answers is an argument.
\<close>

datatype SendResult = Sent | Full | Closed

definition emit_event :: "('s \<Rightarrow> PeerEvent \<Rightarrow> SendResult) \<Rightarrow> PeerEvent \<Rightarrow> 's list \<Rightarrow> 's list" where
  "emit_event try_send ev senders = filter (\<lambda>s. try_send s ev \<noteq> Closed) senders"

definition subscribe :: "'s \<Rightarrow> 's list \<Rightarrow> 's list" where
  "subscribe s senders = senders @ [s]"

section \<open>Reconnection\<close>

record ReconnectionPolicy =
  rp_enabled :: bool
  initial_delay :: duration
  rp_max_delay :: duration
  rp_multiplier :: float
  max_retries :: "u32 option"
  jitter :: float

definition reconnection_default :: ReconnectionPolicy where
  "reconnection_default = \<lparr>rp_enabled = True, initial_delay = 10 ^ 9, rp_max_delay = 60 * 10 ^ 9,
     rp_multiplier = f64 2, max_retries = Some 10, jitter = f64 (2 / 10)\<rparr>"

definition reconnection_disabled :: ReconnectionPolicy where
  "reconnection_disabled = reconnection_default\<lparr>rp_enabled := False\<rparr>"

definition reconnection_aggressive :: ReconnectionPolicy where
  "reconnection_aggressive = \<lparr>rp_enabled = True, initial_delay = 100 * 10 ^ 6, rp_max_delay = 10 * 10 ^ 9,
     rp_multiplier = f64 (15 / 10), max_retries = Some 20, jitter = f64 (1 / 10)\<rparr>"

definition reconnection_conservative :: ReconnectionPolicy where
  "reconnection_conservative = \<lparr>rp_enabled = True, initial_delay = 5 * 10 ^ 9, rp_max_delay = 300 * 10 ^ 9,
     rp_multiplier = f64 2, max_retries = Some 5, jitter = f64 (3 / 10)\<rparr>"

definition pseudo_random :: "u32 \<Rightarrow> float" where
  "pseudo_random seed =
     fdiv F64 (fround F64 (of_nat (unat (seed * 2654435761)))) (fround F64 (of_nat (unat (-1 :: u32))))"

text \<open>
  The power \<^verbatim>\<open>powi\<close> is an argument: the language leaves its rounding open.
\<close>

definition calculate_delay ::
  "(float \<Rightarrow> int \<Rightarrow> float) \<Rightarrow> u32 \<Rightarrow> ReconnectionPolicy \<Rightarrow> unit failure + duration" where
  "calculate_delay pw attempt rp =
     (let base_delay = fmul F64 (as_secs_f64 (initial_delay rp)) (pw (rp_multiplier rp) (sint attempt));
          capped_delay = fmin base_delay (as_secs_f64 (rp_max_delay rp));
          jitter_factor = fadd F64 (fsub F64 (f64 1) (jitter rp))
            (fmul F64 (fmul F64 (jitter rp) (f64 2)) (pseudo_random attempt));
          final_delay = fmul F64 capped_delay jitter_factor
      in from_secs_f64 (fmax final_delay (f64 0)))"

definition reconnect_should_retry :: "u32 \<Rightarrow> ReconnectionPolicy \<Rightarrow> bool" where
  "reconnect_should_retry n rp \<longleftrightarrow> rp_enabled rp \<and> (case max_retries rp of Some mx \<Rightarrow> n < mx | None \<Rightarrow> True)"

record ReconnectionState =
  attempts :: u32
  next_attempt :: instant
  last_error :: "string option"
  is_static_peer :: bool

record ReconnectionManager =
  rm_policy :: ReconnectionPolicy
  pending :: "(NodeId, ReconnectionState) hmap"

definition reconnection_manager_new :: "ReconnectionPolicy \<Rightarrow> ReconnectionManager" where
  "reconnection_manager_new rp = \<lparr>rm_policy = rp, pending = []\<rparr>"

definition schedule_reconnect :: "instant \<Rightarrow> NodeId \<Rightarrow> bool \<Rightarrow> ReconnectionManager \<Rightarrow> ReconnectionManager" where
  "schedule_reconnect now p is_static rm =
     (if \<not> rp_enabled (rm_policy rm) then rm
      else if \<not> is_static then rm
      else if hm_contains (pending rm) p then rm
      else rm\<lparr>pending := hm_insert p \<lparr>attempts = 0, next_attempt = now + initial_delay (rm_policy rm),
               last_error = None, is_static_peer = is_static\<rparr> (pending rm)\<rparr>)"

definition due_reconnections :: "instant \<Rightarrow> ReconnectionManager \<Rightarrow> NodeId list" where
  "due_reconnections now rm = map fst (filter (\<lambda>(_, s). next_attempt s \<le> now) (pending rm))"

definition reconnected :: "NodeId \<Rightarrow> ReconnectionManager \<Rightarrow> ReconnectionManager" where
  "reconnected p rm = rm\<lparr>pending := hm_remove p (pending rm)\<rparr>"

definition reconnect_failed ::
  "(float \<Rightarrow> int \<Rightarrow> float) \<Rightarrow> instant \<Rightarrow> NodeId \<Rightarrow> string \<Rightarrow> ReconnectionManager
     \<Rightarrow> unit failure + bool \<times> ReconnectionManager" where
  "reconnect_failed pw now p e rm =
     (case hm_get (pending rm) p of
        None \<Rightarrow> Inr (False, rm)
      | Some s \<Rightarrow>
          let s1 = s\<lparr>attempts := attempts s + 1, last_error := Some e\<rparr>
          in if reconnect_should_retry (attempts s1) (rm_policy rm)
             then case calculate_delay pw (attempts s1) (rm_policy rm) of
                    Inl x \<Rightarrow> Inl x
                  | Inr d \<Rightarrow>
                      Inr (True, rm\<lparr>pending := hm_insert p (s1\<lparr>next_attempt := now + d\<rparr>) (pending rm)\<rparr>)
             else Inr (False, rm\<lparr>pending := hm_insert p s1 (pending rm)\<rparr>))"

definition clear_pending :: "ReconnectionManager \<Rightarrow> ReconnectionManager" where
  "clear_pending rm = rm\<lparr>pending := []\<rparr>"

definition remove_pending :: "NodeId \<Rightarrow> ReconnectionManager \<Rightarrow> ReconnectionState option \<times> ReconnectionManager" where
  "remove_pending p rm = (hm_get (pending rm) p, rm\<lparr>pending := hm_remove p (pending rm)\<rparr>)"

section \<open>Deaths are reported once\<close>

text \<open>
  A monitor in use: peers come and go, the peers that need it are pinged, pongs arrive,
  timeouts are checked.  A step returns the peers it reports as newly dead.
\<close>

datatype health_op =
    StartPeer instant NodeId
  | StopPeer NodeId
  | PingDue instant "NodeId \<Rightarrow> instant" "NodeId \<Rightarrow> instant"
  | Pong instant instant NodeId u64
  | CheckAll "NodeId \<Rightarrow> instant"
  | ClearAll

text \<open>
  The peers that are due are asked for and their pings recorded, each call under its own
  lock in the source; here the calls are one step, with nothing between them.
\<close>

definition ping_due :: "instant \<Rightarrow> (NodeId \<Rightarrow> instant) \<Rightarrow> (NodeId \<Rightarrow> instant) \<Rightarrow> HealthMonitor \<Rightarrow> HealthMonitor" where
  "ping_due now later sent m =
     fold (\<lambda>p m. snd (record_ping_sent (sent p) p m)) (peers_needing_ping now later m) m"

fun monitor_step :: "health_op \<Rightarrow> HealthMonitor \<Rightarrow> NodeId list \<times> HealthMonitor" where
  "monitor_step (StartPeer now p) m = ([], start_monitoring now p m)"
| "monitor_step (StopPeer p) m = ([], stop_monitoring p m)"
| "monitor_step (PingDue now later sent) m = ([], ping_due now later sent m)"
| "monitor_step (Pong now now' p seq) m = ([], record_pong_received now now' p seq m)"
| "monitor_step (CheckAll clk) m = (let (dead, _, m') = health_check_timeouts clk m in (dead, m'))"
| "monitor_step ClearAll m = ([], monitor_clear m)"

text \<open>What a client that listens to the reports knows to be dead; \<open>None\<close> once a report repeats.\<close>

fun client_step :: "health_op \<Rightarrow> NodeId list \<Rightarrow> NodeId set \<Rightarrow> NodeId set option" where
  "client_step (StopPeer p) _ R = Some (R - {p})"
| "client_step ClearAll _ R = Some {}"
| "client_step _ reports R = (if distinct reports \<and> set reports \<inter> R = {} then Some (R \<union> set reports) else None)"

primrec monitor_run :: "health_op list \<Rightarrow> HealthMonitor \<Rightarrow> NodeId set \<Rightarrow> (HealthMonitor \<times> NodeId set) option" where
  "monitor_run [] m R = Some (m, R)"
| "monitor_run (a # ops) m R =
     (let (reports, m') = monitor_step a m
      in case client_step a reports R of Some R' \<Rightarrow> monitor_run ops m' R' | None \<Rightarrow> None)"

text \<open>A peer is dead exactly when it missed enough heartbeats, and then no ping is pending.\<close>

definition peer_ok :: "HeartbeatConfig \<Rightarrow> PeerHealthState \<Rightarrow> bool" where
  "peer_ok cfg s \<longleftrightarrow> (conn_state s = Dead \<longleftrightarrow> dead_threshold cfg \<le> missed_heartbeats s) \<and>
     (conn_state s = Dead \<longrightarrow> pending_ping s = None)"

definition monitor_ok :: "HealthMonitor \<Rightarrow> bool" where
  "monitor_ok m \<longleftrightarrow> hm_wf (health m) \<and> 0 < dead_threshold (hm_config m) \<and>
     (\<forall>p s. hm_get (health m) p = Some s \<longrightarrow> peer_ok (hm_config m) s)"

lemma evaluate_dead: "evaluate_state cfg s = Dead \<longleftrightarrow> dead_threshold cfg \<le> missed_heartbeats s"
  by (simp add: evaluate_state_def)

lemma peer_ok_new: "0 < dead_threshold cfg \<Longrightarrow> peer_ok cfg (peer_health_new now)"
  by (simp add: peer_ok_def peer_health_new_def)

lemma missed_once_more:
  assumes "peer_ok cfg s" "pending_ping s = Some x"
  shows "missed_heartbeats s < dead_threshold cfg" "dead_threshold cfg \<le> missed_heartbeats s + 1 \<longrightarrow>
    missed_heartbeats s + 1 = dead_threshold cfg"
proof -
  show a: "missed_heartbeats s < dead_threshold cfg"
    using assms by (auto simp: peer_ok_def)
  then have "missed_heartbeats s + 1 \<le> dead_threshold cfg"
    by (metis inc_le)
  then show "dead_threshold cfg \<le> missed_heartbeats s + 1 \<longrightarrow> missed_heartbeats s + 1 = dead_threshold cfg"
    by simp
qed

lemma peer_ok_check: "peer_ok cfg s \<Longrightarrow> peer_ok cfg (check_timeout cfg now s)"
  using missed_once_more [of cfg s]
  by (auto simp: check_timeout_def peer_ok_def evaluate_dead evaluate_state_def Let_def split: option.splits)

lemma dead_stays: "peer_ok cfg s \<Longrightarrow> conn_state s = Dead \<Longrightarrow> conn_state (check_timeout cfg now s) = Dead"
  by (auto simp: check_timeout_def peer_ok_def evaluate_dead)

lemma hm_get_map_values: "hm_get (map (\<lambda>(p, s). (p, f p s)) m) p = map_option (f p) (hm_get m p)"
  by (induction m) auto

lemma hm_wf_map_values: "hm_wf (map (\<lambda>(p, s). (p, f p s)) m) = hm_wf m"
  by (simp add: hm_wf_def case_prod_beta comp_def)

lemma dead_peers_iff:
  "hm_wf (health m) \<Longrightarrow> p \<in> set (dead_peers m) \<longleftrightarrow> (\<exists>s. hm_get (health m) p = Some s \<and> conn_state s = Dead)"
  by (force simp: dead_peers_def hm_get_in_set)

definition shown :: "HealthMonitor \<Rightarrow> NodeId \<Rightarrow> ConnectionState option" where
  "shown m p = map_option conn_state (hm_get (health m) p)"

lemma dead_shown: "monitor_ok m \<Longrightarrow> set (dead_peers m) = {p. shown m p = Some Dead}"
  by (auto simp: dead_peers_iff monitor_ok_def shown_def)

lemma needing_ping_shown:
  assumes "monitor_ok m" "p \<in> set (peers_needing_ping now later m)"
  shows "shown m p \<noteq> Some Dead"
proof -
  obtain s where "(p, s) \<in> set (health m)" "conn_state s \<noteq> Dead"
    using assms(2) by (auto simp: peers_needing_ping_def needs_ping_def split: if_splits)
  then show ?thesis
    using assms(1) hm_get_in_set [of "health m" p s] by (auto simp: monitor_ok_def shown_def)
qed

lemma ping_ok:
  assumes "monitor_ok m" "shown m p \<noteq> Some Dead"
  shows "monitor_ok (snd (record_ping_sent now p m)) \<and> shown (snd (record_ping_sent now p m)) = shown m"
  using assms by (auto simp: record_ping_sent_def monitor_ok_def shown_def peer_ok_def split: option.splits)

lemma pings_ok:
  assumes "monitor_ok m" "\<And>p. p \<in> set ps \<Longrightarrow> shown m p \<noteq> Some Dead"
  shows "monitor_ok (fold (\<lambda>p m. snd (record_ping_sent (sent p) p m)) ps m) \<and>
    shown (fold (\<lambda>p m. snd (record_ping_sent (sent p) p m)) ps m) = shown m"
  using assms
proof (induction ps arbitrary: m)
  case (Cons p ps)
  have a: "monitor_ok (snd (record_ping_sent (sent p) p m))" "shown (snd (record_ping_sent (sent p) p m)) = shown m"
    using ping_ok Cons.prems by simp_all
  show ?case
    using Cons.IH [OF a(1)] Cons.prems(2) by (simp add: a(2))
qed simp

lemma evaluate_conn [simp]: "evaluate_state cfg (s\<lparr>conn_state := c\<rparr>) = evaluate_state cfg s"
  by (simp add: evaluate_state_def loss_percent_def)

lemma take_pong_ok:
  assumes "peer_ok cfg s" "conn_state s \<noteq> Dead" "0 < dead_threshold cfg"
  shows "peer_ok cfg (take_pong cfg now now' seq x s) \<and> conn_state (take_pong cfg now now' seq x s) \<noteq> Dead"
proof (cases "seq = snd x")
  case True
  have "missed_heartbeats (take_pong cfg now now' seq x s) = 0"
    "conn_state (take_pong cfg now now' seq x s) = evaluate_state cfg (take_pong cfg now now' seq x s)"
    using True by (simp_all add: take_pong_def Let_def case_prod_beta)
  then show ?thesis
    using assms(3) by (auto simp: peer_ok_def evaluate_dead)
next
  case False
  then show ?thesis
    using assms by (simp add: take_pong_def case_prod_beta peer_ok_def Let_def)
qed

lemma pong_ok:
  assumes "monitor_ok m"
  shows "monitor_ok (record_pong_received now now' p seq m) \<and>
    (shown (record_pong_received now now' p seq m) q = Some Dead \<longleftrightarrow> shown m q = Some Dead)"
proof (cases "hm_get (health m) p")
  case (Some s)
  have ok: "peer_ok (hm_config m) s"
    using assms Some by (simp add: monitor_ok_def)
  show ?thesis
  proof (cases "pending_ping s")
    case None
    then show ?thesis
      using assms Some by (simp add: record_pong_received_def)
  next
    case p: (Some x)
    then have alive: "conn_state s \<noteq> Dead"
      using ok by (auto simp: peer_ok_def)
    then show ?thesis
      using assms Some p ok take_pong_ok [OF ok] by (auto simp: record_pong_received_def monitor_ok_def shown_def)
  qed
qed (simp add: assms record_pong_received_def)

lemma check_health:
  "hb_enabled (hm_config m) \<Longrightarrow>
   snd (snd (health_check_timeouts clk m)) =
     m\<lparr>health := map (\<lambda>(p, s). (p, check_timeout (hm_config m) (clk p) s)) (health m)\<rparr>"
  by (simp add: health_check_timeouts_def comp_def case_prod_unfold Let_def)

lemma check_ok:
  assumes "monitor_ok m" "health_check_timeouts clk m = (dead, evs, m')"
  shows "monitor_ok m' \<and> distinct dead \<and>
    set dead = {p. shown m' p = Some Dead} - {p. shown m p = Some Dead} \<and>
    {p. shown m p = Some Dead} \<subseteq> {p. shown m' p = Some Dead}"
proof (cases "hb_enabled (hm_config m)")
  case False
  then show ?thesis
    using assms by (simp add: health_check_timeouts_def)
next
  case True
  let ?f = "\<lambda>p. check_timeout (hm_config m) (clk p)"
  have m': "m' = m\<lparr>health := map (\<lambda>(p, s). (p, ?f p s)) (health m)\<rparr>"
    using check_health [OF True, of clk] assms(2) by simp
  have dead: "dead = map fst (filter (\<lambda>(p, s). became Dead s (?f p s)) (health m))"
    using assms(2) True by (auto simp: health_check_timeouts_def comp_def case_prod_unfold filter_map)
  have wf: "hm_wf (health m)"
    using assms(1) by (simp add: monitor_ok_def)
  have get: "hm_get (health m') p = map_option (?f p) (hm_get (health m) p)" for p
    by (simp add: m' hm_get_map_values)
  have "monitor_ok m'"
    using assms(1) peer_ok_check by (auto simp: monitor_ok_def m' hm_get_map_values hm_wf_map_values)
  moreover have "distinct dead"
    using wf by (simp add: dead hm_wf_def distinct_map_filter)
  moreover have "p \<in> set dead \<longleftrightarrow> (\<exists>s. hm_get (health m) p = Some s \<and> became Dead s (?f p s))" for p
    using hm_get_in_set [OF wf] by (force simp: dead)
  moreover have "conn_state (?f p s) = Dead" if "hm_get (health m) p = Some s" "conn_state s = Dead" for p s
    using assms(1) dead_stays that by (auto simp: monitor_ok_def)
  ultimately show ?thesis
    by (auto simp: shown_def get became_def)
qed

lemma monitor_step_ok:
  assumes "monitor_ok m" "monitor_step a m = (reports, m')"
  shows "monitor_ok m' \<and> client_step a reports {p. shown m p = Some Dead} = Some {p. shown m' p = Some Dead}"
proof (cases a)
  case (StartPeer now p)
  then show ?thesis
    using assms peer_ok_new
    by (auto simp: start_monitoring_def monitor_ok_def shown_def peer_health_new_def split: option.splits if_splits)
next
  case (StopPeer p)
  then show ?thesis
    using assms by (auto simp: stop_monitoring_def monitor_ok_def shown_def split: if_splits)
next
  case (PingDue now later sent)
  then show ?thesis
    using assms pings_ok [OF assms(1) needing_ping_shown [OF assms(1)]] by (auto simp: ping_due_def)
next
  case (Pong now now' p seq)
  then show ?thesis
    using assms pong_ok [OF assms(1)] by auto
next
  case (CheckAll clk)
  obtain evs where "health_check_timeouts clk m = (reports, evs, m')"
    using assms(2) CheckAll by (auto split: prod.splits)
  from check_ok [OF assms(1) this] show ?thesis
    unfolding CheckAll by simp blast
next
  case ClearAll
  then show ?thesis
    using assms by (auto simp: monitor_clear_def monitor_ok_def shown_def)
qed

lemma monitor_run_ok:
  assumes "monitor_ok m"
  shows "\<exists>m'. monitor_run ops m {p. shown m p = Some Dead} = Some (m', {p. shown m' p = Some Dead}) \<and> monitor_ok m'"
  using assms
proof (induction ops arbitrary: m)
  case (Cons a ops)
  obtain reports m1 where s: "monitor_step a m = (reports, m1)"
    by (cases "monitor_step a m")
  then show ?case
    using monitor_step_ok [OF Cons.prems s] Cons.IH [of m1] by simp
qed auto

text \<open>
  C35.  The health monitor with a positive death threshold, driven by pinging the peers it
  asks for: asking and recording the pings is one step, and no other peer is pinged (a
  ping recorded for a dead peer would let its pong revive it).  After any sequence
  of operations, no death was reported twice while its peer was monitored, and the peers
  that are dead are exactly those whose death was reported since.  A dead peer is not
  pinged, and no pong brings it back: it stays dead until its monitoring is stopped,
  since starting it again changes nothing.
\<close>

theorem deaths_reported_once:
  assumes "0 < dead_threshold cfg"
  shows "\<exists>m. monitor_run ops (monitor_new cfg) {} = Some (m, set (dead_peers m)) \<and>
    (p \<in> set (dead_peers m) \<longrightarrow>
       p \<notin> set (peers_needing_ping now later m) \<and>
       hm_get (health (record_pong_received now now' p seq m)) p = hm_get (health m) p \<and>
       start_monitoring now p m = m)"
proof -
  have "monitor_ok (monitor_new cfg)" "{p. shown (monitor_new cfg) p = Some Dead} = {}"
    using assms by (simp_all add: monitor_ok_def monitor_new_def shown_def)
  then obtain m where r: "monitor_run ops (monitor_new cfg) {} = Some (m, set (dead_peers m))" and ok: "monitor_ok m"
    using monitor_run_ok [of "monitor_new cfg" ops] dead_shown by metis
  have "p \<notin> set (peers_needing_ping now later m)" if "p \<in> set (dead_peers m)"
    using needing_ping_shown [OF ok] that by (auto simp: dead_shown [OF ok])
  moreover have "hm_get (health (record_pong_received now now' p seq m)) p = hm_get (health m) p \<and> start_monitoring now p m = m"
    if d: "p \<in> set (dead_peers m)"
  proof -
    obtain s where "hm_get (health m) p = Some s" "conn_state s = Dead" "peer_ok (hm_config m) s"
      using d ok by (auto simp: dead_shown [OF ok] shown_def monitor_ok_def)
    then show ?thesis
      by (simp add: record_pong_received_def start_monitoring_def peer_ok_def)
  qed
  ultimately show ?thesis
    using r by blast
qed

theorem deaths_reported_once_witness:
  "\<exists>m. monitor_run [StartPeer 0 ''a'', PingDue 9000000000 (\<lambda>_. 0) (\<lambda>_. 9000000000), CheckAll (\<lambda>_. 99000000000)]
     (monitor_new heartbeat_default) {} = Some (m, set (dead_peers m))"
proof -
  have "0 < dead_threshold heartbeat_default"
    by (simp add: heartbeat_default_def)
  from deaths_reported_once [OF this] show ?thesis
    by blast
qed

section \<open>Silent peers\<close>

text \<open>
  A round without an answer: a ping that was due, and a check at least an interval after
  it.  A peer that answers nothing is dead after as many rounds as the threshold says.
\<close>

definition silent_round :: "instant \<times> instant \<times> instant \<Rightarrow> HealthMonitor \<Rightarrow> HealthMonitor" where
  "silent_round = (\<lambda>(now, sent, check) m.
     snd (monitor_step (CheckAll (\<lambda>_. check)) (snd (monitor_step (PingDue now (\<lambda>_. now) (\<lambda>_. sent)) m))))"

lemma silent_round_simp:
  "silent_round (now, sent, check) m = snd (snd (health_check_timeouts (\<lambda>_. check) (ping_due now (\<lambda>_. now) (\<lambda>_. sent) m)))"
  by (simp add: silent_round_def case_prod_beta)

definition pinged :: "instant \<Rightarrow> PeerHealthState \<Rightarrow> PeerHealthState" where
  "pinged now s = s\<lparr>next_seq := next_seq s + 1, pings_sent := pings_sent s + 1, pending_ping := Some (now, next_seq s)\<rparr>"

lemma pings_lookup:
  assumes "distinct ps"
  shows "hm_get (health (fold (\<lambda>p m. snd (record_ping_sent (sent p) p m)) ps m)) p =
      (if p \<in> set ps then map_option (pinged (sent p)) (hm_get (health m) p) else hm_get (health m) p) \<and>
    hm_config (fold (\<lambda>p m. snd (record_ping_sent (sent p) p m)) ps m) = hm_config m"
  using assms
  by (induction ps arbitrary: m) (auto simp: record_ping_sent_def pinged_def split: option.splits)

lemma ping_due_lookup:
  assumes "hm_wf (health m)" "hb_enabled (hm_config m)" "hm_get (health m) p = Some s"
    "needs_ping (hm_config m) now (later p) s"
  shows "hm_get (health (ping_due now later sent m)) p = Some (pinged (sent p) s)"
proof -
  have "distinct (peers_needing_ping now later m)"
    using assms(1) by (simp add: peers_needing_ping_def hm_wf_def distinct_map_filter)
  moreover have "p \<in> set (peers_needing_ping now later m)"
    using assms hm_get_in_set [OF assms(1), of p s] by (force simp: peers_needing_ping_def)
  ultimately show ?thesis
    using pings_lookup assms(3) by (simp add: ping_due_def)
qed

lemma ping_due_config [simp]: "hm_wf (health m) \<Longrightarrow> hm_config (ping_due now later sent m) = hm_config m"
  using pings_lookup [of "peers_needing_ping now later m"]
  by (simp add: ping_due_def peers_needing_ping_def hm_wf_def distinct_map_filter)

lemma silent_peer_missed:
  assumes "hb_enabled (hm_config m)" "hm_wf (health m)"
    and "hm_get (health m) p = Some s" "pending_ping s = None" "conn_state s \<noteq> Dead"
    and "hb_interval (hm_config m) \<le> now - last_response s" "hb_interval (hm_config m) \<le> check - sent"
  shows "\<exists>s'. hm_get (health (silent_round (now, sent, check) m)) p = Some s' \<and>
    missed_heartbeats s' = missed_heartbeats s + 1 \<and> pending_ping s' = None \<and> last_response s' = last_response s"
proof -
  have "hm_get (health (ping_due now (\<lambda>_. now) (\<lambda>_. sent) m)) p = Some (pinged sent s)"
    using ping_due_lookup [OF assms(2,1,3), of now "\<lambda>_. now"] assms by (simp add: needs_ping_def)
  then have "hm_get (health (silent_round (now, sent, check) m)) p =
      Some (check_timeout (hm_config m) check (pinged sent s))"
    using assms(1,2) by (simp add: silent_round_simp check_health hm_get_map_values)
  then show ?thesis
    using assms(7) by (simp add: check_timeout_def pinged_def Let_def)
qed

lemma silent_round_ok:
  assumes "monitor_ok m" "hb_enabled (hm_config m)"
  shows "monitor_ok (silent_round r m) \<and> hm_config (silent_round r m) = hm_config m"
proof -
  obtain now sent check where r: "r = (now, sent, check)"
    by (cases r)
  let ?m = "ping_due now (\<lambda>_. now) (\<lambda>_. sent) m"
  have "monitor_ok ?m"
    using monitor_step_ok [OF assms(1), of "PingDue now (\<lambda>_. now) (\<lambda>_. sent)"] by simp
  moreover have c: "hm_config ?m = hm_config m"
    using assms(1) by (simp add: monitor_ok_def)
  moreover have "hm_config (silent_round r m) = hm_config m"
    using assms(2) c by (simp add: r silent_round_simp check_health)
  ultimately show ?thesis
    using check_ok [of ?m "\<lambda>_. check"] by (simp add: r silent_round_simp prod_eq_iff)
qed

lemma silent_rounds_missed:
  assumes "monitor_ok m" "hb_enabled (hm_config m)" "hm_get (health m) p = Some s" "pending_ping s = None"
    and "unat (missed_heartbeats s) + length rs \<le> unat (dead_threshold (hm_config m))"
    and "\<forall>(now, sent, check)\<in>set rs.
      hb_interval (hm_config m) \<le> now - last_response s \<and> hb_interval (hm_config m) \<le> check - sent"
  shows "\<exists>s'. hm_get (health (fold silent_round rs m)) p = Some s' \<and> monitor_ok (fold silent_round rs m) \<and>
    unat (missed_heartbeats s') = unat (missed_heartbeats s) + length rs \<and> hm_config (fold silent_round rs m) = hm_config m"
  using assms
proof (induction rs arbitrary: m s)
  case (Cons r rs)
  obtain now sent check where r: "r = (now, sent, check)"
    by (cases r)
  let ?m = "silent_round r m"
  have ok: "monitor_ok ?m" "hm_config ?m = hm_config m"
    using silent_round_ok Cons.prems(1,2) by simp_all
  have lt: "missed_heartbeats s < dead_threshold (hm_config m)"
    using Cons.prems(5) by (simp add: word_less_nat_alt)
  have alive: "conn_state s \<noteq> Dead"
    using Cons.prems(1,3) lt by (auto simp: monitor_ok_def peer_ok_def)
  have wf: "hm_wf (health m)"
    using Cons.prems(1) by (simp add: monitor_ok_def)
  obtain s' where s': "hm_get (health ?m) p = Some s'" "missed_heartbeats s' = missed_heartbeats s + 1"
      "pending_ping s' = None" "last_response s' = last_response s"
    using silent_peer_missed [OF Cons.prems(2) wf Cons.prems(3,4) alive, of now check sent] Cons.prems(6) by (auto simp: r)
  have "unat (missed_heartbeats s) + 1 < 4294967296"
    using Cons.prems(5) unat_u32_bound [of "dead_threshold (hm_config m)"] unfolding list.size by linarith
  then have u: "unat (missed_heartbeats s') = Suc (unat (missed_heartbeats s))"
    by (simp add: s'(2) unat_word_ariths)
  show ?case
    using Cons.IH [OF ok(1) _ s'(1,3)] Cons.prems(2,5,6) by (auto simp: ok(2) u s'(4))
qed auto

text \<open>
  A peer that never answers: it is dead after as many rounds as the threshold says, and
  not before.
\<close>

lemma silent_peer_dies:
  assumes "monitor_ok m" "hb_enabled (hm_config m)" "hm_get (health m) p = Some s" "pending_ping s = None"
    and "missed_heartbeats s = 0" "length rs \<le> unat (dead_threshold (hm_config m))"
    and "\<forall>(now, sent, check)\<in>set rs.
      hb_interval (hm_config m) \<le> now - last_response s \<and> hb_interval (hm_config m) \<le> check - sent"
  shows "p \<in> set (dead_peers (fold silent_round rs m)) \<longleftrightarrow> length rs = unat (dead_threshold (hm_config m))"
proof -
  let ?m = "fold silent_round rs m"
  obtain s' where s': "hm_get (health ?m) p = Some s'" "monitor_ok ?m"
      "unat (missed_heartbeats s') = length rs" "hm_config ?m = hm_config m"
    using silent_rounds_missed [OF assms(1-4) _ assms(7)] assms(5,6) by auto
  then have "conn_state s' = Dead \<longleftrightarrow> unat (dead_threshold (hm_config m)) \<le> length rs"
    by (auto simp: monitor_ok_def peer_ok_def word_le_nat_alt)
  then show ?thesis
    using s' assms(6) by (auto simp: dead_shown shown_def)
qed

text \<open>A pong with another sequence number drops the pending ping, so that its timeout is not counted.\<close>

lemma late_pong_drops_ping:
  assumes "hm_get (health m) p = Some s" "pending_ping s = Some (t, n)" "seq \<noteq> n"
  shows "hm_get (health (record_pong_received now now' p seq m)) p = Some (s\<lparr>pending_ping := None\<rparr>) \<and>
    missed_heartbeats (check_timeout cfg check (s\<lparr>pending_ping := None\<rparr>)) = missed_heartbeats s"
  using assms by (simp add: record_pong_received_def take_pong_def check_timeout_def Let_def)

section \<open>Reconnection attempts\<close>

text \<open>
  A peer whose retries are used up stays in the queue and stays due: the next attempt is
  not moved and the entry is not removed.
\<close>

lemma exhausted_peer_stays_due:
  assumes "hm_wf (pending rm)" "hm_get (pending rm) p = Some s" "next_attempt s \<le> now"
    and "\<not> reconnect_should_retry (attempts s + 1) (rm_policy rm)"
  shows "\<exists>rm'. reconnect_failed pw now p e rm = Inr (False, rm') \<and> p \<in> set (due_reconnections now rm') \<and>
    rm_policy rm' = rm_policy rm"
proof -
  let ?s = "s\<lparr>attempts := attempts s + 1, last_error := Some e\<rparr>"
  let ?rm = "rm\<lparr>pending := hm_insert p ?s (pending rm)\<rparr>"
  have "(p, ?s) \<in> set (pending ?rm)"
    using hm_get_in_set [of "pending ?rm" p ?s] assms(1) by simp
  then have "p \<in> set (due_reconnections now ?rm)"
    using assms(3) by (force simp: due_reconnections_def)
  then show ?thesis
    using assms(2,4) by (simp add: reconnect_failed_def)
qed

lemma failed_peer_not_due:
  assumes "hm_wf (pending rm)" "reconnect_failed pw now p e rm = Inr (True, rm')"
    and "calculate_delay pw (attempts s + 1) (rm_policy rm) = Inr d" "hm_get (pending rm) p = Some s" "now' < now + d"
  shows "p \<notin> set (due_reconnections now' rm')"
proof -
  have rm': "rm' = rm\<lparr>pending := hm_insert p (s\<lparr>attempts := attempts s + 1, last_error := Some e, next_attempt := now + d\<rparr>)
      (pending rm)\<rparr>"
    using assms(2-4) by (auto simp: reconnect_failed_def Let_def split: if_splits)
  have "next_attempt v = now + d" if "(p, v) \<in> set (pending rm')" for v
    using iffD2 [OF hm_get_in_set that] assms(1) by (auto simp: rm')
  then show ?thesis
    using assms(5) by (fastforce simp: due_reconnections_def)
qed


lemma sint_small:
  assumes "unat n < 2 ^ 31"
  shows "sint (n :: u32) = int (unat n)"
proof -
  have u: "uint n = int (unat n)"
    by simp
  have "int (unat n) < 2 ^ 31"
    using assms by (metis of_nat_less_iff of_nat_numeral of_nat_power)
  moreover have "- (2 ^ 31) \<le> int (unat n)"
    using of_nat_0_le_iff [of "unat n", where 'a = int] by (rule order_trans [rotated]) simp
  ultimately have "signed_take_bit 31 (uint n) = uint n"
    unfolding u by (intro signed_take_bit_int_eq_self)
  then show ?thesis
    unfolding u [symmetric] sint_uint by simp
qed

text \<open>The jitter over the rationals: a hash of the attempt, scaled to the window from 0.8 to 1.2.\<close>

definition hash_fraction :: "u32 \<Rightarrow> rat" where
  "hash_fraction k = of_nat (unat (k * 2654435761)) / 4294967295"

definition backoff_jitter :: "u32 \<Rightarrow> rat" where
  "backoff_jitter k = 8 / 10 + 4 / 10 * hash_fraction k"

lemma hash_fraction_unit: "0 \<le> hash_fraction k" "hash_fraction k \<le> 1"
proof -
  let ?h = "unat (k * 2654435761)"
  have "?h \<le> 4294967295"
    using unat_u32_bound [of "k * 2654435761"] by linarith
  then have "(of_nat ?h :: rat) \<le> of_nat 4294967295" "(0 :: rat) \<le> of_nat ?h"
    by (simp_all only: of_nat_le_iff of_nat_0_le_iff)
  then show "0 \<le> hash_fraction k" "hash_fraction k \<le> 1"
    by (simp_all add: hash_fraction_def)
qed

lemma f64_near:
  assumes "0 \<le> q" "q < 2"
  shows "\<exists>z. fround F64 q = Fin z \<and> 0 \<le> z \<and> q - 2 / 10 ^ 16 \<le> z \<and> z \<le> q + 2 / 10 ^ 16"
proof -
  have "2 powi (1 - 54) \<le> (2 / 10 ^ 16 :: rat)"
    by (simp add: power_int_def power_divide)
  moreover have "q < 2 powi 1"
    using assms by simp
  from fround_near [OF assms(1) this] obtain z
    where "fround F64 q = Fin z" "0 \<le> z" "\<bar>z - q\<bar> \<le> 2 powi (1 - 54)"
    by auto
  ultimately show ?thesis
    by (intro exI [of _ z]) linarith
qed

lemma pseudo_random_near:
  "\<exists>z. pseudo_random k = Fin z \<and> 0 \<le> z \<and> z \<le> 1 \<and>
     hash_fraction k - 2 / 10 ^ 16 \<le> z \<and> z \<le> hash_fraction k + 2 / 10 ^ 16"
proof -
  let ?h = "unat (k * 2654435761)"
  have h: "?h \<le> 4294967295"
    using unat_u32_bound [of "k * 2654435761"] by linarith
  have "fround F64 (of_nat ?h) = Fin (of_nat ?h)" "fround F64 (of_nat (unat (- 1 :: u32))) = Fin 4294967295"
    using f64_nat [of ?h] f64_nat [of 4294967295] h by (simp_all add: unsigned_minus_1_eq_mask mask_eq_exp_minus_1)
  then have "pseudo_random k = fround F64 (hash_fraction k)"
    unfolding pseudo_random_def hash_fraction_def by (simp add: fdiv_def)
  moreover have "between 0 1 (fround F64 (hash_fraction k))"
    using hash_fraction_unit [of k] by (intro fround_between) simp_all
  ultimately show ?thesis
    using f64_near [of "hash_fraction k"] hash_fraction_unit [of k] by (auto simp: between_def)
qed

definition default_factor :: "u32 \<Rightarrow> float" where
  "default_factor k = fadd F64 (fsub F64 (f64 1) (f64 (2 / 10))) (fmul F64 (fmul F64 (f64 (2 / 10)) (f64 2)) (pseudo_random k))"

lemma factor_error:
  assumes "4 / 10 - 6 / 10 ^ 16 \<le> x" "x \<le> 4 / 10 + 6 / 10 ^ 16" "0 \<le> p" "p \<le> (1 :: rat)"
    and "q - 2 / 10 ^ 16 \<le> p" "p \<le> q + 2 / 10 ^ 16"
  shows "4 / 10 * q - 7 / 10 ^ 16 \<le> x * p" "x * p \<le> 4 / 10 * q + 7 / 10 ^ 16"
proof -
  have "x * p = 4 / 10 * p + (x - 4 / 10) * p"
    by (simp add: algebra_simps)
  moreover have "\<bar>x - 4 / 10\<bar> \<le> 6 / 10 ^ 16" "\<bar>p\<bar> \<le> 1"
    using assms(1-4) by linarith+
  then have "\<bar>x - 4 / 10\<bar> * \<bar>p\<bar> \<le> 6 / 10 ^ 16 * 1"
    by (intro mult_mono) simp_all
  then have "\<bar>(x - 4 / 10) * p\<bar> \<le> 6 / 10 ^ 16"
    by (simp only: abs_mult mult_1_right)
  ultimately have "4 / 10 * p - 6 / 10 ^ 16 \<le> x * p" "x * p \<le> 4 / 10 * p + 6 / 10 ^ 16"
    by linarith+
  then show "4 / 10 * q - 7 / 10 ^ 16 \<le> x * p" "x * p \<le> 4 / 10 * q + 7 / 10 ^ 16"
    using assms(5,6) by simp_all
qed

lemma default_factor_near:
  "\<exists>z. default_factor k = Fin z \<and> backoff_jitter k - 2 / 10 ^ 15 \<le> z \<and> z \<le> backoff_jitter k + 2 / 10 ^ 15"
proof -
  let ?e = "1 / 10 ^ 16 :: rat" and ?q = "hash_fraction k"
  have near: "\<exists>z. fround F64 q = Fin z \<and> 0 \<le> z \<and> q - 2 * ?e \<le> z \<and> z \<le> q + 2 * ?e" if "0 \<le> q" "q < 2" for q
    using f64_near [OF that] by simp
  have e: "?e \<le> 1 / 100" "0 < ?e"
    by simp_all
  obtain p where p: "pseudo_random k = Fin p" "0 \<le> p" "p \<le> 1" "?q - 2 * ?e \<le> p" "p \<le> ?q + 2 * ?e"
    using pseudo_random_near [of k] by auto
  obtain j where j: "f64 (2 / 10) = Fin j" "2 / 10 - 2 * ?e \<le> j" "j \<le> 2 / 10 + 2 * ?e"
    using near [of "2 / 10"] by (auto simp: f64_def)
  obtain a where a: "fround F64 (1 - j) = Fin a" "1 - j - 2 * ?e \<le> a" "a \<le> 1 - j + 2 * ?e"
  proof -
    have "0 \<le> 1 - j" "1 - j < 2"
      using j(2,3) e by linarith+
    then show ?thesis
      using near that by blast
  qed
  obtain x where x: "fround F64 (j * 2) = Fin x" "j * 2 - 2 * ?e \<le> x" "x \<le> j * 2 + 2 * ?e"
  proof -
    have "0 \<le> j * 2" "j * 2 < 2"
      using j(2,3) e by linarith+
    then show ?thesis
      using near that by blast
  qed
  have "4 / 10 - 6 * ?e \<le> x" "x \<le> 4 / 10 + 6 * ?e"
    using x(2,3) j(2,3) by linarith+
  then have xp: "4 / 10 * ?q - 7 * ?e \<le> x * p" "x * p \<le> 4 / 10 * ?q + 7 * ?e" "0 \<le> x * p"
    using factor_error [of x p ?q] p(2-5) by simp_all
  obtain t where t: "fround F64 (x * p) = Fin t" "0 \<le> t" "x * p - 2 * ?e \<le> t" "t \<le> x * p + 2 * ?e"
  proof -
    have "x * p < 2"
      using hash_fraction_unit [of k] xp e by linarith
    then show ?thesis
      using near xp(3) that by blast
  qed
  obtain z where z: "fround F64 (a + t) = Fin z" "a + t - 2 * ?e \<le> z" "z \<le> a + t + 2 * ?e"
  proof -
    have "0 \<le> a + t" "a + t < 2"
      using hash_fraction_unit [of k] a(2,3) t(2-4) xp j(2,3) e by linarith+
    then show ?thesis
      using near that by blast
  qed
  have "f64 1 = Fin 1" "f64 2 = Fin 2"
    using f64_int [of 1] f64_int [of 2] by simp_all
  moreover have "f64 (1 / 5) = Fin j"
    using j(1) by simp
  ultimately have "default_factor k = Fin z"
    by (simp add: default_factor_def p(1) fsub_def fneg_def fadd_def fmul_def a(1) x(1) t(1) z(1))
  moreover have "backoff_jitter k - 20 * ?e \<le> z" "z \<le> backoff_jitter k + 20 * ?e"
    using z(2,3) a(2,3) t(2-4) xp j(2,3) e unfolding backoff_jitter_def by linarith+
  ultimately show ?thesis
    by simp
qed

lemma backoff_jitter_window: "8 / 10 \<le> backoff_jitter k" "backoff_jitter k \<le> 12 / 10"
  using hash_fraction_unit [of k] by (simp_all add: backoff_jitter_def)

text \<open>From the errors in seconds to whole nanoseconds.\<close>

lemma delay_nanoseconds:
  assumes "(g - 2 / 10 ^ 15) * b \<le> w" "w \<le> (g + 2 / 10 ^ 15) * b"
    and "y - w \<le> 1 / 10 ^ 12" "w - y \<le> 1 / 10 ^ 12" "b \<le> (60 :: rat)"
  shows "10 ^ 9 * (b * g) - 1 / 2 < y * 10 ^ 9" "y * 10 ^ 9 < 10 ^ 9 * (b * g) + 1 / 2"
proof -
  have "b * g - 12 / 10 ^ 14 \<le> w" "w \<le> b * g + 12 / 10 ^ 14"
    using assms by (simp_all add: algebra_simps)
  then show "10 ^ 9 * (b * g) - 1 / 2 < y * 10 ^ 9" "y * 10 ^ 9 < 10 ^ 9 * (b * g) + 1 / 2"
    using assms(3,4) by simp_all
qed

lemma default_delay:
  assumes "pw (f64 2) (sint n) = Fin (of_nat c)" "0 < c" "c < 2 ^ 31"
  shows "\<exists>d. calculate_delay pw n reconnection_default = Inr d \<and>
    800000000 * min c 60 \<le> d \<and> d \<le> 1200000000 * min c 60 \<and>
    \<bar>of_nat d - 10 ^ 9 * (of_nat (min c 60) * backoff_jitter n)\<bar> \<le> 1"
proof -
  define b where "b = min c 60"
  let ?g = "backoff_jitter n"
  obtain z where z: "default_factor n = Fin z" "?g - 2 / 10 ^ 15 \<le> z" "z \<le> ?g + 2 / 10 ^ 15"
    using default_factor_near by blast
  have bs: "as_secs_f64 1000000000 = Fin 1" "as_secs_f64 60000000000 = Fin 60"
    using as_secs_f64_whole [of 1] as_secs_f64_whole [of 60] by simp_all
  have "fround F64 (of_nat c) = Fin (of_nat c)"
    using f64_nat [of c] assms(3) by simp
  moreover have "fmin (Fin (of_nat c)) (Fin 60) = Fin (of_nat b)"
    by (auto simp: fmin_def b_def min_def)
  ultimately have delay: "calculate_delay pw n reconnection_default = from_secs_f64 (fmax (fround F64 (of_nat b * z)) (Fin 0))"
    using z(1) f64_int [of 0]
    by (simp add: calculate_delay_def reconnection_default_def default_factor_def bs assms(1) fmul_def Let_def)
  have b: "1 \<le> (of_nat b :: rat)" "(of_nat b :: rat) \<le> 60"
    using assms(2) by (auto simp: b_def)
  have bz: "(?g - 2 / 10 ^ 15) * of_nat b \<le> of_nat b * z" "of_nat b * z \<le> (?g + 2 / 10 ^ 15) * of_nat b"
    using z(2,3) b mult_left_mono [of "?g - 2 / 10 ^ 15" z "of_nat b"] mult_left_mono [of z "?g + 2 / 10 ^ 15" "of_nat b"]
    by (simp_all only: mult.commute)
  have z12: "0 \<le> z" "z \<le> 13 / 10"
    using z(2,3) backoff_jitter_window [of n] by simp_all
  have "(0 :: rat) \<le> of_nat b * z" "of_nat b * z < 2 powi 7"
  proof -
    have "of_nat b * z \<le> 60 * (13 / 10 :: rat)"
      using b z12 by (intro mult_mono) simp_all
    then show "(0 :: rat) \<le> of_nat b * z" "of_nat b * z < 2 powi 7"
      using z12(1) by simp_all
  qed
  then obtain y where y: "fround F64 (of_nat b * z) = Fin y" "0 \<le> y" "\<bar>y - of_nat b * z\<bar> \<le> 2 powi (7 - 54)"
    using fround_near [of "of_nat b * z" 7] by auto
  have p47: "(2 :: rat) powi (7 - 54) \<le> 1 / 10 ^ 12"
    by (simp add: power_int_def power_divide)
  have near: "y - of_nat b * z \<le> 1 / 10 ^ 12" "of_nat b * z - y \<le> 1 / 10 ^ 12"
    using y(3) p47 by linarith+
  note close = delay_nanoseconds [OF bz near b(2)]
  have "of_nat b * (8 / 10) \<le> of_nat b * ?g" "of_nat b * ?g \<le> of_nat b * (12 / 10)"
    using backoff_jitter_window [of n] by (intro mult_left_mono; simp)+
  then have ns: "of_int (800000000 * int b) - 1 / 2 < y * 10 ^ 9" "y * 10 ^ 9 < of_int (1200000000 * int b) + 1 / 2"
    using close by simp_all
  have lo: "800000000 * int b \<le> round_even (y * 10 ^ 9)" and hi: "round_even (y * 10 ^ 9) \<le> 1200000000 * int b"
    using round_even_within [OF ns] by simp_all
  have "b \<le> 60"
    by (simp add: b_def)
  then have "round_even (y * 10 ^ 9) < 2 ^ 64 * 10 ^ 9" "fmax (Fin y) (Fin 0) = Fin y"
    using hi y(2) by (simp_all add: fmax_def)
  then have "calculate_delay pw n reconnection_default = Inr (nat (round_even (y * 10 ^ 9)))"
    using y(2) by (simp add: delay y(1) from_secs_f64_def)
  moreover have "\<bar>of_int (round_even (y * 10 ^ 9)) - 10 ^ 9 * (of_nat b * ?g)\<bar> \<le> 1"
    using round_even_bounds [of "y * 10 ^ 9"] close by linarith
  moreover have "(of_nat (nat (round_even (y * 10 ^ 9))) :: rat) = of_int (round_even (y * 10 ^ 9))"
    using lo by simp
  ultimately show ?thesis
    using lo hi by (simp add: b_def [symmetric] nat_le_iff le_nat_iff)
qed

text \<open>The delays after six, eight and nine failures: about 65.0, 70.7 and 61.5 seconds.\<close>

lemma jitter_above_cap:
  assumes "n \<in> {6, 8, 9}"
  shows "102 / 100 < backoff_jitter n" "min (2 ^ unat n) 60 = (60 :: nat)"
  using assms by (auto simp: backoff_jitter_def hash_fraction_def)

text \<open>
  C36.  Backoff under the default policy, with a power function that is exact on small
  powers of two.  A failed attempt is counted.  While fewer than ten have failed, the next
  attempt is after two to the power of the failures in seconds, at most sixty, times a
  factor between 0.8 and 1.2 that is a fixed hash of the number of failures: the time is
  within a nanosecond of that product.  The factor is applied after the cap, so the cap
  does not bound the delay: after six, eight and nine failures it is more than the sixty
  seconds that the policy calls its maximal delay.  From the tenth failure on the caller is
  told that there will be no further attempt, but the peer stays in the queue with the time
  of its last attempt, and so is due at once.
\<close>

theorem reconnection_backoff:
  assumes exact: "\<And>k. k < 10 \<Longrightarrow> pw (f64 2) (int k) = Fin (of_nat (2 ^ k))"
    and rm: "hm_wf (pending rm)" "hm_get (pending rm) p = Some s" "rm_policy rm = reconnection_default"
    and due: "next_attempt s \<le> now"
  shows "\<exists>again rm' s'. reconnect_failed pw now p e rm = Inr (again, rm') \<and>
    hm_get (pending rm') p = Some s' \<and> attempts s' = attempts s + 1 \<and>
    (again \<longleftrightarrow> attempts s' < 10) \<and>
    (if again
     then now + 800000000 * min (2 ^ unat (attempts s')) 60 \<le> next_attempt s' \<and>
          next_attempt s' \<le> now + 1200000000 * min (2 ^ unat (attempts s')) 60 \<and>
          \<bar>of_nat (next_attempt s') - of_nat now -
            10 ^ 9 * (of_nat (min (2 ^ unat (attempts s')) 60) * backoff_jitter (attempts s'))\<bar> \<le> 1 \<and>
          (attempts s' \<in> {6, 8, 9} \<longrightarrow> now + rp_max_delay (rm_policy rm) < next_attempt s')
     else p \<in> set (due_reconnections now rm'))"
proof (cases "attempts s + 1 < 10")
  case True
  let ?n = "attempts s + 1"
  have n: "unat ?n < 10"
    using True by (simp add: word_less_nat_alt)
  have "sint ?n = int (unat ?n)"
    by (rule sint_small) (use n in simp)
  then have "pw (f64 2) (sint ?n) = Fin (of_nat (2 ^ unat ?n))"
    using exact [OF n] by simp
  moreover have "(2 :: nat) ^ unat ?n < 2 ^ 31"
    using n by (intro power_strict_increasing) simp_all
  ultimately obtain d where d: "calculate_delay pw ?n reconnection_default = Inr d"
      "800000000 * min (2 ^ unat ?n) 60 \<le> d" "d \<le> 1200000000 * min (2 ^ unat ?n) 60"
      "\<bar>of_nat d - 10 ^ 9 * (of_nat (min (2 ^ unat ?n) 60) * backoff_jitter ?n)\<bar> \<le> 1"
    using default_delay [of pw ?n "2 ^ unat ?n"] by auto
  have long: "60 * 10 ^ 9 < d" if "?n \<in> {6, 8, 9}"
  proof -
    have "(of_nat (60 * 10 ^ 9) :: rat) < of_nat d"
      using d(4) jitter_above_cap(1) [OF that] unfolding jitter_above_cap(2) [OF that] by simp
    then show ?thesis
      by (simp only: of_nat_less_iff)
  qed
  have again: "reconnect_should_retry ?n (rm_policy rm)" and cap: "rp_max_delay (rm_policy rm) = 60 * 10 ^ 9"
    using True by (simp_all add: rm(3) reconnect_should_retry_def reconnection_default_def)
  define s' where "s' = s\<lparr>attempts := ?n, last_error := Some e, next_attempt := now + d\<rparr>"
  have s': "attempts s' = ?n" "next_attempt s' = now + d"
    by (simp_all add: s'_def)
  have "reconnect_failed pw now p e rm = Inr (True, rm\<lparr>pending := hm_insert p s' (pending rm)\<rparr>)"
    using rm(2) again d(1) by (simp add: reconnect_failed_def Let_def s'_def rm(3))
  then show ?thesis
    using True d(2-4) long unfolding cap
    by (intro exI [of _ True] exI [of _ "rm\<lparr>pending := hm_insert p s' (pending rm)\<rparr>"] exI [of _ s'])
      (simp only: if_True s' hm_get_insert, simp)
next
  case False
  then have "\<not> reconnect_should_retry (attempts s + 1) (rm_policy rm)"
    by (simp add: rm(3) reconnect_should_retry_def reconnection_default_def)
  from exhausted_peer_stays_due [OF rm(1,2) due this, of pw e] False show ?thesis
    using rm(2,3) by (auto simp: reconnect_failed_def reconnect_should_retry_def reconnection_default_def Let_def)
qed

definition exact_power :: "float \<Rightarrow> int \<Rightarrow> float" where
  "exact_power x k = (case x of Fin a \<Rightarrow> fround F64 (a powi k) | _ \<Rightarrow> NaN)"

theorem reconnection_backoff_witness:
  "\<exists>rm'. reconnect_failed exact_power (10 ^ 9) ''a'' ''refused''
     (schedule_reconnect 0 ''a'' True (reconnection_manager_new reconnection_default)) = Inr (True, rm')"
proof -
  let ?rm = "schedule_reconnect 0 ''a'' True (reconnection_manager_new reconnection_default)"
  have "exact_power (f64 2) (int k) = Fin (of_nat (2 ^ k))" if k: "k < 10" for k
  proof -
    have "(2 :: nat) ^ k < 2 ^ 53"
      using k by (intro power_strict_increasing) simp_all
    then show ?thesis
      using f64_nat [of "2 ^ k"] f64_int [of 2] by (simp add: exact_power_def)
  qed
  moreover have "hm_wf (pending ?rm)" "rm_policy ?rm = reconnection_default"
      "hm_get (pending ?rm) ''a'' = Some \<lparr>attempts = 0, next_attempt = 10 ^ 9, last_error = None, is_static_peer = True\<rparr>"
    by (simp_all add: schedule_reconnect_def reconnection_manager_new_def reconnection_default_def hm_contains_def hm_wf_def)
  ultimately show ?thesis
    using reconnection_backoff [of exact_power ?rm "''a''" _ "10 ^ 9" "''refused''"] by fastforce
qed

end
