(* ===== verification/Spec2Isabelle.thy ===== *)
theory Spec2Isabelle
  imports Tombstone_Wire Routing Policies Sync_Wire Garbage_Collection Automerge_Store
    Keyed_State Circuit_Breaker Flow_Control Partition_Detection Ttl_Manager
    Sync_Coordinator Coordinator_Proofs
    Identity Certificate Enrollment Formation Membership Encryption
    Bypass Transport_Types Lite_Wire Lite_Transport Lite_Ota Floats Retention
    Qos_Storage Eviction Preemption Bandwidth Health
begin

text \<open>
  A verification development for peat-mesh, a library with which nodes of a mesh find
  each other, prove who they are, replicate documents (Automerge CRDTs) and deletions,
  and carry small messages over constrained links.  Paths are those of the repository,
  below \<^verbatim>\<open>src/src\<close>; the theories write them from \<^verbatim>\<open>src/\<close> on.

  \<^bold>\<open>The parts and how they interact.\<close>  A node starts from a genesis or from shared
  credentials, enrols with an authority and holds a bundle of certificates.  Discovery
  announces peers; the connector admits them to the formation, and the connection gate
  and the accept handler let only members with the formation key start a sync.  The sync
  coordinator then exchanges documents and tombstones with its peers: it frames messages,
  asks the circuit breaker and flow control before it sends, guards every received
  document by the tombstones of the store, and routes deletions on.  The store keeps
  documents and tombstones in a database behind a cache.  Garbage collection, expiry and
  eviction remove documents under the policies of their collection and class.  Packets of
  the hierarchy are routed by the selective router.  Beside this, a bypass channel sends
  single datagrams, and the Lite transport serves small devices and updates their
  firmware.

  \<^bold>\<open>Theories, sources and what their lemmas show.\<close>

  \<^item> Prelude: integers, results with panics, UTF-8, byte readers and writers, hash maps, the
    width and the memory of the machine; the locales \<open>wire_codec\<close> and \<open>canonical_codec\<close>, or
    \<open>bounded_codec\<close> and \<open>bounded_canonical\<close> where the machine matters, which every codec below
    interprets: what is written is read back, and only what is written is read.

  \<^item> Floats: \<^verbatim>\<open>f32\<close> and \<^verbatim>\<open>f64\<close> with rounding to the nearest number; rounding is monotone and
    exact on the numbers of the format.

  \<^item> Keyed_State: state kept per key, and refinement of machines, with and without outputs
    (locales \<open>machine_refinement\<close>, \<open>output_refinement\<close>).

  \<^item> Policies (\<^verbatim>\<open>qos/mod.rs\<close>, \<^verbatim>\<open>qos/deletion.rs\<close>, \<^verbatim>\<open>qos/sync_mode.rs\<close>): classes, deletion policies,
    sync modes; a registry answers the last write (locale \<open>registry\<close>).

  \<^item> Tombstone_Wire (\<^verbatim>\<open>qos/deletion.rs\<close>), Sync_Wire (\<^verbatim>\<open>storage/automerge_sync.rs\<close>): the formats
    of tombstones, batches and frames; round trips, canonicity, and on which
    bytes the decoders panic: never but for memory that is refused, and on 32 bits for
    lengths that wrap.

  \<^item> Garbage_Collection (\<^verbatim>\<open>qos/garbage_collection.rs\<close>), Automerge_Store
    (\<^verbatim>\<open>storage/automerge_store.rs\<close>): the store is a map; the collector, proved over the locale
    \<open>gc_store_laws\<close> and interpreted on the store, removes only what is due.

  \<^item> Ttl_Manager (\<^verbatim>\<open>storage/ttl.rs\<close>, \<^verbatim>\<open>storage/ttl_manager.rs\<close>): a clean-up deletes exactly what is
    due.

  \<^item> Retention (\<^verbatim>\<open>qos/retention.rs\<close>, \<^verbatim>\<open>qos/lifecycle.rs\<close>): the two eviction decisions agree but at
    the limits.

  \<^item> Qos_Storage, Eviction (\<^verbatim>\<open>qos/storage.rs\<close>, \<^verbatim>\<open>qos/audit.rs\<close>, \<^verbatim>\<open>qos/eviction.rs\<close>,
    \<^verbatim>\<open>qos/eviction_service.rs\<close>): the order of candidates in spite of rounding, exact accounting,
    what a cycle may delete (locale \<open>local_callback\<close>, which the document store provides) and
    what it frees.

  \<^item> Preemption (\<^verbatim>\<open>qos/preemption.rs\<close>), Bandwidth (\<^verbatim>\<open>qos/bandwidth.rs\<close>): pausing and resuming,
    the drift of the count, the bound on a burst.

  \<^item> Circuit_Breaker (\<^verbatim>\<open>storage/sync_errors.rs\<close>), Flow_Control (\<^verbatim>\<open>storage/flow_control.rs\<close>),
    Partition_Detection (\<^verbatim>\<open>storage/partition_detection.rs\<close>): refinement of one abstract breaker
    per peer, the rate of a bucket, the bounded queue, the events of a detector.

  \<^item> Sync_Coordinator, Coordinator_Proofs (\<^verbatim>\<open>storage/automerge_sync.rs\<close>): the coordinator and its
    properties over sequences of calls: on disk no deleted document comes back and
    tombstones are sent on once, a failed sync can be retried.

  \<^item> Routing (\<^verbatim>\<open>routing/\<close>): the decision of the router on every branch, deduplication, the
    aggregation buffer.

  \<^item> Identity, Certificate, Enrollment, Formation, Membership, Encryption (\<^verbatim>\<open>security/\<close>,
    \<^verbatim>\<open>storage/mesh_sync_transport.rs\<close>, \<^verbatim>\<open>peer_connector.rs\<close>, the index of
    \<^verbatim>\<open>storage/iroh_blob_store.rs\<close>): formats, the chain of trust of a bundle, enrolment from
    request to admission, the handshake as two functions on each other's output, the gate
    that follows discovery, channels and group keys.

  \<^item> Transport_Types, Bypass, Lite_Wire, Lite_Transport, Lite_Ota (\<^verbatim>\<open>transport/\<close>): the replay
    window against a set-based reference, delivery of datagrams, CRDT payloads through
    documents, the peer table and its events, firmware transfer and its failures.


  \<^item> Health (\<^verbatim>\<open>transport/health.rs\<close>, \<^verbatim>\<open>transport/reconnection.rs\<close>): deaths of peers are reported
    once, a silent peer dies after as many rounds as configured, each
    reconnection delay with its rounding and its excess over the cap, and what happens when retries are used up.

  \<^bold>\<open>Conventions.\<close>  Machine integers are words of their width and wrap as in a release
  build; lengths are naturals, and where a peer chooses them the sums and allocations are
  those of a \<open>platform\<close>, an argument.  A panic is a value (\<open>Inl Panic\<close>), and so is the abort
  after a refused allocation.  Clock readings, random
  draws and what the network answers are arguments.  A lock or an atomic is plain state:
  each operation is one step, and properties over interleavings quantify over sequences of
  steps.  Code of other crates (cryptography, redb, lru, Automerge, serde, sockets) is a
  record of functions passed as an argument, with a predicate or a locale for the laws
  their documentation states, and a concrete instance (\<open>sample_\<dots>\<close>, \<open>reference_\<dots>\<close>) that
  satisfies them and on which the witnesses compute.  Presets, constants and small helpers
  are defined beside the operations that use them.

  \<^bold>\<open>Bounds and fuel.\<close>  No definition runs on fuel.  The loops of the program are structural
  recursions over the lists they walk; a background task is one turn of its loop, and
  its properties quantify over lists of turns.  The handshake is iterated four times,
  which is the number of messages it exchanges; a firmware session is bounded by its
  number of chunks and the five retries of each.

  \<^bold>\<open>Not modelled.\<close>
  \<^item> Network and process plumbing, which is calls into other crates: the HTTP broker
    (\<^verbatim>\<open>broker/\<close>), discovery (\<^verbatim>\<open>discovery/\<close>), the Bluetooth transport (\<^verbatim>\<open>transport/btle.rs\<close>), blob
    transfer (\<^verbatim>\<open>storage/streaming_transfer.rs\<close>, the transfer part of
    \<^verbatim>\<open>storage/iroh_blob_store.rs\<close>), set reconciliation (\<^verbatim>\<open>storage/negentropy_sync.rs\<close>), the node
    binary, but for the start of its connection gate, and the assembly of a node (\<^verbatim>\<open>mesh.rs\<close>, \<^verbatim>\<open>flat_mesh.rs\<close>).

  \<^item> Trait definitions and re-exports have no code (\<^verbatim>\<open>sync/traits.rs\<close>, \<^verbatim>\<open>storage/traits.rs\<close>,
    \<^verbatim>\<open>storage/mod.rs\<close>, \<^verbatim>\<open>lib.rs\<close>).

  \<^item> Distances on the sphere (\<^verbatim>\<open>beacon/types.rs\<close>, \<^verbatim>\<open>sync/types.rs\<close>) use trigonometric functions of
    the platform's mathematical library, whose results the language does not fix.

  \<^item> Left out for now, though nothing prevents a model: the choice among transports
    (\<^verbatim>\<open>transport/manager.rs\<close>, \<^verbatim>\<open>transport/capabilities.rs\<close>), the rest of \<^verbatim>\<open>topology/\<close>, \<^verbatim>\<open>hierarchy/\<close> and
    \<^verbatim>\<open>beacon/\<close>, geohashes (\<^verbatim>\<open>geohash.rs\<close>, \<^verbatim>\<open>storage/geohash_index.rs\<close>), the certificate store, callsigns,
    the in-memory backend (\<^verbatim>\<open>sync/in_memory.rs\<close>), queries (\<^verbatim>\<open>storage/query.rs\<close>), and forwarding
    and persistent channels of sync (\<^verbatim>\<open>storage/sync_forwarding.rs\<close>, \<^verbatim>\<open>storage/sync_persistence.rs\<close>).

  \<^item> Of the coordinator: the channel manager, heartbeats over live connections and the
    reconciliation path.  Of the store: compaction, change channels, typed collections.
\<close>

end
